(* ===== verification/Prelude.thy ===== *)
theory Prelude
  imports "HOL-Library.Char_ord" "HOL-Library.List_Lexorder" "HOL-Library.Product_Lexorder"
    "HOL-Library.Word"
begin

text \<open>
  Shared ground of the development: the collections of rules the component theories feed,
  Rust's fixed-width integers with their saturating and checked operations, and the
  \<^verbatim>\<open>BTreeMap\<close> of the standard library as a type of key-sorted association lists.

  A Rust string is the list of its UTF-8 bytes (\<^typ>\<open>string\<close>); its order, and that of a
  key pair, is the bytewise lexicographic one, which is the order \<^verbatim>\<open>BTreeMap\<close> uses.
\<close>

named_theorems run_simps \<open>how a transaction program executes against the rows\<close>
named_theorems keeps_intros \<open>rules that a transaction program keeps a property of the rows\<close>
named_theorems key_simps \<open>which keys of the row store differ\<close>
named_theorems op_defs \<open>definitions of the store operations\<close>

text \<open>Keys are pairs; quantifiers over them stay quantifiers over keys.\<close>

declare split_paired_All [simp del] split_paired_Ex [simp del]

section \<open>Fixed-width integers\<close>

text \<open>
  \<^verbatim>\<open>i64\<close> values are integers, \<^verbatim>\<open>u64\<close>, \<^verbatim>\<open>u32\<close> and \<^verbatim>\<open>usize\<close> values natural numbers; what the
  source does at the bounds is written out with the operations below.
\<close>

definition I64_MAX :: int where
  "I64_MAX = 9223372036854775807"

definition I64_MIN :: int where
  "I64_MIN = - 9223372036854775808"

definition U64_MAX :: nat where
  "U64_MAX = 18446744073709551615"

definition U32_MAX :: nat where
  "U32_MAX = 4294967295"

definition is_i64 :: "int \<Rightarrow> bool" where
  "is_i64 x \<longleftrightarrow> I64_MIN \<le> x \<and> x \<le> I64_MAX"

definition clamp_i64 :: "int \<Rightarrow> int" where
  "clamp_i64 x = max I64_MIN (min I64_MAX x)"

definition sat_add :: "int \<Rightarrow> int \<Rightarrow> int" where
  "sat_add a b = clamp_i64 (a + b)"

definition sat_sub :: "int \<Rightarrow> int \<Rightarrow> int" where
  "sat_sub a b = clamp_i64 (a - b)"

definition sat_add_u64 :: "nat \<Rightarrow> nat \<Rightarrow> nat" where
  "sat_add_u64 a b = min U64_MAX (a + b)"

definition sat_add_u32 :: "nat \<Rightarrow> nat \<Rightarrow> nat" where
  "sat_add_u32 a b = min U32_MAX (a + b)"

definition checked_add_u64 :: "nat \<Rightarrow> nat \<Rightarrow> nat option" where
  "checked_add_u64 a b = (if a + b \<le> U64_MAX then Some (a + b) else None)"

lemma is_i64_clamp [simp, intro]: "is_i64 (clamp_i64 x)"
  by (simp add: is_i64_def clamp_i64_def I64_MIN_def I64_MAX_def)

lemma is_i64_sat_add [simp, intro]: "is_i64 (sat_add a b)"
  by (simp add: sat_add_def)

lemma is_i64_sat_sub [simp, intro]: "is_i64 (sat_sub a b)"
  by (simp add: sat_sub_def)

lemma clamp_i64_id: "is_i64 x \<Longrightarrow> clamp_i64 x = x"
  by (simp add: is_i64_def clamp_i64_def)

lemma sat_add_mono: "0 \<le> b \<Longrightarrow> is_i64 a \<Longrightarrow> a \<le> sat_add a b"
  by (simp add: sat_add_def clamp_i64_def is_i64_def)

lemma sat_add_le: "0 \<le> a + b \<or> I64_MIN \<le> a + b \<Longrightarrow> sat_add a b \<le> a + b"
  by (auto simp: sat_add_def clamp_i64_def I64_MIN_def I64_MAX_def)

lemma sat_sub_le: "0 \<le> b \<Longrightarrow> is_i64 a \<Longrightarrow> sat_sub a b \<le> a"
  by (simp add: sat_sub_def clamp_i64_def is_i64_def)

lemma checked_add_u64_Some:
  "checked_add_u64 a b = Some c \<longleftrightarrow> c = a + b \<and> a + b \<le> U64_MAX"
  by (auto simp: checked_add_u64_def)

section \<open>Ordered maps\<close>

text \<open>
  \<^verbatim>\<open>BTreeMap<K, V>\<close>: the entries in strictly ascending key order. \<open>bt_entries\<close> is its
  iterator, \<open>bt_get\<close>, \<open>bt_insert\<close> and \<open>bt_remove\<close> its point operations.
\<close>

fun ins_entry :: "'k::linorder \<Rightarrow> 'v \<Rightarrow> ('k \<times> 'v) list \<Rightarrow> ('k \<times> 'v) list" where
  "ins_entry k v [] = [(k, v)]"
| "ins_entry k v ((l, w) # xs) =
     (if k < l then (k, v) # (l, w) # xs
      else if k = l then (k, v) # xs
      else (l, w) # ins_entry k v xs)"

definition del_entry :: "'k \<Rightarrow> ('k \<times> 'v) list \<Rightarrow> ('k \<times> 'v) list" where
  "del_entry k xs = filter (\<lambda>e. fst e \<noteq> k) xs"

lemma fst_set_ins_entry: "fst ` set (ins_entry k v xs) = insert k (fst ` set xs)"
  by (induction k v xs rule: ins_entry.induct) auto

lemma map_of_ins_entry [simp]: "map_of (ins_entry k v xs) = (map_of xs)(k \<mapsto> v)"
  by (induction k v xs rule: ins_entry.induct) (auto simp: fun_eq_iff)

lemma map_of_del_entry [simp]: "map_of (del_entry k xs) = (map_of xs)(k := None)"
  by (induction xs) (auto simp: del_entry_def fun_eq_iff)

lemma sorted_ins_entry:
  "sorted_wrt (<) (map fst xs) \<Longrightarrow> sorted_wrt (<) (map fst (ins_entry k v xs))"
proof (induction k v xs rule: ins_entry.induct)
  case (2 k v l w xs)
  have keys: "set (map fst (ins_entry k v xs)) = insert k (set (map fst xs))"
    using fst_set_ins_entry [of k v xs] by simp
  from 2 show ?case
    by (cases "k < l"; cases "k = l") (auto simp: keys simp del: set_map)
qed simp

lemma sorted_del_entry:
  "sorted_wrt (<) (map fst xs) \<Longrightarrow> sorted_wrt (<) (map fst (del_entry k xs))"
  by (induction xs) (auto simp: del_entry_def)

lemma sorted_entries_unique:
  fixes xs ys :: "('k::linorder \<times> 'v) list"
  assumes "sorted_wrt (<) (map fst xs)" and "sorted_wrt (<) (map fst ys)"
    and "map_of xs = map_of ys"
  shows "xs = ys"
proof (rule map_sorted_distinct_set_unique [where f = fst])
  have d: "distinct (map fst xs)" "distinct (map fst ys)"
    using assms(1,2) strict_sorted_iff by blast+
  show "set xs = set ys"
    using d assms(3) by (metis map_of_inject_set)
  show "inj_on fst (set xs \<union> set ys)"
    using d(1) \<open>set xs = set ys\<close> by (simp add: distinct_map)
qed (use assms(1,2) strict_sorted_iff distinct_map in blast)+

typedef (overloaded) ('k::linorder, 'v) btree =
  "{xs :: ('k \<times> 'v) list. sorted_wrt (<) (map fst xs)}"
  morphisms bt_entries Btree
  by (rule exI [of _ "[]"]) simp

setup_lifting type_definition_btree

lift_definition bt_empty :: "('k::linorder, 'v) btree" is "[]"
  by simp

lift_definition bt_insert :: "'k::linorder \<Rightarrow> 'v \<Rightarrow> ('k, 'v) btree \<Rightarrow> ('k, 'v) btree" is ins_entry
  by (rule sorted_ins_entry)

lift_definition bt_remove :: "'k::linorder \<Rightarrow> ('k, 'v) btree \<Rightarrow> ('k, 'v) btree" is del_entry
  by (rule sorted_del_entry)

definition bt_get :: "('k::linorder, 'v) btree \<Rightarrow> 'k \<Rightarrow> 'v option" where
  "bt_get t k = map_of (bt_entries t) k"

definition bt_keys :: "('k::linorder, 'v) btree \<Rightarrow> 'k list" where
  "bt_keys t = map fst (bt_entries t)"

definition bt_values :: "('k::linorder, 'v) btree \<Rightarrow> 'v list" where
  "bt_values t = map snd (bt_entries t)"

definition bt_has :: "('k::linorder, 'v) btree \<Rightarrow> 'k \<Rightarrow> bool" where
  "bt_has t k \<longleftrightarrow> bt_get t k \<noteq> None"

text \<open>\<^verbatim>\<open>entry(k).or_insert(v)\<close>: an existing entry stays.\<close>

definition bt_or_insert :: "'k::linorder \<Rightarrow> 'v \<Rightarrow> ('k, 'v) btree \<Rightarrow> ('k, 'v) btree" where
  "bt_or_insert k v t = (if bt_has t k then t else bt_insert k v t)"

definition bt_of_list :: "('k::linorder \<times> 'v) list \<Rightarrow> ('k, 'v) btree" where
  "bt_of_list xs = fold (\<lambda>(k, v) t. bt_insert k v t) xs bt_empty"

instantiation btree :: (linorder, equal) equal
begin

definition equal_btree :: "('a, 'b) btree \<Rightarrow> ('a, 'b) btree \<Rightarrow> bool" where
  "equal_btree s t \<longleftrightarrow> bt_entries s = bt_entries t"

instance
  by standard (simp add: equal_btree_def bt_entries_inject)

end

lemma bt_sorted [simp]: "sorted_wrt (<) (map fst (bt_entries t))"
  using bt_entries by auto

lemma bt_distinct [simp]: "distinct (map fst (bt_entries t))"
  using bt_sorted strict_sorted_iff by blast

lemma bt_get_empty [simp]: "bt_get bt_empty k = None"
  by (simp add: bt_get_def bt_empty.rep_eq)

lemma bt_get_insert [simp]: "bt_get (bt_insert k v t) l = (if l = k then Some v else bt_get t l)"
  by (simp add: bt_get_def bt_insert.rep_eq)

lemma bt_get_remove [simp]: "bt_get (bt_remove k t) l = (if l = k then None else bt_get t l)"
  by (simp add: bt_get_def bt_remove.rep_eq)

lemma bt_eqI: "(\<And>k. bt_get s k = bt_get t k) \<Longrightarrow> s = t"
  unfolding bt_get_def
  by (intro bt_entries_inject [THEN iffD1] sorted_entries_unique) auto

lemma bt_entries_empty [simp]: "bt_entries bt_empty = []"
  by (rule bt_empty.rep_eq)

lemma bt_get_iff_entry: "bt_get t k = Some v \<longleftrightarrow> (k, v) \<in> set (bt_entries t)"
  by (simp add: bt_get_def)

lemma bt_has_empty [simp]: "\<not> bt_has bt_empty k"
  by (simp add: bt_has_def)

lemma bt_has_insert [simp]: "bt_has (bt_insert k v t) l \<longleftrightarrow> l = k \<or> bt_has t l"
  by (simp add: bt_has_def)

lemma bt_has_remove [simp]: "bt_has (bt_remove k t) l \<longleftrightarrow> l \<noteq> k \<and> bt_has t l"
  by (simp add: bt_has_def)

lemma bt_insert_same [simp]: "bt_get t k = Some v \<Longrightarrow> bt_insert k v t = t"
  by (rule bt_eqI) simp

lemma bt_remove_absent [simp]: "bt_get t k = None \<Longrightarrow> bt_remove k t = t"
  by (rule bt_eqI) simp

lemma bt_insert_insert [simp]: "bt_insert k v (bt_insert k w t) = bt_insert k v t"
  by (rule bt_eqI) simp

lemma bt_has_iff_key: "bt_has t k \<longleftrightarrow> k \<in> set (bt_keys t)"
proof -
  have "bt_has t k \<longleftrightarrow> (\<exists>v. (k, v) \<in> set (bt_entries t))"
    unfolding bt_has_def by (auto simp: bt_get_iff_entry [symmetric])
  also have "\<dots> \<longleftrightarrow> k \<in> set (bt_keys t)"
    by (force simp: bt_keys_def)
  finally show ?thesis .
qed

lemma bt_value_iff: "v \<in> set (bt_values t) \<longleftrightarrow> (\<exists>k. bt_get t k = Some v)"
  by (force simp: bt_values_def bt_get_iff_entry)

lemma bt_get_or_insert: "bt_get (bt_or_insert k v t) l =
    (if l = k then Some (case bt_get t k of None \<Rightarrow> v | Some w \<Rightarrow> w) else bt_get t l)"
  by (auto simp: bt_or_insert_def bt_has_def split: option.splits)

lemma map_of_rev_distinct: "distinct (map fst xs) \<Longrightarrow> map_of (rev xs) = map_of xs"
  by (rule map_of_inject_set [THEN iffD2]) (auto simp: rev_map [symmetric])

lemma bt_get_fold_insert:
  "bt_get (fold (\<lambda>(k, v) t. bt_insert k v t) xs t) k =
     (case map_of (rev xs) k of Some v \<Rightarrow> Some v | None \<Rightarrow> bt_get t k)"
  by (induction xs arbitrary: t) (auto simp: map_add_def split: option.split)

lemma bt_get_of_list: "distinct (map fst xs) \<Longrightarrow> bt_get (bt_of_list xs) k = map_of xs k"
  by (simp add: bt_of_list_def bt_get_fold_insert map_of_rev_distinct split: option.split)

lemma bt_entries_of_list:
  assumes "sorted_wrt (<) (map fst xs)"
  shows "bt_entries (bt_of_list xs) = xs"
proof (rule sorted_entries_unique)
  have "distinct (map fst xs)" using assms strict_sorted_iff by blast
  then show "map_of (bt_entries (bt_of_list xs)) = map_of xs"
    by (simp add: fun_eq_iff bt_get_of_list flip: bt_get_def)
qed (use assms in simp_all)

lemma list_all_entries: "list_all P (bt_entries t) \<longleftrightarrow> (\<forall>k v. bt_get t k = Some v \<longrightarrow> P (k, v))"
  by (auto simp: list_all_iff bt_get_iff_entry)

end
