(* ===== verification/Transaction.thy ===== *)
theory Transaction
  imports Prelude
begin

text \<open>
  The transaction seam (\<^verbatim>\<open>crates/durable/src/backend.rs\<close>): the engine's operations are written
  against \<^verbatim>\<open>trait Transaction\<close>, whatever the adapter behind it. A transaction program is
  therefore a tree of that trait's calls (\<open>tx\<close>): a point read, a bounded range read, a write, a
  removal, a value or an error. \<open>run\<close> is its meaning on the rows themselves, the atomic
  execution every adapter promises; an error gives no rows, because the store rolls back.
  The theory \<open>Memory_Backend\<close> gives the same programs the meaning of the memory adapter.
\<close>

type_synonym key = "string \<times> string"

type_synonym 'v rows = "(key, 'v) btree"

datatype (dead 'e, dead 'v, 'a) tx =
    Ret 'a
  | Fail 'e
  | Get key "'v option \<Rightarrow> ('e, 'v, 'a) tx"
  | Scan string string "string option" "nat option" "(key \<times> 'v) list \<Rightarrow> ('e, 'v, 'a) tx"
  | Put key 'v "('e, 'v, 'a) tx"
  | Delete key "('e, 'v, 'a) tx"

section \<open>Rows in a range\<close>

text \<open>
  \<open>in_range kind start end\<close> holds for the ids of \<open>kind\<close> in \<open>[start, end)\<close>; \<open>None\<close> is no upper
  end. A limit of \<open>None\<close> stands for \<^verbatim>\<open>usize::MAX\<close>, which no store reaches.
\<close>

definition in_range :: "string \<Rightarrow> string \<Rightarrow> string option \<Rightarrow> key \<Rightarrow> bool" where
  "in_range kind start end k \<longleftrightarrow>
     fst k = kind \<and> start \<le> snd k \<and> (case end of None \<Rightarrow> True | Some e \<Rightarrow> snd k < e)"

definition take_limit :: "nat option \<Rightarrow> 'a list \<Rightarrow> 'a list" where
  "take_limit limit xs = (case limit of None \<Rightarrow> xs | Some n \<Rightarrow> take n xs)"

definition scan_rows :: "'v rows \<Rightarrow> string \<Rightarrow> string \<Rightarrow> string option \<Rightarrow> nat option \<Rightarrow> (key \<times> 'v) list" where
  "scan_rows r kind start end limit =
     take_limit limit (filter (\<lambda>e. in_range kind start end (fst e)) (bt_entries r))"

lemma set_take_limit: "set (take_limit limit xs) \<subseteq> set xs"
  by (auto simp: take_limit_def split: option.splits dest: in_set_takeD)

lemma take_limit_None [simp]: "take_limit None xs = xs"
  by (simp add: take_limit_def)

lemma take_limit_Nil [simp]: "take_limit n [] = []"
  by (simp add: take_limit_def split: option.split)

lemma scan_rows_get:
  "(k, v) \<in> set (scan_rows r kind start end limit) \<Longrightarrow> bt_get r k = Some v \<and> in_range kind start end k"
  using set_take_limit by (fastforce simp: scan_rows_def bt_get_iff_entry)

lemma scan_rows_all:
  "set (scan_rows r kind start end None) = {(k, v). bt_get r k = Some v \<and> in_range kind start end k}"
  by (auto simp: scan_rows_def bt_get_iff_entry)

lemma sorted_take_limit: "sorted_wrt P xs \<Longrightarrow> sorted_wrt P (take_limit n xs)"
  by (simp add: take_limit_def sorted_wrt_take split: option.split)

lemma map_take_limit: "map f (take_limit n xs) = take_limit n (map f xs)"
  by (simp add: take_limit_def take_map split: option.split)

lemma sorted_wrt_map_filter: "sorted_wrt P (map f xs) \<Longrightarrow> sorted_wrt P (map f (filter Q xs))"
  by (induction xs) auto

lemma scan_rows_sorted: "sorted_wrt (<) (map fst (scan_rows r kind start end limit))"
  by (simp add: scan_rows_def map_take_limit sorted_take_limit sorted_wrt_map_filter)

lemma scan_rows_distinct: "distinct (map fst (scan_rows r kind start end limit))"
  using scan_rows_sorted strict_sorted_iff by blast

text \<open>A range read depends on the rows of its range only.\<close>

lemma map_of_filter_fst: "map_of (filter (\<lambda>e. P (fst e)) xs) k = (if P k then map_of xs k else None)"
  by (induction xs) auto

lemma scan_rows_cong:
  assumes "\<And>k. in_range kind start end k \<Longrightarrow> bt_get r k = bt_get s k"
  shows "scan_rows r kind start end limit = scan_rows s kind start end limit"
proof -
  let ?f = "\<lambda>t. filter (\<lambda>e. in_range kind start end (fst e)) (bt_entries t)"
  have "map_of (?f r) k = map_of (?f s) k" for k
    using assms [of k] by (simp add: map_of_filter_fst bt_get_def)
  then have "?f r = ?f s"
    by (intro sorted_entries_unique sorted_wrt_map_filter bt_sorted) auto
  then show ?thesis by (simp add: scan_rows_def)
qed

section \<open>Transaction programs\<close>

primrec bind :: "('e, 'v, 'a) tx \<Rightarrow> ('a \<Rightarrow> ('e, 'v, 'b) tx) \<Rightarrow> ('e, 'v, 'b) tx" where
  "bind (Ret a) g = g a"
| "bind (Fail e) g = Fail e"
| "bind (Get k f) g = Get k (\<lambda>v. bind (f v) g)"
| "bind (Scan kind start end limit f) g = Scan kind start end limit (\<lambda>v. bind (f v) g)"
| "bind (Put k v m) g = Put k v (bind m g)"
| "bind (Delete k m) g = Delete k (bind m g)"

definition get :: "string \<Rightarrow> string \<Rightarrow> ('e, 'v, 'v option) tx" where
  "get kind i = Get (kind, i) Ret"

definition scan :: "string \<Rightarrow> string \<Rightarrow> string option \<Rightarrow> nat option \<Rightarrow> ('e, 'v, (key \<times> 'v) list) tx" where
  "scan kind start end limit = Scan kind start end limit Ret"

definition put :: "string \<Rightarrow> string \<Rightarrow> 'v \<Rightarrow> ('e, 'v, unit) tx" where
  "put kind i v = Put (kind, i) v (Ret ())"

definition delete :: "string \<Rightarrow> string \<Rightarrow> ('e, 'v, unit) tx" where
  "delete kind i = Delete (kind, i) (Ret ())"

text \<open>\<^verbatim>\<open>anyhow::ensure!\<close>: go on under a condition, fail otherwise.\<close>

definition ensure :: "bool \<Rightarrow> 'e \<Rightarrow> ('e, 'v, unit) tx" where
  "ensure b e = (if b then Ret () else Fail e)"

text \<open>\<^verbatim>\<open>ok_or_else\<close> and the conversion of a plain \<^verbatim>\<open>Result\<close> by \<^verbatim>\<open>?\<close>.\<close>

definition of_option :: "'e \<Rightarrow> 'a option \<Rightarrow> ('e, 'v, 'a) tx" where
  "of_option e x = (case x of None \<Rightarrow> Fail e | Some a \<Rightarrow> Ret a)"

definition of_sum :: "'e + 'a \<Rightarrow> ('e, 'v, 'a) tx" where
  "of_sum x = (case x of Inl e \<Rightarrow> Fail e | Inr a \<Rightarrow> Ret a)"

text \<open>The loops of the source over an already read list: with no result, with an accumulator, and
  collecting results.\<close>

primrec for_each :: "'b list \<Rightarrow> ('b \<Rightarrow> ('e, 'v, unit) tx) \<Rightarrow> ('e, 'v, unit) tx" where
  "for_each [] f = Ret ()"
| "for_each (x # xs) f = bind (f x) (\<lambda>_. for_each xs f)"

primrec fold_tx :: "'b list \<Rightarrow> ('b \<Rightarrow> 's \<Rightarrow> ('e, 'v, 's) tx) \<Rightarrow> 's \<Rightarrow> ('e, 'v, 's) tx" where
  "fold_tx [] f s = Ret s"
| "fold_tx (x # xs) f s = bind (f x s) (\<lambda>s'. fold_tx xs f s')"

primrec collect_tx :: "'b list \<Rightarrow> ('b \<Rightarrow> ('e, 'v, 'c) tx) \<Rightarrow> ('e, 'v, 'c list) tx" where
  "collect_tx [] f = Ret []"
| "collect_tx (x # xs) f = bind (f x) (\<lambda>y. bind (collect_tx xs f) (\<lambda>ys. Ret (y # ys)))"

text \<open>A loop that returns \<^verbatim>\<open>true\<close> at the first element that answers so.\<close>

primrec exists_tx :: "'b list \<Rightarrow> ('b \<Rightarrow> ('e, 'v, bool) tx) \<Rightarrow> ('e, 'v, bool) tx" where
  "exists_tx [] f = Ret False"
| "exists_tx (x # xs) f = bind (f x) (\<lambda>b. if b then Ret True else exists_tx xs f)"

lemma bind_Ret_right [simp]: "bind m Ret = m"
  by (induction m) auto

lemma bind_assoc: "bind (bind m f) g = bind m (\<lambda>a. bind (f a) g)"
  by (induction m) auto

section \<open>Atomic execution\<close>

primrec run :: "('e, 'v, 'a) tx \<Rightarrow> 'v rows \<Rightarrow> 'e + 'a \<times> 'v rows" where
  "run (Ret a) = (\<lambda>r. Inr (a, r))"
| "run (Fail e) = (\<lambda>r. Inl e)"
| "run (Get k f) = (\<lambda>r. run (f (bt_get r k)) r)"
| "run (Scan kind start end limit f) = (\<lambda>r. run (f (scan_rows r kind start end limit)) r)"
| "run (Put k v m) = (\<lambda>r. run m (bt_insert k v r))"
| "run (Delete k m) = (\<lambda>r. run m (bt_remove k r))"

text \<open>
  \<open>commits m r a s\<close>: the program commits with value \<open>a\<close>, taking rows \<open>r\<close> to rows \<open>s\<close>.
\<close>

definition commits :: "('e, 'v, 'a) tx \<Rightarrow> 'v rows \<Rightarrow> 'a \<Rightarrow> 'v rows \<Rightarrow> bool" where
  "commits m r a s \<longleftrightarrow> run m r = Inr (a, s)"

lemma run_bind: "run (bind m g) r = (case run m r of Inl e \<Rightarrow> Inl e | Inr (a, s) \<Rightarrow> run (g a) s)"
  by (induction m arbitrary: r) auto

lemma run_bind_Inr [simp]: "run m r = Inr (a, s) \<Longrightarrow> run (bind m g) r = run (g a) s"
  by (simp add: run_bind)

lemma run_bind_Inl [simp]: "run m r = Inl e \<Longrightarrow> run (bind m g) r = Inl e"
  by (simp add: run_bind)

lemma run_get [run_simps]: "run (get kind i) r = Inr (bt_get r (kind, i), r)"
  by (simp add: get_def)

lemma run_scan [run_simps]:
  "run (scan kind start end limit) r = Inr (scan_rows r kind start end limit, r)"
  by (simp add: scan_def)

lemma run_put [run_simps]: "run (put kind i v) r = Inr ((), bt_insert (kind, i) v r)"
  by (simp add: put_def)

lemma run_delete [run_simps]: "run (delete kind i) r = Inr ((), bt_remove (kind, i) r)"
  by (simp add: delete_def)

lemma run_ensure [run_simps]: "run (ensure b e) r = (if b then Inr ((), r) else Inl e)"
  by (simp add: ensure_def)

lemma run_of_option [run_simps]:
  "run (of_option e x) r = (case x of None \<Rightarrow> Inl e | Some a \<Rightarrow> Inr (a, r))"
  by (simp add: of_option_def split: option.split)

lemma run_of_sum [run_simps]:
  "run (of_sum x) r = (case x of Inl e \<Rightarrow> Inl e | Inr a \<Rightarrow> Inr (a, r))"
  by (simp add: of_sum_def split: sum.split)

lemma commits_Ret [simp]: "commits (Ret x) r a s \<longleftrightarrow> a = x \<and> s = r"
  by (auto simp: commits_def)

lemma commits_Fail [simp]: "\<not> commits (Fail e) r a s"
  by (simp add: commits_def)

lemma commits_bind [simp]:
  "commits (bind m g) r b t \<longleftrightarrow> (\<exists>a s. commits m r a s \<and> commits (g a) s b t)"
  by (auto simp: commits_def run_bind split: sum.splits)

lemma commits_get [simp]: "commits (get kind i) r a s \<longleftrightarrow> a = bt_get r (kind, i) \<and> s = r"
  by (auto simp: commits_def run_get)

lemma commits_scan [simp]:
  "commits (scan kind start end limit) r a s \<longleftrightarrow> a = scan_rows r kind start end limit \<and> s = r"
  by (auto simp: commits_def run_scan)

lemma commits_put [simp]: "commits (put kind i v) r a s \<longleftrightarrow> s = bt_insert (kind, i) v r"
  by (auto simp: commits_def run_put)

lemma commits_delete [simp]: "commits (delete kind i) r a s \<longleftrightarrow> s = bt_remove (kind, i) r"
  by (auto simp: commits_def run_delete)

lemma commits_ensure [simp]: "commits (ensure b e) r a s \<longleftrightarrow> b \<and> s = r"
  by (auto simp: commits_def run_ensure)

lemma commits_of_option [simp]: "commits (of_option e x) r a s \<longleftrightarrow> x = Some a \<and> s = r"
  by (auto simp: commits_def run_of_option split: option.splits)

lemma commits_of_sum [simp]: "commits (of_sum x) r a s \<longleftrightarrow> x = Inr a \<and> s = r"
  by (auto simp: commits_def run_of_sum split: sum.splits)

lemma commits_if [simp]:
  "commits (if b then m else m') r a s \<longleftrightarrow> (if b then commits m r a s else commits m' r a s)"
  by simp

lemma commits_cases [simp]:
  "commits (case x of None \<Rightarrow> m | Some a \<Rightarrow> g a) r b s \<longleftrightarrow>
     x = None \<and> commits m r b s \<or> (\<exists>a. x = Some a \<and> commits (g a) r b s)"
  "commits (case p of (a, c) \<Rightarrow> h a c) r b s \<longleftrightarrow> (\<exists>a c. p = (a, c) \<and> commits (h a c) r b s)"
  "commits (case y of Inl a \<Rightarrow> f a | Inr c \<Rightarrow> f' c) r b s \<longleftrightarrow>
     (\<exists>a. y = Inl a \<and> commits (f a) r b s) \<or> (\<exists>c. y = Inr c \<and> commits (f' c) r b s)"
  "commits (case zs of [] \<Rightarrow> m | z # zs' \<Rightarrow> k z zs') r b s \<longleftrightarrow>
     zs = [] \<and> commits m r b s \<or> (\<exists>z zs'. zs = z # zs' \<and> commits (k z zs') r b s)"
  by (simp_all split: option.split prod.split sum.split list.split)

lemma commits_unique: "commits m r a s \<Longrightarrow> commits m r b t \<Longrightarrow> a = b \<and> s = t"
  by (simp add: commits_def)

section \<open>What a program may write\<close>

text \<open>
  \<open>writes_in K m\<close>: every key the program may write or remove satisfies \<open>K\<close>, whatever it reads.
  It gives every operation its frame: the rows outside \<open>K\<close> are untouched.
\<close>

primrec writes_in :: "(key \<Rightarrow> bool) \<Rightarrow> ('e, 'v, 'a) tx \<Rightarrow> bool" where
  "writes_in K (Ret a) \<longleftrightarrow> True"
| "writes_in K (Fail e) \<longleftrightarrow> True"
| "writes_in K (Get k f) \<longleftrightarrow> (\<forall>v. writes_in K (f v))"
| "writes_in K (Scan kind start end limit f) \<longleftrightarrow> (\<forall>v. writes_in K (f v))"
| "writes_in K (Put k v m) \<longleftrightarrow> K k \<and> writes_in K m"
| "writes_in K (Delete k m) \<longleftrightarrow> K k \<and> writes_in K m"

abbreviation reads_only :: "('e, 'v, 'a) tx \<Rightarrow> bool" where
  "reads_only \<equiv> writes_in (\<lambda>_. False)"

lemma writes_in_mono: "writes_in K m \<Longrightarrow> (\<And>k. K k \<Longrightarrow> L k) \<Longrightarrow> writes_in L m"
  by (induction m) auto

lemma writes_in_bind [intro, keeps_intros]:
  "writes_in K m \<Longrightarrow> (\<And>a. writes_in K (g a)) \<Longrightarrow> writes_in K (bind m g)"
  by (induction m) auto

lemma writes_in_prims [simp]:
  "writes_in K (get kind i)"
  "writes_in K (scan kind start end limit)"
  "writes_in K (put kind i v) \<longleftrightarrow> K (kind, i)"
  "writes_in K (delete kind i) \<longleftrightarrow> K (kind, i)"
  "writes_in K (ensure b e)"
  "writes_in K (of_option e x)"
  "writes_in K (of_sum y)"
  by (auto simp: get_def scan_def put_def delete_def ensure_def of_option_def of_sum_def
      split: option.split sum.split)

lemma writes_in_for_each [intro, keeps_intros]:
  "(\<And>x. x \<in> set xs \<Longrightarrow> writes_in K (f x)) \<Longrightarrow> writes_in K (for_each xs f)"
  by (induction xs) auto

lemma writes_in_fold_tx [intro, keeps_intros]:
  "(\<And>x s. x \<in> set xs \<Longrightarrow> writes_in K (f x s)) \<Longrightarrow> writes_in K (fold_tx xs f s)"
  by (induction xs arbitrary: s) auto

lemma writes_in_collect_tx [intro, keeps_intros]:
  "(\<And>x. x \<in> set xs \<Longrightarrow> writes_in K (f x)) \<Longrightarrow> writes_in K (collect_tx xs f)"
  by (induction xs) (auto intro!: writes_in_bind)

lemma writes_in_exists_tx [intro, keeps_intros]:
  "(\<And>x. x \<in> set xs \<Longrightarrow> writes_in K (f x)) \<Longrightarrow> writes_in K (exists_tx xs f)"
  by (induction xs) (auto intro!: writes_in_bind)

lemma writes_in_frame:
  "writes_in K m \<Longrightarrow> commits m r a s \<Longrightarrow> \<not> K k \<Longrightarrow> bt_get s k = bt_get r k"
  unfolding commits_def by (induction m arbitrary: r) (auto split: if_splits)

lemma reads_only_rows: "reads_only m \<Longrightarrow> commits m r a s \<Longrightarrow> s = r"
  by (rule bt_eqI) (rule writes_in_frame, auto)

section \<open>Invariants of the rows\<close>

text \<open>
  \<open>keeps P m Q\<close>: from rows satisfying \<open>P\<close>, a commit of \<open>m\<close> with value \<open>a\<close> leaves rows
  satisfying \<open>Q a\<close> (partial correctness; the rules are those of a Hoare logic).
\<close>

definition keeps :: "('v rows \<Rightarrow> bool) \<Rightarrow> ('e, 'v, 'a) tx \<Rightarrow> ('a \<Rightarrow> 'v rows \<Rightarrow> bool) \<Rightarrow> bool" where
  "keeps P m Q \<longleftrightarrow> (\<forall>r a s. P r \<longrightarrow> commits m r a s \<longrightarrow> Q a s)"

lemma keepsI: "(\<And>r a s. P r \<Longrightarrow> commits m r a s \<Longrightarrow> Q a s) \<Longrightarrow> keeps P m Q"
  by (simp add: keeps_def)

lemma keepsD: "keeps P m Q \<Longrightarrow> P r \<Longrightarrow> commits m r a s \<Longrightarrow> Q a s"
  by (auto simp: keeps_def)

lemma keeps_bind: "keeps P m Q \<Longrightarrow> (\<And>a. keeps (Q a) (g a) R) \<Longrightarrow> keeps P (bind m g) R"
  unfolding keeps_def commits_bind by blast

lemma keeps_inv_bind [keeps_intros]:
  "keeps I m (\<lambda>_. I) \<Longrightarrow> (\<And>a. keeps I (g a) (\<lambda>_. I)) \<Longrightarrow> keeps I (bind m g) (\<lambda>_. I)"
  by (rule keeps_bind)

lemma keeps_conseq:
  "keeps P m Q \<Longrightarrow> (\<And>r. P' r \<Longrightarrow> P r) \<Longrightarrow> (\<And>a s. Q a s \<Longrightarrow> Q' a s) \<Longrightarrow> keeps P' m Q'"
  by (fastforce simp: keeps_def)

lemma keeps_reads_only [keeps_intros]: "reads_only m \<Longrightarrow> keeps I m (\<lambda>_. I)"
  using reads_only_rows by (fastforce simp: keeps_def)

lemma keeps_Ret [simp, keeps_intros]: "keeps I (Ret a) (\<lambda>_. I)"
  by (simp add: keeps_def)

lemma keeps_for_each [keeps_intros]:
  "(\<And>x. x \<in> set xs \<Longrightarrow> keeps I (f x) (\<lambda>_. I)) \<Longrightarrow> keeps I (for_each xs f) (\<lambda>_. I)"
proof (induction xs)
  case (Cons x xs)
  then show ?case
    unfolding for_each.simps by (intro keeps_inv_bind) auto
qed (simp add: keeps_def)

lemma keeps_fold_tx [keeps_intros]:
  "(\<And>x s. x \<in> set xs \<Longrightarrow> keeps I (f x s) (\<lambda>_. I)) \<Longrightarrow> keeps I (fold_tx xs f s) (\<lambda>_. I)"
proof (induction xs arbitrary: s)
  case (Cons x xs)
  then show ?case
    unfolding fold_tx.simps by (intro keeps_inv_bind) auto
qed (simp add: keeps_def)

lemma keeps_collect_tx [keeps_intros]:
  "(\<And>x. x \<in> set xs \<Longrightarrow> keeps I (f x) (\<lambda>_. I)) \<Longrightarrow> keeps I (collect_tx xs f) (\<lambda>_. I)"
proof (induction xs)
  case (Cons x xs)
  then show ?case
    unfolding collect_tx.simps by (intro keeps_inv_bind keeps_Ret) auto
qed (simp add: keeps_def)

text \<open>An invariant that only looks at keys outside \<open>K\<close> survives every program that writes in \<open>K\<close>.\<close>

definition looks_at :: "(key \<Rightarrow> bool) \<Rightarrow> ('v rows \<Rightarrow> bool) \<Rightarrow> bool" where
  "looks_at L I \<longleftrightarrow> (\<forall>r s. (\<forall>k. L k \<longrightarrow> bt_get s k = bt_get r k) \<longrightarrow> I r \<longrightarrow> I s)"

lemma keeps_frame:
  "looks_at L I \<Longrightarrow> writes_in K m \<Longrightarrow> (\<And>k. K k \<Longrightarrow> \<not> L k) \<Longrightarrow> keeps I m (\<lambda>_. I)"
  unfolding keeps_def looks_at_def by (metis writes_in_frame)

end
