(* ===== verification/Memory_Backend.thy ===== *)
theory Memory_Backend
  imports Transaction
begin

text \<open>
  The memory adapter (\<^verbatim>\<open>crates/durable/src/memory.rs\<close>): optimistic transactions that read the
  shared rows as they find them, buffer their writes and validate every observation, ranges
  included, when they commit. The main result is that a transaction which commits did exactly what
  its program does when run alone on the rows of the commit (\<open>memory_serializable\<close>), whatever other
  transactions committed between its reads.
\<close>

section \<open>State\<close>

text \<open>
  A committed row carries the UUID of the write that made it; a UUID is a number here, compared only
  for equality.
\<close>

type_synonym uuid = nat

type_synonym 'v versioned = "(key, uuid \<times> 'v) btree"

record range_read =
  rr_kind :: string
  rr_start :: string
  rr_end :: "string option"
  rr_limit :: "nat option"
  rr_versions :: "(key \<times> uuid) list"

record 'v memory_tx =
  reads :: "(key, (uuid \<times> 'v) option) btree"
  scans :: "range_read list"
  "writes" :: "(key, 'v option) btree"

datatype commit_fault = BeforeWrite nat | BeforeCommit | AfterCommit

datatype backend_error =
    Conflict
  | ReadOnly
  | ReadOnlyTransaction
  | InjectedFailure commit_fault

definition begin_tx :: "'v memory_tx" where
  "begin_tx = \<lparr>reads = bt_empty, scans = [], writes = bt_empty\<rparr>"

section \<open>Operations\<close>

text \<open>
  \<^verbatim>\<open>fn range\<close>: the entries from \<open>(kind, start)\<close> up to \<open>(kind, end)\<close>, or up to the first key of the
  next possible kind (\<open>kind\<close> followed by a zero byte) when there is no end.
\<close>

definition range_upper :: "string \<Rightarrow> string option \<Rightarrow> key" where
  "range_upper kind end =
     (case end of None \<Rightarrow> (kind @ [CHR 0x00], []) | Some e \<Rightarrow> (kind, e))"

definition mem_range ::
  "'v versioned \<Rightarrow> string \<Rightarrow> string \<Rightarrow> string option \<Rightarrow> nat option \<Rightarrow> (key \<times> uuid \<times> 'v) list" where
  "mem_range st kind start end limit =
     take_limit limit
       (filter (\<lambda>e. (kind, start) \<le> fst e \<and> fst e < range_upper kind end) (bt_entries st))"

definition mem_get :: "'v versioned \<Rightarrow> key \<Rightarrow> 'v memory_tx \<Rightarrow> 'v option \<times> 'v memory_tx" where
  "mem_get st k t =
     (case bt_get (writes t) k of
        Some v \<Rightarrow> (v, t)
      | None \<Rightarrow>
          (let t' = t\<lparr>reads := bt_or_insert k (bt_get st k) (reads t)\<rparr>
           in (case bt_get (reads t') k of Some (Some (_, v)) \<Rightarrow> Some v | _ \<Rightarrow> None, t')))"

text \<open>The transaction's own writes laid over the observed rows of the range.\<close>

definition overlay ::
  "(key \<Rightarrow> bool) \<Rightarrow> (key, 'v option) btree \<Rightarrow> (key \<times> 'v) list \<Rightarrow> (key, 'v) btree" where
  "overlay inside w observed =
     fold (\<lambda>(k, v) acc. if inside k then (case v of Some x \<Rightarrow> bt_insert k x acc | None \<Rightarrow> bt_remove k acc) else acc)
       (bt_entries w) (bt_of_list observed)"

definition mem_scan ::
  "'v versioned \<Rightarrow> string \<Rightarrow> string \<Rightarrow> string option \<Rightarrow> nat option \<Rightarrow> 'v memory_tx
    \<Rightarrow> (key \<times> 'v) list \<times> 'v memory_tx" where
  "mem_scan st kind start end limit t =
     (if limit = Some 0 \<or> (case end of None \<Rightarrow> False | Some e \<Rightarrow> e \<le> start) then ([], t)
      else
        let read_limit = map_option (\<lambda>n. n + length (bt_entries (writes t))) limit;
            observed = mem_range st kind start end read_limit;
            t' = t\<lparr>scans := scans t @ [\<lparr>rr_kind = kind, rr_start = start, rr_end = end, rr_limit = read_limit,
                     rr_versions = map (\<lambda>(k, u, _). (k, u)) observed\<rparr>]\<rparr>;
            merged = overlay (in_range kind start end) (writes t) (map (\<lambda>(k, _, v). (k, v)) observed)
        in (take_limit limit (bt_entries merged), t'))"

text \<open>\<^verbatim>\<open>put\<close> and \<^verbatim>\<open>delete\<close> observe the key first, so that a blind write conflicts too.\<close>

definition mem_write :: "'v versioned \<Rightarrow> key \<Rightarrow> 'v option \<Rightarrow> 'v memory_tx \<Rightarrow> 'v memory_tx" where
  "mem_write st k v t =
     (let t' = snd (mem_get st k t) in t'\<lparr>writes := bt_insert k v (writes t')\<rparr>)"

text \<open>
  A program against a memory transaction: call number \<open>n\<close> finds the committed rows \<open>env n\<close>.
\<close>

primrec mem_run ::
  "('e, 'v, 'a) tx \<Rightarrow> (nat \<Rightarrow> 'v versioned) \<Rightarrow> nat \<Rightarrow> 'v memory_tx \<Rightarrow> ('e + 'a) \<times> 'v memory_tx" where
  "mem_run (Ret a) = (\<lambda>env n t. (Inr a, t))"
| "mem_run (Fail e) = (\<lambda>env n t. (Inl e, t))"
| "mem_run (Get k f) = (\<lambda>env n t.
     case mem_get (env n) k t of (v, t') \<Rightarrow> mem_run (f v) env (Suc n) t')"
| "mem_run (Scan kind start end limit f) = (\<lambda>env n t.
     case mem_scan (env n) kind start end limit t of (v, t') \<Rightarrow> mem_run (f v) env (Suc n) t')"
| "mem_run (Put k v m) = (\<lambda>env n t. mem_run m env (Suc n) (mem_write (env n) k (Some v) t))"
| "mem_run (Delete k m) = (\<lambda>env n t. mem_run m env (Suc n) (mem_write (env n) k None t))"

section \<open>Commit\<close>

definition ranged :: "'v memory_tx \<Rightarrow> (key \<times> uuid) set" where
  "ranged t = set (concat (map rr_versions (scans t)))"

text \<open>A point read whose very version a range returned is not looked up again.\<close>

definition read_current :: "'v versioned \<Rightarrow> 'v memory_tx \<Rightarrow> key \<times> (uuid \<times> 'v) option \<Rightarrow> bool" where
  "read_current st t e =
     (case e of (k, before) \<Rightarrow>
        (case before of Some (u, _) \<Rightarrow> (k, u) \<in> ranged t | None \<Rightarrow> False)
        \<or> map_option fst (bt_get st k) = map_option fst before)"

definition scan_current :: "'v versioned \<Rightarrow> range_read \<Rightarrow> bool" where
  "scan_current st s \<longleftrightarrow>
     map (\<lambda>(k, u, _). (k, u)) (mem_range st (rr_kind s) (rr_start s) (rr_end s) (rr_limit s)) = rr_versions s"

definition validates :: "'v versioned \<Rightarrow> 'v memory_tx \<Rightarrow> bool" where
  "validates st t \<longleftrightarrow>
     list_all (read_current st t) (bt_entries (reads t)) \<and> list_all (scan_current st) (scans t)"

text \<open>Applying the buffered writes: write number \<open>i\<close> in key order takes the new version \<open>fresh i\<close>.\<close>

fun apply_write :: "(nat \<Rightarrow> uuid) \<Rightarrow> nat \<times> key \<times> 'v option \<Rightarrow> 'v versioned \<Rightarrow> 'v versioned" where
  "apply_write fresh (i, k, Some x) st = bt_insert k (fresh i, x) st"
| "apply_write fresh (i, k, None) st = bt_remove k st"

definition apply_writes :: "(nat \<Rightarrow> uuid) \<Rightarrow> (key, 'v option) btree \<Rightarrow> 'v versioned \<Rightarrow> 'v versioned" where
  "apply_writes fresh w st = fold (apply_write fresh) (enumerate 0 (bt_entries w)) st"

text \<open>
  \<^verbatim>\<open>commit\<close>: validate, pass the fault points, apply; the last fault point reports a failure after the
  rows have changed (an ambiguous commit). The injected fault, if any, is \<open>fault\<close>.
\<close>

definition mem_commit ::
  "(nat \<Rightarrow> uuid) \<Rightarrow> commit_fault option \<Rightarrow> 'v memory_tx \<Rightarrow> 'v versioned
    \<Rightarrow> (backend_error + unit) \<times> 'v versioned" where
  "mem_commit fresh fault t st =
     (if \<not> validates st t then (Inl Conflict, st)
      else case fault of
        Some (BeforeWrite i) \<Rightarrow>
          if i < length (bt_entries (writes t)) then (Inl (InjectedFailure (BeforeWrite i)), st)
          else (Inr (), apply_writes fresh (writes t) st)
      | Some BeforeCommit \<Rightarrow> (Inl (InjectedFailure BeforeCommit), st)
      | Some AfterCommit \<Rightarrow> (Inl (InjectedFailure AfterCommit), apply_writes fresh (writes t) st)
      | None \<Rightarrow> (Inr (), apply_writes fresh (writes t) st))"

text \<open>The rows without their versions (\<^verbatim>\<open>snapshot\<close>).\<close>

definition snapshot :: "'v versioned \<Rightarrow> 'v rows" where
  "snapshot st = bt_of_list (map (\<lambda>(k, _, v). (k, v)) (bt_entries st))"

section \<open>The range bound\<close>

lemma zero_byte_least [simp]: "\<not> c < CHR 0x00"
  by (simp add: less_char_def)

lemma no_string_between: "(xs :: string) < ys \<Longrightarrow> \<not> ys < xs @ [CHR 0x00]"
proof (induction xs arbitrary: ys)
  case Nil
  then show ?case by (cases ys) auto
next
  case (Cons x xs)
  then show ?case by (cases ys) auto
qed

lemma range_upper_in_range:
  "(kind, start) \<le> k \<and> k < range_upper kind end \<longleftrightarrow> in_range kind start end k"
proof -
  obtain a i where k: "k = (a, i)" by (cases k)
  have "kind < kind @ [CHR 0x00]" by (induction kind) auto
  then show ?thesis
    using no_string_between [of kind a] order.strict_iff_order [of kind a]
    by (auto simp: k range_upper_def in_range_def less_eq_prod_def less_prod_def split: option.split)
qed

lemma mem_range_scan: "mem_range st kind start end limit = scan_rows st kind start end limit"
  by (simp add: mem_range_def scan_rows_def range_upper_in_range)

section \<open>Overlaying the buffered writes\<close>

text \<open>The rows as the transaction sees them: its writes over the committed rows.\<close>

definition patched :: "(key, 'v option) btree \<Rightarrow> 'v rows \<Rightarrow> 'v rows" where
  "patched w r = overlay (\<lambda>_. True) w (bt_entries r)"

lemma bt_get_overlay_fold:
  "distinct (map fst ws) \<Longrightarrow>
   bt_get (fold (\<lambda>(k, v) acc. if inside k then (case v of Some x \<Rightarrow> bt_insert k x acc | None \<Rightarrow> bt_remove k acc) else acc)
       ws acc) k =
     (case map_of ws k of Some v \<Rightarrow> if inside k then v else bt_get acc k | None \<Rightarrow> bt_get acc k)"
proof (induction ws arbitrary: acc)
  case (Cons e ws)
  obtain l v where e: "e = (l, v)" by (cases e)
  have "map_of ws l = None" using Cons.prems e by (auto simp: map_of_eq_None_iff)
  with Cons show ?case by (auto simp: e split: option.split)
qed simp

lemma bt_get_overlay:
  assumes "distinct (map fst obs)"
  shows "bt_get (overlay inside w obs) k =
     (case bt_get w k of Some v \<Rightarrow> if inside k then v else map_of obs k | None \<Rightarrow> map_of obs k)"
  unfolding overlay_def bt_get_overlay_fold [OF bt_distinct] bt_get_of_list [OF assms]
  by (simp add: bt_get_def)

lemma bt_get_patched:
  "bt_get (patched w r) k = (case bt_get w k of Some v \<Rightarrow> v | None \<Rightarrow> bt_get r k)"
  by (simp add: patched_def bt_get_overlay flip: bt_get_def split: option.split)

lemma values_map_of: "map_of (map (\<lambda>(k, _, v). (k, v)) xs) k = map_option snd (map_of xs k)"
  by (induction xs) auto

lemma bt_get_snapshot: "bt_get (snapshot st) k = map_option snd (bt_get st k)"
proof -
  have "distinct (map fst (map (\<lambda>(k, _, v). (k, v)) (bt_entries st)))"
    using bt_distinct [of st] by (simp add: o_def split_def)
  then have "bt_get (snapshot st) k = map_of (map (\<lambda>(k, _, v). (k, v)) (bt_entries st)) k"
    by (simp add: snapshot_def bt_get_of_list)
  also have "\<dots> = map_option snd (map_of (bt_entries st) k)"
    by (rule values_map_of)
  finally show ?thesis by (simp add: bt_get_def)
qed

lemma bt_entries_snapshot: "bt_entries (snapshot st) = map (\<lambda>(k, _, v). (k, v)) (bt_entries st)"
  unfolding snapshot_def by (rule bt_entries_of_list) (simp add: o_def split_def)

text \<open>
  A range read limited to \<open>n\<close> rows looks at \<open>n\<close> committed rows more than it has buffered writes:
  each of them hides at most one, so the first \<open>n\<close> rows it returns are the right ones.
\<close>

lemma take_eq_filter_prefix:
  fixes m :: "'k::linorder"
  assumes "sorted_wrt (<) (map fst xs)" and "n \<le> length (filter (\<lambda>e. fst e \<le> m) xs)"
  shows "take n xs = take n (filter (\<lambda>e. fst e \<le> m) xs)"
  using assms
proof (induction xs arbitrary: n)
  case (Cons e xs)
  show ?case
  proof (cases "fst e \<le> m")
    case True
    with Cons show ?thesis by (cases n) auto
  next
    case False
    have "filter (\<lambda>e. fst e \<le> m) (e # xs) = []"
      using False Cons.prems(1) by (fastforce simp: filter_empty_conv)
    with Cons.prems(2) show ?thesis by simp
  qed
qed simp

lemma take_limited_overlay:
  fixes w :: "(key, 'v option) btree" and L :: "(key \<times> 'v) list"
  assumes sorted: "sorted_wrt (<) (map fst L)"
  shows "take n (bt_entries (overlay inside w L)) =
    take n (bt_entries (overlay inside w (take (n + length (bt_entries w)) L)))"
    (is "take n ?A = take n ?B")
proof (cases "length L \<le> n + length (bt_entries w) \<or> n = 0")
  case True
  then show ?thesis by auto
next
  case False
  define N where "N = n + length (bt_entries w)"
  define m where "m = fst (L ! (N - 1))"
  have N: "0 < N" "N < length L" using False by (auto simp: N_def)
  have dL: "distinct (map fst L)" using sorted strict_sorted_iff by blast
  then have dP: "distinct (map fst (take N L))" by (metis distinct_take take_map)
  have below: "map_of (take N L) k = map_of L k" if "k \<le> m" for k
  proof -
    have "map_of (drop N L) k = None"
    proof (rule ccontr)
      assume "map_of (drop N L) k \<noteq> None"
      then obtain v where "(k, v) \<in> set (drop N L)" by (auto dest: map_of_SomeD)
      then obtain i where i: "i < length L - N" "drop N L ! i = (k, v)"
        by (auto simp: in_set_conv_nth)
      define j where "j = N + i"
      have j: "N \<le> j" "j < length L" "fst (L ! j) = k"
        using i N by (auto simp: j_def)
      have "fst (L ! (N - 1)) < fst (L ! j)"
        using sorted j N sorted_wrt_nth_less [OF sorted, of "N - 1" j] by auto
      with that j show False by (simp add: m_def)
    qed
    then have "map_of (take N L @ drop N L) k = map_of (take N L) k"
      unfolding map_of_append by (simp add: map_add_def split: option.split)
    then show ?thesis by simp
  qed
  have "filter (\<lambda>e. fst e \<le> m) ?A = filter (\<lambda>e. fst e \<le> m) ?B"
  proof (rule sorted_entries_unique)
    have "bt_get (overlay inside w L) k = bt_get (overlay inside w (take N L)) k" if "k \<le> m" for k
      using below [OF that] by (simp add: bt_get_overlay dL dP split: option.split)
    then show "map_of (filter (\<lambda>e. fst e \<le> m) ?A) = map_of (filter (\<lambda>e. fst e \<le> m) ?B)"
      by (simp add: fun_eq_iff map_of_filter_fst [of "\<lambda>k. k \<le> m"] bt_get_def N_def)
  qed (simp_all add: sorted_wrt_map_filter)
  moreover have "n \<le> length (filter (\<lambda>e. fst e \<le> m) ?B)"
  proof -
    have "fst ` set (take N L) - fst ` set (bt_entries w) \<subseteq> fst ` set (filter (\<lambda>e. fst e \<le> m) ?B)"
    proof
      fix k assume k: "k \<in> fst ` set (take N L) - fst ` set (bt_entries w)"
      then obtain v where v: "map_of (take N L) k = Some v"
        by (metis DiffD1 map_of_eq_None_iff option.exhaust)
      have "bt_get w k = None" using k by (simp add: bt_get_def map_of_eq_None_iff)
      with v have "bt_get (overlay inside w (take N L)) k = Some v"
        by (simp add: bt_get_overlay dP)
      moreover have "k \<le> m"
      proof -
        obtain j where j: "j < N" "fst (L ! j) = k" "j < length L"
          using k by (auto simp: in_set_conv_nth)
        then show ?thesis
          using sorted N unfolding m_def
          by (cases "j = N - 1") (auto simp: sorted_wrt_iff_nth_less intro!: less_imp_le)
      qed
      ultimately show "k \<in> fst ` set (filter (\<lambda>e. fst e \<le> m) ?B)"
        by (force simp: bt_get_iff_entry N_def)
    qed
    then have "card (fst ` set (take N L) - fst ` set (bt_entries w)) \<le> card (fst ` set (filter (\<lambda>e. fst e \<le> m) ?B))"
      by (intro card_mono) auto
    also have "\<dots> \<le> length (filter (\<lambda>e. fst e \<le> m) ?B)"
      using card_length [of "map fst (filter (\<lambda>e. fst e \<le> m) ?B)"] by simp
    finally have "card (fst ` set (take N L)) - card (fst ` set (bt_entries w)) \<le> length (filter (\<lambda>e. fst e \<le> m) ?B)"
      using diff_card_le_card_Diff [of "fst ` set (bt_entries w)" "fst ` set (take N L)"] by simp
    moreover have "card (fst ` set (take N L)) = N"
      using distinct_card [OF dP] N by simp
    moreover have "card (fst ` set (bt_entries w)) = length (bt_entries w)"
      using distinct_card [OF bt_distinct [of w]] by simp
    ultimately show ?thesis by (simp add: N_def)
  qed
  ultimately show ?thesis
    using take_eq_filter_prefix [OF bt_sorted [of "overlay inside w L"], of n m]
      take_eq_filter_prefix [OF bt_sorted [of "overlay inside w (take (n + length (bt_entries w)) L)"], of n m]
    by simp
qed

lemma mem_scan_value:
  assumes obs: "mem_range st kind start end (map_option (\<lambda>n. n + length (bt_entries (writes t))) limit)
      = mem_range cur kind start end (map_option (\<lambda>n. n + length (bt_entries (writes t))) limit)"
    and guard: "\<not> (limit = Some 0 \<or> (case end of None \<Rightarrow> False | Some e \<Rightarrow> e \<le> start))"
  shows "fst (mem_scan st kind start end limit t) =
    scan_rows (patched (writes t) (snapshot cur)) kind start end limit"
proof -
  let ?in = "in_range kind start end"
  let ?val = "\<lambda>(k, _, v). (k, v)"
  let ?L = "filter (\<lambda>e. ?in (fst e)) (bt_entries (snapshot cur))"
  have L: "map ?val (filter (\<lambda>e. ?in (fst e)) (bt_entries cur)) = ?L"
    by (simp add: bt_entries_snapshot filter_map o_def split_def)
  have sL: "sorted_wrt (<) (map fst ?L)" by (simp add: sorted_wrt_map_filter)
  then have dL: "distinct (map fst ?L)" using strict_sorted_iff by blast
  have full: "filter (\<lambda>e. ?in (fst e)) (bt_entries (patched (writes t) (snapshot cur)))
      = bt_entries (overlay ?in (writes t) ?L)"
  proof (rule sorted_entries_unique)
    show "map_of (filter (\<lambda>e. ?in (fst e)) (bt_entries (patched (writes t) (snapshot cur))))
        = map_of (bt_entries (overlay ?in (writes t) ?L))"
      by (rule ext) (simp add: map_of_filter_fst bt_get_patched bt_get_overlay [OF dL]
          flip: bt_get_def split: option.split)
  qed (simp_all add: sorted_wrt_map_filter)
  have "fst (mem_scan st kind start end limit t) = take_limit limit (bt_entries (overlay ?in (writes t)
      (take_limit (map_option (\<lambda>n. n + length (bt_entries (writes t))) limit) ?L)))"
    using guard unfolding mem_scan_def Let_def obs
    by (simp add: mem_range_scan scan_rows_def map_take_limit L)
  also have "\<dots> = take_limit limit (bt_entries (overlay ?in (writes t) ?L))"
    using take_limited_overlay [OF sL, of _ ?in "writes t"]
    by (simp add: take_limit_def split: option.split)
  finally show ?thesis by (simp add: scan_rows_def full)
qed

section \<open>Validation\<close>

text \<open>Skipping the points a range already validated loses nothing.\<close>

lemma validates_iff:
  "validates st t \<longleftrightarrow>
    (\<forall>k before. bt_get (reads t) k = Some before \<longrightarrow> map_option fst (bt_get st k) = map_option fst before)
    \<and> list_all (scan_current st) (scans t)"
proof -
  have "map_option fst (bt_get st k) = Some u"
    if "list_all (scan_current st) (scans t)" "(k, u) \<in> ranged t" for k u
  proof -
    from that(2) obtain s where s: "s \<in> set (scans t)" "(k, u) \<in> set (rr_versions s)"
      by (auto simp: ranged_def)
    then have "(k, u) \<in> set (map (\<lambda>(k, u, _). (k, u)) (mem_range st (rr_kind s) (rr_start s) (rr_end s) (rr_limit s)))"
      using that(1) by (simp add: list_all_iff scan_current_def)
    then obtain v where "(k, u, v) \<in> set (scan_rows st (rr_kind s) (rr_start s) (rr_end s) (rr_limit s))"
      by (auto simp: mem_range_scan)
    then have "bt_get st k = Some (u, v)" by (blast dest: scan_rows_get)
    then show ?thesis by simp
  qed
  then show ?thesis
    unfolding validates_def list_all_entries read_current_def by (fastforce split: option.splits)
qed

text \<open>Two committed states agree on the value of a version: the UUID of a write is used once.\<close>

definition agree :: "'v versioned \<Rightarrow> 'v versioned \<Rightarrow> bool" where
  "agree st cur \<longleftrightarrow> (\<forall>k u v v'. bt_get st k = Some (u, v) \<longrightarrow> bt_get cur k = Some (u, v') \<longrightarrow> v = v')"

definition reads_agree :: "'v versioned \<Rightarrow> 'v memory_tx \<Rightarrow> bool" where
  "reads_agree cur t \<longleftrightarrow>
     (\<forall>k u v v'. bt_get (reads t) k = Some (Some (u, v)) \<longrightarrow> bt_get cur k = Some (u, v') \<longrightarrow> v = v')"

text \<open>A later state of the same transaction has seen everything the earlier one had.\<close>

definition tx_extends :: "'v memory_tx \<Rightarrow> 'v memory_tx \<Rightarrow> bool" where
  "tx_extends t' t \<longleftrightarrow>
     (\<forall>k x. bt_get (reads t) k = Some x \<longrightarrow> bt_get (reads t') k = Some x) \<and> set (scans t) \<subseteq> set (scans t')"

lemma tx_extends_refl [simp]: "tx_extends t t"
  by (simp add: tx_extends_def)

lemma tx_extends_trans: "tx_extends t'' t' \<Longrightarrow> tx_extends t' t \<Longrightarrow> tx_extends t'' t"
  by (auto simp: tx_extends_def)

lemma validates_extends: "validates cur t' \<Longrightarrow> tx_extends t' t \<Longrightarrow> validates cur t"
  by (auto simp: validates_iff tx_extends_def list_all_iff)

section \<open>Serializability\<close>

lemma mem_get_extends: "mem_get st k t = (v, t') \<Longrightarrow> tx_extends t' t \<and> writes t' = writes t"
  by (auto simp: mem_get_def tx_extends_def Let_def bt_get_or_insert split: option.splits)

lemma mem_get_value:
  assumes "mem_get st k t = (v, t')" and "agree st cur" and "reads_agree cur t" and "validates cur t'"
  shows "v = bt_get (patched (writes t) (snapshot cur)) k" and "reads_agree cur t'"
proof -
  have ra: "reads_agree cur t'"
    using assms(1-3)
    by (auto simp: mem_get_def Let_def reads_agree_def agree_def bt_get_or_insert split: option.splits if_splits)
  then show "reads_agree cur t'" .
  show "v = bt_get (patched (writes t) (snapshot cur)) k"
  proof (cases "bt_get (writes t) k")
    case (Some w)
    with assms(1) show ?thesis by (simp add: mem_get_def bt_get_patched)
  next
    case None
    from None assms(1) obtain x where x: "bt_get (reads t') k = Some x" "v = map_option snd x"
      by (auto simp: mem_get_def Let_def bt_get_or_insert split: option.splits prod.splits)
    have "map_option fst (bt_get cur k) = map_option fst x"
      using assms(4) x(1) by (auto simp: validates_iff)
    with ra x have "v = map_option snd (bt_get cur k)"
      by (cases x; cases "bt_get cur k") (auto simp: reads_agree_def)
    with None show ?thesis by (simp add: bt_get_patched bt_get_snapshot)
  qed
qed

lemma mem_scan_extends: "mem_scan st kind start end limit t = (v, t') \<Longrightarrow> tx_extends t' t \<and> writes t' = writes t \<and> reads t' = reads t"
  by (auto simp: mem_scan_def tx_extends_def Let_def split: if_splits)

lemma agree_ranges:
  assumes "agree st cur"
    and "map (\<lambda>(k, u, _). (k, u)) (mem_range st kind start end limit) =
      map (\<lambda>(k, u, _). (k, u)) (mem_range cur kind start end limit)"
  shows "mem_range st kind start end limit = mem_range cur kind start end limit" (is "?xs = ?ys")
proof (rule nth_equalityI)
  show len: "length ?xs = length ?ys" using assms(2) map_eq_imp_length_eq by blast
  fix i assume i: "i < length ?xs"
  obtain k u v where x: "?xs ! i = (k, u, v)" by (cases "?xs ! i")
  obtain v' where y: "?ys ! i = (k, u, v')"
    using arg_cong [OF assms(2), of "\<lambda>l. l ! i"] i len x by (cases "?ys ! i") auto
  have "bt_get st k = Some (u, v)" "bt_get cur k = Some (u, v')"
    using nth_mem [OF i] nth_mem [of i ?ys] i unfolding len x y
    by (auto simp: mem_range_scan dest: scan_rows_get)
  with assms(1) have "v = v'" by (auto simp: agree_def)
  with x y show "?xs ! i = ?ys ! i" by simp
qed

lemma mem_scan_result:
  assumes "mem_scan st kind start end limit t = (v, t')" and "agree st cur" and "validates cur t'"
  shows "v = scan_rows (patched (writes t) (snapshot cur)) kind start end limit"
proof (cases "limit = Some 0 \<or> (case end of None \<Rightarrow> False | Some e \<Rightarrow> e \<le> start)")
  case True
  then have "scan_rows r kind start end limit = []" for r :: "'a rows"
    by (auto simp: scan_rows_def take_limit_def in_range_def filter_empty_conv split: option.splits)
  with True assms(1) show ?thesis by (auto simp: mem_scan_def)
next
  case False
  let ?limit = "map_option (\<lambda>n. n + length (bt_entries (writes t))) limit"
  from False assms(1,3) have
    "map (\<lambda>(k, u, _). (k, u)) (mem_range cur kind start end ?limit) =
      map (\<lambda>(k, u, _). (k, u)) (mem_range st kind start end ?limit)"
    by (auto simp: mem_scan_def Let_def validates_iff scan_current_def)
  then have "mem_range st kind start end ?limit = mem_range cur kind start end ?limit"
    using agree_ranges assms(2) by metis
  then have "fst (mem_scan st kind start end limit t) =
      scan_rows (patched (writes t) (snapshot cur)) kind start end limit"
    using False by (rule mem_scan_value)
  with assms(1) show ?thesis by simp
qed

lemma patched_insert:
  "patched (bt_insert k (Some v) w) r = bt_insert k v (patched w r)"
  "patched (bt_insert k None w) r = bt_remove k (patched w r)"
  by (auto intro!: bt_eqI simp: bt_get_patched)

lemma mem_write_extends:
  "tx_extends (mem_write st k v t) t" "writes (mem_write st k v t) = bt_insert k v (writes t)"
  using mem_get_extends [of st k t "fst (mem_get st k t)" "snd (mem_get st k t)"]
  by (auto simp: mem_write_def Let_def tx_extends_def)

lemma mem_write_agree: "agree st cur \<Longrightarrow> reads_agree cur t \<Longrightarrow> reads_agree cur (mem_write st k v t)"
  by (auto simp: mem_write_def mem_get_def Let_def reads_agree_def agree_def bt_get_or_insert
      split: option.splits if_splits)

lemma mem_run_extends: "tx_extends (snd (mem_run m env n t)) t"
proof (induction m arbitrary: n t)
  case (Get k f)
  obtain v t1 where g: "mem_get (env n) k t = (v, t1)" by (cases "mem_get (env n) k t")
  have "tx_extends (snd (mem_run (f v) env (Suc n) t1)) t1" by (rule Get.IH) simp
  then show ?case using mem_get_extends [OF g] tx_extends_trans by (simp add: g) blast
next
  case (Scan kind start "end" limit f)
  obtain v t1 where g: "mem_scan (env n) kind start end limit t = (v, t1)"
    by (cases "mem_scan (env n) kind start end limit t")
  have "tx_extends (snd (mem_run (f v) env (Suc n) t1)) t1" by (rule Scan.IH) simp
  then show ?case using mem_scan_extends [OF g] tx_extends_trans by (simp add: g) blast
next
  case (Put k v m)
  then show ?case using mem_write_extends(1) tx_extends_trans by (simp del: split_paired_all) blast
next
  case (Delete k m)
  then show ?case using mem_write_extends(1) tx_extends_trans by (simp del: split_paired_all) blast
qed auto

lemma mem_run_result:
  assumes "mem_run m env n t = (res, t')" and "validates cur t'"
    and "\<And>i. agree (env i) cur" and "reads_agree cur t"
  shows "map_sum id fst (run m (patched (writes t) (snapshot cur))) = res
    \<and> (\<forall>a r. run m (patched (writes t) (snapshot cur)) = Inr (a, r) \<longrightarrow> r = patched (writes t') (snapshot cur))"
  using assms
proof (induction m arbitrary: n t)
  case (Get k f)
  obtain v t1 where g: "mem_get (env n) k t = (v, t1)" by (cases "mem_get (env n) k t")
  have t': "mem_run (f v) env (Suc n) t1 = (res, t')" using Get.prems(1) g by simp
  have "validates cur t1"
    using Get.prems(2) t' mem_run_extends [of "f v" env "Suc n" t1] by (auto intro: validates_extends)
  note v = mem_get_value [OF g Get.prems(3,4) this]
  show ?case
    using Get.IH [OF _ t' Get.prems(2,3) v(2)] v(1) mem_get_extends [OF g] by simp
next
  case (Scan kind start "end" limit f)
  obtain v t1 where g: "mem_scan (env n) kind start end limit t = (v, t1)"
    by (cases "mem_scan (env n) kind start end limit t")
  have t': "mem_run (f v) env (Suc n) t1 = (res, t')" using Scan.prems(1) g by simp
  have "validates cur t1"
    using Scan.prems(2) t' mem_run_extends [of "f v" env "Suc n" t1] by (auto intro: validates_extends)
  note v = mem_scan_result [OF g Scan.prems(3) this]
  have "reads_agree cur t1" using Scan.prems(4) mem_scan_extends [OF g] by (simp add: reads_agree_def)
  from Scan.IH [OF _ t' Scan.prems(2,3) this] v mem_scan_extends [OF g] show ?case by simp
next
  case (Put k v m)
  from Put.IH [OF _ Put.prems(2,3), of "Suc n" "mem_write (env n) k (Some v) t"] Put.prems
  show ?case by (simp add: mem_write_extends mem_write_agree patched_insert)
next
  case (Delete k m)
  from Delete.IH [OF _ Delete.prems(2,3), of "Suc n" "mem_write (env n) k None t"] Delete.prems
  show ?case by (simp add: mem_write_extends mem_write_agree patched_insert)
qed auto

section \<open>Histories\<close>

text \<open>
  The committed states of the backend, latest first: it starts empty, and every commit applies some
  transaction's writes under versions no earlier state has. That a UUID is never drawn twice is the
  one thing the adapter relies on.
\<close>

definition versions_of :: "'v versioned \<Rightarrow> uuid set" where
  "versions_of st = {u. \<exists>k v. bt_get st k = Some (u, v)}"

inductive history :: "'v versioned list \<Rightarrow> bool" where
  created: "history [bt_empty]"
| committed: "history (st # h) \<Longrightarrow> (\<And>i s. s \<in> set (st # h) \<Longrightarrow> fresh i \<notin> versions_of s) \<Longrightarrow>
    history (apply_writes fresh w st # st # h)"

lemma bt_get_fold_apply:
  "distinct (map fst xs) \<Longrightarrow> \<exists>i. bt_get (fold (apply_write fresh) (enumerate n xs) s) k =
     (case map_of xs k of Some v \<Rightarrow> map_option (Pair (fresh i)) v | None \<Rightarrow> bt_get s k)"
proof (induction xs arbitrary: n s)
  case (Cons x xs)
  obtain l v where x: "x = (l, v)" by (cases x)
  from Cons obtain i where i: "bt_get (fold (apply_write fresh) (enumerate (Suc n) xs) (apply_write fresh (n, x) s)) k =
      (case map_of xs k of Some v \<Rightarrow> map_option (Pair (fresh i)) v | None \<Rightarrow> bt_get (apply_write fresh (n, x) s) k)"
    by fastforce
  have "map_of xs l = None" using Cons.prems x by (auto simp: map_of_eq_None_iff)
  with i show ?case
    by (cases "k = l"; cases v) (auto simp: x split: option.splits)
qed simp

lemma bt_get_apply_writes:
  "\<exists>i. bt_get (apply_writes fresh w st) k =
     (case bt_get w k of Some v \<Rightarrow> map_option (Pair (fresh i)) v | None \<Rightarrow> bt_get st k)"
  unfolding apply_writes_def bt_get_def [of w] by (rule bt_get_fold_apply) simp

lemma agree_sym: "agree s t \<Longrightarrow> agree t s"
  by (auto simp: agree_def)

lemma agree_self: "agree s s"
  by (auto simp: agree_def)

lemma agree_apply_writes:
  assumes "agree st s" and "\<And>i. fresh i \<notin> versions_of s"
  shows "agree (apply_writes fresh w st) s"
  unfolding agree_def
proof (intro allI impI)
  fix k u v v' assume a: "bt_get (apply_writes fresh w st) k = Some (u, v)" "bt_get s k = Some (u, v')"
  have "u \<in> versions_of s" using a(2) by (auto simp: versions_of_def)
  with assms(2) have "u \<noteq> fresh i" for i by metis
  then have "bt_get st k = Some (u, v)" using bt_get_apply_writes [of fresh w st k] a(1)
    by (auto simp: eq_commute [of "Some _"] split: option.splits)
  with assms(1) a(2) show "v = v'" by (auto simp: agree_def)
qed

lemma history_agree: "history h \<Longrightarrow> s \<in> set h \<Longrightarrow> t \<in> set h \<Longrightarrow> agree s t"
proof (induction arbitrary: s t rule: history.induct)
  case (committed st h fresh w)
  have old: "agree (apply_writes fresh w st) u" if "u \<in> set (st # h)" for u
    using committed.IH [of st u] committed.hyps(2) that by (intro agree_apply_writes) auto
  with committed show ?case by (auto intro: agree_self agree_sym)
qed (simp add: agree_self)

lemma snapshot_apply_writes: "snapshot (apply_writes fresh w st) = patched w (snapshot st)"
proof (rule bt_eqI)
  fix k
  show "bt_get (snapshot (apply_writes fresh w st)) k = bt_get (patched w (snapshot st)) k"
    using bt_get_apply_writes [of fresh w st k]
    by (auto simp: bt_get_snapshot bt_get_patched option.map_comp o_def option.map_ident split: option.split)
qed

text \<open>
  C1. A memory transaction that commits is serializable: take any program, let it read the backend at
  any moments of its history, and let it commit on the current rows. Then its result and the rows
  it leaves are those of running the program alone on the rows it committed on.
\<close>

theorem memory_serializable:
  fixes m :: "('e, 'v, 'a) tx"
  assumes "history h" and "cur \<in> set h" and "\<And>n. env n \<in> set h"
    and "mem_run m env 0 begin_tx = (Inr a, t)"
    and "mem_commit fresh None t cur = (Inr (), cur')"
  shows "run m (snapshot cur) = Inr (a, snapshot cur')"
proof -
  have v: "validates cur t" and cur': "cur' = apply_writes fresh (writes t) cur"
    using assms(5) by (auto simp: mem_commit_def split: if_splits)
  have start: "reads_agree cur begin_tx" "patched (writes begin_tx) r = r" for r :: "'v rows"
    by (auto simp: begin_tx_def reads_agree_def intro: bt_eqI simp: bt_get_patched)
  have "agree (env i) cur" for i
    using assms(1-3) by (blast intro: history_agree)
  from mem_run_result [OF assms(4) v this start(1)] show ?thesis
    by (cases "run m (snapshot cur)") (auto simp: start(2) cur' snapshot_apply_writes)
qed

text \<open>
  A transaction that reads one key before and one after another transaction's commit and then writes
  both: its observations still hold, so it commits.
\<close>

definition sample_other :: "nat versioned" where
  "sample_other = apply_writes (\<lambda>_. 1) (bt_insert (''c'', ''z'') (Some 5) bt_empty) bt_empty"

definition sample_env :: "nat \<Rightarrow> nat versioned" where
  "sample_env n = (if n = 0 then bt_empty else sample_other)"

definition sample_program :: "(unit, nat, nat) tx" where
  "sample_program =
     bind (get ''a'' ''x'') (\<lambda>v.
     bind (scan ''c'' [] None (Some 1)) (\<lambda>rs.
     bind (put ''a'' ''x'' (length rs)) (\<lambda>_.
     bind (delete ''c'' ''z'') (\<lambda>_. Ret (length rs)))))"

lemma sample_history: "history [sample_other, bt_empty]"
  unfolding sample_other_def by (rule history.committed [OF history.created]) (simp add: versions_of_def)

theorem memory_serializable_witness:
  "run sample_program (snapshot sample_other) =
     Inr (1, snapshot (bt_insert (''a'', ''x'') (2, 1) bt_empty))"
proof -
  let ?t = "snd (mem_run sample_program sample_env 0 begin_tx)"
  have ran: "mem_run sample_program sample_env 0 begin_tx = (Inr 1, ?t)"
    by code_simp
  have fin: "mem_commit (\<lambda>_. 2) None ?t sample_other = (Inr (), bt_insert (''a'', ''x'') (2, 1) bt_empty)"
    by code_simp
  show ?thesis
    by (rule memory_serializable [OF sample_history _ _ ran fin]) (auto simp: sample_env_def)
qed

end
