(* ===== verification/Json.thy ===== *)
theory Json
  imports Prelude
begin

text \<open>
  JSON values as \<^verbatim>\<open>serde_json::Value\<close> holds them. The library keeps the members of an object in the order of insertion and
  compares objects without regard to it; an object the program builds is kept here in key order, so that equality of
  values is the library's. A parsed document keeps the order of its members, in which the parser reports problems. What else
  depends on that order, the text of a value, is a parameter. A number is an unsigned or a negative 64-bit integer,
  or the bits of a finite IEEE double.
\<close>

datatype number = PosInt nat | NegInt int | Float "64 word"

datatype json =
    Null
  | Bool bool
  | Number number
  | String string
  | Array "json list"
  | Object "(string \<times> json) list"

definition as_str :: "json \<Rightarrow> string option" where
  "as_str v = (case v of String s \<Rightarrow> Some s | _ \<Rightarrow> None)"

definition as_bool :: "json \<Rightarrow> bool option" where
  "as_bool v = (case v of Bool b \<Rightarrow> Some b | _ \<Rightarrow> None)"

definition as_u64 :: "json \<Rightarrow> nat option" where
  "as_u64 v = (case v of Number (PosInt n) \<Rightarrow> Some n | _ \<Rightarrow> None)"

definition num_as_i64 :: "number \<Rightarrow> int option" where
  "num_as_i64 n = (case n of PosInt m \<Rightarrow> if int m \<le> I64_MAX then Some (int m) else None
     | NegInt i \<Rightarrow> Some i | Float _ \<Rightarrow> None)"

definition num_as_u64 :: "number \<Rightarrow> nat option" where
  "num_as_u64 n = (case n of PosInt m \<Rightarrow> Some m | _ \<Rightarrow> None)"

definition of_i64 :: "int \<Rightarrow> number" where
  "of_i64 i = (if i < 0 then NegInt i else PosInt (nat i))"

text \<open>\<^verbatim>\<open>Value::get\<close> with a key: the member of an object, nothing for any other value.\<close>

definition member_of :: "json \<Rightarrow> string \<Rightarrow> json option" where
  "member_of v k = (case v of Object m \<Rightarrow> map_of m k | _ \<Rightarrow> None)"

text \<open>Inserting and removing a member.\<close>

definition obj_insert :: "string \<Rightarrow> json \<Rightarrow> (string \<times> json) list \<Rightarrow> (string \<times> json) list" where
  "obj_insert k v m = ins_entry k v m"

definition obj_remove :: "string \<Rightarrow> (string \<times> json) list \<Rightarrow> (string \<times> json) list" where
  "obj_remove k m = del_entry k m"

definition obj_or_insert :: "string \<Rightarrow> json \<Rightarrow> (string \<times> json) list \<Rightarrow> (string \<times> json) list" where
  "obj_or_insert k v m = (if map_of m k = None then ins_entry k v m else m)"

text \<open>\<^verbatim>\<open>json!({ ... })\<close> with literal members.\<close>

definition object :: "(string \<times> json) list \<Rightarrow> json" where
  "object ms = Object (fold (\<lambda>(k, v) m. ins_entry k v m) ms [])"

definition is_null :: "json \<Rightarrow> bool" where
  "is_null v \<longleftrightarrow> v = Null"

lemma as_str_Some [simp]: "as_str v = Some s \<longleftrightarrow> v = String s"
  by (cases v) (auto simp: as_str_def)

lemma as_str_String [simp]: "as_str (String s) = Some s"
  by simp

lemma member_of_Object [simp]: "member_of (Object m) k = map_of m k"
  by (simp add: member_of_def)

lemma map_of_obj [simp]:
  "map_of (obj_insert k v m) = (map_of m)(k \<mapsto> v)"
  "map_of (obj_remove k m) = (map_of m)(k := None)"
  by (simp_all add: obj_insert_def obj_remove_def)

lemma map_of_obj_or_insert [simp]:
  "map_of (obj_or_insert k v m) l =
    (if l = k then Some (case map_of m k of None \<Rightarrow> v | Some w \<Rightarrow> w) else map_of m l)"
  by (auto simp: obj_or_insert_def split: option.splits)

end
