(* ===== verification/Listen.thy ===== *)
theory Listen
  imports Json
begin

text \<open>
  Event consumption in the DSL (\<^verbatim>\<open>crates/ows/src/events.rs\<close> and the expression detection of
  \<^verbatim>\<open>crates/ows/src/expr.rs\<close>): filters, correlations and the strategies a \<^verbatim>\<open>listen\<close> feeds one event at
  a time. Evaluating jq is the work of the \<^verbatim>\<open>jaq\<close> crates, so the evaluator is a parameter
  \<open>jq code input args\<close>; so is \<open>text\<close>, the JSON text of a scalar.
\<close>

section \<open>Strict-mode expressions\<close>

text \<open>The UTF-8 bytes of the Unicode white space \<^verbatim>\<open>str::trim\<close> removes.\<close>

definition white_space :: "string list" where
  "white_space = map (map (\<lambda>b. char_of (b :: nat)))
     ([[9], [10], [11], [12], [13], [32], [0xC2, 0x85], [0xC2, 0xA0], [0xE1, 0x9A, 0x80]]
      @ map (\<lambda>b. [0xE2, 0x80, b]) [0x80..<0x8B]
      @ [[0xE2, 0x80, 0xA8], [0xE2, 0x80, 0xA9], [0xE2, 0x80, 0xAF], [0xE2, 0x81, 0x9F], [0xE3, 0x80, 0x80]])"

definition strip_prefix :: "string \<Rightarrow> string \<Rightarrow> string option" where
  "strip_prefix p s = (if take (length p) s = p then Some (drop (length p) s) else None)"

definition strip_suffix :: "string \<Rightarrow> string \<Rightarrow> string option" where
  "strip_suffix p s = map_option rev (strip_prefix (rev p) (rev s))"

text \<open>One white space character off the front, if there is one.\<close>

definition strip_any :: "string list \<Rightarrow> string \<Rightarrow> string option" where
  "strip_any ws s = (case filter (\<lambda>w. w \<noteq> [] \<and> strip_prefix w s \<noteq> None) ws of
     [] \<Rightarrow> None | w # _ \<Rightarrow> strip_prefix w s)"

lemma strip_any_shorter:
  assumes "strip_any ws s = Some r"
  shows "length r < length s"
proof -
  from assms obtain w ws' where f: "filter (\<lambda>w. w \<noteq> [] \<and> strip_prefix w s \<noteq> None) ws = w # ws'"
    and r: "strip_prefix w s = Some r"
    by (auto simp: strip_any_def split: list.splits)
  have "w \<in> set (filter (\<lambda>w. w \<noteq> [] \<and> strip_prefix w s \<noteq> None) ws)" unfolding f by simp
  then have "w \<noteq> []" by simp
  with r show ?thesis by (cases s) (auto simp: strip_prefix_def split: if_splits)
qed

function trim_front :: "string list \<Rightarrow> string \<Rightarrow> string" where
  "trim_front ws s = (case strip_any ws s of None \<Rightarrow> s | Some r \<Rightarrow> trim_front ws r)"
  by pat_completeness auto
termination
  by (relation "measure (\<lambda>(ws, s). length s)") (auto dest: strip_any_shorter)

declare trim_front.simps [simp del]

definition trim :: "string \<Rightarrow> string" where
  "trim s = rev (trim_front (map rev white_space) (rev (trim_front white_space s)))"

definition strip :: "string \<Rightarrow> string option" where
  "strip text = map_option trim (Option.bind (strip_prefix ''${'' (trim text)) (strip_suffix ''}''))"

definition truthy :: "json \<Rightarrow> bool" where
  "truthy v \<longleftrightarrow> \<not> (v = Null \<or> v = Bool False)"

section \<open>Variables, filters and strategies\<close>

record args =
  arg_names :: "string list"
  arg_values :: "json list"

definition args_new :: args where
  "args_new = \<lparr>arg_names = [], arg_values = []\<rparr>"

fun position :: "'a \<Rightarrow> 'a list \<Rightarrow> nat option" where
  "position x [] = None"
| "position x (y # ys) = (if x = y then Some 0 else map_option Suc (position x ys))"

definition args_set :: "string \<Rightarrow> json \<Rightarrow> args \<Rightarrow> args" where
  "args_set name value a =
     (let n = CHR ''$'' # name in
      case position n (arg_names a) of
        Some i \<Rightarrow> a\<lparr>arg_values := (arg_values a)[i := value]\<rparr>
      | None \<Rightarrow> a\<lparr>arg_names := arg_names a @ [n], arg_values := arg_values a @ [value]\<rparr>)"

record correlation =
  corr_from :: string
  corr_expect :: "string option"

record event_filter =
  with_attrs :: "(string \<times> json) list"
  correlate :: "(string \<times> correlation) list"

datatype strategy =
    One event_filter
  | Any "event_filter list" "until option"
  | All "event_filter list"
and until =
    Condition string
  | Events strategy

datatype offer = Ignored | Consumed | Until

datatype progress =
  Progress (filled: "bool list") (expectations: "(string, json) btree") (until_of: "progress option") (done_of: bool)

text \<open>An evaluation error, or a panic of the source (an index out of range, \<^verbatim>\<open>unreachable!\<close>).\<close>

datatype listen_error = EvalError string | Panic

type_synonym jq = "string \<Rightarrow> json \<Rightarrow> args \<Rightarrow> string + json"

definition eval :: "jq \<Rightarrow> string \<Rightarrow> json \<Rightarrow> args \<Rightarrow> listen_error + json" where
  "eval jq code input a = map_sum EvalError id (jq code input a)"

section \<open>Filters\<close>

text \<open>\<open>and_then m f\<close> is \<^verbatim>\<open>?\<close> on a plain \<^verbatim>\<open>Result\<close>.\<close>

definition and_then :: "'e + 'a \<Rightarrow> ('a \<Rightarrow> 'e + 'b) \<Rightarrow> 'e + 'b" where
  "and_then m f = (case m of Inl e \<Rightarrow> Inl e | Inr a \<Rightarrow> f a)"

lemma and_then_simps [simp]: "and_then (Inl e) f = Inl e" "and_then (Inr a) f = f a"
  by (simp_all add: and_then_def)

lemma and_then_Inr: "and_then m f = Inr b \<longleftrightarrow> (\<exists>a. m = Inr a \<and> f a = Inr b)"
  by (cases m) auto

lemma and_then_cong [fundef_cong]:
  "m = m' \<Longrightarrow> (\<And>a. m' = Inr a \<Longrightarrow> f a = g a) \<Longrightarrow> and_then m f = and_then m' g"
  by (cases m') auto

definition full_match :: "jq \<Rightarrow> string \<Rightarrow> string \<Rightarrow> bool" where
  "full_match jq pattern text \<longleftrightarrow>
     eval jq ''test($p)'' (String text) (args_set ''p'' (String (''^(?:'' @ pattern @ '')$'')) args_new)
       = Inr (Bool True)"

function attribute_matches :: "jq \<Rightarrow> json \<Rightarrow> json \<Rightarrow> args \<Rightarrow> listen_error + bool"
  and members_match :: "jq \<Rightarrow> (string \<times> json) list \<Rightarrow> json \<Rightarrow> args \<Rightarrow> bool \<Rightarrow> listen_error + bool"
where
  "attribute_matches jq expected actual a =
     (case expected of
        String s \<Rightarrow>
          (case strip s of
             Some code \<Rightarrow> and_then (eval jq code actual a) (\<lambda>out. case out of
                Bool b \<Rightarrow> Inr b
              | other \<Rightarrow> Inr (other = actual))
           | None \<Rightarrow> Inr (case as_str actual of None \<Rightarrow> False | Some t \<Rightarrow> t = s \<or> full_match jq s t))
      | Object ms \<Rightarrow>
          (case actual of Object _ \<Rightarrow> members_match jq ms actual a True | _ \<Rightarrow> Inr False)
      | other \<Rightarrow> Inr (other = actual))"
| "members_match jq [] actual a acc = Inr acc"
| "members_match jq ((k, v) # ms) actual a acc =
     and_then (attribute_matches jq v (case member_of actual k of None \<Rightarrow> Null | Some x \<Rightarrow> x) a)
       (\<lambda>b. members_match jq ms actual a (acc \<and> b))"
  by pat_completeness auto
termination
  by (relation "measure (\<lambda>x. case x of Inl (_, e, _) \<Rightarrow> size e
        | Inr (_, fs, _) \<Rightarrow> size_list (size_prod (\<lambda>_. 0) size) fs)") auto

text \<open>A string constant and an extracted scalar compare by their text.\<close>

definition same :: "(json \<Rightarrow> string) \<Rightarrow> json \<Rightarrow> json \<Rightarrow> bool" where
  "same text expected value \<longleftrightarrow> expected = value \<or>
     (case (expected, value) of
        (String e, Number _) \<Rightarrow> e = text value
      | (String e, Bool _) \<Rightarrow> e = text value
      | _ \<Rightarrow> False)"

text \<open>
  \<^verbatim>\<open>matches\<close>: every attribute, then the correlations in order; the values a correlation extracts
  first are recorded only when the whole filter matches.
\<close>

fun attributes_match :: "jq \<Rightarrow> (string \<times> json) list \<Rightarrow> json \<Rightarrow> args \<Rightarrow> listen_error + bool" where
  "attributes_match jq [] event a = Inr True"
| "attributes_match jq ((attribute, expected) # rest) event a =
     and_then (attribute_matches jq expected (case member_of event attribute of None \<Rightarrow> Null | Some x \<Rightarrow> x) a)
       (\<lambda>b. if b then attributes_match jq rest event a else Inr False)"

definition expected_value ::
  "jq \<Rightarrow> string \<Rightarrow> correlation \<Rightarrow> json \<Rightarrow> args \<Rightarrow> (string, json) btree \<Rightarrow> listen_error + json option" where
  "expected_value jq name c input a expected =
     (case corr_expect c of
        Some text \<Rightarrow> (case strip text of
            Some code \<Rightarrow> and_then (eval jq code input a) (\<lambda>v. Inr (Some v))
          | None \<Rightarrow> Inr (Some (String text)))
      | None \<Rightarrow> Inr (bt_get expected name))"

fun correlations_match ::
  "jq \<Rightarrow> (json \<Rightarrow> string) \<Rightarrow> (string \<times> correlation) list \<Rightarrow> json \<Rightarrow> json \<Rightarrow> args \<Rightarrow> (string, json) btree
    \<Rightarrow> (string \<times> json) list \<Rightarrow> listen_error + (string \<times> json) list option" where
  "correlations_match jq text [] event input a expected found = Inr (Some found)"
| "correlations_match jq text ((name, c) # rest) event input a expected found =
     and_then (eval jq (corr_from c) event a) (\<lambda>value.
     and_then (expected_value jq name c input a expected) (\<lambda>e.
       case e of
         Some x \<Rightarrow> if same text x value
           then correlations_match jq text rest event input a expected found else Inr None
       | None \<Rightarrow> correlations_match jq text rest event input a expected (found @ [(name, value)])))"

definition matches ::
  "jq \<Rightarrow> (json \<Rightarrow> string) \<Rightarrow> event_filter \<Rightarrow> json \<Rightarrow> json \<Rightarrow> args \<Rightarrow> (string, json) btree
    \<Rightarrow> listen_error + (bool \<times> (string, json) btree)" where
  "matches jq text f event input a expected =
     and_then (attributes_match jq (with_attrs f) event a) (\<lambda>b.
       if \<not> b then Inr (False, expected)
       else and_then (correlations_match jq text (correlate f) event input a expected []) (\<lambda>found.
         case found of
           None \<Rightarrow> Inr (False, expected)
         | Some new \<Rightarrow> Inr (True, fold (\<lambda>(k, v) t. bt_insert k v t) new expected)))"

section \<open>Consumers\<close>

fun consumer_new :: "strategy \<Rightarrow> progress" where
  "consumer_new (All filters) = Progress (replicate (length filters) False) bt_empty None False"
| "consumer_new (Any filters (Some (Events s))) = Progress [] bt_empty (Some (consumer_new s)) False"
| "consumer_new (One f) = Progress [] bt_empty None False"
| "consumer_new (Any filters None) = Progress [] bt_empty None False"
| "consumer_new (Any filters (Some (Condition c))) = Progress [] bt_empty None False"

text \<open>The first unfilled filter of an \<^verbatim>\<open>all\<close> strategy that matches, from position \<open>i\<close>.\<close>

fun fill ::
  "jq \<Rightarrow> (json \<Rightarrow> string) \<Rightarrow> event_filter list \<Rightarrow> nat \<Rightarrow> json \<Rightarrow> json \<Rightarrow> args \<Rightarrow> progress
    \<Rightarrow> listen_error + (offer \<times> progress)" where
  "fill jq text [] i event input a p = Inr (Ignored, p)"
| "fill jq text (f # fs) i event input a p =
     (if length (filled p) \<le> i then Inl Panic
      else if filled p ! i then fill jq text fs (Suc i) event input a p
      else and_then (matches jq text f event input a (expectations p)) (\<lambda>(hit, e).
        if hit then
          let done = (filled p)[i := True]
          in Inr (Consumed, Progress done e (until_of p) (list_all id done))
        else fill jq text fs (Suc i) event input a (Progress (filled p) e (until_of p) (done_of p))))"

text \<open>Whether one of the filters of an \<^verbatim>\<open>any\<close> strategy matches, trying them in order.\<close>

fun any_hit ::
  "jq \<Rightarrow> (json \<Rightarrow> string) \<Rightarrow> event_filter list \<Rightarrow> json \<Rightarrow> json \<Rightarrow> args \<Rightarrow> (string, json) btree
    \<Rightarrow> listen_error + (bool \<times> (string, json) btree)" where
  "any_hit jq text [] event input a e = Inr (False, e)"
| "any_hit jq text (f # fs) event input a e =
     and_then (matches jq text f event input a e) (\<lambda>(hit, e').
       if hit then Inr (True, e') else any_hit jq text fs event input a e')"

definition offer_any ::
  "jq \<Rightarrow> (json \<Rightarrow> string) \<Rightarrow> event_filter list \<Rightarrow> until option \<Rightarrow> progress \<Rightarrow> json \<Rightarrow> json \<Rightarrow> args
    \<Rightarrow> listen_error + (offer \<times> progress)" where
  "offer_any jq text filters u p event input a =
     (if filters = [] then Inr (Consumed, Progress (filled p) (expectations p) (until_of p) (u = None))
      else and_then (any_hit jq text filters event input a (expectations p)) (\<lambda>(hit, e).
        if hit then Inr (Consumed, Progress (filled p) e (until_of p) (u = None))
        else Inr (Ignored, Progress (filled p) e (until_of p) (done_of p))))"

fun consumer_offer ::
  "jq \<Rightarrow> (json \<Rightarrow> string) \<Rightarrow> strategy \<Rightarrow> progress \<Rightarrow> json \<Rightarrow> json \<Rightarrow> args
    \<Rightarrow> listen_error + (offer \<times> progress)" where
  "consumer_offer jq text (One f) p event input a =
     (if done_of p then Inr (Ignored, p)
      else and_then (matches jq text f event input a (expectations p)) (\<lambda>(hit, e).
        if hit then Inr (Consumed, Progress (filled p) e (until_of p) True)
        else Inr (Ignored, Progress (filled p) e (until_of p) (done_of p))))"
| "consumer_offer jq text (All fs) p event input a =
     (if done_of p then Inr (Ignored, p) else fill jq text fs 0 event input a p)"
| "consumer_offer jq text (Any fs u) p event input a =
     (if done_of p then Inr (Ignored, p)
      else case until_of p of
        None \<Rightarrow> offer_any jq text fs u p event input a
      | Some q \<Rightarrow>
          (case u of
             Some (Events s) \<Rightarrow>
               and_then (consumer_offer jq text s q event input a) (\<lambda>(o', q').
                 if o' \<noteq> Ignored
                 then Inr (Until, Progress (filled p) (expectations p) (Some q') (done_of q'))
                 else offer_any jq text fs u (Progress (filled p) (expectations p) (Some q') (done_of p)) event input a)
           | _ \<Rightarrow> Inl Panic))"

record pending_wait =
  pw_types :: "string list"
  pw_strategy :: strategy
  pw_input :: json
  pw_args :: args
  pw_progress :: progress
  pw_position :: string
  pw_since_ms :: int
  pw_timeout_ms :: "int option"
  pw_redacted :: bool

definition accepts :: "jq \<Rightarrow> (json \<Rightarrow> string) \<Rightarrow> pending_wait \<Rightarrow> json \<Rightarrow> listen_error + bool" where
  "accepts jq text w event =
     (if pw_redacted w then Inl (EvalError ''wait matching requires redacted secrets'')
      else and_then (consumer_offer jq text (pw_strategy w) (pw_progress w) event (pw_input w) (pw_args w))
        (\<lambda>(o', _). Inr (o' \<noteq> Ignored)))"

end
