(* ===== verification/Journal.thy ===== *)
theory Journal
  imports Listen
begin

text \<open>
  The durable journal's vocabulary (\<^verbatim>\<open>crates/ows/src/durable.rs\<close>): records, which of their
  transitions are legal, call entries, and the bounded totals of numeric annotations. Adding two
  JSON numbers that are not both integers in range is IEEE double arithmetic (\<open>float_sum\<close>) and the
  length of a map's JSON text is \<^verbatim>\<open>serde_json\<close>'s (\<open>json_len\<close>): both are parameters.
\<close>

section \<open>Outcomes\<close>

record workflow_error =
  err_type :: string
  err_status :: nat
  err_title :: "string option"
  err_detail :: "string option"
  err_instance :: "string option"

definition STANDARD_ERRORS :: string where
  "STANDARD_ERRORS = ''https://open-workflow-specification.org/spec/1.0.0/errors/''"

definition runtime_error :: "string \<Rightarrow> workflow_error" where
  "runtime_error detail = \<lparr>err_type = STANDARD_ERRORS @ ''runtime'', err_status = 500,
     err_title = Some ''Runtime Error'', err_detail = Some detail, err_instance = None\<rparr>"

datatype status =
    Completed json
  | Faulted workflow_error
  | Cancelled
  | Waiting (wake_at_ms: int)
  | Interrupted workflow_error

datatype flow = Continue | Exit | End | Goto string

section \<open>Records\<close>

datatype delivery = AtLeastOnce | AtMostOnce

datatype call_state =
    Pending
  | NotExecuted workflow_error
  | Done "workflow_error + json"

datatype annotation = ANumber number | AText string

type_synonym annotations = "(string, annotation) btree"
type_synonym totals = "(string, number) btree"

datatype step_outcome = StepCompleted json flow | StepFaulted workflow_error bool

record task_result =
  tr_context :: json
  tr_outcome :: step_outcome

datatype journal_record =
    Execution (ex_version: nat) (ex_run_id: string) (ex_definition: json) (ex_input: json) (ex_runtime: json)
      (ex_started_ms: int) (ex_max_tasks: nat) (ex_max_attempts: nat)
  | Task (task_started_ms: int) (task_res: "task_result option")
  | Call (logical: string) (call_function: string) (arguments: json) (call_delivery: delivery) (call_st: call_state)
      (call_annotations: annotations)
  | Event json
  | Expired json
  | Timer int
  | Retry "nat option"
  | Winner json
  | Finished status
  | Budget (granted: bool) (spent: nat) (first_refused: "string option")
  | Exceeded (by_key: string)

definition VERSION :: nat where
  "VERSION = 15"

definition EXCEEDED :: string where
  "EXCEEDED = ''exceeded''"

section \<open>Transitions\<close>

text \<open>Only pending tasks and calls may advance.\<close>

definition is_done :: "call_state \<Rightarrow> bool" where
  "is_done s \<longleftrightarrow> (case s of Done _ \<Rightarrow> True | _ \<Rightarrow> False)"

definition check_transition :: "journal_record \<Rightarrow> journal_record \<Rightarrow> bool" where
  "check_transition old new \<longleftrightarrow> old = new \<or>
     (case (old, new) of
        (Task a None, Task b _) \<Rightarrow> a = b
      | (Call l a b d s _, Call m e f h _ _) \<Rightarrow> \<not> is_done s \<and> l = m \<and> a = e \<and> b = f \<and> d = h
      | _ \<Rightarrow> False)"

section \<open>The call journal\<close>

definition CALL_NOT_EXECUTED :: string where
  "CALL_NOT_EXECUTED = ''urn:ouro:errors:call.not_executed''"

definition CALL_UNKNOWN :: string where
  "CALL_UNKNOWN = ''urn:ouro:errors:call.unknown''"

definition CALL_INTERRUPTED :: string where
  "CALL_INTERRUPTED = ''urn:ouro:errors:call.interrupted''"

datatype call_failure =
    FNotExecuted workflow_error
  | FResponse workflow_error
  | FUnknown workflow_error
  | FInterrupted workflow_error

definition answer :: "workflow_error \<Rightarrow> call_failure" where
  "answer e =
     (if err_type e = CALL_NOT_EXECUTED then FNotExecuted e
      else if err_type e = CALL_UNKNOWN then FUnknown e
      else if err_type e = CALL_INTERRUPTED then FInterrupted e
      else FResponse e)"

fun failure_error :: "call_failure \<Rightarrow> workflow_error" where
  "failure_error (FNotExecuted e) = e"
| "failure_error (FResponse e) = e"
| "failure_error (FUnknown e) = e"
| "failure_error (FInterrupted e) = e"

datatype call_status = CPending | CCompleted | CFailed | CNotExecuted | CUnknown

record call_entry =
  ce_key :: string
  ce_function :: string
  ce_delivery :: delivery
  ce_state :: call_status
  ce_annotations :: annotations

definition call_entry_of :: "string \<Rightarrow> journal_record \<Rightarrow> call_entry option" where
  "call_entry_of k r =
     (case r of
        Call _ f _ d s ann \<Rightarrow>
          Some \<lparr>ce_key = k, ce_function = f, ce_delivery = d,
            ce_state = (case s of
                Pending \<Rightarrow> if d = AtMostOnce then CUnknown else CPending
              | NotExecuted _ \<Rightarrow> CNotExecuted
              | Done (Inr _) \<Rightarrow> CCompleted
              | Done (Inl _) \<Rightarrow> CFailed),
            ce_annotations = ann\<rparr>
      | _ \<Rightarrow> None)"

definition call_journal :: "(string, journal_record) btree \<Rightarrow> call_entry list" where
  "call_journal records = List.map_filter (\<lambda>(k, r). call_entry_of k r) (bt_entries records)"

section \<open>Annotation totals\<close>

definition MAX_ANNOTATIONS :: nat where
  "MAX_ANNOTATIONS = 32"

definition MAX_ANNOTATION_BYTES :: nat where
  "MAX_ANNOTATION_BYTES = 4096"

type_synonym float_sum = "number \<Rightarrow> number \<Rightarrow> number option"

definition add_numbers :: "float_sum \<Rightarrow> number \<Rightarrow> number \<Rightarrow> number option" where
  "add_numbers fsum a b =
     (case (num_as_i64 a, num_as_i64 b) of
        (Some x, Some y) \<Rightarrow>
          if is_i64 (x + y) then Some (of_i64 (x + y))
          else (case (num_as_u64 a, num_as_u64 b) of
             (Some x, Some y) \<Rightarrow> if x + y \<le> U64_MAX then Some (PosInt (x + y)) else fsum a b
           | _ \<Rightarrow> fsum a b)
      | _ \<Rightarrow>
          (case (num_as_u64 a, num_as_u64 b) of
             (Some x, Some y) \<Rightarrow> if x + y \<le> U64_MAX then Some (PosInt (x + y)) else fsum a b
           | _ \<Rightarrow> fsum a b))"

definition add_to :: "float_sum \<Rightarrow> totals \<Rightarrow> string \<Rightarrow> number \<Rightarrow> totals" where
  "add_to fsum t name n =
     bt_insert name
       (case bt_get t name of
          Some old \<Rightarrow> (case add_numbers fsum old n of Some s \<Rightarrow> s | None \<Rightarrow> old)
        | None \<Rightarrow> n) t"

definition numbers :: "annotations \<Rightarrow> (string \<times> number) list" where
  "numbers ann = List.map_filter (\<lambda>(k, a). case a of ANumber n \<Rightarrow> Some (k, n) | AText _ \<Rightarrow> None) (bt_entries ann)"

fun accumulate :: "float_sum \<Rightarrow> (totals \<Rightarrow> nat) \<Rightarrow> totals \<Rightarrow> (string \<times> number) list \<Rightarrow> totals" where
  "accumulate fsum json_len t [] = t"
| "accumulate fsum json_len t ((name, n) # rest) =
     (if bt_has t name then accumulate fsum json_len (add_to fsum t name n) rest
      else if MAX_ANNOTATIONS \<le> length (bt_entries t) then accumulate fsum json_len t rest
      else
        let t' = bt_insert name n t
        in accumulate fsum json_len (if MAX_ANNOTATION_BYTES < json_len t' then bt_remove name t' else t') rest)"

end
