(* ===== verification/Store_Types.thy ===== *)
theory Store_Types
  imports Journal Transaction
begin

text \<open>
  The data of the durable store (\<^verbatim>\<open>crates/durable/src/lib.rs\<close>, \<^verbatim>\<open>control.rs\<close> and the row structs of
  \<^verbatim>\<open>engine.rs\<close>), its errors, and the values a row may hold. A row of the database is the JSON
  encoding of one of these structs; \<open>row\<close> keeps the struct, so decoding is matching on the
  constructor and a value of another shape is the decoding error \<open>Decode\<close>.
\<close>

section \<open>Text\<close>

text \<open>Decimal and fixed-width hexadecimal formatting (\<^verbatim>\<open>{}\<close>, \<^verbatim>\<open>{:02x}\<close>, \<^verbatim>\<open>{:016x}\<close>).\<close>

definition digit_char :: "nat \<Rightarrow> char" where
  "digit_char d = (if d < 10 then char_of (48 + d) else char_of (87 + d))"

fun decimal :: "nat \<Rightarrow> string" where
  "decimal n = (if n < 10 then [digit_char n] else decimal (n div 10) @ [digit_char (n mod 10)])"

declare decimal.simps [simp del]

primrec hex_fixed :: "nat \<Rightarrow> nat \<Rightarrow> string" where
  "hex_fixed 0 n = []"
| "hex_fixed (Suc w) n = hex_fixed w (n div 16) @ [digit_char (n mod 16)]"

section \<open>Admissions\<close>

definition LEASE_MS :: int where "LEASE_MS = 30000"
definition MAX_INTERRUPTIONS :: nat where "MAX_INTERRUPTIONS = 10"
definition MAILBOX_KEPT_MS :: int where "MAILBOX_KEPT_MS = 24 * 3600000"
definition INGRESS_KEPT_MS :: int where "INGRESS_KEPT_MS = 7 * 24 * 3600000"
definition CLOCK_SKEW_MS :: int where "CLOCK_SKEW_MS = 1000"
definition APPLICATION_VERSION :: string where "APPLICATION_VERSION = ''application_version''"
definition PINNED :: string where "PINNED = ''pinned''"
definition HOST :: string where "HOST = ''host''"

record policy =
  mailbox_ms :: int
  ingress_ms :: int
  skew_ms :: int

definition default_policy :: policy where
  "default_policy = \<lparr>mailbox_ms = MAILBOX_KEPT_MS, ingress_ms = INGRESS_KEPT_MS, skew_ms = CLOCK_SKEW_MS\<rparr>"

record admission =
  a_id :: string
  a_name :: string
  a_version :: nat
  a_definition :: string
  a_input :: json
  a_runtime :: json

definition pinned :: "admission \<Rightarrow> bool" where
  "pinned a = (case Option.bind (member_of (a_runtime a) PINNED) as_bool of None \<Rightarrow> False | Some b \<Rightarrow> b)"

definition application_version :: "admission \<Rightarrow> string option" where
  "application_version a = Option.bind (member_of (a_runtime a) APPLICATION_VERSION) as_str"

definition host :: "admission \<Rightarrow> json option" where
  "host a = (case member_of (a_runtime a) HOST of Some h \<Rightarrow> if is_null h then None else Some h | None \<Rightarrow> None)"

datatype admission_field = FName | FVersion | FHost | FLink

text \<open>\<open>joins a name version host\<close> is the field the join disagrees on, if any.\<close>

definition joins :: "admission \<Rightarrow> string \<Rightarrow> nat option \<Rightarrow> json option \<Rightarrow> admission_field option" where
  "joins a name version h =
     (if a_name a \<noteq> name then Some FName
      else if (case version of None \<Rightarrow> False | Some v \<Rightarrow> v \<noteq> a_version a) then Some FVersion
      else if host a \<noteq> h then Some FHost
      else None)"

record compatibility =
  c_version :: "string option"
  c_accepts :: "string list"

definition admits :: "compatibility \<Rightarrow> string option \<Rightarrow> bool" where
  "admits w r =
     (case (r, c_version w) of
        (Some v, Some own) \<Rightarrow> v = own \<or> v \<in> set (c_accepts w)
      | _ \<Rightarrow> True)"

section \<open>Runs\<close>

record fence =
  f_run_id :: string
  f_owner :: string
  f_generation :: nat

datatype run_state = StReady | StRunning | StWaiting | StCompleted | StFailed | StCancelled

record child_link =
  l_parent :: string
  l_key :: string
  l_reference :: string

record hold =
  h_actor :: string
  h_reason :: string
  h_note :: string
  h_at_ms :: int

record saved_run =
  r_admission :: admission
  r_state :: run_state
  r_fence :: "fence option"
  r_generation :: nat
  r_lease_until_ms :: "int option"
  r_wake_at_ms :: int
  r_interruptions :: nat
  r_outcome :: "status option"
  r_ended_ms :: "int option"
  r_child :: "child_link option"
  r_admitted_ms :: int
  r_epoch :: "nat option"
  r_root :: "string option"
  r_annotations :: totals
  r_held :: "hold option"

record stored_event =
  e_type :: string
  e_data :: json
  e_delivered_at_ms :: int
  e_consumed_key :: "string option"
  e_envelope :: "json option"
  e_delivered :: bool
  e_expires_at_ms :: "int option"

record run_snapshot =
  rs_run :: saved_run
  rs_records :: "(string, journal_record) btree"
  rs_awaits :: "(string, int) btree"
  rs_listeners :: "(string, string list) btree"
  rs_events :: "stored_event list"
  rs_subscriptions :: "(string, string list) btree"

section \<open>Definitions\<close>

datatype breaker = Inherit | Off | Threshold nat

definition effective :: "breaker \<Rightarrow> nat \<Rightarrow> nat option" where
  "effective b dflt = (case b of Inherit \<Rightarrow> Some (max dflt 1) | Off \<Rightarrow> None | Threshold n \<Rightarrow> Some (max n 1))"

datatype overlap = OSkip | OAllow | OQueue | OReplace

record definition_version =
  dv_name :: string
  dv_version :: nat
  dv_yaml :: string
  dv_digest :: string
  dv_breaker :: breaker

record activation =
  act_at_ms :: int
  act_actor :: "string option"
  act_note :: "string option"

definition activation_at :: "int \<Rightarrow> activation" where
  "activation_at at_ms = \<lparr>act_at_ms = at_ms, act_actor = None, act_note = None\<rparr>"

record activated =
  ad_epoch :: nat
  ad_at_ms :: int
  ad_actor :: "string option"
  ad_note :: "string option"

record manual_trip =
  mt_actor :: string
  mt_reason :: string
  mt_note :: string

record trip =
  t_manual :: "manual_trip option"
  t_breaker :: bool
  t_version :: nat
  t_digest :: string
  t_epoch :: nat
  t_faults :: nat
  t_threshold :: nat
  t_run :: string
  t_reason :: workflow_error
  t_at_ms :: int

record definitions =
  d_versions :: "(nat, definition_version) btree"
  d_active :: "nat option"
  d_consecutive_faults :: nat
  d_epoch :: nat
  d_tripped :: "trip option"
  d_triggers :: "string list"
  d_activations :: "(nat, activated) btree"

definition default_definitions :: definitions where
  "default_definitions = \<lparr>d_versions = bt_empty, d_active = None, d_consecutive_faults = 0, d_epoch = 0,
     d_tripped = None, d_triggers = [], d_activations = bt_empty\<rparr>"

record definition_tripped =
  dt_name :: string
  dt_epoch :: nat
  dt_version :: nat
  dt_faults :: nat
  dt_paused :: bool

definition refusal :: "trip \<Rightarrow> string \<Rightarrow> definition_tripped" where
  "refusal t name = \<lparr>dt_name = name, dt_epoch = t_epoch t, dt_version = t_version t, dt_faults = t_faults t,
     dt_paused = (t_manual t \<noteq> None)\<rparr>"

section \<open>Triggers\<close>

record trigger =
  tg_at_ms :: "int option"
  tg_types :: "string list"
  tg_state :: json

record rearm =
  ra_trigger :: string
  ra_delay_ms :: int

record refused =
  rf_admission :: admission
  rf_error :: workflow_error
  rf_breaker_threshold :: nat

record overlap_guard =
  og_policy :: overlap
  og_max_concurrent_runs :: nat
  og_ceiling :: trigger

record firing =
  fi_key :: string
  fi_expected :: "trigger option"
  fi_next :: "trigger option"
  fi_admit :: "admission list"
  fi_rearm :: "rearm option"
  fi_ingress :: "json option"
  fi_busy :: "trigger option"
  fi_refused :: "refused option"
  fi_overlap :: "overlap_guard option"

datatype fired = FCommitted | FChanged | FBusy string | FIngested | FQueued | FCeiling

record queued_slot =
  q_version :: nat
  q_admission :: admission
  q_rearm :: "rearm option"
  q_max_concurrent_runs :: nat
  q_failure :: "(workflow_error \<times> nat) option"

record tombstone_row =
  ts_payload :: json
  ts_expires_at_ms :: int

section \<open>Operator commands\<close>

record request =
  rq_id :: string
  rq_actor :: string
  rq_reason :: string

datatype command =
    Cancel string
  | Pause string string
  | Resume string
  | Hold string string
  | Release string
  | Stop bool
  | Respond string string json

datatype reply = Changed bool | Responded "string option"

record applied =
  ap_reply :: reply
  ap_repeated :: bool

record entry =
  en_request :: request
  en_command :: command
  en_at_ms :: int
  en_reply :: reply

datatype entity = ERun | EDefinition

record wait_entry =
  w_run :: string
  w_definition :: string
  w_key :: string
  w_waiting :: pending_wait

record worker =
  wk_id :: string
  wk_host :: "string option"
  wk_application :: "string option"
  wk_started_ms :: int
  wk_beat_ms :: int
  wk_expires_ms :: int
  wk_held :: nat

section \<open>The run row\<close>

record pending_count =
  pc_copies :: nat
  pc_cloud :: nat

record stored_run =
  s_version :: nat
  s_run :: saved_run
  s_digest :: string
  s_awaits :: "(string, int) btree"
  s_listeners :: "(string, string list) btree"
  s_subscriptions :: "(string, string list) btree"
  s_waits :: "(string, pending_wait) btree"
  s_budget_ended :: "nat option"
  s_addressed_waits :: "(string, unit) btree"
  s_rearm :: "(rearm \<times> trigger) option"
  s_trigger :: "string option"
  s_accepted :: nat
  s_pending :: "(string, pending_count) btree"
  s_published :: nat
  s_mailbox :: "int option"
  s_evidence :: bool

record bucket =
  b_runs :: nat
  b_annotations :: totals

section \<open>Errors\<close>

text \<open>
  What an operation can fail with: the typed errors the store raises, any other message
  (\<^verbatim>\<open>anyhow!\<close>), and a row that does not decode. \<open>Diverged\<close> is not the code's: it is what a loop
  of the model answers when its fuel runs out.
\<close>

datatype error =
    Message string
  | Decode
  | Stopped
  | Held string
  | AdmissionMismatch string admission_field
  | DefinitionTripped definition_tripped
  | IdentityConflict string
  | NotFound entity string
  | RequestConflict string
  | ResponseConflict string
  | InvalidState string
  | WaitClosed string string
  | WaitMismatch string string
  | InvalidInput string
  | Diverged

section \<open>Rows\<close>

datatype row =
    RJson json
  | RRun stored_run
  | RDefinitions nat definitions
  | RTrigger trigger
  | RQueued queued_slot
  | RTombstone tombstone_row
  | RRecord journal_record
  | REvent stored_event
  | RWait wait_entry
  | RBucket bucket
  | RWorker worker
  | REntry entry
  | RPaused nat "(string \<times> trigger) list" "(string \<times> row) list"

type_synonym 'a op = "(error, row, 'a) tx"
type_synonym db = "row rows"

text \<open>Values of a row, by the type the code decodes it to.\<close>

definition row_u64 :: "row \<Rightarrow> nat option" where
  "row_u64 v = (case v of RJson j \<Rightarrow> as_u64 j | _ \<Rightarrow> None)"

definition row_bool :: "row \<Rightarrow> bool option" where
  "row_bool v = (case v of RJson j \<Rightarrow> as_bool j | _ \<Rightarrow> None)"

definition row_string :: "row \<Rightarrow> string option" where
  "row_string v = (case v of RJson j \<Rightarrow> as_str j | _ \<Rightarrow> None)"

definition row_trigger :: "row \<Rightarrow> trigger option" where
  "row_trigger v = (case v of RTrigger t \<Rightarrow> Some t | _ \<Rightarrow> None)"

definition row_record :: "row \<Rightarrow> journal_record option" where
  "row_record v = (case v of RRecord r \<Rightarrow> Some r | _ \<Rightarrow> None)"

definition row_event :: "row \<Rightarrow> stored_event option" where
  "row_event v = (case v of REvent e \<Rightarrow> Some e | _ \<Rightarrow> None)"

definition row_tombstone :: "row \<Rightarrow> tombstone_row option" where
  "row_tombstone v = (case v of RTombstone t \<Rightarrow> Some t | _ \<Rightarrow> None)"

definition row_queued :: "row \<Rightarrow> queued_slot option" where
  "row_queued v = (case v of RQueued q \<Rightarrow> Some q | _ \<Rightarrow> None)"

definition row_bucket :: "row \<Rightarrow> bucket option" where
  "row_bucket v = (case v of RBucket b \<Rightarrow> Some b | _ \<Rightarrow> None)"

definition row_worker :: "row \<Rightarrow> worker option" where
  "row_worker v = (case v of RWorker w \<Rightarrow> Some w | _ \<Rightarrow> None)"

definition row_entry :: "row \<Rightarrow> entry option" where
  "row_entry v = (case v of REntry e \<Rightarrow> Some e | _ \<Rightarrow> None)"

definition row_wait :: "row \<Rightarrow> wait_entry option" where
  "row_wait v = (case v of RWait w \<Rightarrow> Some w | _ \<Rightarrow> None)"

lemmas row_simps [simp] =
  row_u64_def row_bool_def row_string_def row_trigger_def row_record_def row_event_def
  row_tombstone_def row_queued_def row_bucket_def row_worker_def row_entry_def row_wait_def

abbreviation u64_row :: "nat \<Rightarrow> row" where
  "u64_row n \<equiv> RJson (Number (PosInt n))"

text \<open>\<^verbatim>\<open>fn get\<close>: a typed point read.\<close>

definition get_as :: "(row \<Rightarrow> 'a option) \<Rightarrow> string \<Rightarrow> string \<Rightarrow> 'a option op" where
  "get_as dec kind i =
     bind (get kind i) (\<lambda>v. case v of None \<Rightarrow> Ret None
       | Some w \<Rightarrow> bind (of_option Decode (dec w)) (\<lambda>a. Ret (Some a)))"

lemma commits_get_as [simp]:
  "commits (get_as dec kind i) r a s \<longleftrightarrow> s = r \<and>
     (case bt_get r (kind, i) of None \<Rightarrow> a = None | Some w \<Rightarrow> \<exists>b. dec w = Some b \<and> a = Some b)"
  by (auto simp: get_as_def split: option.splits)

lemma run_get_as [run_simps]:
  "run (get_as dec kind i) r =
     (case bt_get r (kind, i) of None \<Rightarrow> Inr (None, r)
      | Some w \<Rightarrow> (case dec w of None \<Rightarrow> Inl Decode | Some b \<Rightarrow> Inr (Some b, r)))"
  by (simp add: get_as_def run_bind run_get run_of_option split: option.split)

lemma writes_in_get_as [simp]: "writes_in K (get_as dec kind i)"
  by (auto simp: get_as_def split: option.split intro!: writes_in_bind)

section \<open>Third-party functions\<close>

text \<open>
  Functions of other crates the engine calls: SHA-256 (\<^verbatim>\<open>sha2\<close>), YAML parsing (\<^verbatim>\<open>serde_yaml_ng\<close>), the
  JSON text of a value and of a totals map's length (\<^verbatim>\<open>serde_json\<close>), RFC 3339 formatting of a
  timestamp, which fails outside \<^verbatim>\<open>chrono\<close>'s range, double addition of JSON numbers, and jq.
\<close>

record ext =
  x_sha256 :: "string \<Rightarrow> string"
  x_yaml :: "string \<Rightarrow> json option"
  x_text :: "json \<Rightarrow> string"
  x_totals_len :: "totals \<Rightarrow> nat"
  x_rfc3339 :: "int \<Rightarrow> string option"
  x_float_sum :: float_sum
  x_jq :: jq

end
