(* ===== verification/Keys.thy ===== *)
theory Keys
  imports Store_Types
begin

text \<open>
  Row keys (\<^verbatim>\<open>crates/durable/src/engine.rs\<close>, section 1): hexadecimal components that keep the
  parts of a key apart, time keys whose byte order is the order of the instants, and the partitions
  of the index families.
\<close>

unbundle bit_operations_syntax

definition component :: "string \<Rightarrow> string" where
  "component value = concat (map (\<lambda>b. hex_fixed 2 (of_char b)) value)"

text \<open>The sign bit is flipped so that the byte order also covers negative timestamps.\<close>

definition time_key :: "int \<Rightarrow> string" where
  "time_key ms = hex_fixed 16 (unat ((word_of_int ms :: 64 word) XOR word_of_int I64_MIN))"

definition timed :: "int \<Rightarrow> string \<Rightarrow> string" where
  "timed ms i = time_key ms @ '':'' @ i"

definition until_key :: "int \<Rightarrow> string" where
  "until_key ms = time_key ms @ '';''"

definition partition :: "string \<Rightarrow> string \<Rightarrow> string" where
  "partition kind value = kind @ '':'' @ component value"

definition records_of :: "string \<Rightarrow> string" where
  "records_of r = partition ''record'' r"

definition events_of :: "string \<Rightarrow> string" where
  "events_of r = partition ''event'' r"

definition identities_of :: "string \<Rightarrow> string" where
  "identities_of r = partition ''event_id'' r"

definition types_of :: "string \<Rightarrow> string" where
  "types_of r = partition ''event_type'' r"

definition pending_of :: "string \<Rightarrow> string \<Rightarrow> string" where
  "pending_of r t = partition ''pending'' r @ '':'' @ component t"

definition live_of :: "string \<Rightarrow> string \<Rightarrow> string" where
  "live_of r t = partition ''live'' r @ '':'' @ component t"

definition published_of :: "string \<Rightarrow> string" where
  "published_of r = partition ''published'' r"

definition live_published_of :: "string \<Rightarrow> string" where
  "live_published_of r = partition ''live_published'' r"

definition expiring_of :: "string \<Rightarrow> string" where
  "expiring_of r = partition ''expiry'' r"

text \<open>Copies are keyed by their fixed-width sequence, so ranges keep arrival order.\<close>

definition sequence :: "nat \<Rightarrow> string" where
  "sequence n = hex_fixed 16 n"

section \<open>Hexadecimal\<close>

lemma length_hex_fixed [simp]: "length (hex_fixed w n) = w"
  by (induction w arbitrary: n) auto

lemma of_char_digit: "d < 16 \<Longrightarrow> of_char (digit_char d) = (if d < 10 then 48 + d else 87 + d)"
  by (simp add: digit_char_def)

lemma digit_char_less_iff: "d < 16 \<Longrightarrow> e < 16 \<Longrightarrow> digit_char d < digit_char e \<longleftrightarrow> d < e"
  by (auto simp: less_char_def of_char_digit)

lemma digit_char_inject: "d < 16 \<Longrightarrow> e < 16 \<Longrightarrow> digit_char d = digit_char e \<longleftrightarrow> d = e"
  by (metis digit_char_less_iff less_irrefl nat_neq_iff)

lemma append_less_iff:
  fixes xs ys us vs :: "'a::linorder list"
  assumes "length xs = length ys"
  shows "xs @ us < ys @ vs \<longleftrightarrow> xs < ys \<or> xs = ys \<and> us < vs"
  using assms by (induction xs ys rule: list_induct2) auto

lemma digits_less_iff:
  fixes a b c d :: nat
  shows "b < 16 \<Longrightarrow> d < 16 \<Longrightarrow> 16 * a + b < 16 * c + d \<longleftrightarrow> a < c \<or> a = c \<and> b < d"
  by linarith

lemma hex_fixed_less_iff:
  "m < 16 ^ w \<Longrightarrow> n < 16 ^ w \<Longrightarrow> hex_fixed w m < hex_fixed w n \<longleftrightarrow> m < n"
proof (induction w arbitrary: m n)
  case (Suc w)
  have d: "m div 16 < 16 ^ w" "n div 16 < 16 ^ w" using Suc.prems by auto
  have eq: "hex_fixed w (m div 16) = hex_fixed w (n div 16) \<longleftrightarrow> m div 16 = n div 16"
    using Suc.IH [OF d] Suc.IH [OF d(2,1)] by (metis less_irrefl nat_neq_iff)
  have "m < n \<longleftrightarrow> m div 16 < n div 16 \<or> m div 16 = n div 16 \<and> m mod 16 < n mod 16"
    using digits_less_iff [of "m mod 16" "n mod 16" "m div 16" "n div 16"] by simp
  then show ?case
    by (simp add: append_less_iff Suc.IH [OF d] eq digit_char_less_iff)
qed simp

lemma hex_fixed_inject:
  "m < 16 ^ w \<Longrightarrow> n < 16 ^ w \<Longrightarrow> hex_fixed w m = hex_fixed w n \<longleftrightarrow> m = n"
  by (metis hex_fixed_less_iff less_irrefl nat_neq_iff)

text \<open>Hexadecimal text holds no separator.\<close>

lemma digit_char_neq [simp]:
  "d < 16 \<Longrightarrow> digit_char d \<noteq> CHR '':''" "d < 16 \<Longrightarrow> CHR '':'' \<noteq> digit_char d"
proof -
  assume "d < 16"
  then have "of_char (digit_char d) \<noteq> (58 :: nat)" by (simp add: of_char_digit)
  moreover have "of_char CHR '':'' = (58 :: nat)" by simp
  ultimately show "digit_char d \<noteq> CHR '':''" "CHR '':'' \<noteq> digit_char d" by metis+
qed

lemma hex_fixed_no_colon [simp]: "CHR '':'' \<notin> set (hex_fixed w n)"
  by (induction w arbitrary: n) auto

lemma component_no_colon [simp]: "CHR '':'' \<notin> set (component v)"
  by (auto simp: component_def)

lemma component_Nil [simp]: "component [] = []"
  by (simp add: component_def)

lemma component_Cons: "component (c # cs) = hex_fixed 2 (of_char c) @ component cs"
  by (simp add: component_def)

lemma length_component: "length (component v) = 2 * length v"
  by (induction v) (auto simp: component_Cons)

lemma component_inject [simp]: "component u = component v \<longleftrightarrow> u = v"
proof
  assume eq: "component u = component v"
  have "length u = length v"
    using arg_cong [OF eq, of length] by (simp add: length_component)
  then show "u = v" using eq
    by (induction u v rule: list_induct2) (auto simp: component_Cons hex_fixed_inject)
qed simp

section \<open>Time keys\<close>

definition sign_bit :: "64 word" where
  "sign_bit = push_bit 63 1"

lemma bit_sign_bit: "bit sign_bit n \<longleftrightarrow> n = 63"
  by (auto simp: sign_bit_def bit_push_bit_iff bit_1_iff simp del: push_bit_of_1)

lemma sign_bit_twice: "sign_bit + sign_bit = 0"
  by (simp add: sign_bit_def push_bit_eq_mult)

lemma sign_bit_int: "word_of_int I64_MIN = sign_bit"
  by (simp add: I64_MIN_def sign_bit_def push_bit_eq_mult)

lemma xor_sign_bit: "x XOR sign_bit = x + sign_bit"
proof (cases "bit x 63")
  case False
  have "x XOR sign_bit = x OR sign_bit"
    using False by (intro bit_eqI) (auto simp: bit_or_iff bit_xor_iff bit_sign_bit)
  moreover have "x AND sign_bit = 0"
    using False by (intro bit_eqI) (auto simp: bit_and_iff bit_sign_bit)
  ultimately show ?thesis by (simp add: disjunctive_add_eq_or)
next
  case True
  let ?y = "x XOR sign_bit"
  have "?y AND sign_bit = 0"
    using True by (intro bit_eqI) (auto simp: bit_and_iff bit_xor_iff bit_sign_bit)
  then have "?y + sign_bit = ?y OR sign_bit"
    by (rule disjunctive_add_eq_or)
  also have "\<dots> = x"
    using True by (intro bit_eqI) (auto simp: bit_or_iff bit_xor_iff bit_sign_bit)
  finally have "?y + sign_bit + sign_bit = x + sign_bit" by simp
  then show ?thesis by (simp add: add.assoc sign_bit_twice)
qed

lemma time_key_eq:
  assumes "is_i64 ms"
  shows "time_key ms = hex_fixed 16 (nat (ms - I64_MIN))"
proof -
  have "sign_bit = - sign_bit"
    using sign_bit_twice by (simp add: eq_neg_iff_add_eq_0)
  then have "(word_of_int ms :: 64 word) XOR word_of_int I64_MIN = word_of_int (ms - I64_MIN)"
    unfolding sign_bit_int xor_sign_bit wi_hom_sub [symmetric] by (metis diff_conv_add_uminus)
  moreover have "uint (word_of_int (ms - I64_MIN) :: 64 word) = ms - I64_MIN"
    unfolding uint_word_of_int using assms
    by (simp add: take_bit_eq_mod is_i64_def I64_MIN_def I64_MAX_def)
  ultimately show ?thesis by (simp add: time_key_def flip: nat_uint_eq)
qed

text \<open>The key of an instant that is not negative starts with 8; this evaluates without words.\<close>

lemma hex_fixed_top:
  "n < 16 ^ w \<Longrightarrow> d < 16 \<Longrightarrow> hex_fixed (Suc w) (d * 16 ^ w + n) = digit_char d # hex_fixed w n"
proof (induction w arbitrary: n)
  case (Suc w)
  have e: "(d * 16 ^ Suc w + n) div 16 = d * 16 ^ w + n div 16" "(d * 16 ^ Suc w + n) mod 16 = n mod 16"
    using mod_mult_self4 [of 16 "d * 16 ^ w" n] by (simp_all add: mult.left_commute [of d 16])
  have "n div 16 < 16 ^ w" using Suc.prems by auto
  then show ?case
    using Suc.IH [of "n div 16"] Suc.prems(2) by (subst hex_fixed.simps) (simp only: e, simp)
qed simp

lemma time_key_code [code]:
  "time_key ms =
     (if 0 \<le> ms \<and> ms < 16 ^ 15 then CHR ''8'' # hex_fixed 15 (nat ms)
      else hex_fixed 16 (unat ((word_of_int ms :: 64 word) XOR word_of_int I64_MIN)))"
proof (cases "0 \<le> ms \<and> ms < 16 ^ 15")
  case True
  then have "is_i64 ms" by (simp add: is_i64_def I64_MIN_def I64_MAX_def)
  moreover have "nat (ms - I64_MIN) = 8 * 16 ^ 15 + nat ms"
    using True by (simp add: I64_MIN_def nat_add_distrib)
  moreover have "digit_char 8 = CHR ''8''" by code_simp
  moreover have "nat ms < 16 ^ 15" using True by (simp add: nat_less_iff)
  moreover have "Suc 15 = 16" by simp
  ultimately have "time_key ms = CHR ''8'' # hex_fixed 15 (nat ms)"
    using hex_fixed_top [of "nat ms" 15 8] by (simp only: time_key_eq)
  then show ?thesis using True by (simp only: if_True simp_thms)
next
  case False
  then show ?thesis unfolding time_key_def by (simp only: if_False)
qed

lemma nat_time_bound: "is_i64 ms \<Longrightarrow> nat (ms - I64_MIN) < 16 ^ 16"
  by (simp add: is_i64_def I64_MIN_def I64_MAX_def nat_less_iff)

lemma time_key_less_iff: "is_i64 a \<Longrightarrow> is_i64 b \<Longrightarrow> time_key a < time_key b \<longleftrightarrow> a < b"
  using hex_fixed_less_iff [OF nat_time_bound nat_time_bound, of a b]
  by (auto simp: time_key_eq is_i64_def)

lemma time_key_inject: "is_i64 a \<Longrightarrow> is_i64 b \<Longrightarrow> time_key a = time_key b \<longleftrightarrow> a = b"
  by (metis less_irrefl linorder_neqE time_key_less_iff)

lemma length_time_key [simp]: "length (time_key ms) = 16"
  by (simp add: time_key_def)

lemma timed_inject: "timed a i = timed b j \<longleftrightarrow> time_key a = time_key b \<and> i = j"
  by (simp add: timed_def)

lemma timed_less_until: "is_i64 a \<Longrightarrow> is_i64 now \<Longrightarrow> timed a i < until_key now \<longleftrightarrow> a \<le> now"
  by (auto simp: timed_def until_key_def append_less_iff time_key_less_iff time_key_inject less_char_def)

lemma timed_less_timed:
  "is_i64 a \<Longrightarrow> is_i64 b \<Longrightarrow> timed a i < timed b j \<longleftrightarrow> a < b \<or> a = b \<and> i < j"
  by (auto simp: timed_def append_less_iff time_key_less_iff time_key_inject)

lemma sequence_less_iff: "m \<le> U64_MAX \<Longrightarrow> n \<le> U64_MAX \<Longrightarrow> sequence m < sequence n \<longleftrightarrow> m < n"
  by (simp add: sequence_def hex_fixed_less_iff U64_MAX_def)

lemma sequence_inject: "m \<le> U64_MAX \<Longrightarrow> n \<le> U64_MAX \<Longrightarrow> sequence m = sequence n \<longleftrightarrow> m = n"
  by (simp add: sequence_def hex_fixed_inject U64_MAX_def)

section \<open>Families\<close>

text \<open>The family of a row is the part of its kind before the first separator.\<close>

definition family :: "string \<Rightarrow> string" where
  "family kind = takeWhile (\<lambda>c. c \<noteq> CHR '':'') kind"

lemma family_partition: "CHR '':'' \<notin> set kind \<Longrightarrow> family (partition kind v) = kind"
  unfolding family_def partition_def by (subst takeWhile_append2) auto

lemma partition_inject: "partition kind u = partition kind v \<longleftrightarrow> u = v"
  by (simp add: partition_def)

end
