(* ===== verification/Run_Index.thy ===== *)
theory Run_Index
  imports Keys
begin

text \<open>
  The run row and the index rows derived from it (\<^verbatim>\<open>crates/durable/src/engine.rs\<close>, section 1).
  \<open>indexes\<close> are all the rows a run is found through; \<open>store_run\<close> writes a run row and exactly the
  difference of its indexes. The invariant \<open>index_ok\<close> says that the index rows of the database are
  the indexes of the stored runs, no more and no fewer, and that no two runs claim the same row.
\<close>

section \<open>Reading runs\<close>

definition stored_run_row :: "row \<Rightarrow> error + stored_run" where
  "stored_run_row v =
     (case v of
        RRun s \<Rightarrow> if s_version s = VERSION then Inr s
                  else Inl (Message ''unsupported durable state version of a run row'')
      | _ \<Rightarrow> Inl (Message ''unsupported durable state version of a run row''))"

definition find_run :: "string \<Rightarrow> stored_run option op" where
  "find_run i = bind (get ''run'' i) (\<lambda>v.
     case v of None \<Rightarrow> Ret None | Some w \<Rightarrow> bind (of_sum (stored_run_row w)) (\<lambda>s. Ret (Some s)))"

definition load_run :: "string \<Rightarrow> stored_run op" where
  "load_run i = bind (find_run i) (of_option (Message (''unknown run '' @ i)))"

text \<open>Shorthands for the parts of a run row the code reads most.\<close>

abbreviation s_id :: "stored_run \<Rightarrow> string" where
  "s_id s \<equiv> a_id (r_admission (s_run s))"

abbreviation s_name :: "stored_run \<Rightarrow> string" where
  "s_name s \<equiv> a_name (r_admission (s_run s))"

section \<open>Index rows\<close>

definition run_kinds :: "saved_run \<Rightarrow> bool \<Rightarrow> string list" where
  "run_kinds r history =
     (let base = if history then ''control_end'' else ''control_run''
      in [base, partition base (a_name (r_admission r))])"

definition wait_kinds :: "wait_entry \<Rightarrow> string list" where
  "wait_kinds w =
     (let name = partition ''control_wait_definition'' (w_definition w)
      in remdups_adj (sort
           (''control_wait'' # name # partition ''control_wait_run'' (w_run w) #
            concat (map (\<lambda>t. [partition ''control_wait_type'' t, name @ '':type:'' @ component t])
              (pw_types (w_waiting w))))))"

text \<open>The due position of a run: the end of its lease while it runs, its wake-up otherwise; none
  while it is held.\<close>

definition due_at :: "stored_run \<Rightarrow> int option" where
  "due_at s =
     (if r_held (s_run s) \<noteq> None then None
      else if r_state (s_run s) = StRunning then r_lease_until_ms (s_run s)
      else Some (r_wake_at_ms (s_run s)))"

definition internal_wait :: "stored_run \<Rightarrow> string \<Rightarrow> bool" where
  "internal_wait s t =
     (case strip_prefix ''waiting:'' t of None \<Rightarrow> False
      | Some i \<Rightarrow> bt_has (s_listeners s) (''child:'' @ i))"

definition wait_entry_of :: "stored_run \<Rightarrow> string \<Rightarrow> pending_wait \<Rightarrow> wait_entry" where
  "wait_entry_of s k w = \<lparr>w_run = s_id s, w_definition = s_name s, w_key = k, w_waiting = w\<rparr>"

definition index_rows :: "stored_run \<Rightarrow> (key \<times> row) list" where
  "index_rows s =
     (let i = s_id s; value = RJson (String i); started = timed (r_admitted_ms (s_run s)) i
      in
      [((partition ''name'' (s_name s), i), value)]
      @ map (\<lambda>kind. ((kind, started), value)) (run_kinds (s_run s) False)
      @ (case r_ended_ms (s_run s) of None \<Rightarrow> []
         | Some at \<Rightarrow> map (\<lambda>kind. ((kind, timed at i), value)) (run_kinds (s_run s) True))
      @ (case r_child (s_run s) of None \<Rightarrow> []
         | Some link \<Rightarrow> [((partition ''control_parent'' (l_parent link), started), value)])
      @ concat (map (\<lambda>(k, w).
          map (\<lambda>kind. ((kind, timed (pw_since_ms w) (component i @ '':'' @ component k)), RWait (wait_entry_of s k w)))
            (wait_kinds (wait_entry_of s k w)))
          (bt_entries (s_waits s)))
      @ (case r_ended_ms (s_run s) of
           None \<Rightarrow>
             [((partition ''live_name'' (s_name s), i), value)]
             @ (case s_trigger s of None \<Rightarrow> [] | Some t \<Rightarrow> [((partition ''trigger_live'' t, i), value)])
             @ (case due_at s of None \<Rightarrow> []
                | Some due \<Rightarrow>
                    [((''due'', timed due i), value),
                     ((partition ''due_app'' (case application_version (r_admission (s_run s)) of None \<Rightarrow> [] | Some v \<Rightarrow> v),
                       timed due i), value)])
             @ (case r_child (s_run s) of None \<Rightarrow> []
                | Some link \<Rightarrow> [((partition ''children'' (l_parent link), i), value)])
             @ (if r_held (s_run s) = None
                then map (\<lambda>(t, at). ((partition ''wait'' t, timed at i), value))
                  (filter (\<lambda>(t, at). \<not> bt_has (s_pending s) t \<and>
                     (\<not> internal_wait s t \<or> bt_has (s_addressed_waits s) t)) (bt_entries (s_awaits s)))
                else [])
             @ map (\<lambda>t. ((partition ''subs'' t, i), value)) (concat (bt_values (s_subscriptions s)))
             @ (case s_mailbox s of None \<Rightarrow> [] | Some at \<Rightarrow> [((''mailbox'', timed at i), value)])
         | Some at \<Rightarrow>
             if s_evidence s then [((''finished'', timed at i), value)] else []))"

definition indexes :: "stored_run \<Rightarrow> db" where
  "indexes s = bt_of_list (index_rows s)"

section \<open>Writing runs\<close>

text \<open>What turns the rows \<open>before\<close> into \<open>after\<close>.\<close>

definition changes :: "db \<Rightarrow> db \<Rightarrow> (key \<times> row option) list" where
  "changes before after =
     map (\<lambda>(k, v). (k, Some v)) (filter (\<lambda>(k, v). bt_get before k \<noteq> Some v) (bt_entries after))
     @ map (\<lambda>k. (k, None)) (filter (\<lambda>k. \<not> bt_has after k) (bt_keys before))"

definition write_change :: "key \<times> row option \<Rightarrow> unit op" where
  "write_change c =
     (case snd c of Some v \<Rightarrow> put (fst (fst c)) (snd (fst c)) v | None \<Rightarrow> delete (fst (fst c)) (snd (fst c)))"

definition store_run_indexed :: "stored_run \<Rightarrow> db \<Rightarrow> unit op" where
  "store_run_indexed s before =
     bind (for_each (changes before (indexes s)) write_change) (\<lambda>_. put ''run'' (s_id s) (RRun s))"

definition store_run :: "stored_run \<Rightarrow> unit op" where
  "store_run s =
     bind (find_run (s_id s)) (\<lambda>old.
       store_run_indexed s (case old of None \<Rightarrow> bt_empty | Some o' \<Rightarrow> indexes o'))"

text \<open>The id an index row names.\<close>

definition index_id :: "row \<Rightarrow> string option" where
  "index_id v = (case v of RJson j \<Rightarrow> as_str j | _ \<Rightarrow> None)"

definition indexed_runs :: "string \<Rightarrow> string \<Rightarrow> string option \<Rightarrow> nat option \<Rightarrow> stored_run list op" where
  "indexed_runs kind start end limit =
     bind (scan kind start end limit) (\<lambda>rs.
       collect_tx rs (\<lambda>(k, v). bind (of_option (Message ''invalid run index'') (index_id v)) load_run))"

section \<open>Whose index row a key is\<close>

definition id_families :: "string list" where
  "id_families = [''name'', ''live_name'', ''trigger_live'', ''children'', ''subs'']"

definition timed_families :: "string list" where
  "timed_families = [''control_run'', ''control_end'', ''control_parent'', ''due'', ''due_app'', ''wait'',
     ''mailbox'', ''finished'']"

definition wait_families :: "string list" where
  "wait_families = [''control_wait'', ''control_wait_definition'', ''control_wait_run'', ''control_wait_type'']"

definition is_index :: "key \<Rightarrow> bool" where
  "is_index k \<longleftrightarrow> family (fst k) \<in> set (id_families @ timed_families @ wait_families)"

text \<open>The run an index key belongs to can be read off the key.\<close>

definition claims :: "string \<Rightarrow> key \<Rightarrow> bool" where
  "claims i k \<longleftrightarrow>
     (if family (fst k) \<in> set id_families then snd k = i
      else if family (fst k) \<in> set timed_families then drop 17 (snd k) = i
      else family (fst k) \<in> set wait_families \<and> takeWhile (\<lambda>c. c \<noteq> CHR '':'') (drop 17 (snd k)) = component i)"

lemma claims_inject: "claims i k \<Longrightarrow> claims j k \<Longrightarrow> i = j"
  by (auto simp: claims_def split: if_splits)

lemma claims_is_index: "claims i k \<Longrightarrow> is_index k"
  by (auto simp: claims_def is_index_def split: if_splits)

lemma drop_timed [simp]: "drop 17 (timed ms i) = i"
  by (simp add: timed_def)

lemma takeWhile_component [simp]:
  "takeWhile (\<lambda>c. c \<noteq> CHR '':'') (component i @ CHR '':'' # rest) = component i"
  using component_no_colon [of i] by (subst takeWhile_append2) (auto simp del: component_no_colon)

lemma family_partition_append:
  "CHR '':'' \<notin> set kind \<Longrightarrow> family (partition kind v @ rest) = kind"
  unfolding family_def partition_def append_assoc by (subst takeWhile_append2) auto

lemma family_plain: "CHR '':'' \<notin> set kind \<Longrightarrow> family kind = kind"
  unfolding family_def by (auto simp: takeWhile_eq_all_conv)

lemmas family_simps [simp] = family_partition family_partition_append family_plain

lemma set_wait_kinds:
  "kind \<in> set (wait_kinds w) \<Longrightarrow> family kind \<in> set wait_families"
  by (auto simp: wait_kinds_def Let_def wait_families_def set_insort_key)

lemma wait_families_other:
  "f \<in> set wait_families \<Longrightarrow> f \<notin> set id_families \<and> f \<notin> set timed_families"
  by (auto simp: wait_families_def id_families_def timed_families_def)

lemma claims_wait: "family kind \<in> set wait_families \<Longrightarrow> claims i (kind, timed ms (component i @ CHR '':'' # rest))"
  using wait_families_other by (auto simp: claims_def)

lemma claims_simps:
  "claims i (partition ''name'' n, i)"
  "claims i (partition ''live_name'' n, i)"
  "claims i (partition ''trigger_live'' n, i)"
  "claims i (partition ''children'' n, i)"
  "claims i (partition ''subs'' n, i)"
  "claims i (''control_run'', timed ms i)"
  "claims i (partition ''control_run'' n, timed ms i)"
  "claims i (''control_end'', timed ms i)"
  "claims i (partition ''control_end'' n, timed ms i)"
  "claims i (partition ''control_parent'' n, timed ms i)"
  "claims i (''due'', timed ms i)"
  "claims i (partition ''due_app'' n, timed ms i)"
  "claims i (partition ''wait'' n, timed ms i)"
  "claims i (''mailbox'', timed ms i)"
  "claims i (''finished'', timed ms i)"
  by (simp_all add: claims_def id_families_def timed_families_def)

lemma index_rows_claims: "(k, v) \<in> set (index_rows s) \<Longrightarrow> claims (s_id s) k"
  unfolding index_rows_def Let_def set_append Un_iff
  by (elim disjE) (auto simp: run_kinds_def Let_def claims_simps
      split: option.splits if_splits dest: set_wait_kinds intro!: claims_wait)

lemma bt_of_list_in: "bt_get (bt_of_list xs) k = Some v \<Longrightarrow> (k, v) \<in> set xs"
  by (auto simp: bt_of_list_def bt_get_fold_insert split: option.splits dest: map_of_SomeD)

lemma bt_of_list_has: "bt_has (bt_of_list xs) k \<longleftrightarrow> k \<in> fst ` set xs"
proof -
  have "bt_has (bt_of_list xs) k \<longleftrightarrow> map_of (rev xs) k \<noteq> None"
    by (auto simp: bt_has_def bt_of_list_def bt_get_fold_insert split: option.split)
  then show ?thesis by (simp add: map_of_eq_None_iff)
qed

lemma indexes_claims: "bt_get (indexes s) k = Some v \<Longrightarrow> claims (s_id s) k"
  unfolding indexes_def by (drule bt_of_list_in) (rule index_rows_claims)

lemma is_index_not_run [simp]: "\<not> is_index (''run'', i)"
  by (auto simp: is_index_def id_families_def timed_families_def wait_families_def)

section \<open>The index invariant\<close>

definition runs_ok :: "db \<Rightarrow> bool" where
  "runs_ok r \<longleftrightarrow> (\<forall>i v. bt_get r (''run'', i) = Some v \<longrightarrow> (\<exists>s. v = RRun s \<and> s_id s = i))"

definition index_ok :: "db \<Rightarrow> bool" where
  "index_ok r \<longleftrightarrow> runs_ok r \<and>
     (\<forall>k v. is_index k \<longrightarrow>
        (bt_get r k = Some v \<longleftrightarrow> (\<exists>i s. bt_get r (''run'', i) = Some (RRun s) \<and> bt_get (indexes s) k = Some v)))"

text \<open>Applying the changes from \<open>before\<close> to \<open>after\<close> on rows that hold \<open>before\<close>.\<close>

lemma commits_write_change [simp]:
  "commits (write_change (k, w)) r a s \<longleftrightarrow>
     s = (case w of None \<Rightarrow> bt_remove k r | Some v \<Rightarrow> bt_insert k v r)"
  by (cases k) (simp add: write_change_def split: option.split)

lemma commits_changes_get:
  assumes "commits (for_each cs write_change) r a s" and "distinct (map fst cs)"
  shows "bt_get s k = (case map_of cs k of None \<Rightarrow> bt_get r k | Some w \<Rightarrow> w)"
  using assms
proof (induction cs arbitrary: r)
  case (Cons c cs)
  obtain l w where c: "c = (l, w)" by fastforce
  let ?t = "case w of None \<Rightarrow> bt_remove l r | Some v \<Rightarrow> bt_insert l v r"
  have "commits (for_each cs write_change) ?t a s"
    using Cons.prems(1) by (simp add: c)
  moreover have "l \<notin> fst ` set cs" "distinct (map fst cs)"
    using Cons.prems(2) by (simp_all add: c)
  ultimately show ?case
    using Cons.IH [of ?t] by (auto simp: c map_of_eq_None_iff [symmetric] split: option.splits)
qed simp

lemma map_of_changes:
  "map_of (changes before after) k =
     (case bt_get after k of
        Some v \<Rightarrow> if bt_get before k = Some v then None else Some (Some v)
      | None \<Rightarrow> if bt_has before k then Some None else None)"
proof -
  have 1: "map_of (map (\<lambda>(k, v). (k, Some v)) (filter (\<lambda>(k, v). bt_get before k \<noteq> Some v) es)) k =
      (case map_of es k of Some v \<Rightarrow> if bt_get before k = Some v then None else Some (Some v) | None \<Rightarrow> None)"
    if "distinct (map fst es)" for es :: "(key \<times> row) list"
    using that by (induction es) (auto split: option.splits simp: map_of_eq_None_iff rev_image_eqI)
  have 2: "map_of (map (\<lambda>k. (k, None)) ks) k = (if k \<in> set ks then Some None else None)" for ks
    by (induction ks) auto
  show ?thesis
    using 1 [of "bt_entries after"]
    by (auto simp: changes_def map_add_def 2 bt_has_iff_key [symmetric] bt_get_def [symmetric]
        split: option.splits) (simp_all add: bt_has_def)
qed

lemma distinct_changes: "distinct (map fst (changes before after))"
proof -
  let ?as = "map fst (filter (\<lambda>(k, v). bt_get before k \<noteq> Some v) (bt_entries after))"
  let ?bs = "filter (\<lambda>k. \<not> bt_has after k) (bt_keys before)"
  have "map fst (changes before after) = ?as @ ?bs"
    by (simp add: changes_def comp_def split_def)
  moreover have "k \<in> set ?as \<Longrightarrow> bt_has after k" for k
    by (force simp: bt_has_iff_key bt_keys_def)
  moreover have "distinct ?as" "distinct ?bs"
    by (simp_all add: distinct_map_filter bt_keys_def)
  ultimately show ?thesis
    by (metis (no_types, lifting) disjoint_iff distinct_append filter_set set_filter mem_Collect_eq)
qed

lemma commits_store_run_indexed:
  assumes "commits (store_run_indexed s before) r a r'" 
    and "\<And>k v. bt_get before k = Some v \<Longrightarrow> is_index k \<and> bt_get r k = Some v"
  shows "bt_get r' k =
    (if k = (''run'', s_id s) then Some (RRun s)
     else if bt_has (indexes s) k then bt_get (indexes s) k
     else if bt_has before k then None else bt_get r k)"
proof -
  obtain t where t: "commits (for_each (changes before (indexes s)) write_change) r () t"
    and r': "r' = bt_insert (''run'', s_id s) (RRun s) t"
    using assms(1) by (auto simp: store_run_indexed_def)
  show ?thesis
    using commits_changes_get [OF t distinct_changes, of k] assms(2) [of k]
    by (auto simp: r' map_of_changes bt_has_def split: option.splits if_splits)
qed

text \<open>Storing a run replaces its own rows and index rows and nothing else.\<close>

lemma commits_find_run:
  "commits (find_run i) r a r' \<longleftrightarrow> r' = r \<and>
     (case bt_get r (''run'', i) of
        None \<Rightarrow> a = None
      | Some v \<Rightarrow> \<exists>s. v = RRun s \<and> s_version s = VERSION \<and> a = Some s)"
  by (auto simp: find_run_def stored_run_row_def split: option.splits row.splits if_splits)

lemma commits_load_run [simp]:
  "commits (load_run i) r s r' \<longleftrightarrow>
     r' = r \<and> bt_get r (''run'', i) = Some (RRun s) \<and> s_version s = VERSION"
  by (auto simp: load_run_def commits_find_run split: option.splits)

lemma index_ok_run_id: "index_ok r \<Longrightarrow> bt_get r (''run'', i) = Some (RRun s) \<Longrightarrow> s_id s = i"
  by (auto simp: index_ok_def runs_ok_def)

lemma commits_store_run:
  assumes "commits (store_run s) r a r'" and ok: "index_ok r"
  shows "bt_get r' k =
    (if k = (''run'', s_id s) then Some (RRun s)
     else if is_index k \<and> claims (s_id s) k then bt_get (indexes s) k
     else bt_get r k)"
proof -
  obtain old where old: "commits (find_run (s_id s)) r old r"
    and st: "commits (store_run_indexed s (case old of None \<Rightarrow> bt_empty | Some o' \<Rightarrow> indexes o')) r a r'"
    using assms(1) by (auto simp: store_run_def commits_find_run)
  let ?before = "case old of None \<Rightarrow> bt_empty | Some o' \<Rightarrow> indexes o'"
  have row: "old = Some o' \<Longrightarrow> bt_get r (''run'', s_id s) = Some (RRun o') \<and> s_id o' = s_id s" for o'
    using old index_ok_run_id [OF ok] by (auto simp: commits_find_run split: option.splits)
  have before: "bt_get ?before k = Some v \<Longrightarrow> is_index k \<and> bt_get r k = Some v \<and> claims (s_id s) k" for k v
  proof -
    assume "bt_get ?before k = Some v"
    then obtain o' where o': "old = Some o'" "bt_get (indexes o') k = Some v"
      by (cases old) auto
    then have "claims (s_id s) k" using row [OF o'(1)] indexes_claims [OF o'(2)] by simp
    then show ?thesis
      using row [OF o'(1)] o'(2) ok claims_is_index unfolding index_ok_def by blast
  qed
  have only: "is_index k \<Longrightarrow> claims (s_id s) k \<Longrightarrow> bt_get r k = Some v \<Longrightarrow> bt_has ?before k" for k v
  proof -
    assume k: "is_index k" "claims (s_id s) k" "bt_get r k = Some v"
    then obtain i t where t: "bt_get r (''run'', i) = Some (RRun t)" "bt_get (indexes t) k = Some v"
      using ok by (auto simp: index_ok_def)
    have "s_id t = i" using ok t(1) by (rule index_ok_run_id)
    moreover have "s_id t = s_id s" using indexes_claims [OF t(2)] k(2) by (rule claims_inject)
    ultimately show "bt_has ?before k"
      using t old by (auto simp: commits_find_run bt_has_def split: option.splits)
  qed
  have "bt_get r' k =
    (if k = (''run'', s_id s) then Some (RRun s)
     else if bt_has (indexes s) k then bt_get (indexes s) k
     else if bt_has ?before k then None else bt_get r k)"
    by (rule commits_store_run_indexed [OF st]) (use before in blast)
  then show ?thesis
    using before [of k] only [of k] claims_is_index [of "s_id s" k] indexes_claims [of s k]
    by (cases "bt_get (indexes s) k"; cases "bt_get ?before k"; cases "bt_get r k") (auto simp: bt_has_def)
qed

theorem store_run_keeps_index [keeps_intros]: "keeps index_ok (store_run s) (\<lambda>_. index_ok)"
proof (rule keepsI)
  fix r a r'
  assume ok: "index_ok r" and st: "commits (store_run s) r a r'"
  note get' = commits_store_run [OF st ok]
  have run': "bt_get r' (''run'', i) = (if i = s_id s then Some (RRun s) else bt_get r (''run'', i))" for i
    by (simp add: get')
  have "runs_ok r'" using ok by (auto simp: runs_ok_def index_ok_def run')
  moreover have "bt_get r' k = Some v \<longleftrightarrow>
      (\<exists>i t. bt_get r' (''run'', i) = Some (RRun t) \<and> bt_get (indexes t) k = Some v)" if "is_index k" for k v
  proof (cases "claims (s_id s) k")
    case True
    have "i = s_id s" if "bt_get r (''run'', i) = Some (RRun t)" "bt_get (indexes t) k = Some v" for i t
      using index_ok_run_id [OF ok that(1)] claims_inject [OF indexes_claims [OF that(2)] True] by simp
    then show ?thesis
      using True \<open>is_index k\<close> by (auto simp: get' run' split: if_splits)
  next
    case False
    have "bt_get r' k = bt_get r k" using False \<open>is_index k\<close> by (auto simp: get')
    moreover have "bt_get (indexes s) k \<noteq> Some v" using False indexes_claims by blast
    moreover have "i \<noteq> s_id s" if "bt_get r (''run'', i) = Some (RRun t)" "bt_get (indexes t) k = Some v" for i t
      using index_ok_run_id [OF ok that(1)] indexes_claims [OF that(2)] False by auto
    ultimately have "(\<exists>i t. bt_get r' (''run'', i) = Some (RRun t) \<and> bt_get (indexes t) k = Some v) \<longleftrightarrow>
        (\<exists>i t. bt_get r (''run'', i) = Some (RRun t) \<and> bt_get (indexes t) k = Some v)"
      unfolding run' by auto
    then show ?thesis
      using ok \<open>is_index k\<close> \<open>bt_get r' k = bt_get r k\<close> by (simp add: index_ok_def)
  qed
  ultimately show "index_ok r'" by (simp add: index_ok_def)
qed

lemma index_ok_empty: "index_ok bt_empty"
  by (simp add: index_ok_def runs_ok_def)

text \<open>Every other write of the engine leaves the run rows and their indexes alone.\<close>

definition side_key :: "key \<Rightarrow> bool" where
  "side_key k \<longleftrightarrow> fst k \<noteq> ''run'' \<and> \<not> is_index k"

lemma index_ok_looks: "looks_at (\<lambda>k. \<not> side_key k) index_ok"
  unfolding looks_at_def
proof (intro allI impI)
  fix r s :: db
  assume same: "\<forall>k. \<not> side_key k \<longrightarrow> bt_get s k = bt_get r k" and ok: "index_ok r"
  have "bt_get s (''run'', i) = bt_get r (''run'', i)" for i
    using same by (simp add: side_key_def)
  moreover have "is_index k \<Longrightarrow> bt_get s k = bt_get r k" for k
    using same by (simp add: side_key_def)
  ultimately show "index_ok s" using ok by (simp add: index_ok_def runs_ok_def)
qed

lemma side_writes_keep_index: "writes_in side_key m \<Longrightarrow> keeps index_ok m (\<lambda>_. index_ok)"
  by (rule keeps_frame [OF index_ok_looks]) auto

section \<open>What storing a run does to other rows\<close>

lemma changes_keys:
  "(k, w) \<in> set (changes before after) \<Longrightarrow> bt_has before k \<or> bt_has after k"
  by (auto simp: changes_def bt_has_iff_key bt_keys_def image_iff Bex_def)

lemma indexes_has: "bt_has (indexes s) k \<Longrightarrow> is_index k"
  by (auto simp: bt_has_def dest: indexes_claims intro: claims_is_index)

lemma writes_in_write_change [simp]: "writes_in K (write_change c) \<longleftrightarrow> K (fst c)"
  by (cases "fst c") (simp add: write_change_def split: option.split)

lemma writes_in_changes:
  "(\<And>k. bt_has before k \<or> bt_has after k \<Longrightarrow> K k) \<Longrightarrow> writes_in K (for_each (changes before after) write_change)"
  by (rule writes_in_for_each) (metis changes_keys prod.collapse writes_in_write_change)

lemma writes_in_find_run [simp]: "writes_in K (find_run i)"
  by (auto simp: find_run_def split: option.split intro!: writes_in_bind)

lemma writes_in_load_run [simp]: "writes_in K (load_run i)"
  by (auto simp: load_run_def intro!: writes_in_bind)

lemma writes_in_indexed_runs [simp]: "writes_in K (indexed_runs kind start end limit)"
  by (auto simp: indexed_runs_def intro!: writes_in_bind writes_in_collect_tx)

text \<open>\<open>own_row i k\<close>: the run row of \<open>i\<close> or any index row.\<close>

definition own_row :: "string \<Rightarrow> key \<Rightarrow> bool" where
  "own_row i k \<longleftrightarrow> k = (''run'', i) \<or> is_index k"

lemma writes_in_store_run_indexed:
  "(\<And>k. bt_has before k \<Longrightarrow> is_index k) \<Longrightarrow> writes_in (own_row (s_id s)) (store_run_indexed s before)"
  unfolding store_run_indexed_def
  by (intro writes_in_bind writes_in_changes) (auto simp: own_row_def dest: indexes_has)

lemma writes_in_store_run: "writes_in (own_row (s_id s)) (store_run s)"
  unfolding store_run_def
  by (intro writes_in_bind writes_in_store_run_indexed) (auto split: option.splits dest: indexes_has)

lemma store_run_indexed_row:
  "commits (store_run_indexed s before) r a r' \<Longrightarrow> bt_get r' (''run'', s_id s) = Some (RRun s)"
  by (auto simp: store_run_indexed_def)

lemma store_run_row:
  "commits (store_run s) r a r' \<Longrightarrow>
     bt_get r' (''run'', j) = (if j = s_id s then Some (RRun s) else bt_get r (''run'', j))"
  using writes_in_frame [OF writes_in_store_run, of s r a r' "(''run'', j)"]
  by (auto simp: own_row_def store_run_def dest: store_run_indexed_row)

lemma store_run_side: "commits (store_run s) r a r' \<Longrightarrow> side_key k \<Longrightarrow> bt_get r' k = bt_get r k"
  by (rule writes_in_frame [OF writes_in_store_run]) (auto simp: own_row_def side_key_def)

text \<open>Storing succeeds whenever the old row of the run, if any, is readable.\<close>

definition readable :: "db \<Rightarrow> string \<Rightarrow> bool" where
  "readable r i \<longleftrightarrow>
     (case bt_get r (''run'', i) of None \<Rightarrow> True | Some v \<Rightarrow> \<exists>s. v = RRun s \<and> s_version s = VERSION)"

lemma run_write_change: "\<exists>r'. run (write_change c) r = Inr ((), r')"
  by (auto simp: write_change_def run_put run_delete split: option.split)

lemma run_changes: "\<exists>r'. run (for_each cs write_change) r = Inr ((), r')"
proof (induction cs arbitrary: r)
  case (Cons c cs)
  obtain s where "run (write_change c) r = Inr ((), s)" using run_write_change by blast
  with Cons show ?case by simp
qed simp

lemma store_run_indexed_total: "\<exists>r'. commits (store_run_indexed s before) r () r'"
proof -
  obtain t where "run (for_each (changes before (indexes s)) write_change) r = Inr ((), t)"
    using run_changes by blast
  then show ?thesis by (simp add: commits_def store_run_indexed_def run_put)
qed

lemma store_run_total: "readable r (s_id s) \<Longrightarrow> \<exists>r'. commits (store_run s) r () r'"
  using store_run_indexed_total
  by (cases "bt_get r (''run'', s_id s)")
     (fastforce simp: store_run_def commits_find_run readable_def)+

text \<open>The run stored under an id.\<close>

definition stored :: "db \<Rightarrow> string \<Rightarrow> stored_run \<Rightarrow> bool" where
  "stored r i s \<longleftrightarrow> bt_get r (''run'', i) = Some (RRun s)"

lemma stored_unique: "stored r i s \<Longrightarrow> stored r i t \<Longrightarrow> s = t"
  by (simp add: stored_def)

lemma stored_store_run:
  "commits (store_run s) r a r' \<Longrightarrow> stored r' j t \<longleftrightarrow> (if j = s_id s then t = s else stored r j t)"
  by (auto simp: stored_def store_run_row)

end
