(* ===== verification/Mailbox.thy ===== *)
theory Mailbox
  imports Run_Index
begin

text \<open>
  Events and mailboxes (\<^verbatim>\<open>crates/durable/src/engine.rs\<close>, section 3): the copies of events a run
  accepted, their index rows and the counters of the run row that summarise them; delivery to one
  run, publication to the subscribers, expiry, and what \<^verbatim>\<open>sweep\<close> forgets of a finished run.
\<close>

section \<open>Identities\<close>

definition text_of :: "json \<Rightarrow> string \<Rightarrow> string option" where
  "text_of event k = (case Option.bind (member_of event k) as_str of None \<Rightarrow> None
     | Some s \<Rightarrow> if s = [] then None else Some s)"

text \<open>An event's identity, its \<^verbatim>\<open>source\<close> and \<^verbatim>\<open>id\<close>, when it has both.\<close>

definition identity :: "json \<Rightarrow> string option" where
  "identity event =
     Option.bind (text_of event ''source'') (\<lambda>source.
     Option.bind (text_of event ''id'') (\<lambda>i. Some (source @ [CHR 0x00] @ i)))"

definition payload :: "json \<Rightarrow> json" where
  "payload event = (case event of Object m \<Rightarrow> Object (obj_remove ''time'' m) | _ \<Rightarrow> event)"

text \<open>\<^verbatim>\<open>id.replace('\u{0}', "/")\<close>.\<close>

definition shown_identity :: "string \<Rightarrow> string" where
  "shown_identity i = map (\<lambda>c. if c = CHR 0x00 then CHR ''/'' else c) i"

section \<open>What a run wants\<close>

definition expired :: "stored_event \<Rightarrow> int \<Rightarrow> bool" where
  "expired e now \<longleftrightarrow> (case e_expires_at_ms e of None \<Rightarrow> False | Some at \<Rightarrow> at \<le> now)"

definition published :: "stored_event \<Rightarrow> bool" where
  "published e \<longleftrightarrow> e_envelope e \<noteq> None \<and> \<not> e_delivered e"

definition subscribed :: "stored_run \<Rightarrow> stored_event \<Rightarrow> bool" where
  "subscribed s e \<longleftrightarrow> e_envelope e \<noteq> None \<and>
     list_ex (\<lambda>types. e_type e \<in> set types \<or> (published e \<and> ''*'' \<in> set types)) (bt_values (s_subscriptions s))"

definition wakes :: "stored_run \<Rightarrow> string \<Rightarrow> bool \<Rightarrow> bool" where
  "wakes s t cloud \<longleftrightarrow>
     (if cloud then bt_has (s_awaits s) t
      else bt_has (s_addressed_waits s) t
        \<or> list_ex (\<lambda>(k, types). strip_prefix ''child:'' k = None \<and> t \<in> set types) (bt_entries (s_listeners s)))"

definition wanted :: "stored_run \<Rightarrow> stored_event \<Rightarrow> int \<Rightarrow> bool" where
  "wanted s e now \<longleftrightarrow>
     e_consumed_key e = None \<and> \<not> expired e now \<and> (wakes s (e_type e) (e_envelope e \<noteq> None) \<or> subscribed s e)"

definition envelope_of :: "ext \<Rightarrow> stored_event \<Rightarrow> error + json" where
  "envelope_of x e =
     (case x_rfc3339 x (e_delivered_at_ms e) of
        None \<Rightarrow> Inl (Message ''invalid event timestamp'')
      | Some time \<Rightarrow> Inr (case e_envelope e of
            Some (Object m) \<Rightarrow> if map_of m ''time'' = None then Object (obj_insert ''time'' (String time) m) else Object m
          | Some other \<Rightarrow> other
          | None \<Rightarrow> object [(''type'', String (e_type e)), (''data'', e_data e), (''time'', String time)]))"

section \<open>Copies and their rows\<close>

definition copy :: "string \<Rightarrow> nat \<Rightarrow> stored_event op" where
  "copy i n = bind (get_as row_event (events_of i) (sequence n)) (of_option (Message ''dangling event index''))"

definition live_key :: "nat \<Rightarrow> stored_event \<Rightarrow> string" where
  "live_key n e = (case e_expires_at_ms e of None \<Rightarrow> ''~:'' @ sequence n | Some at \<Rightarrow> timed at (sequence n))"

definition pending_rows :: "string \<Rightarrow> nat \<Rightarrow> stored_event \<Rightarrow> (string \<times> string \<times> row) list" where
  "pending_rows i n e =
     [(pending_of i (e_type e), sequence n, u64_row n),
      (live_of i (e_type e), live_key n e, RJson (Bool (e_envelope e \<noteq> None)))]
     @ (if published e
        then [(published_of i, sequence n, u64_row n), (live_published_of i, live_key n e, u64_row n)] else [])
     @ (case e_expires_at_ms e of None \<Rightarrow> []
        | Some at \<Rightarrow> [(expiring_of i, timed at (sequence n), RJson (Array [Number (of_i64 at), Number (PosInt n)]))])"

definition push :: "stored_run \<Rightarrow> stored_event \<Rightarrow> stored_run op" where
  "push s e =
     (let i = s_id s; n = s_accepted s in
      bind (of_option (Message ''event sequence overflow'') (checked_add_u64 n 1)) (\<lambda>next.
      bind (put (events_of i) (sequence n) (REvent e)) (\<lambda>_.
      bind (case Option.bind (e_envelope e) identity of
              None \<Rightarrow> Ret ()
            | Some ident \<Rightarrow>
                bind (put (identities_of i) (component ident) (u64_row n)) (\<lambda>_.
                  if e_delivered e then put (partition ''delivered'' ident) i (RJson (String i)) else Ret ())) (\<lambda>_.
      bind (get (types_of i) (component (e_type e))) (\<lambda>first.
      bind (if first = None then put (types_of i) (component (e_type e)) (u64_row n) else Ret ()) (\<lambda>_.
      bind (for_each (pending_rows i n e) (\<lambda>(kind, k, v). put kind k v)) (\<lambda>_.
      let p = (case bt_get (s_pending s) (e_type e) of None \<Rightarrow> \<lparr>pc_copies = 0, pc_cloud = 0\<rparr> | Some p \<Rightarrow> p)
      in Ret (s\<lparr>
           s_accepted := next,
           s_pending := bt_insert (e_type e)
             \<lparr>pc_copies = pc_copies p + 1, pc_cloud = pc_cloud p + of_bool (e_envelope e \<noteq> None)\<rparr> (s_pending s),
           s_published := s_published s + of_bool (published e),
           s_mailbox := (case e_expires_at_ms e of None \<Rightarrow> s_mailbox s
             | Some at \<Rightarrow> Some (case s_mailbox s of None \<Rightarrow> at | Some m \<Rightarrow> min m at)),
           s_evidence := True\<rparr>))))))))"

definition consume :: "stored_run \<Rightarrow> nat \<Rightarrow> stored_event \<Rightarrow> string \<Rightarrow> stored_run op" where
  "consume s n e k =
     (let i = s_id s;
          s' = s\<lparr>
            s_pending := (case bt_get (s_pending s) (e_type e) of
                None \<Rightarrow> s_pending s
              | Some p \<Rightarrow>
                  let p' = \<lparr>pc_copies = pc_copies p - 1, pc_cloud = pc_cloud p - of_bool (e_envelope e \<noteq> None)\<rparr>
                  in if pc_copies p' = 0 then bt_remove (e_type e) (s_pending s)
                     else bt_insert (e_type e) p' (s_pending s)),
            s_published := s_published s - of_bool (published e)\<rparr> in
      bind (for_each (pending_rows i n e) (\<lambda>(kind, key, _). delete kind key)) (\<lambda>_.
      bind (put (events_of i) (sequence n) (REvent (e\<lparr>e_consumed_key := Some k\<rparr>))) (\<lambda>_.
      Ret s')))"

text \<open>The pair an expiry row holds.\<close>

definition expiry_pair :: "row \<Rightarrow> (int \<times> nat) option" where
  "expiry_pair v =
     (case v of
        RJson (Array [Number a, Number b]) \<Rightarrow>
          Option.bind (num_as_i64 a) (\<lambda>at. Option.bind (num_as_u64 b) (\<lambda>n. Some (at, n)))
      | _ \<Rightarrow> None)"

definition refresh_mailbox :: "stored_run \<Rightarrow> stored_run op" where
  "refresh_mailbox s =
     bind (scan (expiring_of (s_id s)) [] None (Some 1)) (\<lambda>rs.
       case rs of
         [] \<Rightarrow> Ret (s\<lparr>s_mailbox := None\<rparr>)
       | (_, v) # _ \<Rightarrow> bind (of_option Decode (expiry_pair v)) (\<lambda>(at, _). Ret (s\<lparr>s_mailbox := Some at\<rparr>)))"

definition due_by :: "int option \<Rightarrow> int \<Rightarrow> bool" where
  "due_by at now \<longleftrightarrow> (case at of None \<Rightarrow> False | Some t \<Rightarrow> t \<le> now)"

definition expired_key :: "nat \<Rightarrow> string" where
  "expired_key n = ''mailbox#expired['' @ decimal n @ '']''"

definition expire :: "ext \<Rightarrow> stored_run \<Rightarrow> int \<Rightarrow> (nat \<times> stored_run) op" where
  "expire x s now =
     (if \<not> due_by (s_mailbox s) now then Ret (0, s)
      else
        bind (scan (expiring_of (s_id s)) [] (Some (until_key now)) None) (\<lambda>due.
        bind (fold_tx due (\<lambda>(_, v) t.
                bind (of_option Decode (expiry_pair v)) (\<lambda>(_, n).
                bind (copy (s_id t) n) (\<lambda>e.
                bind (of_sum (envelope_of x e)) (\<lambda>env.
                bind (put (records_of (s_id t)) (expired_key n) (RRecord (Expired env))) (\<lambda>_.
                consume t n e (expired_key n)))))) s) (\<lambda>t.
        bind (refresh_mailbox t) (\<lambda>t'. Ret (length due, t')))))"

text \<open>Whether a live copy of a type, an accepted CloudEvent, is pending: from the counters while no
  copy has expired, otherwise from two live copies.\<close>

definition live_cloud :: "bool \<Rightarrow> string \<Rightarrow> string \<Rightarrow> int \<Rightarrow> bool op" where
  "live_cloud fresh i t now =
     (if fresh then Ret True
      else bind (scan (live_of i t) (until_key now) None (Some 2)) (\<lambda>rs.
        Ret (list_ex (\<lambda>(_, v). v = RJson (Bool True)) rs)))"

definition pending_wanted :: "stored_run \<Rightarrow> int \<Rightarrow> bool op" where
  "pending_wanted s now =
     (let i = s_id s; fresh = \<not> due_by (s_mailbox s) now in
      bind (exists_tx (bt_keys (s_awaits s)) (\<lambda>t.
              case bt_get (s_pending s) t of
                None \<Rightarrow> Ret False
              | Some p \<Rightarrow>
                  if pc_cloud p < pc_copies p \<and> wakes s t False then Ret True
                  else if 0 < pc_cloud p \<and> wakes s t True then live_cloud fresh i t now
                  else Ret False)) (\<lambda>b.
      if b then Ret True
      else exists_tx (concat (bt_values (s_subscriptions s))) (\<lambda>t.
        bind (if t = ''*'' \<and> 0 < s_published s
              then (if fresh then Ret True
                    else bind (scan (live_published_of i) (until_key now) None (Some 1)) (\<lambda>rs. Ret (rs \<noteq> [])))
              else Ret False) (\<lambda>any.
        if any then Ret True
        else case bt_get (s_pending s) t of
            None \<Rightarrow> Ret False
          | Some p \<Rightarrow> if 0 < pc_cloud p then live_cloud fresh i t now else Ret False))))"

section \<open>Acceptance\<close>

definition accept :: "stored_run \<Rightarrow> stored_event \<Rightarrow> int \<Rightarrow> (bool \<times> stored_run) op" where
  "accept s e now =
     bind (case Option.bind (e_envelope e) identity of
             None \<Rightarrow> Ret False
           | Some ident \<Rightarrow>
               bind (get_as row_u64 (identities_of (s_id s)) (component ident)) (\<lambda>n.
                 case n of
                   None \<Rightarrow> Ret False
                 | Some m \<Rightarrow>
                     bind (copy (s_id s) m) (\<lambda>held.
                     bind (ensure (map_option payload (e_envelope e) = map_option payload (e_envelope held))
                             (IdentityConflict (shown_identity ident))) (\<lambda>_.
                     Ret True)))) (\<lambda>held.
     if held then Ret (False, s)
     else
       let s' = (if wanted s e now then s\<lparr>s_run := (s_run s)\<lparr>r_wake_at_ms := min (r_wake_at_ms (s_run s)) now\<rparr>\<rparr> else s)
       in bind (push s' e) (\<lambda>t. Ret (True, t)))"

definition event_type :: "json \<Rightarrow> string option" where
  "event_type event = text_of event ''type''"

definition event_data :: "json \<Rightarrow> json" where
  "event_data event = (case member_of event ''data'' of None \<Rightarrow> Null | Some d \<Rightarrow> d)"

definition last_of :: "'a list \<Rightarrow> 'a option" where
  "last_of xs = (if xs = [] then None else Some (last xs))"

text \<open>The run a delivery goes to: its target, or the run that accepted the identity first, or the oldest
  eligible registration of the type.\<close>

definition find_recipient :: "string option \<Rightarrow> string \<Rightarrow> string \<Rightarrow> stored_run option op" where
  "find_recipient target ident t =
     (case target of
        Some i \<Rightarrow> find_run i
      | None \<Rightarrow>
          bind (indexed_runs (partition ''delivered'' ident) [] None (Some 1)) (\<lambda>firsts.
            case last_of firsts of
              Some s \<Rightarrow> Ret (Some s)
            | None \<Rightarrow> bind (indexed_runs (partition ''wait'' t) [] None (Some 1)) (\<lambda>ws. Ret (last_of ws))))"

definition deliver :: "json \<Rightarrow> string option \<Rightarrow> int \<Rightarrow> policy \<Rightarrow> string option op" where
  "deliver event target now pol =
     bind (of_option (Message ''a delivered event needs a type'') (event_type event)) (\<lambda>t.
     bind (of_option (Message ''a delivered event needs a source and an id'') (identity event)) (\<lambda>ident.
     let stored = \<lparr>e_type = t, e_data = event_data event, e_delivered_at_ms = now, e_consumed_key = None,
           e_envelope = Some event, e_delivered = True, e_expires_at_ms = Some (sat_add now (mailbox_ms pol))\<rparr> in
     bind (find_recipient target ident t) (\<lambda>candidate.
     case candidate of
       None \<Rightarrow> Ret None
     | Some s \<Rightarrow>
         bind (if r_ended_ms (s_run s) \<noteq> None
               then bind (get (identities_of (s_id s)) (component ident)) (\<lambda>v. Ret (v = None)) else Ret False) (\<lambda>gone.
         if gone then Ret None
         else
           bind (accept s stored now) (\<lambda>(taken, s').
           bind (if taken then store_run s' else Ret ()) (\<lambda>_.
           Ret (Some (s_id s))))))))"

definition notify :: "string \<Rightarrow> string \<Rightarrow> json \<Rightarrow> int \<Rightarrow> unit op" where
  "notify parent t data now =
     bind (load_run parent) (\<lambda>s.
     if r_ended_ms (s_run s) \<noteq> None \<or> \<not> bt_has (s_awaits s) t \<or> bt_has (s_pending s) t then Ret ()
     else
       let e = \<lparr>e_type = t, e_data = data, e_delivered_at_ms = now, e_consumed_key = None, e_envelope = None,
             e_delivered = False, e_expires_at_ms = None\<rparr>;
           s' = (if wakes s t False then s\<lparr>s_run := (s_run s)\<lparr>r_wake_at_ms := now\<rparr>\<rparr> else s)
       in bind (push s' e) store_run)"

text \<open>The runs of the second list whose id the first does not hold yet.\<close>

definition merge_runs :: "stored_run list \<Rightarrow> stored_run list \<Rightarrow> stored_run list" where
  "merge_runs xs ys =
     foldl (\<lambda>acc s. if list_ex (\<lambda>t. s_id t = s_id s) acc then acc else acc @ [s]) xs ys"

text \<open>The runs an event may be published to: its target, or the subscribers of its type and of \<^verbatim>\<open>*\<close>.\<close>

definition find_subscribers :: "string option \<Rightarrow> string \<Rightarrow> stored_run list op" where
  "find_subscribers target t =
     (case target of
        Some i \<Rightarrow> bind (find_run i) (\<lambda>s. Ret (case s of None \<Rightarrow> [] | Some u \<Rightarrow> [u]))
      | None \<Rightarrow>
          bind (indexed_runs (partition ''subs'' t) [] None None) (\<lambda>xs.
          bind (indexed_runs (partition ''subs'' ''*'') [] None None) (\<lambda>ys.
          Ret (sort_key s_id (merge_runs xs ys)))))"

definition publish :: "json \<Rightarrow> string option \<Rightarrow> int \<Rightarrow> policy \<Rightarrow> string list op" where
  "publish event target now pol =
     bind (of_option (Message ''a published event needs a type'') (event_type event)) (\<lambda>t.
     let stored = \<lparr>e_type = t, e_data = event_data event, e_delivered_at_ms = now, e_consumed_key = None,
           e_envelope = Some event, e_delivered = False,
           e_expires_at_ms = map_option (\<lambda>_. sat_add now (mailbox_ms pol)) target\<rparr> in
     bind (find_subscribers target t) (\<lambda>candidates.
     fold_tx candidates (\<lambda>s receivers.
       if r_ended_ms (s_run s) = None \<and> (target \<noteq> None \<or> subscribed s stored)
       then bind (accept s stored now) (\<lambda>(taken, s').
              if taken then bind (store_run s') (\<lambda>_. Ret (receivers @ [s_id s'])) else Ret receivers)
       else Ret receivers) []))"

section \<open>Forgetting a finished run\<close>

text \<open>\<^verbatim>\<open>u64::from_str_radix(k, 16)\<close>.\<close>

definition hex_digit :: "char \<Rightarrow> nat option" where
  "hex_digit c =
     (let d = of_char c :: nat in
      if 48 \<le> d \<and> d \<le> 57 then Some (d - 48)
      else if 97 \<le> d \<and> d \<le> 102 then Some (d - 87)
      else if 65 \<le> d \<and> d \<le> 70 then Some (d - 55)
      else None)"

fun hex_value :: "nat \<Rightarrow> string \<Rightarrow> nat option" where
  "hex_value acc [] = Some acc"
| "hex_value acc (c # cs) =
     (case hex_digit c of None \<Rightarrow> None
      | Some d \<Rightarrow> if 16 * acc + d \<le> U64_MAX then hex_value (16 * acc + d) cs else None)"

definition u64_from_hex :: "string \<Rightarrow> nat option" where
  "u64_from_hex s =
     (let digits = (case s of c # cs \<Rightarrow> if c = CHR ''+'' then cs else s | [] \<Rightarrow> [])
      in if digits = [] then None else hex_value 0 digits)"

text \<open>Every copy of the run with its pending rows and its evidence, and the types it was sent.\<close>

definition forget_copies :: "string \<Rightarrow> unit op" where
  "forget_copies i =
     bind (scan (events_of i) [] None None) (\<lambda>events.
     bind (for_each events (\<lambda>((kind, k), v).
             bind (of_option Decode (row_event v)) (\<lambda>e.
             bind (of_option (Message ''invalid digit found in string'') (u64_from_hex k)) (\<lambda>n.
             bind (if e_consumed_key e = None
                   then for_each (pending_rows i n e) (\<lambda>(kind', key, _). delete kind' key) else Ret ()) (\<lambda>_.
             bind (case Option.bind (e_envelope e) identity of
                     None \<Rightarrow> Ret ()
                   | Some ident \<Rightarrow>
                       bind (delete (identities_of i) (component ident)) (\<lambda>_.
                         if e_delivered e then delete (partition ''delivered'' ident) i else Ret ())) (\<lambda>_.
             delete kind k)))))) (\<lambda>_.
     bind (scan (types_of i) [] None None) (\<lambda>types.
     for_each types (\<lambda>((kind, k), _). delete kind k))))"

definition forget :: "stored_run \<Rightarrow> (nat \<times> stored_run) op" where
  "forget s =
     bind (scan (records_of (s_id s)) [] None None) (\<lambda>records.
     bind (for_each records (\<lambda>((kind, k), _). delete kind k)) (\<lambda>_.
     bind (forget_copies (s_id s)) (\<lambda>_.
     Ret (length records,
       s\<lparr>s_pending := bt_empty, s_published := 0, s_mailbox := None, s_evidence := False\<rparr>))))"

end
