(* ===== verification/Catalog.thy ===== *)
theory Catalog
  imports Run_Index
begin

text \<open>
  The definition catalog (\<^verbatim>\<open>crates/durable/src/engine.rs\<close>, sections 1, 4 and 5, and \<^verbatim>\<open>lib.rs\<close>): versions
  and their content digests, activation epochs, the triggers a definition owns, and the circuit breaker
  that trips a definition after consecutive faults.
\<close>

section \<open>The definitions row\<close>

definition DEFINITIONS_VERSION :: nat where
  "DEFINITIONS_VERSION = 7"

definition decode_definitions :: "row \<Rightarrow> error + definitions" where
  "decode_definitions v =
     (case v of
        RDefinitions version defs \<Rightarrow>
          if version = DEFINITIONS_VERSION then Inr defs
          else Inl (Message ''unsupported layout of the definitions row'')
      | _ \<Rightarrow> Inl (Message ''unsupported layout of the definitions row''))"

definition load_definitions :: "string \<Rightarrow> definitions option op" where
  "load_definitions name =
     bind (get ''definitions'' name) (\<lambda>v.
       case v of None \<Rightarrow> Ret None
       | Some w \<Rightarrow> bind (of_sum (decode_definitions w)) (\<lambda>defs. Ret (Some defs)))"

definition store_definitions :: "string \<Rightarrow> definitions \<Rightarrow> unit op" where
  "store_definitions name defs = put ''definitions'' name (RDefinitions DEFINITIONS_VERSION defs)"

lemma commits_load_definitions [simp]:
  "commits (load_definitions name) r a s \<longleftrightarrow> s = r \<and>
     (case bt_get r (''definitions'', name) of
        None \<Rightarrow> a = None
      | Some v \<Rightarrow> \<exists>defs. v = RDefinitions DEFINITIONS_VERSION defs \<and> a = Some defs)"
  by (auto simp: load_definitions_def decode_definitions_def split: option.splits row.splits if_splits)

lemma commits_store_definitions [simp]:
  "commits (store_definitions name defs) r a s \<longleftrightarrow>
     s = bt_insert (''definitions'', name) (RDefinitions DEFINITIONS_VERSION defs) r"
  by (simp add: store_definitions_def)

section \<open>Content digests\<close>

text \<open>
  \<^verbatim>\<open>canonical\<close>: compact JSON with the keys of every object sorted; the text of a scalar or a key is
  \<^verbatim>\<open>serde_json\<close>'s.
\<close>

fun separated :: "string list \<Rightarrow> string" where
  "separated [] = []"
| "separated [s] = s"
| "separated (s # ss) = s @ '','' @ separated ss"

fun canonical :: "(json \<Rightarrow> string) \<Rightarrow> json \<Rightarrow> string" where
  "canonical text (Array items) = ''['' @ separated (map (canonical text) items) @ '']''"
| "canonical text (Object ms) =
     ''{'' @ separated (map (\<lambda>(k, t). text (String k) @ '':'' @ t)
       (sort_key fst (map (\<lambda>(k, v). (k, canonical text v)) ms))) @ ''}''"
| "canonical text scalar = text scalar"

definition digest_of :: "ext \<Rightarrow> string \<Rightarrow> string" where
  "digest_of x yaml =
     (let text = (case x_yaml x yaml of
          Some document \<Rightarrow> ''yaml:'' @ canonical (x_text x) document
        | None \<Rightarrow> ''raw:'' @ yaml)
      in concat (map (\<lambda>b. hex_fixed 2 (of_char b)) (x_sha256 x text)))"

definition save_definition :: "ext \<Rightarrow> string \<Rightarrow> string \<Rightarrow> breaker \<Rightarrow> definition_version op" where
  "save_definition x name yaml brk =
     bind (load_definitions name) (\<lambda>found.
     let defs = (case found of None \<Rightarrow> default_definitions | Some d \<Rightarrow> d) in
     bind (of_option (Message ''definition version overflow'')
             (case bt_keys (d_versions defs) of [] \<Rightarrow> Some 1 | vs \<Rightarrow> checked_add_u64 (last vs) 1)) (\<lambda>version.
     let d = \<lparr>dv_name = name, dv_version = version, dv_yaml = yaml, dv_digest = digest_of x yaml, dv_breaker = brk\<rparr> in
     bind (store_definitions name (defs\<lparr>d_versions := bt_insert version d (d_versions defs)\<rparr>)) (\<lambda>_.
     Ret d)))"

section \<open>Buffered slots\<close>

definition decode_queue :: "row \<Rightarrow> error + queued_slot" where
  "decode_queue v =
     (case row_queued v of
        None \<Rightarrow> Inl Decode
      | Some q \<Rightarrow> if q_version q = 1 then Inr q else Inl (Message ''unsupported trigger queue layout''))"

definition queued :: "string \<Rightarrow> queued_slot option op" where
  "queued k =
     bind (get ''trigger_queue'' k) (\<lambda>v.
       case v of None \<Rightarrow> Ret None | Some w \<Rightarrow> bind (of_sum (decode_queue w)) (\<lambda>q. Ret (Some q)))"

definition remove_queue :: "string \<Rightarrow> unit op" where
  "remove_queue k =
     bind (queued k) (\<lambda>q.
       case q of
         None \<Rightarrow> Ret ()
       | Some q' \<Rightarrow>
           bind (delete ''trigger_queue'' k) (\<lambda>_. delete (partition ''queue_name'' (a_name (q_admission q'))) k))"

section \<open>Triggers\<close>

definition trigger_indexes :: "string \<Rightarrow> trigger \<Rightarrow> db" where
  "trigger_indexes k t =
     bt_of_list
       ((case tg_at_ms t of None \<Rightarrow> [] | Some at \<Rightarrow> [((''trigger_due'', timed at k), RJson (String k))])
        @ map (\<lambda>ty. ((partition ''trigger_type'' ty, k), RJson (String k))) (tg_types t))"

definition store_trigger :: "string \<Rightarrow> trigger option \<Rightarrow> trigger option \<Rightarrow> unit op" where
  "store_trigger k before after =
     (let rows_of = (\<lambda>t. case t of None \<Rightarrow> bt_empty | Some u \<Rightarrow> trigger_indexes k u) in
      bind (for_each (changes (rows_of before) (rows_of after)) write_change) (\<lambda>_.
        case after of
          Some t \<Rightarrow> put ''trigger'' k (RTrigger t)
        | None \<Rightarrow> if before \<noteq> None then delete ''trigger'' k else Ret ()))"

text \<open>\<^verbatim>\<open>arm\<close>: the triggers a definition owns become \<open>wanted\<close>.\<close>

definition arm :: "definitions \<Rightarrow> (string, trigger) btree \<Rightarrow> definitions op" where
  "arm defs wanted =
     bind (for_each (d_triggers defs) remove_queue) (\<lambda>_.
     bind (for_each (filter (\<lambda>k. \<not> bt_has wanted k) (d_triggers defs)) (\<lambda>k.
             bind (get_as row_trigger ''trigger'' k) (\<lambda>current. store_trigger k current None))) (\<lambda>_.
     bind (for_each (bt_entries wanted) (\<lambda>(k, t).
             bind (get_as row_trigger ''trigger'' k) (\<lambda>current. store_trigger k current (Some t)))) (\<lambda>_.
     Ret (defs\<lparr>d_triggers := bt_keys wanted\<rparr>))))"

section \<open>Trips and the breaker\<close>

definition TRIPPED :: string where
  "TRIPPED = ''ouro.definition.tripped''"

definition optional :: "string \<Rightarrow> string option \<Rightarrow> (string \<times> json) list" where
  "optional k v = (case v of None \<Rightarrow> [] | Some s \<Rightarrow> [(k, String s)])"

definition error_json :: "workflow_error \<Rightarrow> json" where
  "error_json e = object
     ([(''type'', String (err_type e)), (''status'', Number (PosInt (err_status e)))]
      @ optional ''title'' (err_title e) @ optional ''detail'' (err_detail e) @ optional ''instance'' (err_instance e))"

definition trip_event :: "ext \<Rightarrow> trip \<Rightarrow> string \<Rightarrow> json" where
  "trip_event x t name = object
     [(''specversion'', String ''1.0''),
      (''type'', String TRIPPED),
      (''source'', String (''ouro/definitions/'' @ name)),
      (''id'', String (''tripped:'' @ decimal (t_epoch t))),
      (''subject'', String name),
      (''time'', String (case x_rfc3339 x (t_at_ms t) of None \<Rightarrow> [] | Some s \<Rightarrow> s)),
      (''data'', object
         [(''name'', String name),
          (''version'', Number (PosInt (t_version t))),
          (''digest'', String (t_digest t)),
          (''epoch'', Number (PosInt (t_epoch t))),
          (''faults'', Number (PosInt (t_faults t))),
          (''threshold'', Number (PosInt (t_threshold t))),
          (''run'', String (t_run t)),
          (''reason'', error_json (t_reason t))])]"

definition notice_key :: "string \<Rightarrow> trip \<Rightarrow> string" where
  "notice_key name t = timed (t_at_ms t) (component name @ '':'' @ hex_fixed 16 (t_epoch t))"

definition digest :: "definitions option \<Rightarrow> admission \<Rightarrow> string" where
  "digest defs a =
     (case Option.bind defs (\<lambda>d. bt_get (d_versions d) (a_version a)) of None \<Rightarrow> [] | Some v \<Rightarrow> dv_digest v)"

definition barred :: "definitions option \<Rightarrow> admission \<Rightarrow> definition_tripped option" where
  "barred defs a =
     (case Option.bind defs d_tripped of
        None \<Rightarrow> None
      | Some t \<Rightarrow>
          if t_manual t \<noteq> None \<or> digest defs a = [] \<or> digest defs a = t_digest t
          then Some (refusal t (a_name a)) else None)"

definition breaker :: "ext \<Rightarrow> saved_run \<Rightarrow> workflow_error option \<Rightarrow> bool \<Rightarrow> nat \<Rightarrow> int \<Rightarrow> unit op" where
  "breaker x r fault success dflt now =
     (let name = a_name (r_admission r); version = a_version (r_admission r) in
      bind (load_definitions name) (\<lambda>found.
      case found of
        None \<Rightarrow> Ret ()
      | Some defs \<Rightarrow>
          if d_active defs \<noteq> Some version \<or> r_epoch r \<noteq> Some (d_epoch defs) \<or> d_tripped defs \<noteq> None then Ret ()
          else
            (case fault of
               None \<Rightarrow>
                 if success \<and> 0 < d_consecutive_faults defs
                 then store_definitions name (defs\<lparr>d_consecutive_faults := 0\<rparr>) else Ret ()
             | Some reason \<Rightarrow>
                 let faults = sat_add_u32 (d_consecutive_faults defs) 1;
                     defs' = defs\<lparr>d_consecutive_faults := faults\<rparr>;
                     policy = (case bt_get (d_versions defs) version of None \<Rightarrow> Inherit | Some d \<Rightarrow> dv_breaker d) in
                 (case effective policy dflt of
                    None \<Rightarrow> store_definitions name defs'
                  | Some threshold \<Rightarrow>
                      if faults < threshold then store_definitions name defs'
                      else
                        let t = \<lparr>t_manual = None, t_breaker = True, t_version = version,
                              t_digest = (case bt_get (d_versions defs) version of None \<Rightarrow> [] | Some d \<Rightarrow> dv_digest d),
                              t_epoch = d_epoch defs, t_faults = faults, t_threshold = threshold,
                              t_run = a_id (r_admission r), t_reason = reason, t_at_ms = now\<rparr> in
                        bind (arm defs' bt_empty) (\<lambda>disarmed.
                        bind (put ''notice'' (notice_key name t) (RJson (trip_event x t name))) (\<lambda>_.
                        store_definitions name (disarmed\<lparr>d_tripped := Some t\<rparr>)))))))"

section \<open>Activation\<close>

definition activate ::
  "string \<Rightarrow> nat \<Rightarrow> nat option \<Rightarrow> (string, trigger) btree \<Rightarrow> activation \<Rightarrow> definitions option op" where
  "activate name version epoch arming act =
     bind (load_definitions name) (\<lambda>found.
     let defs = (case found of None \<Rightarrow> default_definitions | Some d \<Rightarrow> d) in
     bind (ensure (bt_has (d_versions defs) version) (Message ''unknown definition version'')) (\<lambda>_.
     if (case epoch of None \<Rightarrow> False | Some e \<Rightarrow> e \<noteq> d_epoch defs) then Ret None
     else
       bind (of_option (Message ''activation epoch overflow'') (checked_add_u64 (d_epoch defs) 1)) (\<lambda>epoch'.
       let defs' = defs\<lparr>d_active := Some version, d_epoch := epoch', d_consecutive_faults := 0, d_tripped := None,
             d_activations := bt_insert version
               \<lparr>ad_epoch = epoch', ad_at_ms = act_at_ms act, ad_actor = act_actor act, ad_note = act_note act\<rparr>
               (d_activations defs)\<rparr> in
       bind (delete ''paused'' name) (\<lambda>_.
       bind (arm defs' arming) (\<lambda>armed.
       bind (store_definitions name armed) (\<lambda>_.
       Ret (Some armed)))))))"

section \<open>Reads\<close>

definition definitions_of :: "string \<Rightarrow> definitions op" where
  "definitions_of name =
     bind (load_definitions name) (\<lambda>d. Ret (case d of None \<Rightarrow> default_definitions | Some x \<Rightarrow> x))"

text \<open>The notices a host has not acknowledged, in order of their time.\<close>

definition notices :: "nat option \<Rightarrow> (string \<times> row) list op" where
  "notices limit = bind (scan ''notice'' [] None limit) (\<lambda>rs. Ret (map (\<lambda>((_, k), v). (k, v)) rs))"

definition acknowledge :: "string \<Rightarrow> bool op" where
  "acknowledge k =
     bind (get ''notice'' k) (\<lambda>v.
       if v = None then Ret False else bind (delete ''notice'' k) (\<lambda>_. Ret True))"

end
