(* ===== verification/Admissions.thy ===== *)
theory Admissions
  imports Mailbox Catalog
begin

text \<open>
  Admission of runs and the emergency stop (\<^verbatim>\<open>crates/durable/src/engine.rs\<close>, section 2): the row a new run
  starts with, the joins of an id that is already admitted, refusals of a tripped or paused definition,
  and runs a trigger could not admit.
\<close>

definition is_stopped :: "bool op" where
  "is_stopped = bind (get_as row_bool ''control'' ''stopped'') (\<lambda>b. Ret (case b of None \<Rightarrow> False | Some v \<Rightarrow> v))"

definition running :: "unit op" where
  "running = bind is_stopped (\<lambda>b. if b then Fail Stopped else Ret ())"

datatype join = Root | Child

definition initial_run :: "admission \<Rightarrow> int \<Rightarrow> nat option \<Rightarrow> string \<Rightarrow> stored_run" where
  "initial_run a now epoch dig =
     \<lparr>s_version = VERSION,
      s_run = \<lparr>r_admission = a, r_state = StReady, r_fence = None, r_generation = 0, r_lease_until_ms = None,
        r_wake_at_ms = now, r_interruptions = 0, r_outcome = None, r_ended_ms = None, r_child = None,
        r_admitted_ms = now, r_epoch = epoch, r_root = None, r_annotations = bt_empty, r_held = None\<rparr>,
      s_digest = dig, s_awaits = bt_empty, s_listeners = bt_empty, s_subscriptions = bt_empty,
      s_waits = bt_empty, s_budget_ended = None, s_addressed_waits = bt_empty, s_rearm = None,
      s_trigger = None, s_accepted = 0, s_pending = bt_empty, s_published = 0, s_mailbox = None,
      s_evidence = False\<rparr>"

text \<open>\<open>admitted\<close>: the row of a new run, not stored yet; nothing when the id joins a stored run.\<close>

definition admitted :: "admission \<Rightarrow> int \<Rightarrow> join \<Rightarrow> stored_run option op" where
  "admitted a now j =
     bind (find_run (a_id a)) (\<lambda>existing.
     case existing of
       Some e \<Rightarrow>
         let stored = r_admission (s_run e) in
         (case (case j of
                  Root \<Rightarrow> joins stored (a_name a) (if pinned a then Some (a_version a) else None) (host a)
                | Child \<Rightarrow> joins stored (a_name a) None (host stored)) of
            Some field \<Rightarrow> Fail (AdmissionMismatch (a_id stored) field)
          | None \<Rightarrow> Ret None)
     | None \<Rightarrow>
         bind running (\<lambda>_.
         bind (load_definitions (a_name a)) (\<lambda>defs.
         case barred defs a of
           Some refused \<Rightarrow> Fail (DefinitionTripped refused)
         | None \<Rightarrow>
             Ret (Some (initial_run a now
               (case defs of None \<Rightarrow> None | Some d \<Rightarrow> if d_active d = Some (a_version a) then Some (d_epoch d) else None)
               (digest defs a))))))"

definition insert_run :: "admission \<Rightarrow> int \<Rightarrow> bool op" where
  "insert_run a now =
     bind (admitted a now Root) (\<lambda>s.
     case s of None \<Rightarrow> Ret False | Some t \<Rightarrow> bind (store_run t) (\<lambda>_. Ret True))"

text \<open>The refusal a new run meets when the queue drained just before tripped its definition.\<close>

definition drained_refusal :: "bool \<Rightarrow> admission \<Rightarrow> definition_tripped option op" where
  "drained_refusal drained a =
     (if \<not> drained then Ret None
      else bind (find_run (a_id a)) (\<lambda>s.
        if s \<noteq> None then Ret None
        else bind (load_definitions (a_name a)) (\<lambda>defs. Ret (barred defs a))))"

definition refuse :: "ext \<Rightarrow> refused \<Rightarrow> int \<Rightarrow> unit op" where
  "refuse x rf now =
     bind (admitted (rf_admission rf) now Root) (\<lambda>s.
     case s of
       None \<Rightarrow> Ret ()
     | Some t \<Rightarrow>
         let t' = t\<lparr>s_run := (s_run t)\<lparr>r_state := StFailed, r_outcome := Some (Faulted (rf_error rf)),
                      r_ended_ms := Some now\<rparr>\<rparr> in
         bind (store_run t') (\<lambda>_.
         breaker x (s_run t') (Some (rf_error rf)) False (rf_breaker_threshold rf) now))"

text \<open>\<^verbatim>\<open>close\<close>: a type no listener names any more is not awaited.\<close>

definition close :: "stored_run \<Rightarrow> string list \<Rightarrow> stored_run" where
  "close s types =
     foldl (\<lambda>u t.
       if list_ex (\<lambda>ts. t \<in> set ts) (bt_values (s_listeners u)) then u
       else u\<lparr>s_awaits := bt_remove t (s_awaits u), s_addressed_waits := bt_remove t (s_addressed_waits u)\<rparr>) s types"

end
