(* ===== verification/Queues.thy ===== *)
theory Queues
  imports Admissions
begin

text \<open>
  Buffered slots and their promotion (\<^verbatim>\<open>crates/durable/src/engine.rs\<close>, section 4): a trigger's slot that
  found its definition busy waits in \<^verbatim>\<open>trigger_queue\<close> and is admitted when room appears; while the store is
  stopped the promotion is deferred under \<^verbatim>\<open>control_drain\<close>.
\<close>

definition capacity :: "string \<Rightarrow> nat \<Rightarrow> bool op" where
  "capacity name limit =
     (if limit = 0 then Ret False
      else bind (scan (partition ''live_name'' name) [] None (Some limit)) (\<lambda>rs. Ret (length rs < limit)))"

definition admit_firing :: "string \<Rightarrow> admission \<Rightarrow> rearm option \<Rightarrow> trigger option \<Rightarrow> int \<Rightarrow> unit op" where
  "admit_firing k a rearm_of next now =
     bind (insert_run a now) (\<lambda>new.
     bind (if new then
             bind (load_run (a_id a)) (\<lambda>s.
               store_run (s\<lparr>s_trigger := Some k,
                 s_rearm := (case (rearm_of, next) of (Some ra, Some t) \<Rightarrow> Some (ra, t) | _ \<Rightarrow> None)\<rparr>))
           else Ret ()) (\<lambda>_.
     put ''trigger_run'' k (RJson (String (a_id a)))))"

text \<open>One buffered slot of a definition: promoted when its trigger has no live run and there is room.\<close>

definition drain_slot :: "ext \<Rightarrow> string \<Rightarrow> int \<Rightarrow> string \<Rightarrow> unit op" where
  "drain_slot x name now k =
     bind (queued k) (\<lambda>found.
     case found of
       None \<Rightarrow>
         bind (get (partition ''queue_name'' name) k) (\<lambda>v. ensure (v = None) (Message ''dangling queue index''))
     | Some q \<Rightarrow>
         bind (scan (partition ''trigger_live'' k) [] None (Some 1)) (\<lambda>live.
         bind (if live \<noteq> [] then Ret True
               else bind (capacity name (q_max_concurrent_runs q)) (\<lambda>room. Ret (\<not> room))) (\<lambda>skip.
         if skip then Ret ()
         else
           bind (get_as row_trigger ''trigger'' k) (\<lambda>t.
           bind (of_option (Message ''queue without trigger'') t) (\<lambda>trig.
           bind (remove_queue k) (\<lambda>_.
           case q_failure q of
             Some (err, threshold) \<Rightarrow>
               refuse x \<lparr>rf_admission = q_admission q, rf_error = err, rf_breaker_threshold = threshold\<rparr> now
           | None \<Rightarrow> admit_firing k (q_admission q) (q_rearm q) (Some trig) now))))))"

definition drain_queues :: "ext \<Rightarrow> string \<Rightarrow> int \<Rightarrow> unit op" where
  "drain_queues x name now =
     bind is_stopped (\<lambda>stopped.
     if stopped then
       bind (scan (partition ''queue_name'' name) [] None (Some 1)) (\<lambda>rs.
         if rs \<noteq> [] then put ''control_drain'' name (RJson (Bool True)) else Ret ())
     else
       bind (scan (partition ''queue_name'' name) [] None None) (\<lambda>rs.
         for_each rs (\<lambda>((_, k), _). drain_slot x name now k)))"

definition drain_marked :: "ext \<Rightarrow> string \<Rightarrow> int \<Rightarrow> bool op" where
  "drain_marked x name now =
     bind (get_as row_bool ''control_drain'' name) (\<lambda>mark.
     if mark = None then Ret False
     else bind is_stopped (\<lambda>stopped.
       if stopped then Ret False
       else bind (delete ''control_drain'' name) (\<lambda>_.
            bind (drain_queues x name now) (\<lambda>_. Ret True))))"

definition drain_pending :: "ext \<Rightarrow> int \<Rightarrow> nat option \<Rightarrow> unit op" where
  "drain_pending x now limit =
     bind (scan ''control_drain'' [] None limit) (\<lambda>rs.
       for_each rs (\<lambda>((_, name), _).
         bind (delete ''control_drain'' name) (\<lambda>_. drain_queues x name now)))"

section \<open>Starting runs\<close>

text \<open>
  \<^verbatim>\<open>admit\<close>: the deferred slots go first; a refusal caused by their own drain commits that drain
  (\<open>Inl\<close>).
\<close>

definition admit :: "ext \<Rightarrow> admission \<Rightarrow> int \<Rightarrow> (definition_tripped + bool) op" where
  "admit x a now =
     bind (drain_marked x (a_name a) now) (\<lambda>drained.
     bind (drained_refusal drained a) (\<lambda>refused.
     case refused of
       Some d \<Rightarrow> Ret (Inl d)
     | None \<Rightarrow> bind (insert_run a now) (\<lambda>b. Ret (Inr b))))"

end
