(* ===== verification/Leases.thy ===== *)
theory Leases
  imports Queues
begin

text \<open>
  Leases and the fenced steps of a run (\<^verbatim>\<open>crates/durable/src/engine.rs\<close>, sections 2 and 6): claiming a run,
  renewing and releasing its lease, the journal of records, waits and subscriptions, taking an event and
  spending the tree's budget. The owner a claim writes is a fresh UUID of its caller, a parameter here.
\<close>

section \<open>Authority\<close>

definition authority :: "fence \<Rightarrow> int \<Rightarrow> int \<Rightarrow> stored_run op" where
  "authority f now skew =
     bind (load_run (f_run_id f)) (\<lambda>s.
     bind (ensure
       (r_state (s_run s) = StRunning \<and> r_fence (s_run s) = Some f \<and>
        (case r_lease_until_ms (s_run s) of None \<Rightarrow> False | Some until \<Rightarrow> sat_add now skew < until))
       (Message (''run '' @ f_run_id f @ '' lease expired or was replaced''))) (\<lambda>_.
     Ret s))"

definition not_held :: "stored_run \<Rightarrow> unit op" where
  "not_held s = (if r_held (s_run s) \<noteq> None then Fail (Held (s_id s)) else Ret ())"

definition checked :: "fence \<Rightarrow> int \<Rightarrow> int \<Rightarrow> stored_run op" where
  "checked f now skew =
     bind running (\<lambda>_.
     bind (authority f now skew) (\<lambda>s.
     bind (not_held s) (\<lambda>_.
     Ret s)))"

section \<open>Claims\<close>

definition claimable :: "saved_run \<Rightarrow> int \<Rightarrow> bool" where
  "claimable r now =
     (if r_held r \<noteq> None then False
      else case r_state r of
        StReady \<Rightarrow> r_wake_at_ms r \<le> now
      | StWaiting \<Rightarrow> r_wake_at_ms r \<le> now
      | StRunning \<Rightarrow> (case r_lease_until_ms r of None \<Rightarrow> False | Some at \<Rightarrow> at \<le> now)
      | _ \<Rightarrow> False)"

definition claim_run :: "stored_run \<Rightarrow> int \<Rightarrow> string \<Rightarrow> error + (fence \<times> stored_run)" where
  "claim_run s now owner =
     (let r = s_run s in
      case checked_add_u64 (r_generation r) 1 of
        None \<Rightarrow> Inl (Message ''fence generation overflow'')
      | Some g \<Rightarrow>
          let f = \<lparr>f_run_id = a_id (r_admission r), f_owner = owner, f_generation = g\<rparr>;
              wake = (if r_state r = StRunning
                then (case r_lease_until_ms r of None \<Rightarrow> r_wake_at_ms r | Some until \<Rightarrow> until) else r_wake_at_ms r)
          in Inr (f, s\<lparr>s_run := r\<lparr>r_generation := g, r_wake_at_ms := wake, r_fence := Some f,
                 r_lease_until_ms := Some (sat_add now LEASE_MS), r_state := StRunning\<rparr>\<rparr>))"

definition start :: "ext \<Rightarrow> admission \<Rightarrow> int \<Rightarrow> string \<Rightarrow> (definition_tripped + fence option) op" where
  "start x a now owner =
     bind (drain_marked x (a_name a) now) (\<lambda>drained.
     bind (drained_refusal drained a) (\<lambda>refused.
     case refused of
       Some d \<Rightarrow> Ret (Inl d)
     | None \<Rightarrow>
         bind (admitted a now Root) (\<lambda>s.
         case s of
           None \<Rightarrow> Ret (Inr None)
         | Some t \<Rightarrow>
             bind (of_sum (claim_run t now owner)) (\<lambda>(f, t').
             bind (store_run t') (\<lambda>_.
             Ret (Inr (Some f)))))))"

definition claim_as :: "string \<Rightarrow> int \<Rightarrow> compatibility \<Rightarrow> string \<Rightarrow> fence option op" where
  "claim_as i now w owner =
     bind is_stopped (\<lambda>stopped.
     if stopped then Ret None
     else bind (find_run i) (\<lambda>found.
       case found of
         None \<Rightarrow> Ret None
       | Some s \<Rightarrow>
           if \<not> claimable (s_run s) now \<or> \<not> admits w (application_version (r_admission (s_run s))) then Ret None
           else
             bind (of_sum (claim_run s now owner)) (\<lambda>(f, s').
             bind (store_run s') (\<lambda>_.
             Ret (Some f)))))"

definition check_lease :: "policy \<Rightarrow> fence \<Rightarrow> int \<Rightarrow> unit op" where
  "check_lease pol f now = bind (checked f now (skew_ms pol)) (\<lambda>_. Ret ())"

text \<open>\<^verbatim>\<open>renew\<close> commits the renewal of a held run too and answers \<open>Held\<close> (\<open>Inl\<close>).\<close>

definition renew :: "policy \<Rightarrow> fence \<Rightarrow> int \<Rightarrow> (error + unit) op" where
  "renew pol f now =
     bind running (\<lambda>_.
     bind (authority f now (skew_ms pol)) (\<lambda>s.
     let s' = s\<lparr>s_run := (s_run s)\<lparr>r_lease_until_ms := Some (sat_add now LEASE_MS)\<rparr>\<rparr> in
     bind (store_run s') (\<lambda>_.
     Ret (if r_held (s_run s') \<noteq> None then Inl (Held (s_id s')) else Inr ()))))"

definition release :: "policy \<Rightarrow> fence \<Rightarrow> int \<Rightarrow> unit op" where
  "release pol f now =
     bind (authority f now (skew_ms pol)) (\<lambda>s.
     store_run (s\<lparr>s_run := (s_run s)\<lparr>r_state := StReady, r_fence := None, r_lease_until_ms := None,
       r_wake_at_ms := now\<rparr>\<rparr>))"

section \<open>The journal\<close>

definition decode_records :: "(key \<times> row) list \<Rightarrow> (string, journal_record) btree op" where
  "decode_records rs =
     bind (collect_tx rs (\<lambda>((_, k), v). bind (of_option Decode (row_record v)) (\<lambda>r. Ret (k, r)))) (\<lambda>xs.
     Ret (bt_of_list xs))"

definition load_records :: "policy \<Rightarrow> fence \<Rightarrow> int \<Rightarrow> (string, journal_record) btree op" where
  "load_records pol f now =
     bind (checked f now (skew_ms pol)) (\<lambda>_.
     bind (scan (records_of (f_run_id f)) [] None None) decode_records)"

text \<open>The one save a held run still takes: the answer of a call already dispatched.\<close>

definition is_answer :: "journal_record option \<Rightarrow> journal_record \<Rightarrow> bool" where
  "is_answer intent r \<longleftrightarrow>
     (case (intent, r) of
        (Some (Call _ _ _ _ Pending _), Call _ _ _ _ st _) \<Rightarrow> st \<noteq> Pending
      | _ \<Rightarrow> False)"

definition completes :: "journal_record \<Rightarrow> bool" where
  "completes r \<longleftrightarrow> (case r of Call _ _ _ _ (Done _) _ \<Rightarrow> True | _ \<Rightarrow> False)"

definition is_event_record :: "journal_record \<Rightarrow> bool" where
  "is_event_record r \<longleftrightarrow> (case r of Event _ \<Rightarrow> True | Expired _ \<Rightarrow> True | _ \<Rightarrow> False)"

definition is_budget_record :: "journal_record \<Rightarrow> bool" where
  "is_budget_record r \<longleftrightarrow> (case r of Budget _ _ _ \<Rightarrow> True | Exceeded _ \<Rightarrow> True | _ \<Rightarrow> False)"

text \<open>Whether the run may save this record: a held run only the answer of a call in flight, and nobody an
  event or budget record that is not there already.\<close>

definition save_allowed :: "stored_run \<Rightarrow> row option \<Rightarrow> journal_record \<Rightarrow> unit op" where
  "save_allowed s old r =
     bind (if r_held (s_run s) \<noteq> None
           then bind (case old of None \<Rightarrow> Ret None
                      | Some v \<Rightarrow> bind (of_option Decode (row_record v)) (\<lambda>o'. Ret (Some o'))) (\<lambda>intent.
                if is_answer intent r then Ret () else not_held s)
           else Ret ()) (\<lambda>_.
     bind (if is_event_record r
           then ensure (old = Some (RRecord r)) (Message ''event records must be committed by take_event'') else Ret ()) (\<lambda>_.
     if is_budget_record r
     then ensure (old = Some (RRecord r)) (Message ''budget records must be committed by spend'') else Ret ()))"

text \<open>The transition from the stored record, and whether that one was a call already completed.\<close>

definition save_transition :: "row option \<Rightarrow> journal_record \<Rightarrow> bool op" where
  "save_transition old r =
     (case old of
        None \<Rightarrow> Ret False
      | Some v \<Rightarrow>
          bind (of_option Decode (row_record v)) (\<lambda>o'.
          bind (ensure (check_transition o' r) (Message ''invalid durable record transition'')) (\<lambda>_.
          Ret (completes o'))))"

text \<open>The run's annotation totals with those of a call that just completed.\<close>

definition counted :: "ext \<Rightarrow> stored_run \<Rightarrow> bool \<Rightarrow> journal_record \<Rightarrow> totals" where
  "counted x s completed r =
     (case r of
        Call _ _ _ _ (Done _) ann \<Rightarrow>
          if completed then r_annotations (s_run s)
          else accumulate (x_float_sum x) (x_totals_len x) (r_annotations (s_run s)) (numbers ann)
      | _ \<Rightarrow> r_annotations (s_run s))"

definition save_record :: "ext \<Rightarrow> policy \<Rightarrow> fence \<Rightarrow> string \<Rightarrow> journal_record \<Rightarrow> int \<Rightarrow> unit op" where
  "save_record x pol f k r now =
     bind running (\<lambda>_.
     bind (authority f now (skew_ms pol)) (\<lambda>s.
     let kind = records_of (f_run_id f) in
     bind (get kind k) (\<lambda>old.
     bind (save_allowed s old r) (\<lambda>_.
     bind (save_transition old r) (\<lambda>completed.
     bind (if old \<noteq> Some (RRecord r) then put kind k (RRecord r) else Ret ()) (\<lambda>_.
     let totals = counted x s completed r in
     if \<not> s_evidence s \<or> totals \<noteq> r_annotations (s_run s)
     then store_run (s\<lparr>s_evidence := True, s_run := (s_run s)\<lparr>r_annotations := totals\<rparr>\<rparr>) else Ret ()))))))"

lemma commits_save_transition [simp]:
  "commits (save_transition old r) d b d' \<longleftrightarrow> d' = d \<and>
     (case old of None \<Rightarrow> \<not> b | Some v \<Rightarrow> \<exists>o'. v = RRecord o' \<and> check_transition o' r \<and> (b \<longleftrightarrow> completes o'))"
  by (auto simp: save_transition_def split: option.splits row.splits)

lemma reads_save [simp]: "writes_in K (save_allowed s old r)" "writes_in K (save_transition old r)"
  by (auto simp: save_allowed_def save_transition_def not_held_def intro!: writes_in_bind split: option.split)

section \<open>Waits and subscriptions\<close>

definition register_wait :: "policy \<Rightarrow> fence \<Rightarrow> string list \<Rightarrow> int \<Rightarrow> unit op" where
  "register_wait pol f types now =
     bind (checked f now (skew_ms pol)) (\<lambda>s.
     store_run (foldl (\<lambda>u t. u\<lparr>s_addressed_waits := bt_insert t () (s_addressed_waits u),
       s_awaits := bt_or_insert t now (s_awaits u)\<rparr>) s types))"

definition unregister_wait :: "policy \<Rightarrow> fence \<Rightarrow> string \<Rightarrow> string list \<Rightarrow> int \<Rightarrow> unit op" where
  "unregister_wait pol f k types now =
     bind (checked f now (skew_ms pol)) (\<lambda>s.
     store_run (close (s\<lparr>s_listeners := bt_remove k (s_listeners s)\<rparr>) types))"

definition subscribe :: "policy \<Rightarrow> fence \<Rightarrow> string \<Rightarrow> string list \<Rightarrow> int \<Rightarrow> unit op" where
  "subscribe pol f k types now =
     bind (checked f now (skew_ms pol)) (\<lambda>s.
     store_run (s\<lparr>s_subscriptions := bt_insert k types (s_subscriptions s)\<rparr>))"

definition unsubscribe :: "policy \<Rightarrow> fence \<Rightarrow> string \<Rightarrow> int \<Rightarrow> unit op" where
  "unsubscribe pol f k now =
     bind (checked f now (skew_ms pol)) (\<lambda>s.
     store_run (s\<lparr>s_subscriptions := bt_remove k (s_subscriptions s), s_waits := bt_remove k (s_waits s)\<rparr>))"

definition describe_wait :: "policy \<Rightarrow> fence \<Rightarrow> string \<Rightarrow> pending_wait \<Rightarrow> int \<Rightarrow> unit op" where
  "describe_wait pol f k wait now =
     bind (checked f now (skew_ms pol)) (\<lambda>s.
     let w = (case bt_get (s_waits s) k of None \<Rightarrow> wait | Some old \<Rightarrow> wait\<lparr>pw_since_ms := pw_since_ms old\<rparr>) in
     if bt_get (s_waits s) k \<noteq> Some w
     then store_run (s\<lparr>s_waits := bt_insert k w (s_waits s)\<rparr>) else Ret ())"

text \<open>The entries of a map whose value satisfies a condition (\<^verbatim>\<open>retain\<close>).\<close>

definition bt_retain :: "('v \<Rightarrow> bool) \<Rightarrow> ('k::linorder, 'v) btree \<Rightarrow> ('k, 'v) btree" where
  "bt_retain P t = bt_of_list (filter (\<lambda>(_, v). P v) (bt_entries t))"

text \<open>The earliest pending copy among the first rows of the listed partitions.\<close>

definition first_pending :: "string list \<Rightarrow> nat option op" where
  "first_pending kinds =
     fold_tx kinds (\<lambda>kind best.
       bind (scan kind [] None (Some 1)) (\<lambda>rs.
         case rs of
           [] \<Rightarrow> Ret best
         | (_, v) # _ \<Rightarrow>
             bind (of_option (Message ''invalid pending event index'') (row_u64 v)) (\<lambda>n.
             Ret (Some (case best of None \<Rightarrow> n | Some c \<Rightarrow> min c n))))) None"

text \<open>The row of a run after a listen under \<open>k\<close> took its event.\<close>

definition taken_run :: "stored_run \<Rightarrow> string \<Rightarrow> string list \<Rightarrow> stored_run" where
  "taken_run s k types =
     close (s\<lparr>s_listeners := bt_remove k (s_listeners s),
       s_waits := bt_retain (\<lambda>w. pw_position w \<noteq> k) (s_waits s)\<rparr>) types"

text \<open>Consuming copy \<open>n\<close> for the listen under \<open>k\<close>, with its event record.\<close>

definition take_copy :: "ext \<Rightarrow> string \<Rightarrow> stored_run \<Rightarrow> nat \<Rightarrow> string \<Rightarrow> string list \<Rightarrow> json op" where
  "take_copy x i s n k types =
     bind (copy i n) (\<lambda>stored.
     bind (of_sum (envelope_of x stored)) (\<lambda>event.
     bind (consume (case strip_prefix ''done:'' (e_type stored) of
             None \<Rightarrow> s
           | Some child \<Rightarrow> s\<lparr>s_listeners := bt_remove (''child:'' @ child) (s_listeners s)\<rparr>) n stored k) (\<lambda>s3.
     bind (if e_expires_at_ms stored \<noteq> None then refresh_mailbox s3 else Ret s3) (\<lambda>s4.
     bind (put (records_of i) k (RRecord (Event event))) (\<lambda>_.
     bind (store_run (taken_run s4 k types)) (\<lambda>_.
     Ret event))))))"

definition take_event :: "ext \<Rightarrow> policy \<Rightarrow> fence \<Rightarrow> string \<Rightarrow> string list \<Rightarrow> int \<Rightarrow> json option op" where
  "take_event x pol f k types now =
     bind (checked f now (skew_ms pol)) (\<lambda>s.
     let i = f_run_id f in
     bind (get (records_of i) k) (\<lambda>saved.
     case saved of
       Some v \<Rightarrow>
         bind (of_option Decode (row_record v)) (\<lambda>r.
           case r of Event e \<Rightarrow> Ret (Some e) | _ \<Rightarrow> Fail (Message ''invalid event checkpoint''))
     | None \<Rightarrow>
         bind (expire x s now) (\<lambda>(_, s1).
         bind (first_pending (map (pending_of i) types @ (if ''*'' \<in> set types then [published_of i] else []))) (\<lambda>candidate.
         case candidate of
           None \<Rightarrow>
             bind (store_run (s1\<lparr>s_listeners := bt_insert k types (s_listeners s1)\<rparr>)) (\<lambda>_. Ret None)
         | Some n \<Rightarrow> bind (take_copy x i s1 n k types) (\<lambda>event. Ret (Some event))))))"

section \<open>Budgets\<close>

text \<open>The position of the first refused spend of the run, which this one becomes if there was none.\<close>

definition refused_first :: "string \<Rightarrow> string \<Rightarrow> string option op" where
  "refused_first kind k =
     bind (get kind EXCEEDED) (\<lambda>e.
     case e of
       Some v \<Rightarrow>
         bind (of_option Decode (row_record v)) (\<lambda>r.
           case r of Exceeded by \<Rightarrow> Ret (Some by) | _ \<Rightarrow> Fail (Message ''invalid first refusal record''))
     | None \<Rightarrow> bind (put kind EXCEEDED (RRecord (Exceeded k))) (\<lambda>_. Ret (Some k)))"

definition spend :: "policy \<Rightarrow> fence \<Rightarrow> string \<Rightarrow> nat \<Rightarrow> int \<Rightarrow> journal_record op" where
  "spend pol f k limit now =
     bind (checked f now (skew_ms pol)) (\<lambda>s.
     let kind = records_of (f_run_id f) in
     bind (get kind k) (\<lambda>saved.
     case saved of
       Some v \<Rightarrow>
         bind (of_option Decode (row_record v)) (\<lambda>r.
           case r of Budget _ _ _ \<Rightarrow> Ret r | _ \<Rightarrow> Fail (Message (''invalid budget record at '' @ k)))
     | None \<Rightarrow>
         let root = (case r_root (s_run s) of None \<Rightarrow> f_run_id f | Some i \<Rightarrow> i) in
         bind (get_as row_u64 ''budget'' root) (\<lambda>b.
         let before = (case b of None \<Rightarrow> 0 | Some n \<Rightarrow> n);
             grant = before < limit;
             spent = before + of_bool grant in
         bind (if grant then put ''budget'' root (u64_row spent) else Ret ()) (\<lambda>_.
         bind (if grant then Ret None else refused_first kind k) (\<lambda>first.
         let r = Budget grant spent first in
         bind (put kind k (RRecord r)) (\<lambda>_.
         bind (if s_evidence s then Ret () else store_run (s\<lparr>s_evidence := True\<rparr>)) (\<lambda>_.
         Ret r)))))))"

section \<open>What is due\<close>

definition index_ids :: "string \<Rightarrow> (key \<times> row) list \<Rightarrow> (string \<times> string) list op" where
  "index_ids what rs =
     collect_tx rs (\<lambda>((_, k), v). bind (of_option (Message what) (index_id v)) (\<lambda>i. Ret (k, i)))"

definition due_as :: "ext \<Rightarrow> int \<Rightarrow> nat option \<Rightarrow> compatibility \<Rightarrow> string list op" where
  "due_as x now limit w =
     bind is_stopped (\<lambda>stopped.
     if stopped then Ret []
     else
       bind (drain_pending x now limit) (\<lambda>_.
       case c_version w of
         None \<Rightarrow>
           bind (scan ''due'' [] (Some (until_key now)) limit) (\<lambda>rs.
           bind (index_ids ''invalid due index'' rs) (\<lambda>ids. Ret (map snd ids)))
       | Some own \<Rightarrow>
           bind (fold_tx (remdups_adj (sort ([] # own # c_accepts w))) (\<lambda>v due.
                   bind (scan (partition ''due_app'' v) [] (Some (until_key now)) limit) (\<lambda>rs.
                   bind (index_ids ''invalid due index'' rs) (\<lambda>ids. Ret (due @ ids)))) []) (\<lambda>due.
           Ret (map snd (take_limit limit (sort due))))))"

section \<open>Retention\<close>

definition WORKERS_KEPT_MS :: int where
  "WORKERS_KEPT_MS = 24 * 3600000"

record swept =
  sw_records :: nat
  sw_expired :: nat
  sw_tombstones :: nat
  sw_workers :: nat

text \<open>Removing the rows an expiry index lists, index row and row itself; their number.\<close>

definition sweep_index :: "string \<Rightarrow> string \<Rightarrow> string \<Rightarrow> string \<Rightarrow> nat op" where
  "sweep_index index kind what stop =
     bind (scan index [] (Some stop) None) (\<lambda>rs.
     fold_tx rs (\<lambda>((_, k), v) n.
       bind (of_option (Message what) (index_id v)) (\<lambda>i.
       bind (delete index k) (\<lambda>_.
       bind (delete kind i) (\<lambda>_.
       Ret (n + 1))))) 0)"

definition sweep :: "ext \<Rightarrow> int \<Rightarrow> int \<Rightarrow> swept op" where
  "sweep x now kept =
     bind (ensure (0 \<le> kept) (Message ''negative retention'')) (\<lambda>_.
     let horizon = sat_sub now kept in
     bind (indexed_runs ''finished'' [] (Some (until_key horizon)) None) (\<lambda>finished.
     bind (fold_tx finished (\<lambda>s n.
             if due_by (r_ended_ms (s_run s)) horizon
             then bind (forget s) (\<lambda>(m, s'). bind (store_run s') (\<lambda>_. Ret (n + m)))
             else Ret n) 0) (\<lambda>records.
     bind (indexed_runs ''mailbox'' [] (Some (until_key now)) None) (\<lambda>mailboxes.
     bind (fold_tx mailboxes (\<lambda>s n.
             bind (expire x s now) (\<lambda>(m, s'). bind (store_run s') (\<lambda>_. Ret (n + m)))) 0) (\<lambda>expired_copies.
     bind (sweep_index ''ingress_due'' ''ingress'' ''invalid ingress index'' (until_key now)) (\<lambda>tombstones.
     bind (sweep_index ''worker_expiry'' ''worker'' ''invalid worker index''
             (until_key (sat_sub now WORKERS_KEPT_MS))) (\<lambda>workers.
     Ret \<lparr>sw_records = records, sw_expired = expired_copies, sw_tombstones = tombstones, sw_workers = workers\<rparr>)))))))"

end
