(* ===== verification/Lifecycle.thy ===== *)
theory Lifecycle
  imports Leases
begin

text \<open>
  The end of a run (\<^verbatim>\<open>crates/durable/src/engine.rs\<close>, section 5, and \<^verbatim>\<open>finish\<close>, \<^verbatim>\<open>start_child\<close>, \<^verbatim>\<open>child_outcome\<close> and
  \<^verbatim>\<open>cancel\<close> of section 6): a terminal run ends with all its live descendants in one commit, its parent is
  notified, its trigger re-armed, its budget dropped and its definition's queue drained.

  The cascade over the descendants is a loop of the source with no bound of its own; it takes fuel
  here, and a cascade out of fuel answers \<open>Diverged\<close>. Every descendant it visits was live and has just
  ended, so fuel above the number of live runs is never used up (\<open>cascade_enough_fuel\<close>).
\<close>

section \<open>Lifecycle notices\<close>

text \<open>A terminal child never reports waiting again: its automatic registration is closed, unless a listen
  of the parent still names the type.\<close>

definition close_waiting :: "string \<Rightarrow> string \<Rightarrow> unit op" where
  "close_waiting parent i =
     bind (load_run parent) (\<lambda>p.
       let wait = ''waiting:'' @ i; p' = close p [wait] in
       if bt_has (s_awaits p) wait \<and> \<not> bt_has (s_awaits p') wait then store_run p' else Ret ())"

definition lifecycle :: "string \<Rightarrow> status \<Rightarrow> int \<Rightarrow> unit op" where
  "lifecycle i status now =
     bind (load_run i) (\<lambda>s.
     case r_child (s_run s) of
       None \<Rightarrow> Ret ()
     | Some link \<Rightarrow>
         (case (case status of
                  Completed output \<Rightarrow> Some (''done'', object [(''status'', String ''completed''), (''output'', output)])
                | Faulted err \<Rightarrow> Some (''done'', object [(''status'', String ''faulted''), (''error'', error_json err)])
                | Cancelled \<Rightarrow> Some (''done'', object [(''status'', String ''cancelled'')])
                | Waiting _ \<Rightarrow> Some (''waiting'', object [(''status'', String ''waiting'')])
                | Interrupted _ \<Rightarrow> None) of
            None \<Rightarrow> Ret ()
          | Some (kind, data) \<Rightarrow>
              let t = kind @ '':'' @ i in
              bind (if kind = ''done'' then get (types_of (l_parent link)) (component t) else Ret None) (\<lambda>told.
              if told \<noteq> None then Ret ()
              else
                bind (if kind = ''done'' then close_waiting (l_parent link) i else Ret ()) (\<lambda>_.
                notify (l_parent link) t data now))))"

section \<open>Annotation totals per definition\<close>

definition TOTALS_BUCKET_MS :: int where
  "TOTALS_BUCKET_MS = 3600000"

definition bucket_start :: "int \<Rightarrow> int" where
  "bucket_start ms = sat_sub ms (ms mod TOTALS_BUCKET_MS)"

type_synonym tallies = "(string, nat \<times> totals) btree"

definition tally :: "ext \<Rightarrow> saved_run \<Rightarrow> tallies \<Rightarrow> tallies" where
  "tally x r ended =
     (if bt_entries (r_annotations r) = [] then ended
      else
        let name = a_name (r_admission r);
            (runs, sums) = (case bt_get ended name of None \<Rightarrow> (0, bt_empty) | Some e \<Rightarrow> e)
        in bt_insert name
             (runs + 1, accumulate (x_float_sum x) (x_totals_len x) sums (bt_entries (r_annotations r))) ended)"

definition add_bucket :: "ext \<Rightarrow> string \<Rightarrow> int \<Rightarrow> nat \<Rightarrow> totals \<Rightarrow> unit op" where
  "add_bucket x name now runs annotations =
     (let kind = partition ''totals'' name; k = time_key (bucket_start now) in
      bind (get_as row_bucket kind k) (\<lambda>found.
      let b = (case found of None \<Rightarrow> \<lparr>b_runs = 0, b_annotations = bt_empty\<rparr> | Some b \<Rightarrow> b) in
      put kind k (RBucket \<lparr>b_runs = sat_add_u64 (b_runs b) runs,
        b_annotations = accumulate (x_float_sum x) (x_totals_len x) (b_annotations b) (bt_entries annotations)\<rparr>)))"

section \<open>Termination of a run\<close>

text \<open>The row of a run that ends: no owner, no hold, nothing it waits for.\<close>

definition ended_run :: "stored_run \<Rightarrow> status \<Rightarrow> nat \<Rightarrow> int \<Rightarrow> stored_run" where
  "ended_run s status used now =
     s\<lparr>s_budget_ended := Some used,
       s_run := (s_run s)\<lparr>
         r_state := (case status of Completed _ \<Rightarrow> StCompleted | Faulted _ \<Rightarrow> StFailed | _ \<Rightarrow> StCancelled),
         r_outcome := Some status, r_ended_ms := Some now, r_fence := None, r_lease_until_ms := None,
         r_held := None\<rparr>,
       s_awaits := bt_empty, s_addressed_waits := bt_empty, s_listeners := bt_empty,
       s_subscriptions := bt_empty, s_waits := bt_empty\<rparr>"

type_synonym cascade_state = "(string, unit) btree \<times> tallies"

definition cancel_child ::
  "ext \<Rightarrow> nat \<Rightarrow> int \<Rightarrow> stored_run \<Rightarrow> string list \<times> cascade_state \<Rightarrow> (string list \<times> cascade_state) op" where
  "cancel_child x used now child st =
     (case st of (parents, names, ended) \<Rightarrow>
        let c = ended_run child Cancelled used now in
        bind (store_run_indexed c (indexes child)) (\<lambda>_.
        bind (lifecycle (s_id child) Cancelled now) (\<lambda>_.
        Ret (parents @ [s_id child], bt_insert (s_name child) () names, tally x (s_run child) ended))))"

text \<open>\<open>parents\<close> is the stack of the source, its top last.\<close>

fun cascade :: "nat \<Rightarrow> ext \<Rightarrow> nat \<Rightarrow> int \<Rightarrow> string list \<Rightarrow> cascade_state \<Rightarrow> cascade_state op" where
  "cascade n x used now [] st = Ret st"
| "cascade 0 x used now (p # ps) st = Fail Diverged"
| "cascade (Suc n) x used now (p # ps) st =
     bind (indexed_runs (partition ''children'' (last (p # ps))) [] None None) (\<lambda>children.
     bind (fold_tx children (cancel_child x used now) (butlast (p # ps), st)) (\<lambda>(parents, st').
     cascade n x used now parents st'))"

definition rearm_trigger :: "stored_run \<Rightarrow> int \<Rightarrow> unit op" where
  "rearm_trigger s now =
     (case s_rearm s of
        None \<Rightarrow> Ret ()
      | Some (ra, armed) \<Rightarrow>
          bind (get_as row_trigger ''trigger'' (ra_trigger ra)) (\<lambda>found.
          case found of
            None \<Rightarrow> Ret ()
          | Some t \<Rightarrow>
              if t = armed \<and> tg_at_ms t = None
              then store_trigger (ra_trigger ra) (Some t) (Some (t\<lparr>tg_at_ms := Some (sat_add now (ra_delay_ms ra))\<rparr>))
              else Ret ()))"

definition terminate :: "nat \<Rightarrow> ext \<Rightarrow> string \<Rightarrow> status \<Rightarrow> int \<Rightarrow> unit op" where
  "terminate fuel x i status now =
     bind (load_run i) (\<lambda>s.
     bind (get_as row_u64 ''budget'' (case r_root (s_run s) of None \<Rightarrow> i | Some root \<Rightarrow> root)) (\<lambda>b.
     let used = (case b of None \<Rightarrow> 0 | Some n \<Rightarrow> n); s' = ended_run s status used now in
     bind (store_run s') (\<lambda>_.
     bind (if r_root (s_run s') = None
           then bind (get ''budget'' i) (\<lambda>v. if v \<noteq> None then delete ''budget'' i else Ret ()) else Ret ()) (\<lambda>_.
     bind (rearm_trigger s' now) (\<lambda>_.
     bind (cascade fuel x used now [i] (bt_insert (s_name s') () bt_empty, tally x (s_run s') bt_empty)) (\<lambda>(names, ended).
     bind (lifecycle i status now) (\<lambda>_.
     bind (for_each (bt_keys names) (\<lambda>name. drain_queues x name now)) (\<lambda>_.
     for_each (bt_entries ended) (\<lambda>(name, runs, sums). add_bucket x name now runs sums)))))))))"

definition cancel_run :: "nat \<Rightarrow> ext \<Rightarrow> string \<Rightarrow> int \<Rightarrow> bool op" where
  "cancel_run fuel x i now =
     bind (find_run i) (\<lambda>found.
     case found of
       None \<Rightarrow> Ret False
     | Some s \<Rightarrow>
         if r_ended_ms (s_run s) \<noteq> None then Ret False
         else bind (terminate fuel x i Cancelled now) (\<lambda>_. Ret True))"

section \<open>Finishing a step\<close>

text \<open>\<^verbatim>\<open>Display\<close> of a workflow error.\<close>

definition show_error :: "workflow_error \<Rightarrow> string" where
  "show_error e =
     (case err_title e of None \<Rightarrow> err_type e | Some t \<Rightarrow> t)
     @ (case err_detail e of None \<Rightarrow> [] | Some d \<Rightarrow> '': '' @ d)
     @ (case err_instance e of None \<Rightarrow> [] | Some i \<Rightarrow> '' (at '' @ i @ '')'')"

definition backoff_ms :: "nat \<Rightarrow> int" where
  "backoff_ms interruptions = min (2000 * 2 ^ min (interruptions - 1) 20) 600000"

definition is_terminal :: "status \<Rightarrow> bool" where
  "is_terminal status \<longleftrightarrow>
     (case status of Completed _ \<Rightarrow> True | Faulted _ \<Rightarrow> True | Cancelled \<Rightarrow> True | _ \<Rightarrow> False)"

definition finish_state :: "stored_run \<Rightarrow> status \<Rightarrow> int \<Rightarrow> (status \<times> stored_run) op" where
  "finish_state s outcome now =
     (let r = s_run s in
      case outcome of
        Waiting wake \<Rightarrow>
          let s1 = s\<lparr>s_run := r\<lparr>r_state := StWaiting, r_interruptions := 0, r_wake_at_ms := wake\<rparr>\<rparr> in
          bind (pending_wanted s1 now) (\<lambda>b.
          Ret (outcome, if b then s1\<lparr>s_run := (s_run s1)\<lparr>r_wake_at_ms := now\<rparr>\<rparr> else s1))
      | Interrupted err \<Rightarrow>
          let m = sat_add_u32 (r_interruptions r) 1 in
          if MAX_INTERRUPTIONS \<le> m
          then Ret (Faulted (runtime_error (''gave up after '' @ decimal m @ '' interruptions: '' @ show_error err)),
                 s\<lparr>s_run := r\<lparr>r_interruptions := m\<rparr>\<rparr>)
          else Ret (outcome, s\<lparr>s_run := r\<lparr>r_interruptions := m, r_state := StReady,
                 r_wake_at_ms := sat_add now (backoff_ms m)\<rparr>\<rparr>)
      | _ \<Rightarrow> Ret (outcome, s\<lparr>s_run := r\<lparr>r_interruptions := 0\<rparr>\<rparr>))"

definition finish :: "nat \<Rightarrow> ext \<Rightarrow> policy \<Rightarrow> fence \<Rightarrow> status \<Rightarrow> int \<Rightarrow> nat \<Rightarrow> status op" where
  "finish fuel x pol f outcome now threshold =
     bind (checked f now (skew_ms pol)) (\<lambda>s.
     bind (finish_state s outcome now) (\<lambda>(status, s1).
     let s2 = s1\<lparr>s_run := (s_run s1)\<lparr>r_fence := None, r_lease_until_ms := None\<rparr>\<rparr> in
     bind (store_run s2) (\<lambda>_.
     bind (if is_terminal status then
             let fault = (case (status, outcome) of
                   (Faulted e, Interrupted _) \<Rightarrow> None
                 | (Faulted e, _) \<Rightarrow> Some e
                 | _ \<Rightarrow> None);
                 success = (case status of Completed _ \<Rightarrow> True | _ \<Rightarrow> False) in
             bind (breaker x (s_run s2) fault success threshold now) (\<lambda>_.
             terminate fuel x (f_run_id f) status now)
           else lifecycle (f_run_id f) status now) (\<lambda>_.
     Ret status))))"

section \<open>Children\<close>

definition start_child ::
  "ext \<Rightarrow> policy \<Rightarrow> fence \<Rightarrow> admission \<Rightarrow> child_link \<Rightarrow> int \<Rightarrow> string \<Rightarrow> (definition_tripped + fence option) op" where
  "start_child x pol parent a link now owner =
     bind (checked parent now (skew_ms pol)) (\<lambda>p.
     bind (ensure (l_parent link = f_run_id parent \<and> a_id a \<noteq> f_run_id parent) (Message ''invalid child parent'')) (\<lambda>_.
     bind (drain_marked x (a_name a) now) (\<lambda>drained.
     bind (drained_refusal drained a) (\<lambda>refused.
     case refused of
       Some d \<Rightarrow> Ret (Inl d)
     | None \<Rightarrow>
         let p' = p\<lparr>
               s_awaits := bt_or_insert (''waiting:'' @ a_id a) now (bt_or_insert (''done:'' @ a_id a) now (s_awaits p)),
               s_listeners := bt_insert (''child:'' @ a_id a) [''done:'' @ a_id a] (s_listeners p)\<rparr> in
         bind (store_run p') (\<lambda>_.
         bind (admitted a now Child) (\<lambda>fresh.
         bind (case fresh of Some c \<Rightarrow> Ret c | None \<Rightarrow> load_run (a_id a)) (\<lambda>c.
         let c' = (if fresh \<noteq> None
               then c\<lparr>s_run := (s_run c)\<lparr>r_child := Some link,
                 r_root := Some (case r_root (s_run p) of None \<Rightarrow> f_run_id parent | Some i \<Rightarrow> i)\<rparr>\<rparr> else c) in
         bind (ensure (r_child (s_run c') = Some link) (AdmissionMismatch (a_id a) FLink)) (\<lambda>_.
         bind (if fresh \<noteq> None
               then bind (of_sum (claim_run c' now owner)) (\<lambda>(f, c''). Ret (Some f, c'')) else Ret (None, c')) (\<lambda>(f, c'').
         bind (store_run c'') (\<lambda>_.
         bind (case r_outcome (s_run c'') of
                 Some outcome \<Rightarrow> lifecycle (a_id a) outcome now
               | None \<Rightarrow>
                   if r_state (s_run c'') = StWaiting then lifecycle (a_id a) (Waiting 0) now else Ret ()) (\<lambda>_.
         Ret (Inr f))))))))))))"

definition child_outcome :: "string \<Rightarrow> string \<Rightarrow> string \<Rightarrow> status option op" where
  "child_outcome parent k child =
     bind (load_run child) (\<lambda>s.
     bind (ensure (case r_child (s_run s) of None \<Rightarrow> False | Some l \<Rightarrow> l_parent l = parent \<and> l_key l = k)
             (Message ''child belongs to another parent or key'')) (\<lambda>_.
     Ret (r_outcome (s_run s))))"

end
