(* ===== verification/Triggers.thy ===== *)
theory Triggers
  imports Lifecycle
begin

text \<open>
  Firing triggers (\<^verbatim>\<open>crates/durable/src/engine.rs\<close>, sections 4 and 6): one commit that compares the
  trigger with the one its caller computed from, checks the ingress identity, applies the overlap policy
  and admits the run, records a refusal, or buffers the slot.
\<close>

section \<open>Ingress identities\<close>

text \<open>The key of an event's tombstone, the stored one, and whether it still holds the identity.\<close>

definition tombstone :: "json \<Rightarrow> int \<Rightarrow> (string \<times> tombstone_row option \<times> bool) op" where
  "tombstone event now =
     bind (of_option (Message ''an ingress event needs a source and an id'') (identity event)) (\<lambda>ident.
     let k = component ident in
     bind (get_as row_tombstone ''ingress'' k) (\<lambda>stored.
     case stored of
       None \<Rightarrow> Ret (k, stored, False)
     | Some t \<Rightarrow>
         if now < ts_expires_at_ms t
         then bind (ensure (ts_payload t = payload event) (IdentityConflict (shown_identity ident))) (\<lambda>_.
              Ret (k, stored, True))
         else Ret (k, stored, False)))"

definition ingested :: "json \<Rightarrow> int \<Rightarrow> bool op" where
  "ingested event now = bind (tombstone event now) (\<lambda>(_, _, used). Ret used)"

text \<open>Taking the identity: the tombstone and its expiry row.\<close>

definition bury :: "json \<Rightarrow> string \<Rightarrow> tombstone_row option \<Rightarrow> int \<Rightarrow> policy \<Rightarrow> unit op" where
  "bury event k old now pol =
     bind (case old of None \<Rightarrow> Ret () | Some t \<Rightarrow> delete ''ingress_due'' (timed (ts_expires_at_ms t) k)) (\<lambda>_.
     let at = sat_add now (ingress_ms pol) in
     bind (put ''ingress'' k (RTombstone \<lparr>ts_payload = payload event, ts_expires_at_ms = at\<rparr>)) (\<lambda>_.
     put ''ingress_due'' (timed at k) (RJson (String k))))"

section \<open>Firing\<close>

definition candidate_of :: "firing \<Rightarrow> admission option" where
  "candidate_of f = (case fi_admit f of a # _ \<Rightarrow> Some a | [] \<Rightarrow> map_option rf_admission (fi_refused f))"

definition row_id :: "row \<Rightarrow> string" where
  "row_id v = (case index_id v of None \<Rightarrow> [] | Some i \<Rightarrow> i)"

text \<open>
  The overlap policy of a schedule: the next trigger and what becomes of the slot.
\<close>

definition overlap_outcome ::
  "nat \<Rightarrow> ext \<Rightarrow> firing \<Rightarrow> overlap_guard \<Rightarrow> admission \<Rightarrow> int \<Rightarrow> (trigger option \<times> fired) op" where
  "overlap_outcome fuel x f g a now =
     bind (ensure (length (fi_admit f) \<le> 1) (Message ''overlap policy requires one admission'')) (\<lambda>_.
     bind (ensure (0 < og_max_concurrent_runs g) (Message ''schedule ceiling must be positive'')) (\<lambda>_.
     bind (ensure (fi_next f \<noteq> None \<and> fi_busy f \<noteq> None) (Message ''overlap firing requires next and busy triggers'')) (\<lambda>_.
     bind (find_run (a_id a)) (\<lambda>known.
     if known \<noteq> None then Ret (fi_next f, FCommitted)
     else
       bind (scan (partition ''trigger_live'' (fi_key f)) [] None (if og_policy g = OReplace then None else Some 1)) (\<lambda>live.
       bind (if og_policy g = OReplace
             then for_each live (\<lambda>(_, v).
               bind (of_option (Message ''invalid trigger run index'') (index_id v)) (\<lambda>i.
               bind (cancel_run fuel x i now) (\<lambda>_. Ret ())))
             else Ret ()) (\<lambda>_.
       bind (capacity (a_name a) (og_max_concurrent_runs g)) (\<lambda>room.
       if \<not> room then Ret (Some (og_ceiling g), FCeiling)
       else if live \<noteq> [] \<and> og_policy g \<noteq> OAllow \<and> og_policy g \<noteq> OReplace then
         bind (if og_policy g = OQueue then bind (queued (fi_key f)) (\<lambda>q. Ret (q = None)) else Ret False) (\<lambda>free.
         if free then
           bind (put ''trigger_queue'' (fi_key f) (RQueued \<lparr>q_version = 1, q_admission = a, q_rearm = fi_rearm f,
                   q_max_concurrent_runs = og_max_concurrent_runs g,
                   q_failure = map_option (\<lambda>r. (rf_error r, rf_breaker_threshold r)) (fi_refused f)\<rparr>)) (\<lambda>_.
           bind (put (partition ''queue_name'' (a_name a)) (fi_key f) (RJson (String (fi_key f)))) (\<lambda>_.
           Ret (fi_next f, FQueued)))
         else Ret (fi_busy f, FBusy (row_id (snd (hd live)))))
       else Ret (fi_next f, FCommitted))))))))"

text \<open>Without an overlap policy, a trigger whose last run is live is busy when the firing says so.\<close>

definition busy_outcome :: "firing \<Rightarrow> (trigger option \<times> fired) op" where
  "busy_outcome f =
     (if fi_busy f \<noteq> None \<and> (fi_admit f \<noteq> [] \<or> fi_refused f \<noteq> None)
      then bind (get_as row_string ''trigger_run'' (fi_key f)) (\<lambda>last_run.
           case last_run of
             None \<Rightarrow> Ret (fi_next f, FCommitted)
           | Some i \<Rightarrow>
               bind (find_run i) (\<lambda>s.
               if (case s of None \<Rightarrow> False | Some t \<Rightarrow> r_ended_ms (s_run t) = None)
               then Ret (fi_busy f, FBusy i) else Ret (fi_next f, FCommitted)))
      else Ret (fi_next f, FCommitted))"

definition fire_outcome :: "nat \<Rightarrow> ext \<Rightarrow> firing \<Rightarrow> int \<Rightarrow> (trigger option \<times> fired) op" where
  "fire_outcome fuel x f now =
     (case (fi_overlap f, candidate_of f) of
        (Some g, Some a) \<Rightarrow> overlap_outcome fuel x f g a now
      | (Some g, None) \<Rightarrow>
          if fi_admit f \<noteq> [] then Fail (Message ''overlap policy requires one admission'') else busy_outcome f
      | _ \<Rightarrow> busy_outcome f)"

definition fire_checked :: "nat \<Rightarrow> ext \<Rightarrow> firing \<Rightarrow> trigger option \<Rightarrow> int \<Rightarrow> policy \<Rightarrow> fired op" where
  "fire_checked fuel x f current now pol =
     bind (case fi_ingress f of None \<Rightarrow> Ret False | Some event \<Rightarrow> ingested event now) (\<lambda>used.
     if used then Ret FIngested
     else
       bind (fire_outcome fuel x f now) (\<lambda>(next, disposition).
       bind (case fi_ingress f of
               None \<Rightarrow> Ret False
             | Some event \<Rightarrow>
                 bind (tombstone event now) (\<lambda>(k, old, used).
                 if used then Ret True else bind (bury event k old now pol) (\<lambda>_. Ret False))) (\<lambda>used.
       if used then Ret FIngested
       else
         bind (store_trigger (fi_key f) current next) (\<lambda>_.
         bind (if disposition = FCommitted
               then for_each (fi_admit f) (\<lambda>a. admit_firing (fi_key f) a (fi_rearm f) next now) else Ret ()) (\<lambda>_.
         bind (case (disposition, fi_refused f) of
                 (FCommitted, Some r) \<Rightarrow>
                   bind (refuse x r now) (\<lambda>_. put ''trigger_run'' (fi_key f) (RJson (String (a_id (rf_admission r)))))
               | _ \<Rightarrow> Ret ()) (\<lambda>_.
         Ret disposition))))))"

text \<open>The first refusal among the admissions of a firing.\<close>

fun first_refusal :: "bool \<Rightarrow> admission list \<Rightarrow> definition_tripped option op" where
  "first_refusal drained [] = Ret None"
| "first_refusal drained (a # as) =
     bind (drained_refusal drained a) (\<lambda>d. case d of Some t \<Rightarrow> Ret (Some t) | None \<Rightarrow> first_refusal drained as)"

definition fire :: "nat \<Rightarrow> ext \<Rightarrow> firing \<Rightarrow> int \<Rightarrow> policy \<Rightarrow> (definition_tripped + fired) op" where
  "fire fuel x f now pol =
     bind is_stopped (\<lambda>stopped.
     if stopped then Ret (Inr FChanged)
     else
       bind (ensure (fi_refused f = None \<or> fi_admit f = []) (Message ''a firing admits its runs or records a refusal'')) (\<lambda>_.
       bind (case candidate_of f of None \<Rightarrow> Ret False | Some a \<Rightarrow> drain_marked x (a_name a) now) (\<lambda>drained.
       bind (get_as row_trigger ''trigger'' (fi_key f)) (\<lambda>current.
       if current \<noteq> fi_expected f then Ret (Inr FChanged)
       else
         bind (first_refusal drained (fi_admit f @ (case fi_refused f of None \<Rightarrow> [] | Some r \<Rightarrow> [rf_admission r]))) (\<lambda>refused.
         case refused of
           Some d \<Rightarrow> Ret (Inl d)
         | None \<Rightarrow> bind (fire_checked fuel x f current now pol) (\<lambda>d. Ret (Inr d)))))))"

section \<open>Reading triggers\<close>

definition trigger_of :: "string \<Rightarrow> trigger option op" where
  "trigger_of k = get_as row_trigger ''trigger'' k"

definition indexed_triggers :: "(key \<times> row) list \<Rightarrow> (string \<times> trigger) list op" where
  "indexed_triggers keys =
     fold_tx keys (\<lambda>(_, v) out.
       bind (of_option (Message ''invalid trigger index'') (index_id v)) (\<lambda>k.
       if list_ex (\<lambda>(k', _). k' = k) out then Ret out
       else
         bind (get_as row_trigger ''trigger'' k) (\<lambda>t.
         bind (of_option (Message (''dangling trigger index '' @ k)) t) (\<lambda>u.
         Ret (out @ [(k, u)]))))) []"

definition due_triggers :: "int \<Rightarrow> nat option \<Rightarrow> (string \<times> trigger) list op" where
  "due_triggers now limit =
     bind is_stopped (\<lambda>stopped.
     if stopped then Ret []
     else bind (scan ''trigger_due'' [] (Some (until_key now)) limit) indexed_triggers)"

text \<open>Both scans return rows of one partition each; \<^verbatim>\<open>extend\<close> merges them in key order.\<close>

definition triggers_for :: "string \<Rightarrow> nat option \<Rightarrow> (string \<times> trigger) list op" where
  "triggers_for t limit =
     bind is_stopped (\<lambda>stopped.
     if stopped then Ret []
     else
       bind (scan (partition ''trigger_type'' t) [] None limit) (\<lambda>keys.
       bind (if t \<noteq> ''*'' \<and> (case limit of None \<Rightarrow> True | Some n \<Rightarrow> length keys < n)
             then bind (scan (partition ''trigger_type'' ''*'') [] None (map_option (\<lambda>n. n - length keys) limit)) (\<lambda>more.
                  Ret (bt_entries (bt_of_list (keys @ more))))
             else Ret keys) indexed_triggers))"

definition queued_admission :: "string \<Rightarrow> admission option op" where
  "queued_admission k = bind (queued k) (\<lambda>q. Ret (map_option q_admission q))"

end
