(* ===== verification/Control.thy ===== *)
theory Control
  imports Triggers
begin

text \<open>
  Operator control (\<^verbatim>\<open>crates/durable/src/engine.rs\<close>, section 7, the queries of section 6 and \<^verbatim>\<open>control.rs\<close>):
  idempotent commands recorded under their request id, holds over a run and its descendants, pauses,
  the emergency stop, answers to a waiting run; paged queries, annotation totals and worker heartbeats.
\<close>

section \<open>Pages\<close>

definition MAX_PAGE :: nat where
  "MAX_PAGE = 1000"

record runs_filter =
  fr_definition :: "string option"
  fr_state :: "run_state option"
  fr_parent :: "string option"
  fr_since_ms :: "int option"
  fr_before_ms :: "int option"

record waits_filter =
  fw_definition :: "string option"
  fw_run :: "string option"
  fw_event_type :: "string option"
  fw_since_ms :: "int option"
  fw_before_ms :: "int option"

text \<open>The text a cursor names its query by: a plain name, or the JSON of the filter.\<close>

datatype query = QPlain string | QRuns runs_filter bool | QWaits waits_filter

record cursor =
  cu_query :: query
  cu_after :: string

definition page_rows ::
  "string \<Rightarrow> query \<Rightarrow> int option \<Rightarrow> int option \<Rightarrow> cursor option \<Rightarrow> nat \<Rightarrow> ((key \<times> row) list \<times> cursor option) op" where
  "page_rows kind q since before cur limit =
     (if \<not> (1 \<le> limit \<and> limit \<le> MAX_PAGE) then Fail (InvalidInput ''page limit must be 1..=1000'')
      else if (case (since, before) of (Some a, Some b) \<Rightarrow> b < a | _ \<Rightarrow> False)
      then Fail (InvalidInput ''invalid time window'')
      else if (case cur of None \<Rightarrow> False | Some c \<Rightarrow> cu_query c \<noteq> q)
      then Fail (InvalidInput ''cursor belongs to another query'')
      else
        let start = (case cur of Some c \<Rightarrow> cu_after c
              | None \<Rightarrow> (case since of None \<Rightarrow> [] | Some ms \<Rightarrow> time_key ms));
            end = map_option time_key before in
        if (case end of None \<Rightarrow> False | Some e \<Rightarrow> e \<le> start) then Ret ([], None)
        else
          bind (scan kind start end (Some (limit + of_bool (cur \<noteq> None)))) (\<lambda>rs.
          let found = take limit (filter (\<lambda>((_, k), _). case cur of None \<Rightarrow> True | Some c \<Rightarrow> cu_after c < k) rs) in
          Ret (found,
            if length found = limit then Some \<lparr>cu_query = q, cu_after = snd (fst (last found))\<rparr> else None)))"

section \<open>Queries\<close>

definition REDACTED :: string where
  "REDACTED = ''<redacted>''"

definition redacted :: "saved_run \<Rightarrow> saved_run" where
  "redacted r =
     (case host (r_admission r) of
        None \<Rightarrow> r
      | Some _ \<Rightarrow>
          (case a_runtime (r_admission r) of
             Object m \<Rightarrow>
               r\<lparr>r_admission := (r_admission r)\<lparr>a_runtime := Object (obj_insert HOST (String REDACTED) m)\<rparr>\<rparr>
           | _ \<Rightarrow> r))"

definition run_kind :: "runs_filter \<Rightarrow> bool \<Rightarrow> string" where
  "run_kind f history =
     (let base = if history then ''control_end'' else ''control_run'';
          named = (case fr_definition f of None \<Rightarrow> base | Some d \<Rightarrow> partition base d) in
      if history then named
      else case fr_parent f of Some p \<Rightarrow> partition ''control_parent'' p | None \<Rightarrow> named)"

definition wait_kind :: "waits_filter \<Rightarrow> string" where
  "wait_kind f =
     (case fw_run f of
        Some r \<Rightarrow> partition ''control_wait_run'' r
      | None \<Rightarrow>
          (case (fw_definition f, fw_event_type f) of
             (Some d, Some t) \<Rightarrow> partition ''control_wait_definition'' d @ '':type:'' @ component t
           | (Some d, None) \<Rightarrow> partition ''control_wait_definition'' d
           | (None, Some t) \<Rightarrow> partition ''control_wait_type'' t
           | (None, None) \<Rightarrow> ''control_wait''))"

definition fits :: "'a option \<Rightarrow> ('a \<Rightarrow> bool) \<Rightarrow> bool" where
  "fits want P \<longleftrightarrow> (case want of None \<Rightarrow> True | Some v \<Rightarrow> P v)"

definition query_runs ::
  "runs_filter \<Rightarrow> bool \<Rightarrow> cursor option \<Rightarrow> nat \<Rightarrow> (saved_run list \<times> cursor option) op" where
  "query_runs f history cur limit =
     bind (page_rows (run_kind f history) (QRuns f history) (fr_since_ms f) (fr_before_ms f) cur limit) (\<lambda>(found, next).
     bind (fold_tx found (\<lambda>(_, v) items.
             bind (of_option (Message ''invalid control run index'') (index_id v)) (\<lambda>i.
             bind (load_run i) (\<lambda>s.
             let r = s_run s in
             Ret (if fits (fr_definition f) (\<lambda>d. d = a_name (r_admission r))
                   \<and> fits (fr_state f) (\<lambda>st. st = r_state r)
                   \<and> fits (fr_parent f) (\<lambda>p. case r_child r of None \<Rightarrow> False | Some c \<Rightarrow> l_parent c = p)
                  then items @ [redacted r] else items)))) []) (\<lambda>items.
     Ret (items, next)))"

definition pending_waits :: "waits_filter \<Rightarrow> cursor option \<Rightarrow> nat \<Rightarrow> (wait_entry list \<times> cursor option) op" where
  "pending_waits f cur limit =
     bind (page_rows (wait_kind f) (QWaits f) (fw_since_ms f) (fw_before_ms f) cur limit) (\<lambda>(found, next).
     bind (collect_tx found (\<lambda>(_, v). of_option Decode (row_wait v))) (\<lambda>ws.
     Ret (filter (\<lambda>w. fits (fw_definition f) (\<lambda>d. d = w_definition w) \<and> fits (fw_run f) (\<lambda>r. r = w_run w)
            \<and> fits (fw_event_type f) (\<lambda>t. t \<in> set (pw_types (w_waiting w)))) ws, next)))"

definition control_history :: "string option \<Rightarrow> cursor option \<Rightarrow> nat \<Rightarrow> (entry list \<times> cursor option) op" where
  "control_history r cur limit =
     (let kind = (case r of None \<Rightarrow> ''control_history'' | Some i \<Rightarrow> partition ''control_history_run'' i) in
      bind (page_rows kind (QPlain kind) None None cur limit) (\<lambda>(found, next).
      bind (collect_tx found (\<lambda>(_, v). of_option Decode (row_entry v))) (\<lambda>items.
      Ret (items, next))))"

definition control_entry :: "string \<Rightarrow> entry option op" where
  "control_entry i = get_as row_entry ''control_command'' i"

definition get_saved :: "string \<Rightarrow> saved_run option op" where
  "get_saved i = bind (find_run i) (\<lambda>s. Ret (map_option s_run s))"

definition snapshot_of :: "stored_run \<Rightarrow> run_snapshot op" where
  "snapshot_of s =
     bind (scan (records_of (s_id s)) [] None None) (\<lambda>rs.
     bind (decode_records rs) (\<lambda>records.
     bind (scan (events_of (s_id s)) [] None None) (\<lambda>es.
     bind (collect_tx es (\<lambda>(_, v). of_option Decode (row_event v))) (\<lambda>events.
     Ret \<lparr>rs_run = s_run s, rs_records = records, rs_awaits = s_awaits s, rs_listeners = s_listeners s,
       rs_events = events, rs_subscriptions = s_subscriptions s\<rparr>))))"

definition inspect :: "string \<Rightarrow> run_snapshot option op" where
  "inspect i =
     bind (find_run i) (\<lambda>s.
     case s of None \<Rightarrow> Ret None | Some t \<Rightarrow> bind (snapshot_of t) (\<lambda>v. Ret (Some v)))"

section \<open>Workers\<close>

definition beat :: "worker \<Rightarrow> unit op" where
  "beat w =
     bind (ensure (wk_id w \<noteq> []) (Message ''a worker needs an id'')) (\<lambda>_.
     bind (get_as row_worker ''worker'' (wk_id w)) (\<lambda>old.
     if (case old of None \<Rightarrow> False | Some o' \<Rightarrow> wk_beat_ms w < wk_beat_ms o') then Ret ()
     else
       bind (case old of
               None \<Rightarrow> Ret ()
             | Some o' \<Rightarrow>
                 if wk_expires_ms o' \<noteq> wk_expires_ms w
                 then delete ''worker_expiry'' (timed (wk_expires_ms o') (component (wk_id o'))) else Ret ()) (\<lambda>_.
       bind (put ''worker_expiry'' (timed (wk_expires_ms w) (component (wk_id w))) (RJson (String (wk_id w)))) (\<lambda>_.
       put ''worker'' (wk_id w) (RWorker w)))))"

definition workers :: "cursor option \<Rightarrow> nat \<Rightarrow> (worker list \<times> cursor option) op" where
  "workers cur limit =
     bind (page_rows ''worker'' (QPlain ''workers'') None None cur limit) (\<lambda>(found, next).
     bind (collect_tx found (\<lambda>(_, v). of_option Decode (row_worker v))) (\<lambda>items.
     Ret (items, next)))"

section \<open>Annotation totals\<close>

definition MAX_TOTALS_BUCKETS :: nat where
  "MAX_TOTALS_BUCKETS = MAX_PAGE"

record totals_bucket =
  tb_start_ms :: int
  tb_runs :: nat
  tb_annotations :: totals

record definition_totals =
  tot_definition :: string
  tot_since_ms :: int
  tot_before_ms :: int
  tot_runs :: nat
  tot_annotations :: totals
  tot_buckets :: "totals_bucket list"

text \<open>\<^verbatim>\<open>i64::from_be_bytes(u64::from_str_radix(k, 16)?.to_be_bytes()) ^ i64::MIN\<close>.\<close>

definition time_of_key :: "string \<Rightarrow> int option" where
  "time_of_key k =
     map_option (\<lambda>u. sint ((word_of_nat u :: 64 word) XOR word_of_int I64_MIN)) (u64_from_hex k)"

definition totals :: "ext \<Rightarrow> string \<Rightarrow> int \<Rightarrow> int \<Rightarrow> definition_totals op" where
  "totals x name since before =
     (if before < since then Fail (InvalidInput ''invalid time window'')
      else
        let start = bucket_start since;
            end = max (sat_add (bucket_start (sat_sub before 1)) TOTALS_BUCKET_MS) start;
            buckets = nat (sat_sub end start div TOTALS_BUCKET_MS) in
        if MAX_TOTALS_BUCKETS < buckets then Fail (InvalidInput ''a totals window covers at most 1000 buckets'')
        else
          bind (scan (partition ''totals'' name) (time_key start) (Some (time_key end)) (Some MAX_TOTALS_BUCKETS)) (\<lambda>found.
          fold_tx found (\<lambda>((_, k), v) t.
            bind (of_option Decode (row_bucket v)) (\<lambda>b.
            bind (of_option (Message ''invalid digit found in string'') (time_of_key k)) (\<lambda>at.
            Ret (t\<lparr>tot_runs := sat_add_u64 (tot_runs t) (b_runs b),
              tot_annotations := accumulate (x_float_sum x) (x_totals_len x) (tot_annotations t) (bt_entries (b_annotations b)),
              tot_buckets := tot_buckets t @ [\<lparr>tb_start_ms = at, tb_runs = b_runs b, tb_annotations = b_annotations b\<rparr>]\<rparr>))))
            \<lparr>tot_definition = name, tot_since_ms = start, tot_before_ms = end, tot_runs = 0,
              tot_annotations = bt_empty, tot_buckets = []\<rparr>))"

section \<open>Holds\<close>

text \<open>
  The live descendants of a run, level by level. The loop of the source ends because the tree of
  children is finite; the model takes fuel, and answers \<open>Diverged\<close> without it.
\<close>

primrec hold_tree :: "nat \<Rightarrow> stored_run list \<Rightarrow> nat \<Rightarrow> stored_run list op" where
  "hold_tree 0 tree next = (if length tree \<le> next then Ret tree else Fail Diverged)"
| "hold_tree (Suc n) tree next =
     (if length tree \<le> next then Ret tree
      else bind (indexed_runs (partition ''children'' (s_id (tree ! next))) [] None None) (\<lambda>cs.
        hold_tree n (tree @ cs) (Suc next)))"

definition set_hold :: "nat \<Rightarrow> string \<Rightarrow> hold option \<Rightarrow> bool op" where
  "set_hold fuel i h =
     bind (find_run i) (\<lambda>found.
     bind (of_option (NotFound ERun i) found) (\<lambda>root.
     if r_ended_ms (s_run root) \<noteq> None then Ret False
     else
       bind (hold_tree fuel [root] 0) (\<lambda>tree.
       fold_tx tree (\<lambda>s changed.
         if (r_held (s_run s) \<noteq> None) = (h \<noteq> None) then Ret changed
         else bind (store_run_indexed (s\<lparr>s_run := (s_run s)\<lparr>r_held := h\<rparr>\<rparr>) (indexes s)) (\<lambda>_. Ret True)) False)))"

section \<open>Pauses\<close>

definition row_paused :: "row \<Rightarrow> (nat \<times> (string, trigger) btree \<times> (string, row) btree) option" where
  "row_paused v = (case v of RPaused e ts qs \<Rightarrow> Some (e, bt_of_list ts, bt_of_list qs) | _ \<Rightarrow> None)"

definition suspend :: "string \<Rightarrow> definitions \<Rightarrow> definitions op" where
  "suspend name defs =
     bind (fold_tx (d_triggers defs) (\<lambda>k (ts, qs).
             bind (get_as row_trigger ''trigger'' k) (\<lambda>t.
             bind (get ''trigger_queue'' k) (\<lambda>q.
             Ret (case t of None \<Rightarrow> ts | Some u \<Rightarrow> bt_insert k u ts,
                  case q of None \<Rightarrow> qs | Some v \<Rightarrow> bt_insert k v qs)))) (bt_empty, bt_empty)) (\<lambda>(ts, qs).
     bind (put ''paused'' name (RPaused (d_epoch defs) (bt_entries ts) (bt_entries qs))) (\<lambda>_.
     arm defs bt_empty))"

definition pause :: "request \<Rightarrow> string \<Rightarrow> string \<Rightarrow> int \<Rightarrow> reply op" where
  "pause rq name note now =
     bind (load_definitions name) (\<lambda>found.
     bind (of_option (NotFound EDefinition name) found) (\<lambda>defs.
     let manual = \<lparr>mt_actor = rq_actor rq, mt_reason = rq_reason rq, mt_note = note\<rparr> in
     case d_tripped defs of
       Some t \<Rightarrow>
         if t_manual t \<noteq> None then Ret (Changed False)
         else
           bind (suspend name (defs\<lparr>d_tripped := Some (t\<lparr>t_manual := Some manual\<rparr>)\<rparr>)) (\<lambda>defs'.
           bind (store_definitions name defs') (\<lambda>_.
           Ret (Changed True)))
     | None \<Rightarrow>
         bind (of_option (InvalidState (''definition '' @ name @ '' has no active version'')) (d_active defs)) (\<lambda>version.
         bind (suspend name defs) (\<lambda>defs'.
         let t = \<lparr>t_manual = Some manual, t_breaker = False, t_version = version,
               t_digest = (case bt_get (d_versions defs) version of None \<Rightarrow> [] | Some d \<Rightarrow> dv_digest d),
               t_epoch = d_epoch defs, t_faults = d_consecutive_faults defs, t_threshold = 0, t_run = [],
               t_reason = \<lparr>err_type = ''manual'', err_status = 409, err_title = Some ''Definition paused'',
                 err_detail = Some (rq_reason rq), err_instance = None\<rparr>,
               t_at_ms = now\<rparr> in
         bind (store_definitions name (defs'\<lparr>d_tripped := Some t\<rparr>)) (\<lambda>_.
         Ret (Changed True))))))"

definition resume :: "ext \<Rightarrow> string \<Rightarrow> int \<Rightarrow> reply op" where
  "resume x name now =
     bind (load_definitions name) (\<lambda>found.
     bind (of_option (NotFound EDefinition name) found) (\<lambda>defs.
     case d_tripped defs of
       None \<Rightarrow> Ret (Changed False)
     | Some t \<Rightarrow>
         if t_manual t = None then Fail (InvalidState (name @ '': a breaker trip requires activation''))
         else
           bind (get_as row_paused ''paused'' name) (\<lambda>p.
           bind (of_option (Message ''missing suspended triggers'') p) (\<lambda>(epoch, ts, qs).
           bind (ensure (epoch = d_epoch defs) (InvalidState (name @ '': suspended activation changed''))) (\<lambda>_.
           bind (arm (defs\<lparr>d_tripped := (if t_breaker t then Some (t\<lparr>t_manual := None\<rparr>) else None)\<rparr>) ts) (\<lambda>armed.
           bind (for_each (bt_entries qs) (\<lambda>(k, v).
                   bind (of_option Decode (row_queued v)) (\<lambda>q.
                   bind (ensure (q_version q = 1 \<and> a_name (q_admission q) = name) (Message ''invalid suspended queue'')) (\<lambda>_.
                   bind (put ''trigger_queue'' k v) (\<lambda>_.
                   put (partition ''queue_name'' name) k (RJson (String k))))))) (\<lambda>_.
           bind (delete ''paused'' name) (\<lambda>_.
           bind (store_definitions name armed) (\<lambda>_.
           bind (drain_queues x name now) (\<lambda>_.
           Ret (Changed True)))))))))))"

section \<open>The emergency stop\<close>

definition set_stop :: "ext \<Rightarrow> bool \<Rightarrow> int \<Rightarrow> reply op" where
  "set_stop x enabled now =
     bind is_stopped (\<lambda>stopped.
     if stopped = enabled then Ret (Changed False)
     else
       bind (if enabled then put ''control'' ''stopped'' (RJson (Bool True))
             else bind (delete ''control'' ''stopped'') (\<lambda>_. drain_pending x now (Some MAX_PAGE))) (\<lambda>_.
       Ret (Changed True)))"

section \<open>Responses\<close>

definition with_specversion :: "json \<Rightarrow> json" where
  "with_specversion event =
     (case event of Object m \<Rightarrow> Object (obj_or_insert ''specversion'' (String ''1.0'') m) | _ \<Rightarrow> event)"

definition normalize_command :: "command \<Rightarrow> command" where
  "normalize_command c = (case c of Respond r w e \<Rightarrow> Respond r w (with_specversion (payload e)) | _ \<Rightarrow> c)"

text \<open>The event as it is matched and delivered: its \<^verbatim>\<open>specversion\<close> and \<^verbatim>\<open>time\<close> filled in.\<close>

definition response_event :: "ext \<Rightarrow> json \<Rightarrow> int \<Rightarrow> json op" where
  "response_event x event now =
     (case with_specversion event of
        Object m \<Rightarrow>
          bind (of_option (Message ''invalid response timestamp'') (x_rfc3339 x now)) (\<lambda>time.
          Ret (Object (obj_or_insert ''time'' (String time) m)))
      | other \<Rightarrow> Ret other)"

text \<open>An answer to a wildcard listen becomes a published copy, so that \<^verbatim>\<open>*\<close> may take it.\<close>

definition offer_to_wildcard :: "string \<Rightarrow> nat \<Rightarrow> int \<Rightarrow> unit op" where
  "offer_to_wildcard i n now =
     bind (copy i n) (\<lambda>stored.
     bind (ensure (e_consumed_key stored = None) (Message ''response event already consumed by another wait'')) (\<lambda>_.
     if \<not> e_delivered stored then Ret ()
     else
       bind (load_run i) (\<lambda>s.
       bind (of_option (Message ''published counter overflow'') (checked_add_u64 (s_published s) 1)) (\<lambda>published'.
       bind (put (events_of i) (sequence n) (REvent (stored\<lparr>e_delivered := False\<rparr>))) (\<lambda>_.
       bind (put (published_of i) (sequence n) (u64_row n)) (\<lambda>_.
       bind (put (live_published_of i) (live_key n stored) (u64_row n)) (\<lambda>_.
       store_run (s\<lparr>s_published := published',
         s_run := (s_run s)\<lparr>r_wake_at_ms := min (r_wake_at_ms (s_run s)) now\<rparr>\<rparr>))))))))"

definition listen_message :: "listen_error \<Rightarrow> string" where
  "listen_message e = (case e of EvalError m \<Rightarrow> m | Panic \<Rightarrow> [])"

definition respond ::
  "ext \<Rightarrow> policy \<Rightarrow> request \<Rightarrow> command \<Rightarrow> string \<Rightarrow> string \<Rightarrow> json \<Rightarrow> int \<Rightarrow> reply op" where
  "respond x pol rq canonical_command i k event now =
     bind (of_option (InvalidInput ''response requires event source and id'') (identity event)) (\<lambda>ident.
     let kind = partition ''control_response'' i; dedup = component ident in
     bind (get_as row_entry kind dedup) (\<lambda>found.
     case found of
       Some e \<Rightarrow>
         bind (ensure (en_command e = canonical_command) (ResponseConflict (shown_identity ident))) (\<lambda>_. Ret (en_reply e))
     | None \<Rightarrow>
         bind (find_run i) (\<lambda>s0.
         bind (of_option (NotFound ERun i) s0) (\<lambda>s.
         bind (of_option (WaitClosed i k) (bt_get (s_waits s) k)) (\<lambda>w.
         bind (ensure (r_ended_ms (s_run s) = None \<and> \<not> due_by (pw_timeout_ms w) now) (WaitClosed i k)) (\<lambda>_.
         bind (response_event x event now) (\<lambda>event'.
         bind (case accepts (x_jq x) (x_text x) w event' of
                 Inl e \<Rightarrow> Fail (InvalidState (''wait '' @ k @ '' of run '' @ i @ '' cannot be matched here: '' @ listen_message e))
               | Inr b \<Rightarrow> ensure b (WaitMismatch i k)) (\<lambda>_.
         bind (deliver event' (Some i) now pol) (\<lambda>recipient.
         bind (get_as row_u64 (identities_of i) dedup) (\<lambda>n0.
         bind (of_option (Message ''response was not accepted'') n0) (\<lambda>n.
         bind (if ''*'' \<in> set (pw_types w) then offer_to_wildcard i n now else Ret ()) (\<lambda>_.
         bind (put kind dedup (REntry \<lparr>en_request = rq, en_command = canonical_command, en_at_ms = now,
                 en_reply = Responded recipient\<rparr>)) (\<lambda>_.
         Ret (Responded recipient))))))))))))))"

section \<open>Commands\<close>

definition blank :: "string \<Rightarrow> bool" where
  "blank s \<longleftrightarrow> trim s = []"

definition command_run :: "command \<Rightarrow> string option" where
  "command_run c =
     (case c of Cancel r \<Rightarrow> Some r | Respond r _ _ \<Rightarrow> Some r | Hold r _ \<Rightarrow> Some r | Release r \<Rightarrow> Some r | _ \<Rightarrow> None)"

definition perform :: "nat \<Rightarrow> ext \<Rightarrow> policy \<Rightarrow> request \<Rightarrow> command \<Rightarrow> int \<Rightarrow> reply op" where
  "perform fuel x pol rq c now =
     (case c of
        Cancel i \<Rightarrow>
          bind (find_run i) (\<lambda>s.
          let changed = (case s of None \<Rightarrow> False | Some t \<Rightarrow> r_ended_ms (s_run t) = None) in
          bind (if changed then terminate fuel x i Cancelled now else Ret ()) (\<lambda>_.
          Ret (Changed changed)))
      | Hold i note \<Rightarrow>
          bind (set_hold fuel i (Some \<lparr>h_actor = rq_actor rq, h_reason = rq_reason rq, h_note = note, h_at_ms = now\<rparr>))
            (\<lambda>b. Ret (Changed b))
      | Release i \<Rightarrow> bind (set_hold fuel i None) (\<lambda>b. Ret (Changed b))
      | Stop enabled \<Rightarrow> set_stop x enabled now
      | Pause name note \<Rightarrow> pause rq name note now
      | Resume name \<Rightarrow> resume x name now
      | Respond i k event \<Rightarrow> respond x pol rq (normalize_command c) i k event now)"

definition control_command :: "nat \<Rightarrow> ext \<Rightarrow> policy \<Rightarrow> request \<Rightarrow> command \<Rightarrow> int \<Rightarrow> applied op" where
  "control_command fuel x pol rq c now =
     (if blank (rq_id rq) \<or> blank (rq_actor rq) \<or> blank (rq_reason rq)
      then Fail (InvalidInput ''control request requires id, actor and reason'')
      else
        bind (get_as row_entry ''control_command'' (rq_id rq)) (\<lambda>found.
        case found of
          Some e \<Rightarrow>
            if en_request e \<noteq> rq \<or> en_command e \<noteq> normalize_command c then Fail (RequestConflict (rq_id rq))
            else Ret \<lparr>ap_reply = en_reply e, ap_repeated = True\<rparr>
        | None \<Rightarrow>
            bind (perform fuel x pol rq c now) (\<lambda>answer.
            let e = \<lparr>en_request = rq, en_command = normalize_command c, en_at_ms = now, en_reply = answer\<rparr>;
                k = timed now (component (rq_id rq)) in
            bind (put ''control_command'' (rq_id rq) (REntry e)) (\<lambda>_.
            bind (put ''control_history'' k (REntry e)) (\<lambda>_.
            bind (case command_run c of None \<Rightarrow> Ret ()
                  | Some i \<Rightarrow> put (partition ''control_history_run'' i) k (REntry e)) (\<lambda>_.
            Ret \<lparr>ap_reply = answer, ap_repeated = False\<rparr>))))))"

end
