(* ===== verification/Store_Invariant.thy ===== *)
theory Store_Invariant
  imports Control
begin

text \<open>
  Every operation of the store keeps the index invariant \<open>index_ok\<close>: whatever sequence of operations
  committed, the index rows are exactly those of the stored runs. The step relation \<open>store_step\<close> is one
  committed operation, \<open>reachable\<close> any sequence of them from the empty store.
\<close>

section \<open>Rows that are not a run's\<close>

lemma side_keyI:
  "family kind \<notin> set (''run'' # id_families @ timed_families @ wait_families) \<Longrightarrow> side_key (kind, i)"
  by (auto simp: side_key_def is_index_def)

lemma no_family:
  "f \<in> {''record'', ''event'', ''event_id'', ''event_type'', ''pending'', ''live'', ''published'', ''live_published'',
     ''expiry'', ''delivered'', ''definitions'', ''trigger_queue'', ''queue_name'', ''trigger'', ''trigger_due'',
     ''trigger_type'', ''notice'', ''paused'', ''trigger_run'', ''control_drain'', ''control'', ''budget'', ''totals'',
     ''ingress'', ''ingress_due'', ''worker'', ''worker_expiry'', ''control_command'', ''control_history'',
     ''control_history_run'', ''control_response''}
   \<Longrightarrow> f \<notin> set (''run'' # id_families @ timed_families @ wait_families)"
  by (auto simp: id_families_def timed_families_def wait_families_def)

lemma side_key_partition [simp]:
  "side_key (records_of v, i)" "side_key (events_of v, i)" "side_key (identities_of v, i)"
  "side_key (types_of v, i)" "side_key (pending_of v t, i)" "side_key (live_of v t, i)"
  "side_key (published_of v, i)" "side_key (live_published_of v, i)" "side_key (expiring_of v, i)"
  "side_key (partition ''delivered'' v, i)" "side_key (partition ''queue_name'' v, i)"
  "side_key (partition ''trigger_type'' v, i)" "side_key (partition ''totals'' v, i)"
  "side_key (partition ''control_history_run'' v, i)" "side_key (partition ''control_response'' v, i)"
  by (rule side_keyI, rule no_family,
      simp add: records_of_def events_of_def identities_of_def types_of_def pending_of_def live_of_def
        published_of_def live_published_of_def expiring_of_def)+

lemma side_key_plain [simp]:
  "side_key (''definitions'', i)" "side_key (''trigger_queue'', i)" "side_key (''trigger'', i)"
  "side_key (''trigger_due'', i)" "side_key (''notice'', i)" "side_key (''paused'', i)"
  "side_key (''trigger_run'', i)" "side_key (''control_drain'', i)" "side_key (''control'', i)"
  "side_key (''budget'', i)" "side_key (''ingress'', i)" "side_key (''ingress_due'', i)" "side_key (''worker'', i)"
  "side_key (''worker_expiry'', i)" "side_key (''control_command'', i)" "side_key (''control_history'', i)"
  by (rule side_keyI, rule no_family, simp)+

section \<open>Rules\<close>

abbreviation keeps_index :: "'a op \<Rightarrow> bool" where
  "keeps_index m \<equiv> keeps index_ok m (\<lambda>_. index_ok)"

lemma keeps_side:
  "side_key (kind, i) \<Longrightarrow> keeps_index (put kind i v)"
  "side_key (kind, i) \<Longrightarrow> keeps_index (delete kind i)"
  by (rule side_writes_keep_index, simp)+

lemma keeps_read:
  "keeps_index (get kind i)" "keeps_index (scan kind lo hi lim)" "keeps_index (ensure b e)"
  "keeps_index (of_option e x)" "keeps_index (of_sum y)" "keeps_index (get_as dec kind i)"
  "keeps_index (find_run i)" "keeps_index (load_run i)" "keeps_index (indexed_runs kind lo hi lim)"
  by (rule keeps_reads_only, simp)+

lemma keeps_Fail: "keeps I (Fail e) (\<lambda>_. I)"
  by (simp add: keeps_def)

lemma keeps_exists_tx:
  "(\<And>x. x \<in> set xs \<Longrightarrow> keeps I (f x) (\<lambda>_. I)) \<Longrightarrow> keeps I (exists_tx xs f) (\<lambda>_. I)"
proof (induction xs)
  case (Cons x xs)
  then show ?case unfolding exists_tx.simps by (intro keeps_inv_bind) (auto split: if_splits)
qed simp

lemma keeps_let: "keeps I (f x) (\<lambda>_. I) \<Longrightarrow> keeps I (let y = x in f y) (\<lambda>_. I)"
  by simp

lemmas index_rules = keeps_side keeps_read keeps_Fail keeps_Ret keeps_exists_tx store_run_keeps_index
  keeps_inv_bind keeps_for_each keeps_fold_tx keeps_collect_tx

section \<open>Mailboxes\<close>

lemma pending_rows_side: "(kind, k, v) \<in> set (pending_rows i n e) \<Longrightarrow> side_key (kind, k)"
  by (auto simp: pending_rows_def split: option.splits if_splits)

lemma writes_in_pending_put:
  "writes_in side_key (for_each (pending_rows i n e) (\<lambda>(kind, k, v). put kind k v))"
  "writes_in side_key (for_each (pending_rows i n e) (\<lambda>(kind, k, v). delete kind k))"
  by (rule writes_in_for_each, auto dest: pending_rows_side)+

lemmas keeps_pending = writes_in_pending_put [THEN side_writes_keep_index]

lemma keeps_copy: "keeps_index (copy i n)"
  unfolding copy_def by (intro index_rules)

lemma keeps_push: "keeps_index (push s e)"
  unfolding push_def Let_def
  by (intro index_rules keeps_pending) (auto intro!: index_rules split: option.split)

lemma keeps_consume: "keeps_index (consume s n e k)"
  unfolding consume_def Let_def by (intro index_rules keeps_pending) auto

lemma keeps_refresh_mailbox: "keeps_index (refresh_mailbox s)"
  unfolding refresh_mailbox_def by (intro index_rules) (auto intro!: index_rules split: list.split)

lemma keeps_expire: "keeps_index (expire x s now)"
  unfolding expire_def
  by (auto intro!: index_rules keeps_copy keeps_consume keeps_refresh_mailbox simp: split_def)

lemma keeps_pending_wanted: "keeps_index (pending_wanted s now)"
  unfolding pending_wanted_def Let_def live_cloud_def
  by (auto intro!: index_rules split: option.split)

lemma keeps_accept: "keeps_index (accept s e now)"
  unfolding accept_def Let_def
  by (auto intro!: index_rules keeps_copy keeps_push split: option.split)

lemma keeps_deliver: "keeps_index (deliver event target now pol)"
  unfolding deliver_def find_recipient_def Let_def
  by (auto intro!: index_rules keeps_accept split: option.split prod.split)

lemma keeps_notify: "keeps_index (notify parent t data now)"
  unfolding notify_def Let_def by (auto intro!: index_rules keeps_push)

lemma keeps_publish: "keeps_index (publish event target now pol)"
  unfolding publish_def find_subscribers_def Let_def
  by (auto intro!: index_rules keeps_accept split: option.split prod.split)

lemma scanned_kind: "commits (scan kind lo hi lim) r rs r' \<Longrightarrow> e \<in> set rs \<Longrightarrow> fst (fst e) = kind"
  using scan_rows_get [of "fst e" "snd e"] by (auto simp: in_range_def)

text \<open>A loop over the rows of one partition may rely on their kind.\<close>

lemma keeps_scan_loop:
  assumes "\<And>rs. (\<And>e. e \<in> set rs \<Longrightarrow> fst (fst e) = kind) \<Longrightarrow> keeps I (g rs) (\<lambda>_. I)"
  shows "keeps I (bind (scan kind lo hi lim) g) (\<lambda>_. I)"
proof (rule keeps_bind)
  show "keeps I (scan kind lo hi lim) (\<lambda>rs r. I r \<and> (\<forall>e \<in> set rs. fst (fst e) = kind))"
    by (rule keepsI) (metis commits_scan scanned_kind)
  show "keeps (\<lambda>r. I r \<and> (\<forall>e \<in> set rs. fst (fst e) = kind)) (g rs) (\<lambda>_. I)" for rs
    using assms [of rs] unfolding keeps_def by blast
qed

lemma keeps_forget_copies: "keeps_index (forget_copies i)"
  unfolding forget_copies_def
  by (intro keeps_scan_loop keeps_inv_bind keeps_for_each)
     (auto intro!: index_rules keeps_pending split: option.split prod.split, (metis side_key_partition)+)

lemma keeps_forget: "keeps_index (forget s)"
  unfolding forget_def
  by (intro keeps_scan_loop keeps_inv_bind keeps_for_each)
     (auto intro!: index_rules keeps_forget_copies, metis side_key_partition(1))

section \<open>Catalog and queues\<close>

lemma writes_in_load_definitions [simp]: "writes_in K (load_definitions name)"
  by (auto simp: load_definitions_def intro!: writes_in_bind split: option.split)

lemma keeps_load_definitions: "keeps_index (load_definitions name)"
  by (rule keeps_reads_only) simp

lemma keeps_store_definitions: "keeps_index (store_definitions name defs)"
  unfolding store_definitions_def by (intro index_rules) simp

lemma writes_in_queued [simp]: "writes_in K (queued k)"
  by (auto simp: queued_def intro!: writes_in_bind split: option.split)

lemma keeps_queued: "keeps_index (queued k)"
  by (rule keeps_reads_only) simp

lemma keeps_remove_queue: "keeps_index (remove_queue k)"
  unfolding remove_queue_def by (auto intro!: index_rules keeps_queued split: option.split)

lemma trigger_indexes_side: "bt_has (trigger_indexes k t) l \<Longrightarrow> side_key l"
  by (auto simp: trigger_indexes_def bt_of_list_has split: option.splits)

lemma keeps_store_trigger: "keeps_index (store_trigger k before new)"
proof -
  have "keeps_index (for_each (changes (case before of None \<Rightarrow> bt_empty | Some u \<Rightarrow> trigger_indexes k u)
      (case new of None \<Rightarrow> bt_empty | Some u \<Rightarrow> trigger_indexes k u)) write_change)"
    by (intro side_writes_keep_index writes_in_changes) (auto split: option.splits dest: trigger_indexes_side)
  then show ?thesis
    unfolding store_trigger_def Let_def by (rule keeps_inv_bind) (auto intro!: index_rules split: option.split)
qed

lemma keeps_arm: "keeps_index (arm defs ts)"
  unfolding arm_def by (auto intro!: index_rules keeps_remove_queue keeps_store_trigger split: prod.split)

lemma keeps_breaker: "keeps_index (breaker x r fault success dflt now)"
  unfolding breaker_def Let_def
  by (auto intro!: index_rules keeps_load_definitions keeps_store_definitions keeps_arm split: option.split)

lemma keeps_activate: "keeps_index (activate name version epoch arming act)"
  unfolding activate_def Let_def
  by (auto intro!: index_rules keeps_load_definitions keeps_store_definitions keeps_arm split: option.split)

lemma keeps_save_definition: "keeps_index (save_definition x name yaml brk)"
  unfolding save_definition_def Let_def
  by (auto intro!: index_rules keeps_load_definitions keeps_store_definitions)

lemma keeps_acknowledge: "keeps_index (acknowledge k)"
  unfolding acknowledge_def by (auto intro!: index_rules)

lemma writes_in_is_stopped [simp]: "writes_in K is_stopped"
  by (auto simp: is_stopped_def intro!: writes_in_bind)

lemma writes_in_running [simp]: "writes_in K running"
  by (auto simp: running_def intro!: writes_in_bind)

lemma keeps_running: "keeps_index running" "keeps_index is_stopped"
  by (rule keeps_reads_only, simp)+

lemma writes_in_admitted [simp]: "writes_in K (admitted a now j)"
  by (auto simp: admitted_def Let_def intro!: writes_in_bind split: option.split join.split)

lemma keeps_admitted: "keeps_index (admitted a now j)"
  by (rule keeps_reads_only) simp

lemma keeps_insert_run: "keeps_index (insert_run a now)"
  unfolding insert_run_def by (auto intro!: index_rules keeps_admitted split: option.split)

lemma keeps_drained_refusal: "keeps_index (drained_refusal drained a)"
  unfolding drained_refusal_def by (auto intro!: index_rules keeps_load_definitions)

lemma keeps_refuse: "keeps_index (refuse x rf now)"
  unfolding refuse_def Let_def by (auto intro!: index_rules keeps_admitted keeps_breaker split: option.split)

lemma keeps_capacity: "keeps_index (capacity name limit)"
  unfolding capacity_def by (auto intro!: index_rules)

lemma keeps_admit_firing: "keeps_index (admit_firing k a ra next now)"
  unfolding admit_firing_def by (auto intro!: index_rules keeps_insert_run)

lemma keeps_drain_slot: "keeps_index (drain_slot x name now k)"
  unfolding drain_slot_def
  by (auto intro!: index_rules keeps_queued keeps_capacity keeps_remove_queue keeps_refuse keeps_admit_firing
      split: option.split prod.split)

lemma keeps_drain_queues: "keeps_index (drain_queues x name now)"
  unfolding drain_queues_def by (auto intro!: index_rules keeps_running keeps_drain_slot split: prod.split)

lemma keeps_drain_marked: "keeps_index (drain_marked x name now)"
  unfolding drain_marked_def by (auto intro!: index_rules keeps_running keeps_drain_queues)

lemma keeps_drain_pending: "keeps_index (drain_pending x now limit)"
  unfolding drain_pending_def by (auto intro!: index_rules keeps_drain_queues split: prod.split)

lemma keeps_admit: "keeps_index (admit x a now)"
  unfolding admit_def
  by (auto intro!: index_rules keeps_drain_marked keeps_drained_refusal keeps_insert_run split: option.split)

section \<open>Leases\<close>

lemma writes_in_checked [simp]: "writes_in K (authority f now skew)" "writes_in K (checked f now skew)"
  by (auto simp: authority_def checked_def not_held_def intro!: writes_in_bind)

lemma keeps_checked: "keeps_index (authority f now skew)" "keeps_index (checked f now skew)" "keeps_index (not_held s)"
  by (auto intro!: keeps_reads_only simp: not_held_def)

lemma keeps_start: "keeps_index (start x a now owner)"
  unfolding start_def
  by (auto intro!: index_rules keeps_drain_marked keeps_drained_refusal keeps_admitted split: option.split prod.split)

lemma keeps_claim_as: "keeps_index (claim_as i now w owner)"
  unfolding claim_as_def by (auto intro!: index_rules keeps_running split: option.split prod.split)

lemma keeps_renew: "keeps_index (renew pol f now)"
  unfolding renew_def Let_def by (auto intro!: index_rules keeps_running keeps_checked)

lemma keeps_release: "keeps_index (release pol f now)"
  unfolding release_def by (auto intro!: index_rules keeps_checked)

lemma keeps_save_record: "keeps_index (save_record x pol f k r now)"
  unfolding save_record_def Let_def
  by (intro index_rules keeps_running keeps_checked)
     (auto intro!: index_rules simp: keeps_reads_only)

lemma keeps_waits:
  "keeps_index (register_wait pol f types now)" "keeps_index (unregister_wait pol f k types now)"
  "keeps_index (subscribe pol f k types now)" "keeps_index (unsubscribe pol f k now)"
  "keeps_index (describe_wait pol f k wait now)"
  unfolding register_wait_def unregister_wait_def subscribe_def unsubscribe_def describe_wait_def Let_def
  by (auto intro!: index_rules keeps_checked)

lemma keeps_first_pending: "keeps_index (first_pending kinds)"
  unfolding first_pending_def by (auto intro!: index_rules split: list.split prod.split)

lemma keeps_take_event: "keeps_index (take_event x pol f k types now)"
  unfolding take_event_def take_copy_def Let_def
  by (auto intro!: index_rules keeps_checked keeps_expire keeps_first_pending keeps_copy keeps_consume
      keeps_refresh_mailbox split: option.split prod.split journal_record.split)

lemma keeps_spend: "keeps_index (spend pol f k limit now)"
  unfolding spend_def refused_first_def Let_def
  by (auto intro!: index_rules keeps_checked split: option.split journal_record.split)

lemma keeps_index_ids: "keeps_index (index_ids what rs)"
  unfolding index_ids_def by (auto intro!: index_rules split: prod.split)

lemma keeps_due_as: "keeps_index (due_as x now limit w)"
  unfolding due_as_def
  by (auto intro!: index_rules keeps_running keeps_drain_pending keeps_index_ids split: option.split)

lemma keeps_sweep_index:
  "(\<And>i. side_key (index, i)) \<Longrightarrow> (\<And>i. side_key (kind, i)) \<Longrightarrow> keeps_index (sweep_index index kind what stop)"
  unfolding sweep_index_def by (auto intro!: index_rules split: prod.split)

lemma keeps_sweep: "keeps_index (sweep x now kept)"
  unfolding sweep_def Let_def
  by (auto intro!: index_rules keeps_forget keeps_expire keeps_sweep_index split: prod.split)

end
