(* ===== verification/Index_Lookup.thy ===== *)
theory Index_Lookup
  imports Run_Index
begin

text \<open>
  What the index rows of a database answer: under \<open>index_ok\<close> a scan of an index partition returns exactly
  the runs with the property the partition stands for.
\<close>

section \<open>A key holds one value\<close>

lemma partition_eq_iff:
  "CHR '':'' \<notin> set k \<Longrightarrow> CHR '':'' \<notin> set l \<Longrightarrow> partition k v = partition l w \<longleftrightarrow> k = l \<and> v = w"
  by (metis family_partition partition_inject)

lemma partition_not_plain:
  "CHR '':'' \<notin> set p \<Longrightarrow> partition k v \<noteq> p" "CHR '':'' \<notin> set p \<Longrightarrow> p \<noteq> partition k v"
  by (auto simp: partition_def)

lemmas kind_simps = partition_eq_iff partition_not_plain

lemma wait_kind_neq:
  "family f \<notin> set wait_families \<Longrightarrow> f \<notin> set (wait_kinds w)"
  using set_wait_kinds by blast

text \<open>The rows of a run that index its waits, and the others.\<close>

definition wait_index_rows :: "stored_run \<Rightarrow> (key \<times> row) list" where
  "wait_index_rows s =
     concat (map (\<lambda>(k, w).
       map (\<lambda>kind. ((kind, timed (pw_since_ms w) (component (s_id s) @ '':'' @ component k)), RWait (wait_entry_of s k w)))
         (wait_kinds (wait_entry_of s k w)))
       (bt_entries (s_waits s)))"

lemma in_index_rows:
  "(k, v) \<in> set (index_rows s) \<Longrightarrow> (k, v) \<in> set (wait_index_rows s) \<or>
     v = RJson (String (s_id s)) \<and> family (fst k) \<notin> set wait_families"
  unfolding index_rows_def Let_def set_append Un_iff
  by (elim disjE)
     (auto simp: run_kinds_def Let_def wait_families_def wait_index_rows_def split: option.splits if_splits)

lemma wait_index_rows_family: "(k, v) \<in> set (wait_index_rows s) \<Longrightarrow> family (fst k) \<in> set wait_families"
  by (auto simp: wait_index_rows_def dest: set_wait_kinds)

lemma wait_index_rows_fun:
  assumes "(k, v) \<in> set (wait_index_rows s)" and "(k, v') \<in> set (wait_index_rows s)"
  shows "v = v'"
proof -
  obtain i w where 1: "bt_get (s_waits s) i = Some w" "v = RWait (wait_entry_of s i w)"
      "drop 17 (snd k) = component (s_id s) @ '':'' @ component i"
    using assms(1) by (auto simp: wait_index_rows_def bt_get_iff_entry)
  obtain i' w' where 2: "bt_get (s_waits s) i' = Some w'" "v' = RWait (wait_entry_of s i' w')"
      "drop 17 (snd k) = component (s_id s) @ '':'' @ component i'"
    using assms(2) by (auto simp: wait_index_rows_def bt_get_iff_entry)
  have "i = i'" using 1(3) 2(3) by simp
  then show ?thesis using 1 2 by simp
qed

lemma index_rows_fun:
  "(k, v) \<in> set (index_rows s) \<Longrightarrow> (k, v') \<in> set (index_rows s) \<Longrightarrow> v = v'"
  using in_index_rows [of k v s] in_index_rows [of k v' s] wait_index_rows_fun [of k v s v']
    wait_index_rows_family [of k v s] wait_index_rows_family [of k v' s] by auto

lemma indexes_iff: "bt_get (indexes s) k = Some v \<longleftrightarrow> (k, v) \<in> set (index_rows s)"
proof
  assume "(k, v) \<in> set (index_rows s)"
  moreover have "bt_has (indexes s) k"
    using calculation by (force simp: indexes_def bt_of_list_has)
  then obtain v' where "bt_get (indexes s) k = Some v'" by (auto simp: bt_has_def)
  moreover have "(k, v') \<in> set (index_rows s)"
    using calculation(2) unfolding indexes_def by (rule bt_of_list_in)
  ultimately show "bt_get (indexes s) k = Some v" by (metis index_rows_fun)
qed (simp add: indexes_def bt_of_list_in)

section \<open>Partitions\<close>

text \<open>The rows of a run in the partitions the engine looks runs up in.\<close>

lemma indexes_children:
  "bt_get (indexes s) (partition ''children'' p, k) = Some v \<longleftrightarrow>
     k = s_id s \<and> v = RJson (String k) \<and> r_ended_ms (s_run s) = None \<and>
     (\<exists>link. r_child (s_run s) = Some link \<and> l_parent link = p)"
  unfolding indexes_iff index_rows_def Let_def
  by (auto simp: run_kinds_def Let_def kind_simps wait_families_def dest!: set_wait_kinds split: option.splits if_splits, (metis+)?)

lemma indexes_live_name:
  "bt_get (indexes s) (partition ''live_name'' n, k) = Some v \<longleftrightarrow>
     k = s_id s \<and> v = RJson (String k) \<and> r_ended_ms (s_run s) = None \<and> s_name s = n"
  unfolding indexes_iff index_rows_def Let_def
  by (auto simp: run_kinds_def Let_def kind_simps wait_families_def dest!: set_wait_kinds split: option.splits if_splits, (metis+)?)

lemma indexes_due:
  "bt_get (indexes s) (''due'', k) = Some v \<longleftrightarrow>
     v = RJson (String (s_id s)) \<and> r_ended_ms (s_run s) = None \<and> (\<exists>at. due_at s = Some at \<and> k = timed at (s_id s))"
  unfolding indexes_iff index_rows_def Let_def
  by (auto simp: run_kinds_def Let_def kind_simps wait_families_def dest!: set_wait_kinds split: option.splits if_splits, (metis+)?)

definition app_of :: "stored_run \<Rightarrow> string" where
  "app_of s = (case application_version (r_admission (s_run s)) of None \<Rightarrow> [] | Some v \<Rightarrow> v)"

lemma indexes_due_app:
  "bt_get (indexes s) (partition ''due_app'' app, k) = Some v \<longleftrightarrow>
     v = RJson (String (s_id s)) \<and> r_ended_ms (s_run s) = None \<and> app_of s = app \<and>
     (\<exists>at. due_at s = Some at \<and> k = timed at (s_id s))"
  unfolding indexes_iff index_rows_def Let_def app_of_def
  by (auto simp: run_kinds_def Let_def kind_simps wait_families_def dest!: set_wait_kinds split: option.splits if_splits, (metis+)?)

lemma indexes_subs:
  "bt_get (indexes s) (partition ''subs'' t, k) = Some v \<longleftrightarrow>
     k = s_id s \<and> v = RJson (String k) \<and> r_ended_ms (s_run s) = None \<and>
     t \<in> set (concat (bt_values (s_subscriptions s)))"
  unfolding indexes_iff index_rows_def Let_def
  by (auto simp: run_kinds_def Let_def kind_simps wait_families_def dest!: set_wait_kinds split: option.splits if_splits)

lemma indexes_finished:
  "bt_get (indexes s) (''finished'', k) = Some v \<longleftrightarrow>
     v = RJson (String (s_id s)) \<and> s_evidence s \<and> (\<exists>at. r_ended_ms (s_run s) = Some at \<and> k = timed at (s_id s))"
  unfolding indexes_iff index_rows_def Let_def
  by (auto simp: run_kinds_def Let_def kind_simps wait_families_def dest!: set_wait_kinds split: option.splits if_splits, (metis+)?)

lemma indexes_mailbox:
  "bt_get (indexes s) (''mailbox'', k) = Some v \<longleftrightarrow>
     v = RJson (String (s_id s)) \<and> r_ended_ms (s_run s) = None \<and> (\<exists>at. s_mailbox s = Some at \<and> k = timed at (s_id s))"
  unfolding indexes_iff index_rows_def Let_def
  by (auto simp: run_kinds_def Let_def kind_simps wait_families_def dest!: set_wait_kinds split: option.splits if_splits, (metis+)?)

section \<open>Lookups in a database\<close>

lemma is_index_partitions [simp]:
  "is_index (partition ''children'' p, k)" "is_index (partition ''live_name'' p, k)"
  "is_index (partition ''due_app'' p, k)" "is_index (''due'', k)" "is_index (partition ''subs'' p, k)"
  "is_index (''finished'', k)" "is_index (''mailbox'', k)"
  by (simp_all add: is_index_def id_families_def timed_families_def)

lemma stored_id: "index_ok r \<Longrightarrow> stored r i s \<Longrightarrow> s_id s = i"
  unfolding stored_def by (rule index_ok_run_id)

lemma index_ok_lookup:
  assumes "index_ok r" and "is_index k"
  shows "bt_get r k = Some v \<longleftrightarrow> (\<exists>i s. stored r i s \<and> s_id s = i \<and> bt_get (indexes s) k = Some v)"
  using assms stored_id [OF assms(1)] by (auto simp: index_ok_def stored_def)

lemma children_lookup:
  assumes "index_ok r"
  shows "bt_get r (partition ''children'' p, k) = Some v \<longleftrightarrow>
    v = RJson (String k) \<and> (\<exists>s link. stored r k s \<and> r_ended_ms (s_run s) = None \<and>
      r_child (s_run s) = Some link \<and> l_parent link = p)"
  unfolding index_ok_lookup [OF assms is_index_partitions(1)] indexes_children
  by (auto dest: stored_id [OF assms])

lemma live_name_lookup:
  assumes "index_ok r"
  shows "bt_get r (partition ''live_name'' n, k) = Some v \<longleftrightarrow>
    v = RJson (String k) \<and> (\<exists>s. stored r k s \<and> r_ended_ms (s_run s) = None \<and> s_name s = n)"
  unfolding index_ok_lookup [OF assms is_index_partitions(2)] indexes_live_name
  by (auto dest: stored_id [OF assms])

lemma due_lookup:
  assumes "index_ok r"
  shows "bt_get r (''due'', k) = Some v \<longleftrightarrow>
    (\<exists>i s at. v = RJson (String i) \<and> stored r i s \<and> r_ended_ms (s_run s) = None \<and> due_at s = Some at \<and> k = timed at i)"
  unfolding index_ok_lookup [OF assms is_index_partitions(4)] indexes_due
  by (auto dest: stored_id [OF assms])

lemma due_app_lookup:
  assumes "index_ok r"
  shows "bt_get r (partition ''due_app'' app, k) = Some v \<longleftrightarrow>
    (\<exists>i s at. v = RJson (String i) \<and> stored r i s \<and> r_ended_ms (s_run s) = None \<and> app_of s = app \<and>
      due_at s = Some at \<and> k = timed at i)"
  unfolding index_ok_lookup [OF assms is_index_partitions(3)] indexes_due_app
  by (auto dest: stored_id [OF assms])

section \<open>Reading indexed runs\<close>

lemma scan_row_get:
  "e \<in> set (scan_rows r kind lo hi lim) \<Longrightarrow> bt_get r (kind, snd (fst e)) = Some (snd e)"
  using scan_rows_get [of "fst e" "snd e" r kind lo hi lim] by (auto simp: in_range_def)

lemma commits_collect_tx:
  assumes "\<And>x r y r'. commits (f x) r y r' \<Longrightarrow> r' = r" and "commits (collect_tx xs f) r ys r'"
  shows "r' = r \<and> list_all2 (\<lambda>x y. commits (f x) r y r) xs ys"
  using assms(2)
proof (induction xs arbitrary: ys r')
  case (Cons x xs)
  from Cons.prems obtain y zs t t' where y: "commits (f x) r y t" "commits (collect_tx xs f) t zs t'"
    and ys: "ys = y # zs" "r' = t'" by auto
  have t: "t = r" using y(1) by (rule assms(1))
  have "t' = r \<and> list_all2 (\<lambda>x y. commits (f x) r y r) xs zs"
    by (rule Cons.IH) (use y(2) t ys in simp)
  then show ?case using y(1) t ys by simp
qed simp

lemma commits_indexed_runs:
  assumes "commits (indexed_runs kind lo hi lim) r cs r'"
  shows "r' = r \<and> list_all2 (\<lambda>e s. \<exists>i. index_id (snd e) = Some i \<and> stored r i s \<and> s_version s = VERSION)
      (scan_rows r kind lo hi lim) cs"
proof -
  let ?f = "\<lambda>(k :: key, v). bind (of_option (Message ''invalid run index'') (index_id v)) load_run"
  have c: "commits (collect_tx (scan_rows r kind lo hi lim) ?f) r cs r'"
    using assms by (simp add: indexed_runs_def)
  have "r' = r \<and> list_all2 (\<lambda>x y. commits (?f x) r y r) (scan_rows r kind lo hi lim) cs"
    by (rule commits_collect_tx [OF _ c]) auto
  then show ?thesis by (auto simp: stored_def elim!: list_all2_mono)
qed

text \<open>
  The interface of an index partition: it lists a run at most once, under the key \<open>f\<close> gives it, and its row
  names the run. A scan then returns the stored runs it lists in key order, each once, and a scan of the
  whole partition misses none.
\<close>

locale run_partition =
  fixes kind :: string and f :: "stored_run \<Rightarrow> string"
  assumes indexed: "is_index (kind, k)"
    and row: "bt_get (indexes s) (kind, k) = Some v \<Longrightarrow> v = RJson (String (s_id s)) \<and> k = f s"
begin

lemma listed:
  assumes ok: "index_ok r" and "bt_get r (kind, k) = Some v"
  obtains s where "stored r (s_id s) s" "k = f s" "v = RJson (String (s_id s))" "bt_get (indexes s) (kind, k) = Some v"
proof -
  obtain s where "stored r (s_id s) s" "bt_get (indexes s) (kind, k) = Some v"
    using index_ok_lookup [OF ok indexed] assms(2) by auto
  then show ?thesis using that [of s] row by blast
qed

lemma scanned:
  assumes ok: "index_ok r" and "commits (indexed_runs kind lo hi lim) r cs r'"
  shows "r' = r" and "map f cs = map (snd \<circ> fst) (scan_rows r kind lo hi lim)"
    and "\<And>c. c \<in> set cs \<Longrightarrow> stored r (s_id c) c \<and> s_version c = VERSION \<and> bt_has (indexes c) (kind, f c)"
proof -
  let ?rs = "scan_rows r kind lo hi lim"
  note com = commits_indexed_runs [OF assms(2)]
  show "r' = r" using com by simp
  have l2: "list_all2 (\<lambda>e s. snd (fst e) = f s \<and> stored r (s_id s) s \<and> s_version s = VERSION \<and> bt_has (indexes s) (kind, f s)) ?rs cs"
  proof (rule list.rel_mono_strong [OF com [THEN conjunct2]])
    fix e s
    assume e: "e \<in> set ?rs" and "\<exists>i. index_id (snd e) = Some i \<and> stored r i s \<and> s_version s = VERSION"
    then obtain i where i: "index_id (snd e) = Some i" "stored r i s" "s_version s = VERSION" by blast
    have get: "bt_get r (kind, snd (fst e)) = Some (snd e)"
      using e by (rule scan_row_get)
    then obtain t where t: "stored r (s_id t) t" "snd (fst e) = f t" "snd e = RJson (String (s_id t))"
        "bt_get (indexes t) (kind, snd (fst e)) = Some (snd e)"
      by (rule listed [OF ok])
    have "s = t" using i t by (auto simp: index_id_def dest: stored_unique)
    then show "snd (fst e) = f s \<and> stored r (s_id s) s \<and> s_version s = VERSION \<and> bt_has (indexes s) (kind, f s)"
      using t i by (auto simp: bt_has_def)
  qed
  then show "map f cs = map (snd \<circ> fst) ?rs"
    by (auto simp: list_all2_conv_all_nth intro: nth_equalityI)
  fix c assume "c \<in> set cs"
  then obtain j where "j < length cs" "cs ! j = c" by (auto simp: in_set_conv_nth)
  then show "stored r (s_id c) c \<and> s_version c = VERSION \<and> bt_has (indexes c) (kind, f c)"
    using l2 by (auto simp: list_all2_conv_all_nth)
qed

lemma scanned_distinct:
  assumes "index_ok r" and "commits (indexed_runs kind lo hi lim) r cs r'"
  shows "distinct (map s_id cs)"
proof -
  note cs = scanned [OF assms]
  have "inj_on snd (fst ` set (scan_rows r kind lo hi lim))"
  proof (rule inj_onI)
    fix k l
    assume "k \<in> fst ` set (scan_rows r kind lo hi lim)" "l \<in> fst ` set (scan_rows r kind lo hi lim)" "snd k = snd l"
    moreover have "fst k = kind" if "k \<in> fst ` set (scan_rows r kind lo hi lim)" for k
      using that by (auto simp: in_range_def dest: scan_rows_get)
    ultimately show "k = l" by (metis prod.expand)
  qed
  then have "distinct (map f cs)"
    unfolding cs(2) using scan_rows_distinct [of r kind lo hi lim]
    by (simp add: distinct_map comp_inj_on image_comp)
  then have d: "distinct cs" by (simp add: distinct_map)
  have "inj_on s_id (set cs)"
    by (rule inj_onI) (metis cs(3) stored_unique)
  then show ?thesis using d by (simp add: distinct_map)
qed

lemma scanned_complete:
  assumes ok: "index_ok r" and "commits (indexed_runs kind [] None None) r cs r'"
    and c: "stored r (s_id c) c" "bt_has (indexes c) (kind, f c)"
  shows "c \<in> set cs"
proof -
  note cs = scanned [OF assms(1,2)]
  obtain v where v: "bt_get r (kind, f c) = Some v"
    using c index_ok_lookup [OF ok indexed] unfolding bt_has_def by blast
  then have "((kind, f c), v) \<in> set (scan_rows r kind [] None None)"
    by (simp add: scan_rows_all in_range_def)
  then have "f c \<in> set (map f cs)" unfolding cs(2) by force
  then obtain d where d: "d \<in> set cs" "f d = f c" by auto
  then obtain w where "bt_get (indexes d) (kind, f c) = Some w"
    using cs(3) [OF d(1)] by (auto simp: bt_has_def)
  moreover have "claims (s_id c) (kind, f c)" using c(2) indexes_claims by (auto simp: bt_has_def)
  ultimately have "s_id d = s_id c" using indexes_claims claims_inject by blast
  then have "d = c" using cs(3) [OF d(1)] c(1) by (auto dest: stored_unique)
  then show ?thesis using d(1) by simp
qed

end

section \<open>The live children of a run\<close>

interpretation children: run_partition "partition ''children'' p" s_id for p
  by unfold_locales (simp_all add: indexes_children)

interpretation live_name: run_partition "partition ''live_name'' n" s_id for n
  by unfold_locales (simp_all add: indexes_live_name)

interpretation due: run_partition "''due''" "\<lambda>s. timed (the (due_at s)) (s_id s)"
  by unfold_locales (auto simp: indexes_due)

interpretation due_app: run_partition "partition ''due_app'' app" "\<lambda>s. timed (the (due_at s)) (s_id s)" for app
  by unfold_locales (auto simp: indexes_due_app)

interpretation subs: run_partition "partition ''subs'' t" s_id for t
  by unfold_locales (auto simp: indexes_subs)

interpretation finished: run_partition "''finished''" "\<lambda>s. timed (the (r_ended_ms (s_run s))) (s_id s)"
  by unfold_locales (auto simp: indexes_finished)

interpretation mailbox: run_partition "''mailbox''" "\<lambda>s. timed (the (s_mailbox s)) (s_id s)"
  by unfold_locales (auto simp: indexes_mailbox)

definition live_child :: "db \<Rightarrow> string \<Rightarrow> stored_run \<Rightarrow> bool" where
  "live_child r p c \<longleftrightarrow> stored r (s_id c) c \<and> r_ended_ms (s_run c) = None \<and>
     (\<exists>link. r_child (s_run c) = Some link \<and> l_parent link = p)"

lemma commits_children:
  assumes "commits (indexed_runs (partition ''children'' p) [] None None) r cs r'" and ok: "index_ok r"
  shows "r' = r" "distinct (map s_id cs)" "c \<in> set cs \<longleftrightarrow> live_child r p c" "c \<in> set cs \<Longrightarrow> s_version c = VERSION"
proof -
  note cs = children.scanned [OF ok assms(1)]
  show "r' = r" "c \<in> set cs \<Longrightarrow> s_version c = VERSION" using cs by auto
  show "distinct (map s_id cs)" using children.scanned_distinct [OF ok assms(1)] .
  show "c \<in> set cs \<longleftrightarrow> live_child r p c"
    using cs(3) [of c] children.scanned_complete [OF ok assms(1), of c]
    by (auto simp: live_child_def bt_has_def indexes_children)
qed

end
