(* ===== verification/Cascade.thy ===== *)
theory Cascade
  imports Store_Invariant Index_Lookup
begin

text \<open>
  The cascade of a terminal run over its live descendants: it returns whenever its fuel is above the number
  of live runs, it ends exactly the live descendants, each as cancelled, and it keeps the index invariant.
\<close>

section \<open>Live runs\<close>

definition live :: "db \<Rightarrow> string set" where
  "live r = {i. \<exists>s. stored r i s \<and> r_ended_ms (s_run s) = None}"

lemma finite_stored: "finite {i. \<exists>s. stored r i s}"
proof (rule finite_subset)
  show "{i. \<exists>s. stored r i s} \<subseteq> snd ` set (bt_keys r)"
    by (force simp: stored_def bt_has_iff_key [symmetric] bt_has_def image_iff)
qed simp

lemma finite_live [simp]: "finite (live r)"
  by (rule finite_subset [OF _ finite_stored [of r]]) (auto simp: live_def)

text \<open>Every run row was written by this version of the code.\<close>

definition all_readable :: "db \<Rightarrow> bool" where
  "all_readable r \<longleftrightarrow> (\<forall>i. readable r i)"

lemma stored_version: "all_readable r \<Longrightarrow> stored r i s \<Longrightarrow> s_version s = VERSION"
  by (auto simp: all_readable_def readable_def stored_def split: option.splits dest: spec [of _ i])

text \<open>\<open>ends used now S r r'\<close>: the rows of \<open>r'\<close> are those of \<open>r\<close> with the runs in \<open>S\<close> ended as cancelled.\<close>

definition ends :: "nat \<Rightarrow> int \<Rightarrow> string set \<Rightarrow> db \<Rightarrow> db \<Rightarrow> bool" where
  "ends used now S r r' \<longleftrightarrow>
     (\<forall>i t. stored r' i t \<longleftrightarrow> (\<exists>s. stored r i s \<and> t = (if i \<in> S then ended_run s Cancelled used now else s)))"

lemma ended_run_simps [simp]:
  "s_id (ended_run s st used now) = s_id s" "s_version (ended_run s st used now) = s_version s"
  "s_name (ended_run s st used now) = s_name s"
  "r_ended_ms (s_run (ended_run s st used now)) = Some now" "r_outcome (s_run (ended_run s st used now)) = Some st"
  "r_child (s_run (ended_run s st used now)) = r_child (s_run s)" "s_awaits (ended_run s st used now) = bt_empty"
  "r_root (s_run (ended_run s st used now)) = r_root (s_run s)"
  by (simp_all add: ended_run_def)

lemma ends_empty [simp]: "ends used now {} r r"
  by (simp add: ends_def)

lemma ends_trans:
  assumes "ends used now S r r1" and "ends used now T r1 r2" and "S \<inter> T = {}"
  shows "ends used now (S \<union> T) r r2"
  unfolding ends_def
proof (intro allI)
  fix i t
  show "stored r2 i t \<longleftrightarrow> (\<exists>s. stored r i s \<and> t = (if i \<in> S \<union> T then ended_run s Cancelled used now else s))"
    using assms(3) assms(1) [unfolded ends_def, rule_format, of i] assms(2) [unfolded ends_def, rule_format, of i]
    by (cases "i \<in> S"; cases "i \<in> T") auto
qed

lemma live_ends: "ends used now S r r' \<Longrightarrow> live r' = live r - S"
  by (auto simp: ends_def live_def split: if_splits) (metis ended_run_simps(4) option.distinct(1))

section \<open>Lifecycle notices to an ended parent\<close>

definition quiet :: "db \<Rightarrow> string \<Rightarrow> bool" where
  "quiet r p \<longleftrightarrow> (\<exists>s. stored r p s \<and> r_ended_ms (s_run s) \<noteq> None \<and> s_awaits s = bt_empty)"

lemma quiet_not_live: "quiet r p \<Longrightarrow> p \<notin> live r"
  by (auto simp: quiet_def live_def dest: stored_unique)

lemma quiet_ends: "ends used now S r r' \<Longrightarrow> quiet r p \<Longrightarrow> quiet r' p"
  by (fastforce simp: ends_def quiet_def)

lemma ended_quiet: "ends used now S r r' \<Longrightarrow> p \<in> S \<Longrightarrow> stored r p s \<Longrightarrow> quiet r' p"
  by (auto simp: ends_def quiet_def)

lemma close_no_awaits: "s_awaits s = bt_empty \<Longrightarrow> s_awaits (close s ts) = bt_empty"
proof (induction ts arbitrary: s)
  case (Cons t ts)
  then show ?case by (simp add: close_def)
qed (simp add: close_def)

lemma lifecycle_quiet:
  assumes "stored r i s" and "s_version s = VERSION" and "r_child (s_run s) = Some link"
    and "quiet r (l_parent link)" and "all_readable r"
  shows "commits (lifecycle i Cancelled now) r () r"
proof -
  obtain p where p: "stored r (l_parent link) p" "r_ended_ms (s_run p) \<noteq> None" "s_awaits p = bt_empty"
    using assms(4) by (auto simp: quiet_def)
  have "s_version p = VERSION" using stored_version [OF assms(5) p(1)] .
  then show ?thesis
    using assms(1-3) p
    by (auto simp: lifecycle_def close_waiting_def notify_def stored_def Let_def close_no_awaits)
qed

section \<open>One child\<close>

lemma store_run_indexed_eq:
  "stored r (s_id s) t \<Longrightarrow> s_version t = VERSION \<Longrightarrow>
     commits (store_run_indexed s (indexes t)) r a r' \<longleftrightarrow> commits (store_run s) r a r'"
  by (auto simp: store_run_def commits_find_run stored_def)

lemma all_readable_store_run:
  "commits (store_run s) r a r' \<Longrightarrow> s_version s = VERSION \<Longrightarrow> all_readable r \<Longrightarrow> all_readable r'"
  by (auto simp: all_readable_def readable_def store_run_row)

lemma cancel_child_commits:
  assumes ok: "index_ok r" and ver: "all_readable r" and c: "live_child r p c" and "quiet r p"
  obtains r' where "commits (cancel_child x used now c (ps, names, ended)) r
      (ps @ [s_id c], bt_insert (s_name c) () names, tally x (s_run c) ended) r'"
    "index_ok r'" "all_readable r'" "ends used now {s_id c} r r'"
proof -
  let ?c = "ended_run c Cancelled used now"
  have c': "stored r (s_id c) c" "s_version c = VERSION" and link: "\<exists>l. r_child (s_run c) = Some l \<and> l_parent l = p"
    using c stored_version [OF ver] by (auto simp: live_child_def)
  have "readable r (s_id ?c)" using ver by (simp add: all_readable_def)
  then obtain r' where st: "commits (store_run ?c) r () r'" using store_run_total by blast
  have ok': "index_ok r'" using keepsD [OF store_run_keeps_index ok st] .
  have ver': "all_readable r'" using all_readable_store_run [OF st _ ver] c'(2) by simp
  have en: "ends used now {s_id c} r r'"
    using stored_store_run [OF st] c'(1) by (auto simp: ends_def dest: stored_unique)
  have "quiet r' p" using quiet_ends [OF en] assms(4) .
  moreover have "stored r' (s_id c) ?c" using stored_store_run [OF st] by simp
  ultimately have "commits (lifecycle (s_id c) Cancelled now) r' () r'"
    using lifecycle_quiet [of r' "s_id c" ?c] link c'(2) ver' by auto
  then have "commits (cancel_child x used now c (ps, names, ended)) r
      (ps @ [s_id c], bt_insert (s_name c) () names, tally x (s_run c) ended) r'"
    using st c' by (auto simp: cancel_child_def store_run_indexed_eq)
  then show ?thesis using that ok' ver' en by blast
qed

section \<open>The children of one run\<close>

lemma live_child_ends:
  "ends used now S r r' \<Longrightarrow> live_child r p c \<Longrightarrow> s_id c \<notin> S \<Longrightarrow> live_child r' p c"
  by (auto simp: ends_def live_child_def)

lemma cancel_children_commits:
  assumes "index_ok r" and "all_readable r" and "quiet r p" and "distinct (map s_id cs)"
    and "\<And>c. c \<in> set cs \<Longrightarrow> live_child r p c"
  shows "\<exists>st' r'. commits (fold_tx cs (cancel_child x used now) (ps, st)) r (ps @ map s_id cs, st') r'
    \<and> index_ok r' \<and> all_readable r' \<and> ends used now (s_id ` set cs) r r'"
  using assms
proof (induction cs arbitrary: r ps st)
  case Nil
  then show ?case by auto
next
  case (Cons c cs)
  obtain names ended where st: "st = (names, ended)" by fastforce
  have "live_child r p c" using Cons.prems(5) by simp
  then obtain r1 where r1: "commits (cancel_child x used now c (ps, names, ended)) r
      (ps @ [s_id c], bt_insert (s_name c) () names, tally x (s_run c) ended) r1"
    "index_ok r1" "all_readable r1" "ends used now {s_id c} r r1"
    using cancel_child_commits [OF Cons.prems(1,2) _ Cons.prems(3)] by blast
  have "live_child r1 p d" if "d \<in> set cs" for d
    using live_child_ends [OF r1(4) Cons.prems(5)] that Cons.prems(4) by (auto simp: image_iff)
  then obtain st' r' where r': "commits (fold_tx cs (cancel_child x used now) (ps @ [s_id c], bt_insert (s_name c) () names,
        tally x (s_run c) ended)) r1 ((ps @ [s_id c]) @ map s_id cs, st') r'"
      "index_ok r'" "all_readable r'" "ends used now (s_id ` set cs) r1 r'"
    using Cons.IH [OF r1(2,3) quiet_ends [OF r1(4) Cons.prems(3)], of "ps @ [s_id c]"
        "(bt_insert (s_name c) () names, tally x (s_run c) ended)"] Cons.prems(4) by auto
  have "ends used now (s_id ` set (c # cs)) r r'"
    using ends_trans [OF r1(4) r'(4)] Cons.prems(4) by auto
  then show ?case using r1(1) r' st by auto
qed

section \<open>The whole cascade\<close>

lemma collect_tx_total:
  "(\<And>x. x \<in> set xs \<Longrightarrow> \<exists>y. commits (f x) r y r) \<Longrightarrow> \<exists>ys. commits (collect_tx xs f) r ys r"
proof (induction xs)
  case (Cons x xs)
  obtain y where "commits (f x) r y r" using Cons.prems [of x] by auto
  moreover obtain ys where "commits (collect_tx xs f) r ys r" using Cons by auto
  ultimately show ?case by auto
qed simp

lemma indexed_runs_total:
  assumes "index_ok r" and "all_readable r"
  shows "\<exists>cs. commits (indexed_runs (partition ''children'' p) [] None None) r cs r"
proof -
  have "\<exists>y. commits (case e of (k, v) \<Rightarrow> bind (of_option (Message ''invalid run index'') (index_id v)) load_run) r y r"
    if "e \<in> set (scan_rows r (partition ''children'' p) [] None None)" for e
  proof -
    have "bt_get r (partition ''children'' p, snd (fst e)) = Some (snd e)"
      using that by (rule scan_row_get)
    then obtain s where "stored r (s_id s) s" "snd e = RJson (String (s_id s))"
      by (rule children.listed [OF assms(1)])
    then show ?thesis
      using stored_version [OF assms(2)] by (cases e) (auto simp: index_id_def stored_def)
  qed
  then obtain ys where "commits (collect_tx (scan_rows r (partition ''children'' p) [] None None)
      (\<lambda>(k, v). bind (of_option (Message ''invalid run index'') (index_id v)) load_run)) r ys r"
    using collect_tx_total by blast
  then show ?thesis by (auto simp: indexed_runs_def)
qed

inductive live_desc :: "db \<Rightarrow> string \<Rightarrow> string \<Rightarrow> bool" for r where
  child: "live_child r p c \<Longrightarrow> live_desc r p (s_id c)"
| deeper: "live_desc r p q \<Longrightarrow> live_child r q c \<Longrightarrow> live_desc r p (s_id c)"

definition below :: "db \<Rightarrow> string set \<Rightarrow> string set" where
  "below r P = {j. \<exists>p \<in> P. live_desc r p j}"

lemma live_desc_live: "live_desc r p j \<Longrightarrow> j \<in> live r"
  by (induction rule: live_desc.induct) (auto simp: live_def live_child_def)

lemma live_desc_trans: "live_desc r m j \<Longrightarrow> live_desc r q m \<Longrightarrow> live_desc r q j"
  by (induction rule: live_desc.induct) (auto intro: live_desc.intros)

text \<open>After the children of \<open>q\<close> ended, what is left below the stack is what was below it, less the children.\<close>

lemma live_child_back: "ends used now S r r' \<Longrightarrow> live_child r' p c \<Longrightarrow> live_child r p c \<and> s_id c \<notin> S"
  by (auto simp: ends_def live_child_def split: if_splits)

lemma live_desc_back: "live_desc r' p j \<Longrightarrow> ends used now S r r' \<Longrightarrow> live_desc r p j"
  by (induction rule: live_desc.induct) (auto dest: live_child_back intro: live_desc.intros)

lemma live_desc_split:
  assumes "live_desc r p j" and "p \<in> P \<union> {q}" and en: "ends used now S r r'"
    and S: "S = {s_id c | c. live_child r q c}"
  shows "j \<in> S \<union> below r' (P \<union> S)"
  using assms(1,2)
proof (induction rule: live_desc.induct)
  case (child p c)
  show ?case
  proof (cases "s_id c \<in> S")
    case False
    then have "p \<noteq> q" using child S by auto
    then show ?thesis
      using child live_child_ends [OF en child(1) False] by (auto simp: below_def intro: live_desc.child)
  qed simp
next
  case (deeper p m c)
  show ?case
  proof (cases "s_id c \<in> S")
    case False
    note lc = live_child_ends [OF en deeper.hyps(2) False]
    from deeper.IH [OF deeper.prems] show ?thesis
      using lc by (auto simp: below_def intro: live_desc.intros)
  qed simp
qed

lemma below_step:
  assumes "ends used now S r r'" and "S = {s_id c | c. live_child r q c}"
  shows "S \<union> below r' (P \<union> S) = below r (P \<union> {q})"
proof
  show "S \<union> below r' (P \<union> S) \<subseteq> below r (P \<union> {q})"
  proof
    fix j assume "j \<in> S \<union> below r' (P \<union> S)"
    moreover have "j \<in> below r (P \<union> {q})" if "j \<in> S" for j
      using that assms(2) by (auto simp: below_def intro: live_desc.child)
    moreover have "live_desc r q j" if "live_desc r' m j" "m \<in> S" for m
    proof -
      obtain c where c: "live_child r q c" "m = s_id c" using \<open>m \<in> S\<close> assms(2) by auto
      have "live_desc r m j" using live_desc_back [OF \<open>live_desc r' m j\<close> assms(1)] .
      then show ?thesis using live_desc.child [OF c(1)] c(2) live_desc_trans by blast
    qed
    moreover have "live_desc r p j" if "live_desc r' p j" for p
      using live_desc_back [OF that assms(1)] .
    ultimately show "j \<in> below r (P \<union> {q})"
      unfolding below_def by blast
  qed
  show "below r (P \<union> {q}) \<subseteq> S \<union> below r' (P \<union> S)"
    using live_desc_split [OF _ _ assms] by (auto simp: below_def)
qed

lemma cascade_commits:
  assumes "index_ok r" and "all_readable r" and "\<And>p. p \<in> set parents \<Longrightarrow> quiet r p"
    and "length parents + card (live r) \<le> n"
  shows "\<exists>st' r'. commits (cascade n x used now parents st) r st' r' \<and> index_ok r' \<and> all_readable r'
    \<and> ends used now (below r (set parents)) r r'"
  using assms
proof (induction n arbitrary: r parents st)
  case 0
  then show ?case by (auto simp: below_def)
next
  case (Suc n)
  show ?case
  proof (cases parents)
    case Nil
    then show ?thesis using Suc.prems by (auto simp: below_def)
  next
    case (Cons p ps)
    let ?q = "last parents" and ?rest = "butlast parents"
    have q: "quiet r ?q" using Suc.prems(3) Cons by (metis last_in_set list.discI)
    obtain cs where cs: "commits (indexed_runs (partition ''children'' ?q) [] None None) r cs r"
      using indexed_runs_total [OF Suc.prems(1,2)] by blast
    note kids = commits_children [OF cs Suc.prems(1)]
    obtain st1 r1 where r1: "commits (fold_tx cs (cancel_child x used now) (?rest, st)) r (?rest @ map s_id cs, st1) r1"
        "index_ok r1" "all_readable r1" "ends used now (s_id ` set cs) r r1"
      using cancel_children_commits [OF Suc.prems(1,2) q kids(2)] kids(3) by blast
    have S: "s_id ` set cs = {s_id c | c. live_child r ?q c}" using kids(3) by auto
    have sub: "s_id ` set cs \<subseteq> live r"
      using S by (auto simp: live_def live_child_def)
    have quiet1: "quiet r1 p'" if "p' \<in> set (?rest @ map s_id cs)" for p'
    proof (cases "p' \<in> set ?rest")
      case True
      then show ?thesis using Suc.prems(3) quiet_ends [OF r1(4)] by (meson in_set_butlastD)
    next
      case False
      then show ?thesis using that ended_quiet [OF r1(4)] sub by (auto simp: live_def)
    qed
    have "card (s_id ` set cs) = length cs" using kids(2) by (metis distinct_card length_map set_map)
    then have "card (live r1) + length cs = card (live r)"
      using live_ends [OF r1(4)] sub card_mono [OF finite_live sub] by (simp add: card_Diff_subset)
    then have "length (?rest @ map s_id cs) + card (live r1) \<le> n"
      using Suc.prems(4) Cons by simp
    then obtain st' r' where r': "commits (cascade n x used now (?rest @ map s_id cs) st1) r1 st' r'"
        "index_ok r'" "all_readable r'" "ends used now (below r1 (set (?rest @ map s_id cs))) r1 r'"
      using Suc.IH [OF r1(2,3) quiet1] by blast
    have "set parents = set ?rest \<union> {?q}"
      using Cons by (metis append_butlast_last_id list.discI list.set(1,2) set_append)
    then have "s_id ` set cs \<union> below r1 (set (?rest @ map s_id cs)) = below r (set parents)"
      using below_step [OF r1(4) S, of "set ?rest"] by simp
    moreover have "s_id ` set cs \<inter> below r1 (set (?rest @ map s_id cs)) = {}"
      using live_desc_live live_ends [OF r1(4)] by (auto simp: below_def)
    ultimately have "ends used now (below r (set parents)) r r'"
      using ends_trans [OF r1(4) r'(4)] by simp
    then show ?thesis
      using cs r1(1) r' Cons by (auto intro!: exI)
  qed
qed

end
