(* ===== verification/Evaluation.thy ===== *)
theory Evaluation
  imports Keys "HOL-Library.Code_Target_Nat"
begin

text \<open>
  Code equations that evaluate the hexadecimal keys bit by bit on literals, so that witnesses on concrete
  stores evaluate quickly. They change no definition.
\<close>

declare split_paired_All [simp del] split_paired_Ex [simp del]

fun low_bit :: "num option \<Rightarrow> bool \<times> num option" where
  "low_bit None = (False, None)"
| "low_bit (Some num.One) = (True, None)"
| "low_bit (Some (num.Bit0 m)) = (False, Some m)"
| "low_bit (Some (num.Bit1 m)) = (True, Some m)"

definition bits_value :: "num option \<Rightarrow> nat" where
  "bits_value n = (case n of None \<Rightarrow> 0 | Some m \<Rightarrow> nat_of_num m)"

definition hex_of_bits :: "bool \<Rightarrow> bool \<Rightarrow> bool \<Rightarrow> bool \<Rightarrow> char" where
  "hex_of_bits b3 b2 b1 b0 =
     (if b3 then (if b2 then (if b1 then (if b0 then CHR ''f'' else CHR ''e'') else (if b0 then CHR ''d'' else CHR ''c''))
                  else (if b1 then (if b0 then CHR ''b'' else CHR ''a'') else (if b0 then CHR ''9'' else CHR ''8'')))
      else (if b2 then (if b1 then (if b0 then CHR ''7'' else CHR ''6'') else (if b0 then CHR ''5'' else CHR ''4''))
                  else (if b1 then (if b0 then CHR ''3'' else CHR ''2'') else (if b0 then CHR ''1'' else CHR ''0''))))"

lemma hex_of_bits: "hex_of_bits b3 b2 b1 b0 = digit_char (of_bool b0 + 2 * (of_bool b1 + 2 * (of_bool b2 + 2 * of_bool b3)))"
  by (cases b0; cases b1; cases b2; cases b3) (simp_all add: hex_of_bits_def digit_char_def char_of_def bit_0)

lemma low_bit: "low_bit n = (b, m) \<Longrightarrow> bits_value n = of_bool b + 2 * bits_value m"
  by (cases n rule: low_bit.cases) (auto simp: bits_value_def)

primrec hex_bits :: "unit list \<Rightarrow> num option \<Rightarrow> string \<Rightarrow> string" where
  "hex_bits [] n acc = acc"
| "hex_bits (u # us) n acc =
     (case low_bit n of (b0, n1) \<Rightarrow> case low_bit n1 of (b1, n2) \<Rightarrow> case low_bit n2 of (b2, n3) \<Rightarrow> case low_bit n3 of (b3, n4) \<Rightarrow>
        hex_bits us n4 (hex_of_bits b3 b2 b1 b0 # acc))"

lemma hex_bits: "hex_bits us n acc = hex_fixed (length us) (bits_value n) @ acc"
proof (induction us arbitrary: n acc)
  case (Cons u us)
  obtain b0 n1 b1 n2 b2 n3 b3 n4 where b: "low_bit n = (b0, n1)" "low_bit n1 = (b1, n2)" "low_bit n2 = (b2, n3)" "low_bit n3 = (b3, n4)"
    by (metis prod.collapse)
  let ?d = "of_bool b0 + 2 * (of_bool b1 + 2 * (of_bool b2 + 2 * of_bool b3)) :: nat"
  have "bits_value n = 16 * bits_value n4 + ?d"
    using low_bit [OF b(1)] low_bit [OF b(2)] low_bit [OF b(3)] low_bit [OF b(4)] by simp
  moreover have "?d < 16" by (simp add: of_bool_def)
  ultimately have "bits_value n div 16 = bits_value n4" "bits_value n mod 16 = ?d"
    by simp_all
  then show ?case by (simp add: b Cons.IH hex_of_bits)
qed simp

text \<open>The bits of a code literal.\<close>

definition nat_bits :: "integer \<Rightarrow> num option" where
  "nat_bits i = (if i \<le> 0 then None else Some (num_of_integer i))"

lemma nat_bits_code [code]:
  "nat_bits 0 = None" "nat_bits (Code_Numeral.Pos k) = Some k" "nat_bits (Code_Numeral.Neg k) = None"
  by (simp_all add: nat_bits_def num_of_integer_def Code_Numeral.Pos_def Code_Numeral.Neg_def nat_of_integer_def)

lemma bits_value_nat_bits: "bits_value (nat_bits (integer_of_nat n)) = n"
  by (cases "n = 0") (simp_all add: nat_bits_def bits_value_def num_of_integer_def num_of_nat_inverse integer_of_nat_eq_of_nat)

lemma hex_fixed_code [code]: "hex_fixed w n = hex_bits (replicate w ()) (nat_bits (integer_of_nat n)) []"
  by (simp add: hex_bits bits_value_nat_bits)

definition int_bits :: "int \<Rightarrow> num option" where
  "int_bits i = (if i \<le> 0 then None else Some (num_of_nat (nat i)))"

lemma int_bits_code [code]:
  "int_bits 0 = None" "int_bits (Int.Pos k) = Some k" "int_bits (Int.Neg k) = None"
  by (simp_all add: int_bits_def)

lemma bits_value_int_bits: "0 \<le> i \<Longrightarrow> bits_value (int_bits i) = nat i"
  by (simp add: int_bits_def bits_value_def num_of_nat_inverse)

lemma time_key_bits [code]:
  "time_key ms =
     (if 0 \<le> ms \<and> ms < 1152921504606846976 then CHR ''8'' # hex_bits (replicate 15 ()) (int_bits ms) []
      else hex_fixed 16 (unat ((word_of_int ms :: 64 word) XOR word_of_int I64_MIN)))"
  using time_key_code [of ms] by (simp add: hex_bits bits_value_int_bits)

lemma hex_fixed_2: "d < 16 \<Longrightarrow> e < 16 \<Longrightarrow> hex_fixed 2 (16 * e + d) = [digit_char e, digit_char d]"
  by (simp add: numeral_2_eq_2)

lemma component_code [code]:
  "component [] = []"
  "component (Char b0 b1 b2 b3 b4 b5 b6 b7 # cs) = hex_of_bits b7 b6 b5 b4 # hex_of_bits b3 b2 b1 b0 # component cs"
proof -
  let ?lo = "of_bool b0 + 2 * (of_bool b1 + 2 * (of_bool b2 + 2 * of_bool b3)) :: nat"
  let ?hi = "of_bool b4 + 2 * (of_bool b5 + 2 * (of_bool b6 + 2 * of_bool b7)) :: nat"
  have n: "of_char (Char b0 b1 b2 b3 b4 b5 b6 b7) = 16 * ?hi + ?lo"
    by (simp add: of_char_def)
  have "?lo < 16" "?hi < 16" by (simp_all add: of_bool_def)
  then have "hex_fixed 2 (16 * ?hi + ?lo) = [digit_char ?hi, digit_char ?lo]"
    by (rule hex_fixed_2)
  then show "component (Char b0 b1 b2 b3 b4 b5 b6 b7 # cs) =
      hex_of_bits b7 b6 b5 b4 # hex_of_bits b3 b2 b1 b0 # component cs"
    by (simp only: component_Cons n hex_of_bits append.simps)
qed (simp add: component_def)

end
