(* ===== verification/Samples.thy ===== *)
theory Samples
  imports Control Evaluation
begin

text \<open>
  A small concrete store: stand-ins for the third-party functions, two admissions, and the states that
  operations of the store reach from the empty one. The witnesses of the properties evaluate on them.
\<close>

definition sample_ext :: ext where
  "sample_ext = \<lparr>
     x_sha256 = (\<lambda>s. [char_of (length s mod 256)]),
     x_yaml = (\<lambda>s. Some (String s)),
     x_text = (\<lambda>v. case v of String s \<Rightarrow> CHR 0x22 # s @ [CHR 0x22] | _ \<Rightarrow> ''0''),
     x_totals_len = (\<lambda>t. 10 * length (bt_entries t)),
     x_rfc3339 = (\<lambda>ms. if ms < 0 then None else Some (CHR ''t'' # decimal (nat ms))),
     x_float_sum = (\<lambda>a b. None),
     x_jq = (\<lambda>code input a. Inr input)\<rparr>"

definition sample_admission :: "string \<Rightarrow> string \<Rightarrow> admission" where
  "sample_admission i name = \<lparr>a_id = i, a_name = name, a_version = 1, a_definition = ''do'', a_input = Null,
     a_runtime = Object []\<rparr>"

text \<open>The rows after an operation; a failing one leaves them.\<close>

definition after :: "'a op \<Rightarrow> db \<Rightarrow> db" where
  "after m r = (case run m r of Inr (_, s) \<Rightarrow> s | Inl _ \<Rightarrow> r)"

definition result :: "'a op \<Rightarrow> db \<Rightarrow> 'a option" where
  "result m r = (case run m r of Inr (a, _) \<Rightarrow> Some a | Inl _ \<Rightarrow> None)"

lemma commits_result: "result m r = Some a \<Longrightarrow> commits m r a (after m r)"
  by (auto simp: result_def after_def commits_def split: sum.splits prod.splits)

text \<open>One run started by worker \<open>w1\<close> at instant 1000.\<close>

definition sample_fence :: fence where
  "sample_fence = \<lparr>f_run_id = ''a'', f_owner = ''w1'', f_generation = 1\<rparr>"

definition sample_started :: db where
  "sample_started = after (start sample_ext (sample_admission ''a'' ''d'') 1000 ''w1'') bt_empty"

definition any_worker :: compatibility where
  "any_worker = \<lparr>c_version = None, c_accepts = []\<rparr>"

lemma sample_start:
  "result (start sample_ext (sample_admission ''a'' ''d'') 1000 ''w1'') bt_empty = Some (Inr (Some sample_fence))"
  by code_simp

lemma sample_checked: "result (checked sample_fence 2000 1000) sample_started \<noteq> None"
  by code_simp

lemma sample_claim: "result (claim_as ''a'' 40000 any_worker ''w2'') sample_started = Some (Some \<lparr>f_run_id = ''a'', f_owner = ''w2'', f_generation = 2\<rparr>)"
  by code_simp
end
