(* ===== verification/Lease_Safety.thy ===== *)
theory Lease_Safety
  imports Samples Store_Invariant
begin

text \<open>
  What a lease promises: while its owner may act nobody else can claim the run, every claim raises the
  generation and invalidates the earlier fences, a stopped store claims nothing and a held run is
  nobody's.
\<close>

section \<open>How the operations commit\<close>

definition stopped :: "db \<Rightarrow> bool" where
  "stopped r \<longleftrightarrow> Option.bind (bt_get r (''control'', ''stopped'')) row_bool = Some True"

lemma commits_is_stopped:
  "commits is_stopped r b s \<Longrightarrow> s = r \<and> (b \<longleftrightarrow> stopped r)"
  by (auto simp: is_stopped_def stopped_def split: option.splits)

lemma is_stopped_True: "stopped r \<Longrightarrow> run is_stopped r = Inr (True, r)"
  by (auto simp: is_stopped_def stopped_def run_bind run_get_as split: bind_splits option.splits)

lemma commits_running: "commits running r a s \<Longrightarrow> s = r \<and> \<not> stopped r"
  by (auto simp: running_def dest: commits_is_stopped split: if_splits)

lemma commits_not_held [simp]: "commits (not_held s) r a t \<longleftrightarrow> r_held (s_run s) = None \<and> t = r"
  by (simp add: not_held_def)

text \<open>\<open>holds_lease s f now skew\<close>: the condition of \<^verbatim>\<open>authority\<close>.\<close>

definition holds_lease :: "stored_run \<Rightarrow> fence \<Rightarrow> int \<Rightarrow> int \<Rightarrow> bool" where
  "holds_lease s f now skew \<longleftrightarrow>
     r_state (s_run s) = StRunning \<and> r_fence (s_run s) = Some f \<and>
     (\<exists>until. r_lease_until_ms (s_run s) = Some until \<and> sat_add now skew < until)"

lemma commits_authority:
  "commits (authority f now skew) r s t \<longleftrightarrow>
     t = r \<and> stored r (f_run_id f) s \<and> s_version s = VERSION \<and> holds_lease s f now skew"
  by (auto simp: authority_def holds_lease_def stored_def split: option.splits)

lemma commits_checked:
  "commits (checked f now skew) r s t \<Longrightarrow>
     t = r \<and> \<not> stopped r \<and> stored r (f_run_id f) s \<and> s_version s = VERSION \<and> holds_lease s f now skew
       \<and> r_held (s_run s) = None"
  by (auto simp: checked_def commits_authority dest!: commits_running)

lemma claim_run_eq:
  "claim_run s now owner = Inr (f, s') \<Longrightarrow>
     f = \<lparr>f_run_id = s_id s, f_owner = owner, f_generation = r_generation (s_run s) + 1\<rparr>
     \<and> s_id s' = s_id s \<and> s_version s' = s_version s \<and> r_generation (s_run s') = r_generation (s_run s) + 1
     \<and> r_fence (s_run s') = Some f \<and> r_state (s_run s') = StRunning
     \<and> r_lease_until_ms (s_run s') = Some (sat_add now LEASE_MS) \<and> r_held (s_run s') = r_held (s_run s)
     \<and> r_ended_ms (s_run s') = r_ended_ms (s_run s)"
  by (auto simp: claim_run_def Let_def checked_add_u64_Some split: option.splits)

text \<open>What a successful claim did.\<close>

lemma commits_claim_as:
  assumes "commits (claim_as i now w owner) r (Some f) r'"
  obtains s s' where "\<not> stopped r" "stored r i s" "claimable (s_run s) now"
    "admits w (application_version (r_admission (s_run s)))"
    "claim_run s now owner = Inr (f, s')" "commits (store_run s') r () r'"
  using assms
  by (auto simp: claim_as_def commits_find_run stored_def dest!: commits_is_stopped
      split: if_splits option.splits prod.splits)

lemma claim_as_None_unchanged: "commits (claim_as i now w owner) r None r' \<Longrightarrow> r' = r"
  by (auto simp: claim_as_def commits_find_run dest!: commits_is_stopped
      split: if_splits option.splits prod.splits)

lemma claim_as_not_claimable:
  assumes "stored r i s" and "\<not> claimable (s_run s) now" and "commits (claim_as i now w owner) r a r'"
  shows "a = None"
  using assms by (cases a) (auto elim!: commits_claim_as dest: stored_unique)

section \<open>Properties\<close>

text \<open>
  C7. No takeover while the owner may act: if a worker passes the fenced check at its time \<open>now\<close> (so its
  lease has more than the skew bound left), then no claim of that run succeeds at any other worker's
  time up to \<open>now\<close> plus the skew bound.
\<close>

theorem no_takeover_under_authority:
  assumes "commits (checked f now skew) r s r" and "now' \<le> sat_add now skew"
    and "commits (claim_as (f_run_id f) now' w owner) r a r'"
  shows "a = None \<and> r' = r"
proof -
  have s: "stored r (f_run_id f) s" "holds_lease s f now skew"
    using commits_checked [OF assms(1)] by simp_all
  then have "\<not> claimable (s_run s) now'"
    using assms(2) by (auto simp: claimable_def holds_lease_def)
  then have "a = None" using claim_as_not_claimable s(1) assms(3) by blast
  then show ?thesis using claim_as_None_unchanged assms(3) by blast
qed

text \<open>
  A claim makes its fence the only one: it raises the run's generation by one, is fresh (no
  earlier fence of the run has its generation), and every other fence of the run is refused from then on,
  at any time and with any skew bound.
\<close>

lemma claim_invalidates_other_fences:
  assumes "stored r i s" and "index_ok r" and "commits (claim_as i now w owner) r (Some f) r'"
  shows "f_run_id f = i \<and> f_generation f = r_generation (s_run s) + 1
    \<and> (\<forall>g now2 skew a r''. f_run_id g = i \<longrightarrow> commits (authority g now2 skew) r' a r'' \<longrightarrow> g = f)"
proof -
  obtain s1 s' where s1: "stored r i s1" "claim_run s1 now owner = Inr (f, s')" "commits (store_run s') r () r'"
    using assms(3) by (rule commits_claim_as)
  have "s1 = s" using s1(1) assms(1) by (rule stored_unique)
  have "s_id s = i" using index_ok_run_id assms(1,2) unfolding stored_def by blast
  note c = claim_run_eq [OF s1(2)]
  have "stored r' i t \<longleftrightarrow> t = s'" for t
    using stored_store_run [OF s1(3)] c \<open>s1 = s\<close> \<open>s_id s = i\<close> by auto
  then show ?thesis
    using c \<open>s1 = s\<close> \<open>s_id s = i\<close> by (auto simp: commits_authority holds_lease_def)
qed

text \<open>
  Whoever claims a running run is a takeover only after its lease ended, a run waiting is claimed only
  from its wake-up on, and an ended or held run is never claimed.
\<close>

lemma claims_only_when_due:
  assumes "commits (claim_as i now w owner) r (Some f) r'"
  shows "\<exists>s. stored r i s \<and> r_held (s_run s) = None \<and> \<not> stopped r
    \<and> admits w (application_version (r_admission (s_run s)))
    \<and> r_state (s_run s) \<in> {StReady, StWaiting, StRunning}
    \<and> (\<exists>due. due_at s = Some due \<and> due \<le> now)"
  using assms
  by (rule commits_claim_as)
     (auto simp: claimable_def due_at_def split: if_splits run_state.splits option.splits)

section \<open>Witnesses\<close>

text \<open>The sample run, checked by its owner at 2000 and claimed by another worker at 3000 and at 40000.\<close>

lemma sample_too_early: "result (claim_as ''a'' 3000 any_worker ''w2'') sample_started = Some None"
  by code_simp

lemma sample_index_ok: "index_ok sample_started"
  using keepsD [OF keeps_start index_ok_empty commits_result [OF sample_start]] by (simp add: sample_started_def)

theorem no_takeover_under_authority_witness:
  "after (claim_as (f_run_id sample_fence) 3000 any_worker ''w2'') sample_started = sample_started"
proof -
  obtain s where c: "commits (checked sample_fence 2000 1000) sample_started s sample_started"
    using sample_checked commits_result commits_checked by (metis not_Some_eq)
  have early: "3000 \<le> sat_add 2000 1000" by code_simp
  show ?thesis
    using no_takeover_under_authority [OF c early commits_result] sample_too_early
    by (simp add: sample_fence_def)
qed

lemma claim_invalidates_other_fences_witness:
  "\<forall>now2 skew a r''. \<not> commits (authority sample_fence now2 skew)
     (after (claim_as ''a'' 40000 any_worker ''w2'') sample_started) a r''"
proof -
  obtain s where s: "stored sample_started ''a'' s"
    using commits_claim_as [OF commits_result [OF sample_claim]] by metis
  note taken = claim_invalidates_other_fences [OF s sample_index_ok commits_result [OF sample_claim]]
  have "sample_fence \<noteq> \<lparr>f_run_id = ''a'', f_owner = ''w2'', f_generation = 2\<rparr>" "f_run_id sample_fence = ''a''"
    by (simp_all add: sample_fence_def)
  then show ?thesis using taken by blast
qed

lemma claims_only_when_due_witness:
  "\<exists>s. stored sample_started ''a'' s \<and> r_held (s_run s) = None \<and> (\<exists>due. due_at s = Some due \<and> due \<le> 40000)"
  using claims_only_when_due [OF commits_result [OF sample_claim]] by blast

end
