(* ===== verification/Run_Evolution.thy ===== *)
theory Run_Evolution
  imports Cascade Lease_Safety
begin

text \<open>
  How run rows change. \<open>wf_run\<close> is the consistency of one row (a terminal state, an end instant and an
  outcome come together; a fence names its run and generation), \<open>good\<close> the invariant of a database, and
  \<open>evolves\<close> the one way a stored run may change: its admission, link and root are fixed, its generation never
  falls, and once it ended its outcome is final.
\<close>

section \<open>Invariant and evolution\<close>

definition terminal_state :: "run_state \<Rightarrow> bool" where
  "terminal_state st \<longleftrightarrow> st \<in> {StCompleted, StFailed, StCancelled}"

definition wf_run :: "stored_run \<Rightarrow> bool" where
  "wf_run s \<longleftrightarrow> s_version s = VERSION
     \<and> (r_ended_ms (s_run s) \<noteq> None \<longleftrightarrow> terminal_state (r_state (s_run s)))
     \<and> (r_ended_ms (s_run s) \<noteq> None \<longleftrightarrow> r_outcome (s_run s) \<noteq> None)
     \<and> (r_ended_ms (s_run s) \<noteq> None \<longrightarrow> r_held (s_run s) = None)
     \<and> (\<forall>f. r_fence (s_run s) = Some f \<longrightarrow> r_state (s_run s) = StRunning \<and> f_run_id f = s_id s
          \<and> f_generation f = r_generation (s_run s) \<and> r_lease_until_ms (s_run s) \<noteq> None)"

definition good :: "db \<Rightarrow> bool" where
  "good r \<longleftrightarrow> index_ok r \<and> (\<forall>i s. stored r i s \<longrightarrow> wf_run s)"

definition evolves :: "stored_run \<Rightarrow> stored_run \<Rightarrow> bool" where
  "evolves s t \<longleftrightarrow>
     s_version t = s_version s \<and> s_digest t = s_digest s
     \<and> r_admission (s_run t) = r_admission (s_run s) \<and> r_child (s_run t) = r_child (s_run s)
     \<and> r_root (s_run t) = r_root (s_run s) \<and> r_admitted_ms (s_run t) = r_admitted_ms (s_run s)
     \<and> r_epoch (s_run t) = r_epoch (s_run s)
     \<and> r_generation (s_run s) \<le> r_generation (s_run t)
     \<and> (r_ended_ms (s_run s) \<noteq> None \<longrightarrow>
          r_ended_ms (s_run t) = r_ended_ms (s_run s) \<and> r_outcome (s_run t) = r_outcome (s_run s)
          \<and> r_state (s_run t) = r_state (s_run s))"

definition grows :: "db \<Rightarrow> db \<Rightarrow> bool" where
  "grows r r' \<longleftrightarrow> (\<forall>i s. stored r i s \<longrightarrow> (\<exists>t. stored r' i t \<and> evolves s t))"

definition extends :: "db \<Rightarrow> db \<Rightarrow> bool" where
  "extends r r' \<longleftrightarrow> (\<forall>i s. stored r i s \<longrightarrow> stored r' i s)"

lemma evolves_refl [simp]: "evolves s s"
  by (simp add: evolves_def)

lemma evolves_trans: "evolves s t \<Longrightarrow> evolves t u \<Longrightarrow> evolves s u"
  by (auto simp: evolves_def)

lemma grows_refl [simp]: "grows r r"
  by (auto simp: grows_def)

lemma grows_trans: "grows r s \<Longrightarrow> grows s t \<Longrightarrow> grows r t"
  unfolding grows_def by (meson evolves_trans)

lemma extends_grows: "extends r r' \<Longrightarrow> grows r r'"
  unfolding grows_def extends_def using evolves_refl by blast

lemma extends_trans: "extends r s \<Longrightarrow> extends s t \<Longrightarrow> extends r t"
  unfolding extends_def by blast

lemma good_index: "good r \<Longrightarrow> index_ok r"
  by (simp add: good_def)

lemma good_wf: "good r \<Longrightarrow> stored r i s \<Longrightarrow> wf_run s"
  by (auto simp: good_def)

lemma good_id: "good r \<Longrightarrow> stored r i s \<Longrightarrow> s_id s = i"
  using good_index stored_id by blast

lemma good_readable: "good r \<Longrightarrow> all_readable r"
  unfolding all_readable_def readable_def
  by (auto split: option.split) (metis good_def index_ok_def runs_ok_def stored_def wf_run_def)

section \<open>Programs\<close>

text \<open>
  \<open>adds m\<close>: the program keeps the invariant and every stored run row as it is; \<open>advances m\<close>: it keeps the
  invariant and the stored runs evolve; \<open>advances_from i s m\<close>: so it does where \<open>s\<close> is the row of \<open>i\<close>.
\<close>

definition adds :: "'a op \<Rightarrow> bool" where
  "adds m \<longleftrightarrow> (\<forall>r a r'. good r \<longrightarrow> commits m r a r' \<longrightarrow> good r' \<and> extends r r')"

definition advances :: "'a op \<Rightarrow> bool" where
  "advances m \<longleftrightarrow> (\<forall>r a r'. good r \<longrightarrow> commits m r a r' \<longrightarrow> good r' \<and> grows r r')"

definition advances_from :: "string \<Rightarrow> stored_run \<Rightarrow> 'a op \<Rightarrow> bool" where
  "advances_from i s m \<longleftrightarrow>
     (\<forall>r a r'. good r \<longrightarrow> stored r i s \<longrightarrow> commits m r a r' \<longrightarrow> good r' \<and> grows r r')"

text \<open>\<open>yields m Q\<close>: every value the program returns satisfies \<open>Q\<close>.\<close>

definition yields :: "'a op \<Rightarrow> ('a \<Rightarrow> bool) \<Rightarrow> bool" where
  "yields m Q \<longleftrightarrow> (\<forall>r a r'. commits m r a r' \<longrightarrow> Q a)"

lemma advancesD: "advances m \<Longrightarrow> good r \<Longrightarrow> commits m r a r' \<Longrightarrow> good r' \<and> grows r r'"
  unfolding advances_def by blast

lemma adds_advances: "adds m \<Longrightarrow> advances m"
  unfolding adds_def advances_def using extends_grows by blast

lemma adds_bind: "adds m \<Longrightarrow> (\<And>a. adds (g a)) \<Longrightarrow> adds (bind m g)"
  unfolding adds_def commits_bind by (meson extends_trans)

lemma advances_bind: "advances m \<Longrightarrow> (\<And>a. advances (g a)) \<Longrightarrow> advances (bind m g)"
  unfolding advances_def commits_bind by (meson grows_trans)

lemma from_advances: "advances m \<Longrightarrow> advances_from i s m"
  unfolding advances_def advances_from_def by blast

lemma from_bind: "adds m \<Longrightarrow> (\<And>a. advances_from i s (g a)) \<Longrightarrow> advances_from i s (bind m g)"
  unfolding adds_def advances_from_def commits_bind by (meson extends_def extends_grows grows_trans)

lemma from_bind_yields:
  "adds m \<Longrightarrow> yields m Q \<Longrightarrow> (\<And>a. Q a \<Longrightarrow> advances_from i s (g a)) \<Longrightarrow> advances_from i s (bind m g)"
  unfolding adds_def advances_from_def commits_bind yields_def by (meson extends_def extends_grows grows_trans)

lemma side_adds: "writes_in side_key m \<Longrightarrow> adds m"
proof -
  assume w: "writes_in side_key m"
  have run: "bt_get r' (''run'', i) = bt_get r (''run'', i)" if "commits m r a r'" for r a r' i
    using writes_in_frame [OF w that] by (simp add: side_key_def)
  show "adds m"
    unfolding adds_def good_def extends_def stored_def
    using run keepsD [OF side_writes_keep_index [OF w]] by (metis (no_types, lifting))
qed

lemma reads_adds: "reads_only m \<Longrightarrow> adds m"
  by (rule side_adds) (erule writes_in_mono, simp)

section \<open>Storing a run\<close>

lemma store_run_evolves:
  assumes "good r" and "stored r i s" and "evolves s s'" and "wf_run s'" and "commits (store_run s') r a r'"
  shows "good r'" and "grows r r'" and "stored r' i s'"
proof -
  have i: "s_id s' = i" using good_id [OF assms(1,2)] assms(3) by (simp add: evolves_def)
  have st: "stored r' j t \<longleftrightarrow> (if j = i then t = s' else stored r j t)" for j t
    using stored_store_run [OF assms(5)] i by simp
  have "index_ok r'" using keepsD [OF store_run_keeps_index good_index [OF assms(1)] assms(5)] .
  then show "good r'" using assms(1,4) st by (auto simp: good_def)
  show "stored r' i s'" using st by simp
  show "grows r r'"
    unfolding grows_def
  proof (intro allI impI)
    fix j t assume "stored r j t"
    then show "\<exists>u. stored r' j u \<and> evolves t u"
      using st [of j] assms(2,3) stored_unique [of r i s t] by (cases "j = i") auto
  qed
qed

lemma store_run_new:
  assumes "good r" and "bt_get r (''run'', s_id s') = None" and "wf_run s'" and "commits (store_run s') r a r'"
  shows "good r' \<and> extends r r' \<and> stored r' (s_id s') s'"
proof -
  have st: "stored r' j t \<longleftrightarrow> (if j = s_id s' then t = s' else stored r j t)" for j t
    using stored_store_run [OF assms(4)] by simp
  have "index_ok r'" using keepsD [OF store_run_keeps_index good_index [OF assms(1)] assms(4)] .
  then have "good r'" using assms(1,3) st by (auto simp: good_def)
  moreover have "extends r r'" using st assms(2) by (auto simp: extends_def stored_def)
  ultimately show ?thesis using st by simp
qed

lemma from_store:
  "evolves s s' \<Longrightarrow> (wf_run s \<Longrightarrow> wf_run s') \<Longrightarrow> advances_from i s (store_run s')"
  unfolding advances_from_def by (metis good_wf store_run_evolves(1,2))

lemma from_store_bind:
  "evolves s s' \<Longrightarrow> (wf_run s \<Longrightarrow> wf_run s') \<Longrightarrow> (\<And>a. advances_from i s' (g a)) \<Longrightarrow>
     advances_from i s (bind (store_run s') g)"
  unfolding advances_from_def commits_bind
  by (metis good_wf grows_trans store_run_evolves)

section \<open>Loading a run\<close>

lemma load_advances:
  "(\<And>s. i = s_id s \<Longrightarrow> wf_run s \<Longrightarrow> advances_from i s (g s)) \<Longrightarrow> advances (bind (load_run i) g)"
  unfolding advances_def advances_from_def commits_bind commits_load_run
  by (metis good_id good_wf stored_def)

lemma authority_advances:
  "(\<And>s. f_run_id f = s_id s \<Longrightarrow> wf_run s \<Longrightarrow> holds_lease s f now skew \<Longrightarrow> advances_from (f_run_id f) s (g s)) \<Longrightarrow>
     advances (bind (authority f now skew) g)"
  unfolding advances_def advances_from_def commits_bind commits_authority
  by (metis good_id good_wf)

lemma checked_advances:
  "(\<And>s. f_run_id f = s_id s \<Longrightarrow> wf_run s \<Longrightarrow> holds_lease s f now skew \<Longrightarrow> r_held (s_run s) = None \<Longrightarrow>
      advances_from (f_run_id f) s (g s)) \<Longrightarrow>
     advances (bind (checked f now skew) g)"
  unfolding advances_def advances_from_def commits_bind
  by (metis commits_checked good_id good_wf)

lemma find_advances:
  "advances (g None) \<Longrightarrow> (\<And>s. s_id s = i \<Longrightarrow> wf_run s \<Longrightarrow> advances_from i s (g (Some s))) \<Longrightarrow>
     advances (bind (find_run i) g)"
proof -
  assume none: "advances (g None)"
    and some: "\<And>s. s_id s = i \<Longrightarrow> wf_run s \<Longrightarrow> advances_from i s (g (Some s))"
  show "advances (bind (find_run i) g)"
    unfolding advances_def
  proof (intro allI impI)
    fix r a r' assume g: "good r" and c: "commits (bind (find_run i) g) r a r'"
    show "good r' \<and> grows r r'"
    proof (cases "bt_get r (''run'', i)")
      case None
      then have "commits (g None) r a r'" using c by (auto simp: commits_find_run)
      then show ?thesis using advancesD [OF none g] by blast
    next
      case (Some v)
      then obtain s where s: "stored r i s" "commits (g (Some s)) r a r'"
        using c by (auto simp: commits_find_run stored_def)
      then show ?thesis
        using some [OF good_id [OF g s(1)] good_wf [OF g s(1)]] g unfolding advances_from_def by blast
    qed
  qed
qed

end
