(* ===== verification/Store_Evolution.thy ===== *)
theory Store_Evolution
  imports Run_Evolution
begin

text \<open>
  Every operation of the store keeps the invariant \<open>good\<close> and lets stored runs only evolve. The proofs follow
  the shape of the operations: side writes keep every run row, a loaded row is stored back evolved, a new row
  is stored under a free id.
\<close>

section \<open>Side writes\<close>

lemma side_mailbox [simp]:
  "writes_in side_key (copy i n)"
  "writes_in side_key (push s e)"
  "writes_in side_key (consume s n e k)"
  "writes_in side_key (refresh_mailbox s)"
  unfolding copy_def push_def consume_def refresh_mailbox_def Let_def
  by (auto intro!: writes_in_bind writes_in_pending_put split: option.split list.split)

lemma side_expire [simp]: "writes_in side_key (expire x s now)"
  unfolding expire_def by (auto intro!: writes_in_bind writes_in_fold_tx split: prod.split)

lemma side_pending_wanted [simp]: "writes_in K (pending_wanted s now)"
  unfolding pending_wanted_def Let_def live_cloud_def
  by (auto intro!: writes_in_bind writes_in_exists_tx split: option.split)

lemma side_accept [simp]: "writes_in side_key (accept s e now)"
  unfolding accept_def Let_def by (auto intro!: writes_in_bind split: option.split)

lemma side_catalog [simp]:
  "writes_in side_key (store_definitions name defs)"
  "writes_in side_key (remove_queue k)"
  unfolding store_definitions_def remove_queue_def by (auto intro!: writes_in_bind split: option.split)

lemma side_store_trigger [simp]: "writes_in side_key (store_trigger k before new)"
  unfolding store_trigger_def Let_def
  by (intro writes_in_bind writes_in_changes)
     (auto split: option.splits dest: trigger_indexes_side)

lemma side_arm [simp]: "writes_in side_key (arm defs ts)"
  unfolding arm_def by (auto intro!: writes_in_bind writes_in_for_each split: prod.split)

lemma side_breaker [simp]: "writes_in side_key (breaker x r fault success dflt now)"
  unfolding breaker_def Let_def by (auto intro!: writes_in_bind split: option.split)

lemma side_capacity [simp]: "writes_in K (capacity name limit)"
  unfolding capacity_def by (auto intro!: writes_in_bind)

lemma side_drained_refusal [simp]: "writes_in K (drained_refusal d a)"
  unfolding drained_refusal_def by (auto intro!: writes_in_bind)

lemma side_first_pending [simp]: "writes_in K (first_pending kinds)"
  unfolding first_pending_def by (auto intro!: writes_in_bind writes_in_fold_tx split: list.split prod.split)

section \<open>Rules for loops and branches\<close>

lemma adds_Ret [simp]: "adds (Ret a)" "adds (Fail e)"
  by (simp_all add: side_adds)

lemma adds_for_each: "(\<And>x. x \<in> set xs \<Longrightarrow> adds (f x)) \<Longrightarrow> adds (for_each xs f)"
  by (induction xs) (auto intro!: adds_bind)

lemma adds_fold_tx: "(\<And>x s. x \<in> set xs \<Longrightarrow> adds (f x s)) \<Longrightarrow> adds (fold_tx xs f s)"
  by (induction xs arbitrary: s) (auto intro!: adds_bind)

lemma advances_Ret [simp]: "advances (Ret a)" "advances (Fail e)"
  by (simp_all add: adds_advances)

lemma advances_for_each: "(\<And>x. x \<in> set xs \<Longrightarrow> advances (f x)) \<Longrightarrow> advances (for_each xs f)"
  by (induction xs) (auto intro!: advances_bind)

lemma adds_prims [simp]:
  "adds (get kind i)" "adds (scan kind lo hi lim)" "adds (ensure b e)" "adds (of_option e x)" "adds (of_sum y)"
  "adds (get_as dec kind i)" "adds (find_run i)" "adds (load_run i)" "adds (indexed_runs kind lo hi lim)"
  "adds (load_definitions name)" "adds (queued k)" "adds is_stopped" "adds running" "adds (admitted a now j)"
  "adds (authority f now skew)" "adds (checked f now skew)" "adds (pending_wanted s now)" "adds (capacity name limit)"
  "adds (drained_refusal d a)" "adds (first_pending kinds)"
  by (simp_all add: reads_adds)

lemma adds_side [simp]:
  "side_key (kind, i) \<Longrightarrow> adds (put kind i v)" "side_key (kind, i) \<Longrightarrow> adds (delete kind i)"
  "adds (copy j n)" "adds (push s e)" "adds (consume s n e k)" "adds (refresh_mailbox s)" "adds (expire x s now)"
  "adds (accept s e now)" "adds (store_definitions name defs)" "adds (remove_queue k)"
  "adds (store_trigger k before new)" "adds (arm defs ts)" "adds (breaker x r fault success dflt now)"
  by (simp_all add: side_adds)

lemmas advances_prims [simp] = adds_prims [THEN adds_advances] adds_side [THEN adds_advances]

lemma yields_bind: "(\<And>a. yields (g a) Q) \<Longrightarrow> yields (bind m g) Q"
  by (auto simp: yields_def)

lemma yields_bind_from: "yields m P \<Longrightarrow> (\<And>a. P a \<Longrightarrow> yields (g a) Q) \<Longrightarrow> yields (bind m g) Q"
  unfolding yields_def commits_bind by blast

lemma yields_Ret [simp]: "yields (Ret a) Q \<longleftrightarrow> Q a" "yields (Fail e) Q"
  by (auto simp: yields_def)

lemma yields_fold_tx:
  "P s \<Longrightarrow> (\<And>x s. x \<in> set xs \<Longrightarrow> P s \<Longrightarrow> yields (f x s) P) \<Longrightarrow> yields (fold_tx xs f s) P"
  by (induction xs arbitrary: s) (auto intro!: yields_bind_from)

section \<open>Mailbox changes of a row\<close>

text \<open>A row that only its mailbox and its wake-up changed.\<close>

definition mail_change :: "stored_run \<Rightarrow> stored_run \<Rightarrow> bool" where
  "mail_change s t \<longleftrightarrow> s_version t = s_version s \<and> s_digest t = s_digest s
     \<and> (\<exists>w. s_run t = (s_run s)\<lparr>r_wake_at_ms := w\<rparr>)"

lemma mail_changeI [simp]: "s_version t = s_version s \<Longrightarrow> s_digest t = s_digest s \<Longrightarrow> s_run t = s_run s \<Longrightarrow> mail_change s t"
  unfolding mail_change_def by (metis saved_run.surjective saved_run.update_convs(6))

lemma mail_change_wake [simp]: "mail_change s (s\<lparr>s_run := (s_run s)\<lparr>r_wake_at_ms := w\<rparr>\<rparr>)"
  by (auto simp: mail_change_def)

lemma mail_change_trans: "mail_change s t \<Longrightarrow> mail_change t u \<Longrightarrow> mail_change s u"
  by (auto simp: mail_change_def)

lemma mail_change_evolves: "mail_change s t \<Longrightarrow> evolves s t"
  by (auto simp: mail_change_def evolves_def)

lemma mail_change_wf: "mail_change s t \<Longrightarrow> wf_run s \<Longrightarrow> wf_run t"
  by (auto simp: mail_change_def wf_run_def)

lemma mail_change_id: "mail_change s t \<Longrightarrow> s_id t = s_id s"
  by (auto simp: mail_change_def)

lemma yields_push: "mail_change s0 s \<Longrightarrow> yields (push s e) (mail_change s0)"
  unfolding push_def Let_def
  by (intro yields_bind) (auto elim: mail_change_trans)

lemma yields_consume: "mail_change s0 s \<Longrightarrow> yields (consume s n e k) (mail_change s0)"
  unfolding consume_def Let_def
  by (intro yields_bind) (auto elim: mail_change_trans)

lemma yields_refresh_mailbox: "mail_change s0 s \<Longrightarrow> yields (refresh_mailbox s) (mail_change s0)"
  unfolding refresh_mailbox_def
  by (intro yields_bind) (auto simp: yields_def elim: mail_change_trans)

lemma yields_expire: "yields (expire x s now) (\<lambda>(n, t). mail_change s t)"
proof -
  have "yields (fold_tx due (\<lambda>(_, v) t.
          bind (of_option Decode (expiry_pair v)) (\<lambda>(_, n).
          bind (copy (s_id t) n) (\<lambda>e.
          bind (of_sum (envelope_of x e)) (\<lambda>env.
          bind (put (records_of (s_id t)) (expired_key n) (RRecord (Expired env))) (\<lambda>_.
          consume t n e (expired_key n)))))) s) (mail_change s)" for due
    by (rule yields_fold_tx) (auto intro!: yields_bind yields_consume split: prod.split)
  then show ?thesis
    unfolding expire_def
    by (auto intro!: yields_bind [of _ _ "scan _ _ _ _"] yields_bind_from [where P = "mail_change s"]
        yields_bind_from [OF yields_refresh_mailbox])
qed

lemma yields_accept: "yields (accept s e now) (\<lambda>(b, t). mail_change s t)"
  unfolding accept_def
  by (rule yields_bind)
     (auto simp: Let_def intro!: yields_bind_from [OF yields_push [of s]])

lemma yields_forget: "yields (forget s) (\<lambda>(n, t). mail_change s t)"
  unfolding forget_def Let_def by (intro yields_bind) simp

lemma close_run: "s_run (close s ts) = s_run s \<and> s_version (close s ts) = s_version s \<and> s_digest (close s ts) = s_digest s"
proof (induction ts arbitrary: s)
  case (Cons t ts)
  then show ?case by (simp add: close_def)
qed (simp add: close_def)


lemma close_mail_change [simp]: "mail_change s (close s ts)"
  by (simp add: close_run)

lemma from_mail: "mail_change s t \<Longrightarrow> advances_from i s (store_run t)"
  by (blast intro: from_store mail_change_evolves mail_change_wf)

lemma from_Ret [simp]: "advances_from i s (Ret a)" "advances_from i s (Fail e)"
  by (simp_all add: from_advances)

section \<open>Events\<close>

lemma advances_notify: "advances (notify parent t data now)"
  unfolding notify_def Let_def
proof (rule load_advances)
  fix s
  let ?e = "\<lparr>e_type = t, e_data = data, e_delivered_at_ms = now, e_consumed_key = None, e_envelope = None,
    e_delivered = False, e_expires_at_ms = None\<rparr>"
  let ?s = "if wakes s t False then s\<lparr>s_run := (s_run s)\<lparr>r_wake_at_ms := now\<rparr>\<rparr> else s"
  have "advances_from parent s (bind (push ?s ?e) store_run)"
    by (rule from_bind_yields [OF side_adds yields_push [of s]])
       (auto intro: from_mail)
  then show "advances_from parent s (if r_ended_ms (s_run s) \<noteq> None \<or> \<not> bt_has (s_awaits s) t \<or> bt_has (s_pending s) t
      then Ret () else bind (push ?s ?e) store_run)"
    by simp
qed

lemma advances_close_waiting: "advances (close_waiting parent i)"
  unfolding close_waiting_def Let_def by (rule load_advances) (auto intro!: from_mail)

lemma advances_lifecycle: "advances (lifecycle i status now)"
  unfolding lifecycle_def Let_def
  by (auto intro!: advances_bind advances_notify advances_close_waiting split: option.split status.split)

text \<open>Loops over distinct stored runs that each change their own row.\<close>

definition advances_only :: "string \<Rightarrow> stored_run \<Rightarrow> 'a op \<Rightarrow> bool" where
  "advances_only i s m \<longleftrightarrow> (\<forall>r a r'. good r \<longrightarrow> stored r i s \<longrightarrow> commits m r a r' \<longrightarrow>
     good r' \<and> grows r r' \<and> (\<forall>j t. j \<noteq> i \<longrightarrow> stored r j t \<longrightarrow> stored r' j t))"

lemma only_adds: "adds m \<Longrightarrow> advances_only i s m"
  unfolding adds_def advances_only_def using extends_grows extends_def by blast

lemma only_bind_yields:
  "adds m \<Longrightarrow> yields m Q \<Longrightarrow> (\<And>a. Q a \<Longrightarrow> advances_only i s (g a)) \<Longrightarrow> advances_only i s (bind m g)"
  unfolding adds_def advances_only_def commits_bind yields_def
  by (meson extends_def extends_grows grows_trans)

lemma only_store_bind:
  assumes "evolves s s'" and "wf_run s \<Longrightarrow> wf_run s'" and "\<And>a. adds (g a)"
  shows "advances_only i s (bind (store_run s') g)"
  unfolding advances_only_def
proof (intro allI impI)
  fix r a r'
  assume g: "good r" and s: "stored r i s" and c: "commits (bind (store_run s') g) r a r'"
  then obtain r1 where r1: "commits (store_run s') r () r1" "commits (g ()) r1 a r'" by auto
  note st = store_run_evolves [OF g s assms(1) assms(2) [OF good_wf [OF g s]] r1(1)]
  have ext: "good r' \<and> extends r1 r'" using assms(3) [of "()"] st(1) r1(2) unfolding adds_def by blast
  have "stored r1 j t" if "j \<noteq> i" "stored r j t" for j t
    using stored_store_run [OF r1(1), of j t] that good_id [OF g s] assms(1) by (auto simp: evolves_def)
  then show "good r' \<and> grows r r' \<and> (\<forall>j t. j \<noteq> i \<longrightarrow> stored r j t \<longrightarrow> stored r' j t)"
    using ext st(2) extends_grows grows_trans unfolding extends_def by blast
qed

lemma fold_runs_advance:
  assumes "\<And>s acc. advances_only (s_id s) s (f s acc)" and "distinct (map s_id cs)"
    and "\<And>s. s \<in> set cs \<Longrightarrow> stored r (s_id s) s" and "good r" and "commits (fold_tx cs f acc) r a r'"
  shows "good r' \<and> grows r r'"
  using assms(2-)
proof (induction cs arbitrary: r acc)
  case (Cons s cs)
  obtain acc1 r1 where r1: "commits (f s acc) r acc1 r1" "commits (fold_tx cs f acc1) r1 a r'"
    using Cons.prems(4) by auto
  have "stored r (s_id s) s" using Cons.prems(2) by simp
  then have "good r1 \<and> grows r r1 \<and> (\<forall>j t. j \<noteq> s_id s \<longrightarrow> stored r j t \<longrightarrow> stored r1 j t)"
    using assms(1) [of s acc, unfolded advances_only_def] Cons.prems(3) r1(1) by blast
  then have s: "good r1" "grows r r1" "\<And>j t. j \<noteq> s_id s \<Longrightarrow> stored r j t \<Longrightarrow> stored r1 j t"
    by blast+
  have "stored r1 (s_id t) t" if "t \<in> set cs" for t
    using s(3) [of "s_id t" t] Cons.prems(1,2) that by (auto simp: image_iff)
  then have "good r' \<and> grows r1 r'" using Cons.IH [OF _ _ s(1) r1(2)] Cons.prems(1) by auto
  then show ?case using grows_trans s(2) by blast
qed simp

text \<open>A read that answers with a stored run.\<close>

lemma bind_found:
  assumes m: "\<And>r c r'. good r \<Longrightarrow> commits m r c r' \<Longrightarrow> r' = r \<and> (\<forall>s. c = Some s \<longrightarrow> stored r (s_id s) s)"
    and "advances (g None)" and "\<And>s. wf_run s \<Longrightarrow> advances_from (s_id s) s (g (Some s))"
  shows "advances (bind m g)"
  unfolding advances_def
proof (intro allI impI)
  fix r a r'
  assume g: "good r" and c: "commits (bind m g) r a r'"
  obtain found where found: "commits m r found r" "commits (g found) r a r'"
    using c m [OF g] by (auto simp: commits_bind)
  show "good r' \<and> grows r r'"
  proof (cases found)
    case None
    then show ?thesis using assms(2) g found(2) unfolding advances_def by blast
  next
    case (Some s)
    then have s: "stored r (s_id s) s" using m [OF g found(1)] by simp
    then show ?thesis
      using assms(3) [OF good_wf [OF g s]] g found(2) Some unfolding advances_from_def by blast
  qed
qed

lemma indexed_runs_stored:
  assumes "good r" and "commits (indexed_runs kind lo hi lim) r cs r'"
  shows "r' = r \<and> (\<forall>s \<in> set cs. stored r (s_id s) s)"
proof -
  note c = commits_indexed_runs [OF assms(2)]
  have "\<exists>i. stored r i s" if "s \<in> set cs" for s
    using c that by (auto simp: list_all2_conv_all_nth in_set_conv_nth)
  then show ?thesis using c good_id [OF assms(1)] by blast
qed

lemma last_of_set: "last_of xs = Some x \<Longrightarrow> x \<in> set xs"
  by (auto simp: last_of_def split: if_splits)

lemma found_recipient:
  assumes "good r" and "commits (find_recipient target ident t) r c r'"
  shows "r' = r \<and> (\<forall>s. c = Some s \<longrightarrow> stored r (s_id s) s)"
proof (cases target)
  case None
  then obtain firsts r1 where f: "commits (indexed_runs (partition ''delivered'' ident) [] None (Some 1)) r firsts r1"
    and rest: "c = last_of firsts \<and> r' = r1 \<or>
      (\<exists>ws. commits (indexed_runs (partition ''wait'' t) [] None (Some 1)) r1 ws r' \<and> c = last_of ws)"
    using assms(2) unfolding find_recipient_def by (auto simp del: One_nat_def)
  have r1: "r1 = r" "\<forall>s \<in> set firsts. stored r (s_id s) s" using indexed_runs_stored [OF assms(1) f] by simp_all
  from rest show ?thesis
  proof (elim disjE exE conjE)
    assume "c = last_of firsts" "r' = r1"
    then show ?thesis using r1 by (auto dest: last_of_set)
  next
    fix ws
    assume ws: "commits (indexed_runs (partition ''wait'' t) [] None (Some 1)) r1 ws r'" and "c = last_of ws"
    then show ?thesis using indexed_runs_stored [OF assms(1), of _ _ _ _ ws r'] r1(1) by (auto dest: last_of_set)
  qed
next
  case (Some i)
  then show ?thesis
    using assms(2) good_id [OF assms(1)]
    by (auto simp: find_recipient_def commits_find_run stored_def split: option.splits)
qed

lemma advances_deliver: "advances (deliver event target now pol)"
proof -
  have step: "advances_from (s_id s) s (bind (accept s e now) (\<lambda>(taken, s').
      bind (if taken then store_run s' else Ret ()) (\<lambda>_. Ret (Some (s_id s)))))" for s e
    by (rule from_bind_yields [OF _ yields_accept])
       (auto intro!: from_store_bind mail_change_evolves elim: mail_change_wf)
  have body: "advances (bind (find_recipient target ident t) (\<lambda>candidate. case candidate of None \<Rightarrow> Ret None
      | Some s \<Rightarrow> bind (if r_ended_ms (s_run s) \<noteq> None
          then bind (get (identities_of (s_id s)) (component ident)) (\<lambda>v. Ret (v = None)) else Ret False)
        (\<lambda>gone. if gone then Ret None else bind (accept s e now) (\<lambda>(taken, s').
            bind (if taken then store_run s' else Ret ()) (\<lambda>_. Ret (Some (s_id s)))))))" for ident t e
    by (rule bind_found [OF found_recipient]) (auto intro!: from_bind adds_bind step)
  show ?thesis
    unfolding deliver_def Let_def by (rule advances_bind, simp, rule advances_bind, simp, rule body)
qed

lemma merge_runs_simps:
  "merge_runs xs [] = xs"
  "merge_runs xs (y # ys) = merge_runs (if list_ex (\<lambda>t. s_id t = s_id y) xs then xs else xs @ [y]) ys"
  by (simp_all add: merge_runs_def)

lemma merge_runs_ids:
  "distinct (map s_id xs) \<Longrightarrow> distinct (map s_id (merge_runs xs ys)) \<and> set (merge_runs xs ys) \<subseteq> set xs \<union> set ys"
proof (induction ys arbitrary: xs)
  case (Cons y ys)
  then show ?case
  proof (cases "s_id y \<in> s_id ` set xs")
    case True
    then show ?thesis using Cons.IH [OF Cons.prems] by (auto simp: merge_runs_simps list_ex_iff)
  next
    case False
    then have "distinct (map s_id (xs @ [y]))" using Cons.prems by simp
    moreover have "\<not> list_ex (\<lambda>t. s_id t = s_id y) xs" using False by (auto simp: list_ex_iff image_iff)
    ultimately show ?thesis using Cons.IH [of "xs @ [y]"] by (auto simp: merge_runs_simps)
  qed
qed (simp add: merge_runs_simps)

lemma found_subscribers:
  assumes "good r" and "commits (find_subscribers target t) r cs r'"
  shows "r' = r \<and> distinct (map s_id cs) \<and> (\<forall>s \<in> set cs. stored r (s_id s) s)"
proof (cases target)
  case None
  then obtain xs ys r1 where "commits (indexed_runs (partition ''subs'' t) [] None None) r xs r1"
    and "commits (indexed_runs (partition ''subs'' ''*'') [] None None) r1 ys r'"
    and c: "cs = sort_key s_id (merge_runs xs ys)"
    using assms(2) by (auto simp: find_subscribers_def)
  moreover have "r1 = r" "r' = r1" using calculation commits_indexed_runs by blast+
  ultimately have xs: "commits (indexed_runs (partition ''subs'' t) [] None None) r xs r"
    and ys: "commits (indexed_runs (partition ''subs'' ''*'') [] None None) r ys r"
    and cs: "cs = sort_key s_id (merge_runs xs ys)" "r' = r" by simp_all
  have "distinct (map s_id xs)" using subs.scanned_distinct [OF good_index [OF assms(1)] xs] .
  note m = merge_runs_ids [OF this, of ys]
  have "distinct (map s_id cs)"
    unfolding cs using m by (simp add: distinct_map)
  then show ?thesis
    using cs m indexed_runs_stored [OF assms(1) xs] indexed_runs_stored [OF assms(1) ys] by auto
next
  case (Some i)
  then show ?thesis
    using assms by (auto simp: find_subscribers_def commits_find_run stored_def [symmetric] split: option.splits
        dest: good_id)
qed

lemma bind_runs_advance:
  assumes m: "\<And>r cs r'. good r \<Longrightarrow> commits m r cs r' \<Longrightarrow> r' = r \<and> distinct (map s_id cs) \<and> (\<forall>s \<in> set cs. stored r (s_id s) s)"
    and "\<And>s acc. advances_only (s_id s) s (f s acc)"
  shows "advances (bind m (\<lambda>cs. fold_tx cs f acc))"
  unfolding advances_def commits_bind
proof (intro allI impI, elim exE conjE)
  fix r a r' cs r1
  assume g: "good r" and "commits m r cs r1" "commits (fold_tx cs f acc) r1 a r'"
  moreover have "r1 = r \<and> distinct (map s_id cs) \<and> (\<forall>s \<in> set cs. stored r (s_id s) s)"
    using m [OF g] calculation(2) .
  ultimately show "good r' \<and> grows r r'"
    using fold_runs_advance [of f cs r acc a r', OF assms(2)] by blast
qed

lemma advances_publish: "advances (publish event target now pol)"
proof -
  have body: "advances_only (s_id s) s (if r_ended_ms (s_run s) = None \<and> (target \<noteq> None \<or> subscribed s e)
      then bind (accept s e now) (\<lambda>(taken, s').
        if taken then bind (store_run s') (\<lambda>_. Ret (rs @ [s_id s'])) else Ret rs)
      else Ret rs)" for s e rs
    by (auto simp: only_adds intro!: only_bind_yields [OF _ yields_accept] only_store_bind mail_change_evolves
        elim: mail_change_wf)
  show ?thesis
    unfolding publish_def Let_def
    by (rule advances_bind, simp, rule bind_runs_advance, rule found_subscribers, assumption+, rule body)
qed

end
