(* ===== verification/Store_Steps.thy ===== *)
theory Store_Steps
  imports Store_Evolution
begin

text \<open>
  The operations that admit, claim, drive and end runs: each keeps the invariant and lets stored runs only
  evolve. The step relation \<open>store_step\<close> collects all operations of the store.
\<close>

lemma adds_case_option: "adds m \<Longrightarrow> (\<And>a. adds (g a)) \<Longrightarrow> adds (case x of None \<Rightarrow> m | Some a \<Rightarrow> g a)"
  by (simp split: option.split)

lemma advances_if: "advances m \<Longrightarrow> advances m' \<Longrightarrow> advances (if b then m else m')"
  by simp

section \<open>New runs\<close>

lemma wf_initial_run [simp]: "wf_run (initial_run a now epoch dig)"
  by (simp add: initial_run_def wf_run_def terminal_state_def)

lemma initial_run_id [simp]: "s_id (initial_run a now epoch dig) = a_id a"
  by (simp add: initial_run_def)

lemma commits_admitted:
  assumes "commits (admitted a now j) r (Some t) r'"
  obtains epoch dig where "r' = r" "bt_get r (''run'', a_id a) = None" "t = initial_run a now epoch dig"
  using assms
  by (auto simp: admitted_def commits_find_run Let_def split: option.splits dest!: commits_running)

lemma commits_admitted_None: "commits (admitted a now j) r None r' \<Longrightarrow> r' = r"
  using reads_only_rows [of "admitted a now j"] by simp

lemma insert_run_new:
  assumes "good r" and "commits (insert_run a now) r new r'"
  shows "good r' \<and> extends r r' \<and> (new \<longrightarrow> bt_get r (''run'', a_id a) = None)"
proof (cases new)
  case True
  then obtain t where "commits (admitted a now Root) r (Some t) r" "commits (store_run t) r () r'"
    using assms(2) reads_only_rows [of "admitted a now Root"] by (fastforce simp: insert_run_def)
  moreover obtain epoch dig where "bt_get r (''run'', a_id a) = None" "t = initial_run a now epoch dig"
    using calculation(1) by (rule commits_admitted)
  ultimately show ?thesis
    using store_run_new [OF assms(1), of t "()" r'] by simp
next
  case False
  then have "r' = r"
    using assms(2) by (auto simp: insert_run_def dest: commits_admitted_None)
  then show ?thesis using assms(1) False by (simp add: extends_def)
qed

lemma adds_insert_run [simp]: "adds (insert_run a now)"
  unfolding adds_def using insert_run_new by blast

lemma adds_refuse [simp]: "adds (refuse x rf now)"
  unfolding adds_def
proof (intro allI impI)
  fix r u r'
  assume g: "good r" and c: "commits (refuse x rf now) r u r'"
  obtain s r1 where s: "commits (admitted (rf_admission rf) now Root) r s r1"
    using c by (auto simp: refuse_def)
  have "r1 = r" using reads_only_rows [OF _ s] by simp
  show "good r' \<and> extends r r'"
  proof (cases s)
    case None
    then have "r' = r" using c s \<open>r1 = r\<close> by (auto simp: refuse_def dest: commits_unique)
    then show ?thesis using g by (simp add: extends_def)
  next
    case (Some t)
    let ?t = "t\<lparr>s_run := (s_run t)\<lparr>r_state := StFailed, r_outcome := Some (Faulted (rf_error rf)), r_ended_ms := Some now\<rparr>\<rparr>"
    obtain r2 where r2: "commits (store_run ?t) r () r2"
        "commits (breaker x (s_run ?t) (Some (rf_error rf)) False (rf_breaker_threshold rf) now) r2 u r'"
      using c s \<open>r1 = r\<close> Some by (auto simp: refuse_def Let_def dest: commits_unique)
    obtain epoch dig where t: "bt_get r (''run'', a_id (rf_admission rf)) = None" "t = initial_run (rf_admission rf) now epoch dig"
      using s Some by (auto elim!: commits_admitted)
    have "wf_run ?t" "s_id ?t = a_id (rf_admission rf)"
      by (simp_all add: t initial_run_def wf_run_def terminal_state_def)
    then have "good r2 \<and> extends r r2" using store_run_new [OF g _ _ r2(1)] t(1) by simp
    then show ?thesis
      using r2(2) adds_side(13) unfolding adds_def using extends_trans by blast
  qed
qed

lemma adds_admit_firing [simp]: "adds (admit_firing k a ra next now)"
  unfolding adds_def
proof (intro allI impI)
  fix r u r'
  assume g: "good r" and c: "commits (admit_firing k a ra next now) r u r'"
  let ?s = "\<lambda>s. s\<lparr>s_trigger := Some k, s_rearm := (case (ra, next) of (Some x, Some t) \<Rightarrow> Some (x, t) | _ \<Rightarrow> None)\<rparr>"
  obtain new r1 u1 r2 where r1: "commits (insert_run a now) r new r1"
    and mid: "commits (if new then bind (load_run (a_id a)) (\<lambda>s. store_run (?s s)) else Ret ()) r1 u1 r2"
    and last: "commits (put ''trigger_run'' k (RJson (String (a_id a))) :: unit op) r2 u r'"
    using c unfolding admit_firing_def commits_bind by (elim exE conjE) (rule that)
  note ins = insert_run_new [OF g r1]
  have "good r2 \<and> extends r r2"
  proof (cases new)
    case True
    then obtain s where s: "stored r1 (a_id a) s" "commits (store_run (?s s)) r1 () r2"
      using mid by (auto simp: stored_def)
    have "good r2" and st: "stored r2 (a_id a) (?s s)"
      using store_run_evolves [OF _ s(1) _ _ s(2)] ins good_wf [OF _ s(1)]
      by (auto simp: evolves_def wf_run_def)
    moreover have "stored r2 j t" if "stored r j t" for j t
      using that True ins stored_store_run [OF s(2), of j t] good_id [OF _ s(1)]
      by (auto simp: extends_def stored_def)
    ultimately show ?thesis by (simp add: extends_def)
  next
    case False
    then show ?thesis using mid ins by simp
  qed
  moreover have "adds (put ''trigger_run'' k (RJson (String (a_id a))) :: unit op)" by simp
  ultimately show "good r' \<and> extends r r'" using last extends_trans unfolding adds_def by blast
qed

section \<open>Queues\<close>

lemma adds_drain_slot [simp]: "adds (drain_slot x name now k)"
  unfolding drain_slot_def by (auto intro!: adds_bind split: option.split prod.split)

lemma adds_drain_queues [simp]: "adds (drain_queues x name now)"
  unfolding drain_queues_def by (auto intro!: adds_bind adds_for_each split: prod.split)

lemma adds_drain_marked [simp]: "adds (drain_marked x name now)"
  unfolding drain_marked_def by (auto intro!: adds_bind)

lemma adds_drain_pending [simp]: "adds (drain_pending x now limit)"
  unfolding drain_pending_def by (auto intro!: adds_bind adds_for_each split: prod.split)

lemma adds_admit [simp]: "adds (admit x a now)"
  unfolding admit_def by (auto intro!: adds_bind split: option.split)

section \<open>Claims and leases\<close>

lemma claim_run_evolves:
  assumes "claim_run s now owner = Inr (f, t)" and "wf_run s" and "r_ended_ms (s_run s) = None"
  shows "evolves s t \<and> wf_run t"
  using assms
  by (auto simp: claim_run_def Let_def evolves_def wf_run_def checked_add_u64_Some terminal_state_def split: option.splits)

lemma adds_start [simp]: "adds (start x a now owner)"
proof -
  have body: "adds (bind (admitted a now Root) (\<lambda>s. case s of None \<Rightarrow> Ret (Inr None)
      | Some t \<Rightarrow> bind (of_sum (claim_run t now owner)) (\<lambda>(f, t'). bind (store_run t') (\<lambda>_. Ret (Inr (Some f))))))"
    (is "adds ?m")
    unfolding adds_def
  proof (intro allI impI)
    fix r u r' assume g: "good r" and c: "commits ?m r u r'"
    then obtain s r1 where s: "commits (admitted a now Root) r s r1" by auto
    have "r1 = r" using reads_only_rows [OF _ s] by simp
    show "good r' \<and> extends r r'"
    proof (cases s)
      case None
      then have "r' = r" using c s \<open>r1 = r\<close> by (auto dest: commits_unique)
      then show ?thesis using g by (simp add: extends_def)
    next
      case (Some t)
      then obtain f t' where t': "claim_run t now owner = Inr (f, t')" "commits (store_run t') r () r'"
        using c s \<open>r1 = r\<close> by (auto dest: commits_unique)
      obtain epoch dig where t: "bt_get r (''run'', a_id a) = None" "t = initial_run a now epoch dig"
        using s Some by (auto elim!: commits_admitted)
      have "r_ended_ms (s_run t) = None" by (simp add: t initial_run_def)
      then have "evolves t t' \<and> wf_run t'" using claim_run_evolves [OF t'(1)] t(2) by simp
      then show ?thesis using store_run_new [OF g _ _ t'(2)] t by (auto simp: evolves_def)
    qed
  qed
  show ?thesis
    unfolding start_def by (rule adds_bind, simp, rule adds_bind, simp, rule adds_case_option, rule body, simp)
qed

lemma claimable_live: "wf_run s \<Longrightarrow> claimable (s_run s) now \<Longrightarrow> r_ended_ms (s_run s) = None"
  by (auto simp: wf_run_def claimable_def terminal_state_def split: if_splits run_state.splits)

lemma holds_lease_live: "wf_run s \<Longrightarrow> holds_lease s f now skew \<Longrightarrow> r_ended_ms (s_run s) = None"
  by (auto simp: wf_run_def holds_lease_def terminal_state_def)

lemma from_claim:
  assumes "wf_run s" and "r_ended_ms (s_run s) = None" and "\<And>f. adds (g f)"
  shows "advances_from i s (bind (of_sum (claim_run s now owner)) (\<lambda>(f, t). bind (store_run t) (\<lambda>_. g f)))"
proof (rule from_bind_yields)
  show "yields (of_sum (claim_run s now owner)) (\<lambda>(f, t). evolves s t \<and> wf_run t)"
    using claim_run_evolves [OF _ assms(1,2)] by (auto simp: yields_def)
qed (auto intro!: from_store_bind from_advances [OF adds_advances [OF assms(3)]])

lemma advances_claim_as: "advances (claim_as i now w owner)"
proof -
  have body: "advances (bind (find_run i) (\<lambda>found. case found of None \<Rightarrow> Ret None
      | Some s \<Rightarrow> if \<not> claimable (s_run s) now \<or> \<not> admits w (application_version (r_admission (s_run s))) then Ret None
        else bind (of_sum (claim_run s now owner)) (\<lambda>(f, s'). bind (store_run s') (\<lambda>_. Ret (Some f)))))"
    by (rule find_advances) (auto intro!: from_claim claimable_live)
  show ?thesis unfolding claim_as_def by (rule advances_bind, simp, rule advances_if, simp, rule body)
qed

lemma advances_renew: "advances (renew pol f now)"
proof -
  have body: "advances (bind (authority f now (skew_ms pol)) (\<lambda>s.
      let s' = s\<lparr>s_run := (s_run s)\<lparr>r_lease_until_ms := Some (sat_add now LEASE_MS)\<rparr>\<rparr> in
      bind (store_run s') (\<lambda>_. Ret (if r_held (s_run s') \<noteq> None then Inl (Held (s_id s')) else Inr ()))))"
    unfolding Let_def
    by (rule authority_advances, rule from_store_bind) (simp_all add: evolves_def wf_run_def)
  show ?thesis unfolding renew_def by (rule advances_bind, simp, rule body)
qed

lemma advances_release: "advances (release pol f now)"
  unfolding release_def
  by (rule authority_advances, rule from_store)
     (auto simp: evolves_def wf_run_def terminal_state_def holds_lease_def)

section \<open>Fenced steps\<close>

lemma advances_save_record: "advances (save_record x pol f k r now)"
  unfolding save_record_def Let_def
  by (rule advances_bind, simp, rule authority_advances, intro from_bind)
     (auto intro!: from_store simp: reads_adds evolves_def wf_run_def)

text \<open>A step that changes only what its run waits for.\<close>

lemma checked_mail:
  "(\<And>s. mail_change s (g s)) \<Longrightarrow> advances (bind (checked f now skew) (\<lambda>s. store_run (g s)))"
  by (rule checked_advances) (blast intro: from_mail)

lemma register_mail:
  "mail_change s (foldl (\<lambda>u t. u\<lparr>s_addressed_waits := bt_insert t () (s_addressed_waits u),
     s_awaits := bt_or_insert t now (s_awaits u)\<rparr>) s types)"
proof (induction types arbitrary: s)
  case (Cons t types)
  show ?case unfolding foldl.simps by (rule mail_change_trans [OF _ Cons.IH]) simp
qed simp

lemma advances_waits:
  "advances (register_wait pol f types now)" "advances (unregister_wait pol f k types now)"
  "advances (subscribe pol f k types now)" "advances (unsubscribe pol f k now)"
  unfolding register_wait_def unregister_wait_def subscribe_def unsubscribe_def
  by (rule checked_mail, simp add: register_mail close_run)+

lemma advances_describe_wait: "advances (describe_wait pol f k wait now)"
  unfolding describe_wait_def Let_def by (rule checked_advances) (auto intro!: from_mail)

lemma taken_run_mail: "mail_change s u \<Longrightarrow> mail_change s (taken_run u k types)"
  unfolding taken_run_def by (rule mail_change_trans, assumption) (simp add: close_run)

lemma from_mail_bind: "mail_change s t \<Longrightarrow> (\<And>a. advances_from i t (g a)) \<Longrightarrow> advances_from i s (bind (store_run t) g)"
  by (blast intro: from_store_bind mail_change_evolves mail_change_wf)

lemma from_take_copy:
  assumes "mail_change s s1"
  shows "advances_from i s (take_copy x i s1 n k types)"
  unfolding take_copy_def
proof (rule from_bind, simp, rule from_bind, simp)
  fix e :: stored_event and v
  let ?s2 = "case strip_prefix ''done:'' (e_type e) of None \<Rightarrow> s1
    | Some child \<Rightarrow> s1\<lparr>s_listeners := bt_remove (''child:'' @ child) (s_listeners s1)\<rparr>"
  have s2: "mail_change s ?s2" by (rule mail_change_trans [OF assms]) (simp split: option.split)
  show "advances_from i s (bind (consume ?s2 n e k) (\<lambda>s3.
      bind (if e_expires_at_ms e \<noteq> None then refresh_mailbox s3 else Ret s3) (\<lambda>s4.
      bind (put (records_of i) k (RRecord (Event v))) (\<lambda>_.
      bind (store_run (taken_run s4 k types)) (\<lambda>_. Ret v)))))"
    by (rule from_bind_yields [OF _ yields_consume [OF s2]], simp,
        rule from_bind_yields [where Q = "mail_change s"])
       (auto simp: yields_refresh_mailbox intro!: from_bind from_mail_bind taken_run_mail)
qed

lemma from_case_option:
  "advances_from i s m \<Longrightarrow> (\<And>a. advances_from i s (g a)) \<Longrightarrow> advances_from i s (case x of None \<Rightarrow> m | Some a \<Rightarrow> g a)"
  by (simp split: option.split)

lemma from_bind_Ret: "advances_from i s m \<Longrightarrow> advances_from i s (bind m (\<lambda>a. Ret (h a)))"
  unfolding advances_from_def commits_bind by auto

lemma advances_take_event: "advances (take_event x pol f k types now)"
  unfolding take_event_def Let_def
proof (rule checked_advances, rule from_bind, simp, rule from_case_option)
  fix s
  assume "f_run_id f = s_id s"
  show "advances_from (f_run_id f) s (bind (expire x s now) (\<lambda>(_, s1).
      bind (first_pending (map (pending_of (f_run_id f)) types @ (if ''*'' \<in> set types then [published_of (f_run_id f)] else [])))
        (\<lambda>candidate. case candidate of
           None \<Rightarrow> bind (store_run (s1\<lparr>s_listeners := bt_insert k types (s_listeners s1)\<rparr>)) (\<lambda>_. Ret None)
         | Some n \<Rightarrow> bind (take_copy x (f_run_id f) s1 n k types) (\<lambda>event. Ret (Some event)))))"
  proof (rule from_bind_yields [OF _ yields_expire], simp, clarify)
    fix s1 assume s1: "mail_change s s1"
    have "mail_change s (s1\<lparr>s_listeners := l\<rparr>)" for l by (rule mail_change_trans [OF s1]) simp
    then show "advances_from (f_run_id f) s
      (bind (first_pending (map (pending_of (f_run_id f)) types @ (if ''*'' \<in> set types then [published_of (f_run_id f)] else [])))
        (\<lambda>candidate. case candidate of
           None \<Rightarrow> bind (store_run (s1\<lparr>s_listeners := bt_insert k types (s_listeners s1)\<rparr>)) (\<lambda>_. Ret None)
         | Some n \<Rightarrow> bind (take_copy x (f_run_id f) s1 n k types) (\<lambda>event. Ret (Some event))))"
      by (intro from_bind adds_prims from_case_option from_bind_Ret from_take_copy [OF s1] from_mail)
  qed
next
  fix s v
  show "advances_from (f_run_id f) s (bind (of_option Decode (row_record v)) (\<lambda>r.
      case r of Event e \<Rightarrow> Ret (Some e) | _ \<Rightarrow> Fail (Message ''invalid event checkpoint'')))"
    by (rule from_bind) (simp_all split: journal_record.split)
qed

lemma from_adds [simp]: "adds m \<Longrightarrow> advances_from i s m"
  by (simp add: adds_advances from_advances)

lemma from_then: "advances_from i s m \<Longrightarrow> (\<And>a. advances (g a)) \<Longrightarrow> advances_from i s (bind m g)"
  unfolding advances_from_def advances_def commits_bind by (meson grows_trans)

lemma advances_spend: "advances (spend pol f k limit now)"
  unfolding spend_def refused_first_def Let_def
proof (rule checked_advances, rule from_bind, simp, rule from_case_option)
  fix s :: stored_run
  let ?kind = "records_of (f_run_id f)" and ?root = "case r_root (s_run s) of None \<Rightarrow> f_run_id f | Some i \<Rightarrow> i"
  show "advances_from (f_run_id f) s (bind (get_as row_u64 ''budget'' ?root) (\<lambda>b.
      bind (if (case b of None \<Rightarrow> 0 | Some n \<Rightarrow> n) < limit
            then put ''budget'' ?root (u64_row ((case b of None \<Rightarrow> 0 | Some n \<Rightarrow> n) + of_bool ((case b of None \<Rightarrow> 0 | Some n \<Rightarrow> n) < limit)))
            else Ret ()) (\<lambda>_.
      bind (if (case b of None \<Rightarrow> 0 | Some n \<Rightarrow> n) < limit then Ret None
            else bind (get ?kind EXCEEDED) (\<lambda>e. case e of
                None \<Rightarrow> bind (put ?kind EXCEEDED (RRecord (Exceeded k))) (\<lambda>_. Ret (Some k))
              | Some v \<Rightarrow> bind (of_option Decode (row_record v)) (\<lambda>r.
                  case r of Exceeded by \<Rightarrow> Ret (Some by) | _ \<Rightarrow> Fail (Message ''invalid first refusal record'')))) (\<lambda>first.
      bind (put ?kind k (RRecord (Budget ((case b of None \<Rightarrow> 0 | Some n \<Rightarrow> n) < limit)
              ((case b of None \<Rightarrow> 0 | Some n \<Rightarrow> n) + of_bool ((case b of None \<Rightarrow> 0 | Some n \<Rightarrow> n) < limit)) first))) (\<lambda>_.
      bind (if s_evidence s then Ret () else store_run (s\<lparr>s_evidence := True\<rparr>)) (\<lambda>_.
      Ret (Budget ((case b of None \<Rightarrow> 0 | Some n \<Rightarrow> n) < limit)
              ((case b of None \<Rightarrow> 0 | Some n \<Rightarrow> n) + of_bool ((case b of None \<Rightarrow> 0 | Some n \<Rightarrow> n) < limit)) first)))))))"
    by (intro from_bind from_bind_Ret)
       (auto intro!: adds_bind from_mail split: option.split journal_record.split)
next
  fix s v
  show "advances_from (f_run_id f) s (bind (of_option Decode (row_record v)) (\<lambda>r.
      case r of Budget _ _ _ \<Rightarrow> Ret r | _ \<Rightarrow> Fail (Message (''invalid budget record at '' @ k))))"
    by (rule from_bind) (simp_all split: journal_record.split)
qed

section \<open>What is due\<close>

lemma adds_index_ids [simp]: "adds (index_ids what rs)"
  by (rule reads_adds) (auto simp: index_ids_def intro!: writes_in_collect_tx writes_in_bind split: prod.split)

lemma adds_due_as: "adds (due_as x now limit w)"
  unfolding due_as_def
  by (auto intro!: adds_bind adds_fold_tx split: option.split)

section \<open>Retention\<close>

lemma adds_scan_loop:
  assumes "\<And>rs. (\<And>e. e \<in> set rs \<Longrightarrow> fst (fst e) = kind) \<Longrightarrow> adds (g rs)"
  shows "adds (bind (scan kind lo hi lim) g)"
proof -
  have "adds (g (scan_rows r kind lo hi lim))" for r :: db
    by (rule assms) (metis commits_scan scanned_kind)
  then show ?thesis unfolding adds_def by simp
qed

lemma adds_pending_delete: "adds (for_each (pending_rows i n e) (\<lambda>(kind, key, _). delete kind key))"
  by (rule side_adds [OF writes_in_pending_put(2)])

lemma adds_forget_copies [simp]: "adds (forget_copies i)"
  unfolding forget_copies_def
  by (intro adds_scan_loop adds_bind adds_for_each)
     (auto intro!: adds_bind adds_pending_delete split: option.split prod.split, (metis adds_side(2) side_key_partition)+)

lemma adds_forget [simp]: "adds (forget s)"
  unfolding forget_def
  by (intro adds_scan_loop adds_bind adds_for_each) (auto, metis adds_side(2) side_key_partition(1))

lemma adds_sweep_index:
  "(\<And>i. side_key (index, i)) \<Longrightarrow> (\<And>i. side_key (kind, i)) \<Longrightarrow> adds (sweep_index index kind what stop)"
  unfolding sweep_index_def by (auto intro!: adds_bind adds_fold_tx split: prod.split)

text \<open>A loop over the runs an index lists, then a program.\<close>

lemma runs_then:
  assumes "\<And>r cs r'. good r \<Longrightarrow> commits m r cs r' \<Longrightarrow> r' = r \<and> distinct (map s_id cs) \<and> (\<forall>s \<in> set cs. stored r (s_id s) s)"
    and "\<And>s acc. advances_only (s_id s) s (f s acc)" and "\<And>a. advances (g a)"
  shows "advances (bind m (\<lambda>cs. bind (fold_tx cs f acc) g))"
  unfolding bind_assoc [symmetric] by (rule advances_bind [OF bind_runs_advance [OF assms(1,2)] assms(3)])

lemma only_mail_store:
  "adds m \<Longrightarrow> yields m (\<lambda>(n, t). mail_change s t) \<Longrightarrow>
     advances_only i s (bind m (\<lambda>(k, s'). bind (store_run s') (\<lambda>_. Ret (h k))))"
  by (rule only_bind_yields, assumption+)
     (auto intro!: only_store_bind mail_change_evolves elim: mail_change_wf)

lemma advances_sweep: "advances (sweep x now kept)"
  unfolding sweep_def Let_def
proof (rule advances_bind, simp, rule runs_then, goal_cases)
  case (1 u r cs r')
  then show ?case
    using indexed_runs_stored finished.scanned_distinct good_index by blast
next
  case (2 u s acc)
  then show ?case by (auto simp: only_adds intro!: only_mail_store yields_forget)
next
  case (3 u records)
  show ?case
  proof (rule runs_then, goal_cases)
    case (1 r cs r')
    then show ?case
      using indexed_runs_stored mailbox.scanned_distinct good_index by blast
  next
    case (2 s acc)
    then show ?case by (auto intro!: only_mail_store yields_expire)
  next
    case (3 n)
    show ?case by (auto intro!: advances_bind adds_advances [OF adds_sweep_index])
  qed
qed

end
