(* ===== verification/Run_Endings.thy ===== *)
theory Run_Endings
  imports Store_Steps
begin

text \<open>
  Ending a run keeps the invariant and lets stored runs only evolve: the cascade over live descendants with
  any fuel that lets it return, termination, cancellation, \<^verbatim>\<open>finish\<close> and children. With fuel above the number
  of live runs, termination is not stopped by the cascade.
\<close>

section \<open>The cascade with any fuel\<close>

lemma cascade_more_fuel:
  "commits (cascade n x used now parents st) r st' r' \<Longrightarrow> commits (cascade (n + k) x used now parents st) r st' r'"
proof (induction n x used now parents st arbitrary: r rule: cascade.induct)
  case (1 n x used now st)
  then show ?case by simp
next
  case (2 x used now p ps st)
  then show ?case by simp
next
  case (3 n x used now p ps st)
  from 3(2) obtain cs r1 parents st1 r2
    where c: "commits (indexed_runs (partition ''children'' (last (p # ps))) [] None None) r cs r1"
      "commits (fold_tx cs (cancel_child x used now) (butlast (p # ps), st)) r1 (parents, st1) r2"
      "commits (cascade n x used now parents st1) r2 st' r'"
    by (auto simp del: last.simps butlast.simps)
  have "commits (cascade (n + k) x used now parents st1) r2 st' r'"
    using 3(1) [OF c(3)] .
  then show ?case using c(1,2) by (simp del: last.simps butlast.simps) blast
qed

lemma cascade_ends:
  assumes "good r" and "\<And>p. p \<in> set parents \<Longrightarrow> quiet r p" and "commits (cascade n x used now parents st) r st' r'"
  shows "index_ok r' \<and> ends used now (below r (set parents)) r r'"
proof -
  obtain st2 r2 where c: "commits (cascade (n + (length parents + card (live r))) x used now parents st) r st2 r2"
      "index_ok r2" "ends used now (below r (set parents)) r r2"
    using cascade_commits [OF good_index [OF assms(1)] good_readable [OF assms(1)] assms(2) le_add2] by blast
  moreover have "commits (cascade (n + (length parents + card (live r))) x used now parents st) r st' r'"
    by (rule cascade_more_fuel [OF assms(3)])
  ultimately show ?thesis by (metis commits_unique)
qed

lemma wf_ended_run [simp]: "wf_run s \<Longrightarrow> wf_run (ended_run s status used now)"
  by (simp add: wf_run_def ended_run_def terminal_state_def split: status.split)

lemma evolves_ended_run: "r_ended_ms (s_run s) = None \<Longrightarrow> evolves s (ended_run s status used now)"
  by (simp add: evolves_def ended_run_def)

lemma below_live: "j \<in> below r P \<Longrightarrow> j \<in> live r"
  by (auto simp: below_def live_desc_live)

lemma ends_good:
  assumes "good r" and "index_ok r'" and en: "ends used now S r r'" and "S \<subseteq> live r"
  shows "good r' \<and> grows r r'"
proof
  have new: "stored r' i t \<longleftrightarrow> (\<exists>s. stored r i s \<and> t = (if i \<in> S then ended_run s Cancelled used now else s))" for i t
    using en by (simp add: ends_def)
  show "good r'"
    using assms(2) good_wf [OF assms(1)] unfolding good_def new by auto
  have "evolves s (if i \<in> S then ended_run s Cancelled used now else s)" if "stored r i s" for i s
    using that assms(4) by (auto simp: live_def intro!: evolves_ended_run dest: stored_unique)
  then show "grows r r'" unfolding grows_def new by blast
qed

lemma from_cascade:
  assumes "r_ended_ms (s_run s) \<noteq> None" and "s_awaits s = bt_empty"
  shows "advances_from i s (cascade n x used now [i] st)"
  unfolding advances_from_def
proof (intro allI impI)
  fix r st' r'
  assume g: "good r" and s: "stored r i s" and c: "commits (cascade n x used now [i] st) r st' r'"
  have "quiet r p" if "p \<in> set [i]" for p using that s assms by (auto simp: quiet_def)
  then have "index_ok r' \<and> ends used now (below r (set [i])) r r'" by (rule cascade_ends [OF g _ c])
  then show "good r' \<and> grows r r'" using ends_good [OF g] below_live by blast
qed

section \<open>Termination\<close>

lemma adds_rearm_trigger [simp]: "adds (rearm_trigger s now)"
  unfolding rearm_trigger_def by (auto intro!: adds_bind split: option.split)

lemma adds_add_bucket [simp]: "adds (add_bucket x name now runs ann)"
  unfolding add_bucket_def Let_def by (auto intro!: adds_bind)

lemma from_load: "advances_from i s (g s) \<Longrightarrow> advances_from i s (bind (load_run i) g)"
  unfolding advances_from_def by (auto simp: stored_def)

lemma from_terminate:
  assumes "r_ended_ms (s_run s) = None"
  shows "advances_from i s (terminate fuel x i status now)"
  unfolding terminate_def Let_def
proof (rule from_load, rule from_bind, simp, rule from_store_bind)
  fix b u
  let ?s = "ended_run s status (case b of None \<Rightarrow> 0 | Some n \<Rightarrow> n) now"
  have tail: "advances (case st of (names, ended) \<Rightarrow> bind (lifecycle i status now) (\<lambda>_.
     bind (for_each (bt_keys names) (\<lambda>name. drain_queues x name now)) (\<lambda>_.
     for_each (bt_entries ended) (\<lambda>(name, runs, sums). add_bucket x name now runs sums))))" for st
    by (auto intro!: advances_bind advances_lifecycle advances_for_each simp: adds_advances split: prod.split)
  show "advances_from i ?s (bind (if r_root (s_run ?s) = None
           then bind (get ''budget'' i) (\<lambda>v. if v \<noteq> None then delete ''budget'' i else Ret ()) else Ret ()) (\<lambda>_.
     bind (rearm_trigger ?s now) (\<lambda>_.
     bind (cascade fuel x (case b of None \<Rightarrow> 0 | Some n \<Rightarrow> n) now [i]
         (bt_insert (s_name ?s) () bt_empty, tally x (s_run ?s) bt_empty)) (\<lambda>(names, ended).
     bind (lifecycle i status now) (\<lambda>_.
     bind (for_each (bt_keys names) (\<lambda>name. drain_queues x name now)) (\<lambda>_.
     for_each (bt_entries ended) (\<lambda>(name, runs, sums). add_bucket x name now runs sums)))))))"
    by (rule from_bind, simp add: adds_bind, rule from_bind, simp, rule from_then [OF from_cascade tail]) simp_all
qed (use assms in \<open>simp_all add: evolves_ended_run\<close>)

lemma advances_cancel_run: "advances (cancel_run fuel x i now)"
  unfolding cancel_run_def
  by (rule find_advances) (auto intro!: from_bind_Ret from_terminate)

section \<open>Finishing a step\<close>

text \<open>The row that \<^verbatim>\<open>finish\<close> stores: the outcome's state, without owner and lease.\<close>

abbreviation let_go :: "stored_run \<Rightarrow> stored_run" where
  "let_go s \<equiv> s\<lparr>s_run := (s_run s)\<lparr>r_fence := None, r_lease_until_ms := None\<rparr>\<rparr>"

lemma yields_finish_state:
  assumes "r_state (s_run s) = StRunning" and "r_ended_ms (s_run s) = None"
  shows "yields (finish_state s outcome now) (\<lambda>(status, t).
     r_ended_ms (s_run t) = None \<and> evolves s (let_go t) \<and> (wf_run s \<longrightarrow> wf_run (let_go t)))"
  unfolding finish_state_def Let_def
  by (auto intro!: yields_bind simp: terminal_state_def evolves_def wf_run_def assms split: status.split)

lemma advances_finish: "advances (finish fuel x pol f outcome now threshold)"
  unfolding finish_def Let_def
proof (rule checked_advances)
  fix s
  assume wf: "wf_run s" and h: "holds_lease s f now (skew_ms pol)"
  then have run: "r_state (s_run s) = StRunning" by (simp add: holds_lease_def)
  then have live: "r_ended_ms (s_run s) = None" using wf by (auto simp: wf_run_def terminal_state_def)
  show "advances_from (f_run_id f) s (bind (finish_state s outcome now) (\<lambda>(status, s1).
     bind (store_run (s1\<lparr>s_run := (s_run s1)\<lparr>r_fence := None, r_lease_until_ms := None\<rparr>\<rparr>)) (\<lambda>_.
     bind (if is_terminal status then
             bind (breaker x (s_run (s1\<lparr>s_run := (s_run s1)\<lparr>r_fence := None, r_lease_until_ms := None\<rparr>\<rparr>))
               (case (status, outcome) of (Faulted e, Interrupted _) \<Rightarrow> None | (Faulted e, _) \<Rightarrow> Some e | _ \<Rightarrow> None)
               (case status of Completed _ \<Rightarrow> True | _ \<Rightarrow> False) threshold now) (\<lambda>_.
             terminate fuel x (f_run_id f) status now)
           else lifecycle (f_run_id f) status now) (\<lambda>_.
     Ret status))))"
  proof (rule from_bind_yields [OF reads_adds yields_finish_state [OF run live]], goal_cases)
    case 1
    show ?case unfolding finish_state_def Let_def by (auto split: status.split)
  next
    case (2 a)
    obtain status t where a: "a = (status, t)" by fastforce
    show ?case
      unfolding a prod.case
      by (rule from_store_bind)
         (use 2 a in \<open>auto intro!: from_bind_Ret from_bind from_terminate from_advances [OF advances_lifecycle]\<close>)
  qed
qed

section \<open>Children\<close>

text \<open>A program that runs where no run of the id is stored.\<close>

definition advances_new :: "string \<Rightarrow> 'a op \<Rightarrow> bool" where
  "advances_new i m \<longleftrightarrow>
     (\<forall>r a r'. good r \<longrightarrow> bt_get r (''run'', i) = None \<longrightarrow> commits m r a r' \<longrightarrow> good r' \<and> grows r r')"

lemma new_store_bind:
  assumes "s_id t = i" and "wf_run t" and "\<And>a. advances (g a)"
  shows "advances_new i (bind (store_run t) g)"
  unfolding advances_new_def commits_bind
proof (intro allI impI, elim exE conjE)
  fix r a r' u r1
  assume r: "good r" "bt_get r (''run'', i) = None" "commits (store_run t) r u r1" "commits (g u) r1 a r'"
  have "good r1" "grows r r1" using store_run_new [OF r(1) _ assms(2) r(3)] r(2) assms(1) extends_grows by auto
  then show "good r' \<and> grows r r'" using advancesD [OF assms(3) _ r(4)] grows_trans by blast
qed

lemma new_bind:
  "reads_only m \<Longrightarrow> yields m Q \<Longrightarrow> (\<And>a. Q a \<Longrightarrow> advances_new i (g a)) \<Longrightarrow> advances_new i (bind m g)"
  unfolding advances_new_def yields_def commits_bind by (metis reads_only_rows)

lemma admitted_advances:
  assumes "\<And>epoch dig. advances_new (a_id a) (g (Some (initial_run a now epoch dig)))" and "advances (g None)"
  shows "advances (bind (admitted a now j) g)"
  unfolding advances_def commits_bind
proof (intro allI impI, elim exE conjE)
  fix r v r' t r1
  assume g: "good r" and t: "commits (admitted a now j) r t r1" and v: "commits (g t) r1 v r'"
  show "good r' \<and> grows r r'"
  proof (cases t)
    case None
    then show ?thesis using t v commits_admitted_None advancesD [OF assms(2) g] by blast
  next
    case (Some u)
    with t obtain epoch dig where "r1 = r" "bt_get r (''run'', a_id a) = None" "u = initial_run a now epoch dig"
      by (auto elim!: commits_admitted)
    then show ?thesis using v g Some assms(1) [of epoch dig] unfolding advances_new_def by blast
  qed
qed

lemma claim_run_wf: "claim_run s now owner = Inr (f, t) \<Longrightarrow> r_ended_ms (s_run s) = None \<Longrightarrow> wf_run s \<Longrightarrow> wf_run t \<and> s_id t = s_id s"
  by (auto simp: claim_run_def Let_def wf_run_def terminal_state_def split: option.splits)

text \<open>What \<^verbatim>\<open>start_child\<close> does after it registered the child with its parent.\<close>

lemma advances_notice: "advances (case r_outcome (s_run c) of
    Some outcome \<Rightarrow> lifecycle i outcome now
  | None \<Rightarrow> if r_state (s_run c) = StWaiting then lifecycle i (Waiting 0) now else Ret ())"
  by (auto intro!: advances_lifecycle split: option.split)

lemma advances_bind_Ret: "advances m \<Longrightarrow> advances (bind m (\<lambda>_. Ret v))"
  by (auto intro!: advances_bind)

lemma from_notice:
  "(\<And>c. advances (h c)) \<Longrightarrow> i = s_id s \<Longrightarrow> wf_run s \<Longrightarrow>
     advances_from i s (bind (ensure b e) (\<lambda>_. bind (store_run s) (\<lambda>_. bind (h s) (\<lambda>_. Ret v))))"
  by (intro from_bind from_store_bind from_bind_Ret) (auto intro: from_advances)

lemma new_notice:
  assumes "\<And>c. advances (h c)" and c: "wf_run c" "s_id c = i" "r_ended_ms (s_run c) = None"
  shows "advances_new i (bind (ensure b e) (\<lambda>_.
     bind (bind (of_sum (claim_run c now owner)) (\<lambda>(f, c'). Ret (Some f, c'))) (\<lambda>(f, c').
     bind (store_run c') (\<lambda>_. bind (h c') (\<lambda>_. Ret (Inr f))))))"
proof -
  have claimed: "yields (bind (of_sum (claim_run c now owner)) (\<lambda>(f, c'). Ret (Some f, c'))) (\<lambda>(f, d). wf_run d \<and> s_id d = i)"
    using claim_run_wf [OF _ c(3,1)] c(2) by (auto simp: yields_def)
  have "advances_new i (bind (bind (of_sum (claim_run c now owner)) (\<lambda>(f, c'). Ret (Some f, c'))) (\<lambda>(f, c').
     bind (store_run c') (\<lambda>_. bind (h c') (\<lambda>_. Ret (Inr f)))))"
    by (rule new_bind [OF _ claimed])
       (auto intro!: writes_in_bind new_store_bind advances_bind_Ret assms(1) split: prod.split)
  then show ?thesis
    by (intro new_bind [where m = "ensure b e" and Q = "\<lambda>_. True"]) (simp_all add: yields_def)
qed

lemma child_mail [simp]: "mail_change p (p\<lparr>s_awaits := w, s_listeners := l\<rparr>)"
  by simp

lemma advances_start_child: "advances (start_child x pol parent a link now owner)"
proof -
  have child: "advances (bind (admitted a now Child) (\<lambda>fresh.
         bind (case fresh of Some c \<Rightarrow> Ret c | None \<Rightarrow> load_run (a_id a)) (\<lambda>c.
         let c' = (if fresh \<noteq> None then c\<lparr>s_run := (s_run c)\<lparr>r_child := Some link, r_root := root\<rparr>\<rparr> else c) in
         bind (ensure (r_child (s_run c') = Some link) (AdmissionMismatch (a_id a) FLink)) (\<lambda>_.
         bind (if fresh \<noteq> None
               then bind (of_sum (claim_run c' now owner)) (\<lambda>(f, c''). Ret (Some f, c'')) else Ret (None, c')) (\<lambda>(f, c'').
         bind (store_run c'') (\<lambda>_.
         bind (case r_outcome (s_run c'') of
                 Some outcome \<Rightarrow> lifecycle (a_id a) outcome now
               | None \<Rightarrow>
                   if r_state (s_run c'') = StWaiting then lifecycle (a_id a) (Waiting 0) now else Ret ()) (\<lambda>_.
         Ret (Inr f))))))))" for root
  proof (rule admitted_advances, goal_cases)
    case (1 epoch dig)
    let ?c = "(initial_run a now epoch dig)\<lparr>s_run := (s_run (initial_run a now epoch dig))\<lparr>r_child := Some link, r_root := root\<rparr>\<rparr>"
    have "wf_run ?c" "s_id ?c = a_id a" "r_ended_ms (s_run ?c) = None"
      by (simp_all add: initial_run_def wf_run_def terminal_state_def)
    from new_notice [OF advances_notice this] show ?case by (simp add: Let_def)
  next
    case 2
    show ?case by (auto simp: Let_def intro!: load_advances from_notice advances_notice)
  qed
  show ?thesis
    unfolding start_child_def Let_def
    by (rule checked_advances, rule from_bind, simp, rule from_bind, simp, rule from_bind, simp, rule from_case_option,
        rule from_mail_bind, simp, rule from_advances, rule child [unfolded Let_def], simp)
qed

end
