(* ===== verification/Store_Commands.thy ===== *)
theory Store_Commands
  imports Run_Endings
begin

text \<open>
  Firings, operator commands and the catalog keep the invariant and let stored runs only evolve; the step
  relation \<open>store_step\<close> collects every operation of the store.
\<close>

section \<open>Firings\<close>

lemma reads_tombstone [simp]: "writes_in K (tombstone event now)"
  unfolding tombstone_def Let_def by (auto intro!: writes_in_bind split: option.split)

lemma reads_ingested [simp]: "writes_in K (ingested event now)"
  unfolding ingested_def by (auto intro!: writes_in_bind)

lemma reads_first_refusal [simp]: "writes_in K (first_refusal drained as)"
  by (induction as) (auto intro!: writes_in_bind split: option.split)

lemma reads_busy_outcome [simp]: "writes_in K (busy_outcome f)"
  unfolding busy_outcome_def by (auto intro!: writes_in_bind split: option.split)

lemma adds_bury [simp]: "adds (bury event k old now pol)"
  unfolding bury_def Let_def by (auto intro!: adds_bind split: option.split)

lemma advances_cancel_live:
  "advances (for_each rs (\<lambda>(_, v). bind (of_option e (index_id v)) (\<lambda>i. bind (cancel_run fuel x i now) (\<lambda>_. Ret ()))))"
  by (auto intro!: advances_for_each advances_bind advances_cancel_run split: prod.split)

lemma advances_overlap_outcome: "advances (overlap_outcome fuel x f g a now)"
  unfolding overlap_outcome_def
  by (intro advances_bind) (auto intro!: advances_bind advances_cancel_live)

lemma advances_fire_outcome: "advances (fire_outcome fuel x f now)"
  unfolding fire_outcome_def
  by (auto intro!: advances_overlap_outcome reads_adds [THEN adds_advances] split: option.split)

lemma advances_if_then: "(b \<Longrightarrow> advances m) \<Longrightarrow> (\<not> b \<Longrightarrow> advances m') \<Longrightarrow> advances (if b then m else m')"
  by simp

lemma advances_case_prod: "(\<And>a b. advances (g a b)) \<Longrightarrow> advances (case p of (a, b) \<Rightarrow> g a b)"
  by (cases p) simp

lemma advances_fire_checked: "advances (fire_checked fuel x f current now pol)"
proof -
  have settle: "advances (bind (store_trigger (fi_key f) current nxt) (\<lambda>_.
         bind (if disposition = FCommitted
               then for_each (fi_admit f) (\<lambda>a. admit_firing (fi_key f) a (fi_rearm f) nxt now) else Ret ()) (\<lambda>_.
         bind (case (disposition, fi_refused f) of
                 (FCommitted, Some r) \<Rightarrow>
                   bind (refuse x r now) (\<lambda>_. put ''trigger_run'' (fi_key f) (RJson (String (a_id (rf_admission r)))))
               | _ \<Rightarrow> Ret ()) (\<lambda>_.
         Ret disposition))))" for nxt disposition
    by (rule adds_advances) (auto intro!: adds_bind adds_for_each split: option.split fired.split)
  have used: "adds (case fi_ingress f of None \<Rightarrow> Ret False | Some event \<Rightarrow> ingested event now)"
    by (auto intro!: reads_adds split: option.split)
  have take: "adds (case fi_ingress f of None \<Rightarrow> Ret False
      | Some event \<Rightarrow> bind (tombstone event now) (\<lambda>(k, old, used). if used then Ret True
          else bind (bury event k old now pol) (\<lambda>_. Ret False)))"
    by (auto intro!: adds_bind simp: reads_adds split: option.split)
  show ?thesis
    unfolding fire_checked_def
    by (rule advances_bind [OF adds_advances [OF used]], rule advances_if_then, simp,
        rule advances_bind [OF advances_fire_outcome], rule advances_case_prod,
        rule advances_bind [OF adds_advances [OF take]], rule advances_if_then, simp, rule settle)
qed

lemma advances_fire: "advances (fire fuel x f now pol)"
  unfolding fire_def
  by (auto intro!: advances_bind advances_fire_checked simp: reads_adds adds_advances split: option.split)

section \<open>Holds\<close>

lemma restore_same:
  assumes ok: "index_ok r" and t: "stored r (s_id t) t" and "s_id s = s_id t"
    and "commits (store_run_indexed t (indexes s)) r a r'"
  shows "r' = r"
proof (rule bt_eqI)
  fix k
  obtain u where u: "commits (for_each (changes (indexes s) (indexes t)) write_change) r () u"
    and r': "r' = bt_insert (''run'', s_id t) (RRun t) u"
    using assms(4) by (auto simp: store_run_indexed_def)
  have mine: "bt_get r k = bt_get (indexes t) k" if "bt_has (indexes s) k \<or> bt_has (indexes t) k"
  proof -
    have cl: "claims (s_id t) k" using that assms(3) indexes_claims [of s k] indexes_claims [of t k] by (auto simp: bt_has_def split: option.splits)
    have "w = t" if "stored r j w" "bt_get (indexes w) k = Some v" for j w v
    proof -
      have "s_id w = s_id t" using claims_inject [OF indexes_claims [OF that(2)] cl] .
      moreover have "s_id w = j" using stored_id [OF ok that(1)] .
      ultimately show ?thesis using that(1) t by (metis stored_unique)
    qed
    then have "bt_get r k = Some v \<longleftrightarrow> bt_get (indexes t) k = Some v" for v
      using ok claims_is_index [OF cl] t unfolding index_ok_def stored_def by blast
    then show ?thesis by (metis not_Some_eq)
  qed
  have "bt_get u k = bt_get r k"
  proof (cases "bt_has (indexes s) k \<or> bt_has (indexes t) k")
    case True
    show ?thesis
      unfolding commits_changes_get [OF u distinct_changes] map_of_changes mine [OF True]
      by (auto split: option.split)
  next
    case False
    then show ?thesis
      unfolding commits_changes_get [OF u distinct_changes] map_of_changes
      by (auto simp: bt_has_def split: option.split)
  qed
  then show "bt_get r' k = bt_get r k" using t by (auto simp: r' stored_def)
qed

text \<open>\<open>held r0 h r\<close>: every run row is the one of \<open>r0\<close>, or the one of a live run of \<open>r0\<close> with its hold set to \<open>h\<close>.\<close>

definition held_from :: "db \<Rightarrow> hold option \<Rightarrow> db \<Rightarrow> bool" where
  "held_from r0 h r \<longleftrightarrow> good r \<and> (\<forall>i s. stored r0 i s \<longrightarrow>
     stored r i s \<or> (r_ended_ms (s_run s) = None \<and> stored r i (s\<lparr>s_run := (s_run s)\<lparr>r_held := h\<rparr>\<rparr>)))"

lemma evolves_hold [simp]: "evolves s (s\<lparr>s_run := (s_run s)\<lparr>r_held := h\<rparr>\<rparr>)"
  by (simp add: evolves_def)

lemma held_from_good: "held_from r0 h r \<Longrightarrow> good r \<and> grows r0 r"
  unfolding held_from_def grows_def by (metis evolves_refl evolves_hold)

lemma held_from_refl: "good r \<Longrightarrow> held_from r h r"
  by (simp add: held_from_def)

lemma held_from_store:
  assumes h: "held_from r0 h r" and s: "stored r0 i s" "s_id s = i" "r_ended_ms (s_run s) = None" "s_version s = VERSION"
    and c: "commits (store_run_indexed (s\<lparr>s_run := (s_run s)\<lparr>r_held := h\<rparr>\<rparr>) (indexes s)) r u r'"
  shows "held_from r0 h r'"
proof -
  let ?s = "s\<lparr>s_run := (s_run s)\<lparr>r_held := h\<rparr>\<rparr>"
  have g: "good r" using h by (simp add: held_from_def)
  consider "stored r i s" | "stored r i ?s" using h s(1) by (auto simp: held_from_def)
  then show ?thesis
  proof cases
    case 1
    then have c': "commits (store_run ?s) r u r'" using c s by (simp add: store_run_indexed_eq)
    have "wf_run ?s" using good_wf [OF g 1] s(3) by (simp add: wf_run_def)
    then have "good r'" using store_run_evolves(1) [OF g 1 evolves_hold _ c'] by blast
    then show ?thesis
      using h s stored_store_run [OF c'] by (auto simp: held_from_def dest: stored_unique)
  next
    case 2
    then have "r' = r" using restore_same [OF good_index [OF g] _ _ c] s(2) by simp
    then show ?thesis using h by simp
  qed
qed

lemma hold_tree_stored:
  assumes "good r" and "\<forall>s \<in> set tree. stored r (s_id s) s \<and> r_ended_ms (s_run s) = None"
    and "commits (hold_tree n tree next) r out r'"
  shows "r' = r \<and> (\<forall>s \<in> set out. stored r (s_id s) s \<and> r_ended_ms (s_run s) = None)"
  using assms(2,3)
proof (induction n arbitrary: tree "next")
  case (Suc n)
  show ?case
  proof (cases "length tree \<le> next")
    case False
    then obtain cs r1 where cs: "commits (indexed_runs (partition ''children'' (s_id (tree ! next))) [] None None) r cs r1"
      and rest: "commits (hold_tree n (tree @ cs) (Suc next)) r1 out r'"
      using Suc.prems(2) by auto
    note kids = commits_children [OF cs good_index [OF assms(1)]]
    have "\<forall>s \<in> set (tree @ cs). stored r (s_id s) s \<and> r_ended_ms (s_run s) = None"
      using Suc.prems(1) kids(3) by (auto simp: live_child_def)
    then show ?thesis using Suc.IH rest kids(1) by blast
  qed (use Suc.prems in auto)
qed (auto split: if_splits)

abbreviation hold_one :: "hold option \<Rightarrow> stored_run \<Rightarrow> bool \<Rightarrow> bool op" where
  "hold_one h s changed \<equiv>
     (if (r_held (s_run s) \<noteq> None) = (h \<noteq> None) then Ret changed
      else bind (store_run_indexed (s\<lparr>s_run := (s_run s)\<lparr>r_held := h\<rparr>\<rparr>) (indexes s)) (\<lambda>_. Ret True))"

lemma held_from_fold:
  assumes "good r0" and "held_from r0 h r" and "\<forall>s \<in> set tree. stored r0 (s_id s) s \<and> r_ended_ms (s_run s) = None"
    and "commits (fold_tx tree (hold_one h) b) r b' r'"
  shows "held_from r0 h r'"
  using assms(2-)
proof (induction tree arbitrary: r b)
  case (Cons s tree)
  obtain b1 r1 where step: "commits (hold_one h s b) r b1 r1" and rest: "commits (fold_tx tree (hold_one h) b1) r1 b' r'"
    using Cons.prems(3) by (simp only: fold_tx.simps commits_bind) blast
  have s: "stored r0 (s_id s) s" "r_ended_ms (s_run s) = None" using Cons.prems(2) by auto
  have "s_version s = VERSION" using good_wf [OF assms(1) s(1)] by (simp add: wf_run_def)
  then have "held_from r0 h r1"
    using step held_from_store [OF Cons.prems(1) s(1) refl s(2)] Cons.prems(1) by (simp split: if_splits)
  then show ?case using Cons.IH rest Cons.prems(2) by simp
qed simp

lemma from_hold:
  assumes "r_ended_ms (s_run s) = None" and "s_id s = i"
  shows "advances_from i s (bind (hold_tree fuel [s] 0) (\<lambda>tree. fold_tx tree (hold_one h) False))"
  unfolding advances_from_def
proof (intro allI impI)
  fix r a r'
  assume g: "good r" and s: "stored r i s"
    and "commits (bind (hold_tree fuel [s] 0) (\<lambda>tree. fold_tx tree (hold_one h) False)) r a r'"
  then obtain tree r1 where t: "commits (hold_tree fuel [s] 0) r tree r1" and f: "commits (fold_tx tree (hold_one h) False) r1 a r'"
    unfolding commits_bind by blast
  have "\<forall>s \<in> set [s]. stored r (s_id s) s \<and> r_ended_ms (s_run s) = None" using s assms by simp
  note tree = hold_tree_stored [OF g this t]
  then show "good r' \<and> grows r r'"
    using held_from_good held_from_fold [OF g held_from_refl [OF g]] f by blast
qed

lemma advances_set_hold: "advances (set_hold fuel i h)"
  unfolding set_hold_def
proof (rule find_advances, goal_cases)
  case (2 s)
  show ?case
  proof (cases "r_ended_ms (s_run s) = None")
    case True
    then show ?thesis using from_hold [OF True 2(1)] by (simp add: of_option_def)
  qed (simp add: of_option_def)
qed (simp add: of_option_def)

section \<open>The catalog and commands\<close>

lemma adds_suspend [simp]: "adds (suspend name defs)"
  unfolding suspend_def by (auto intro!: adds_bind adds_fold_tx split: prod.split)

lemma adds_pause [simp]: "adds (pause rq name note now)"
  unfolding pause_def Let_def by (auto intro!: adds_bind split: option.split)

lemma adds_resume [simp]: "adds (resume x name now)"
  unfolding resume_def Let_def
  by (auto intro!: adds_bind adds_for_each split: option.split prod.split)

lemma adds_set_stop [simp]: "adds (set_stop x enabled now)"
  unfolding set_stop_def by (auto intro!: adds_bind)

lemma adds_catalog [simp]:
  "adds (save_definition x name source br)" "adds (activate name version epoch arming act)" "adds (acknowledge k)"
  unfolding save_definition_def activate_def acknowledge_def Let_def
  by (auto intro!: adds_bind split: option.split)

lemma adds_beat [simp]: "adds (beat w)"
  unfolding beat_def by (auto intro!: adds_bind split: option.split)

lemma offered_mail: "mail_change s (s\<lparr>s_published := p, s_run := (s_run s)\<lparr>r_wake_at_ms := w\<rparr>\<rparr>)"
  by (auto simp: mail_change_def)

lemma advances_offer_to_wildcard: "advances (offer_to_wildcard i n now)"
  unfolding offer_to_wildcard_def
  by (auto intro!: advances_bind load_advances from_bind from_mail offered_mail)

lemma reads_response_event [simp]: "writes_in K (response_event x event now)"
  unfolding response_event_def by (auto intro!: writes_in_bind split: json.split)

lemma advances_respond: "advances (respond x pol rq c i k event now)"
  unfolding respond_def Let_def
  by (auto intro!: advances_bind advances_deliver advances_offer_to_wildcard simp: reads_adds adds_advances
      split: option.split sum.split)

lemma advances_perform: "advances (perform fuel x pol rq c now)"
proof -
  have "advances (bind (find_run i) (\<lambda>s.
          bind (if case s of None \<Rightarrow> False | Some t \<Rightarrow> r_ended_ms (s_run t) = None
                then terminate fuel x i Cancelled now else Ret ()) (\<lambda>_.
          Ret (Changed (case s of None \<Rightarrow> False | Some t \<Rightarrow> r_ended_ms (s_run t) = None)))))" for i
    by (rule find_advances) (auto intro!: from_bind_Ret from_terminate)
  then show ?thesis
    unfolding perform_def Let_def
    by (auto intro!: advances_bind [OF advances_set_hold] advances_respond simp: adds_advances split: command.split)
qed

lemma advances_control_command: "advances (control_command fuel x pol rq c now)"
  unfolding control_command_def Let_def
  by (auto intro!: advances_bind advances_perform split: option.split)

end
