(* ===== verification/Store_Machine.thy ===== *)
theory Store_Machine
  imports Store_Commands Samples
begin

text \<open>
  The store as a state machine: a step is the commit of one operation of the \<^verbatim>\<open>RunStore\<close> trait, by any caller
  with any arguments and at any time; reachable states start from the empty database. The invariant \<open>good\<close>
  holds in every reachable state, and along any sequence of steps every run keeps its identity, its fence
  generation never falls and its end is final.
\<close>

inductive store_step :: "db \<Rightarrow> db \<Rightarrow> bool" where
  admit: "commits (admit x a now) r b r' \<Longrightarrow> store_step r r'"
| start: "commits (start x a now owner) r c r' \<Longrightarrow> store_step r r'"
| claim: "commits (claim_as i now w owner) r d r' \<Longrightarrow> store_step r r'"
| renew: "commits (renew pol f now) r e r' \<Longrightarrow> store_step r r'"
| release: "commits (release pol f now) r u r' \<Longrightarrow> store_step r r'"
| save_record: "commits (save_record x pol f k rec now) r u r' \<Longrightarrow> store_step r r'"
| register_wait: "commits (register_wait pol f types now) r u r' \<Longrightarrow> store_step r r'"
| unregister_wait: "commits (unregister_wait pol f k types now) r u r' \<Longrightarrow> store_step r r'"
| subscribe: "commits (subscribe pol f k types now) r u r' \<Longrightarrow> store_step r r'"
| unsubscribe: "commits (unsubscribe pol f k now) r u r' \<Longrightarrow> store_step r r'"
| describe_wait: "commits (describe_wait pol f k wait now) r u r' \<Longrightarrow> store_step r r'"
| take_event: "commits (take_event x pol f k types now) r j r' \<Longrightarrow> store_step r r'"
| spend: "commits (spend pol f k limit now) r rec r' \<Longrightarrow> store_step r r'"
| deliver: "commits (deliver event target now pol) r o1 r' \<Longrightarrow> store_step r r'"
| publish: "commits (publish event target now pol) r is r' \<Longrightarrow> store_step r r'"
| finish: "commits (finish fuel x pol f outcome now threshold) r st r' \<Longrightarrow> store_step r r'"
| cancel: "commits (cancel_run fuel x i now) r b1 r' \<Longrightarrow> store_step r r'"
| start_child: "commits (start_child x pol f a link now owner) r c r' \<Longrightarrow> store_step r r'"
| fire: "commits (fire fuel x fi now pol) r fd r' \<Longrightarrow> store_step r r'"
| due: "commits (due_as x now lim w) r is r' \<Longrightarrow> store_step r r'"
| sweep: "commits (sweep x now kept) r sw r' \<Longrightarrow> store_step r r'"
| save_definition: "commits (save_definition x name yaml brk) r dv r' \<Longrightarrow> store_step r r'"
| activate: "commits (activate name version epoch arming act) r od r' \<Longrightarrow> store_step r r'"
| acknowledge: "commits (acknowledge k) r b1 r' \<Longrightarrow> store_step r r'"
| control: "commits (control_command fuel x pol rq cmd now) r ap r' \<Longrightarrow> store_step r r'"
| beat: "commits (beat wk) r u r' \<Longrightarrow> store_step r r'"

abbreviation store_steps :: "db \<Rightarrow> db \<Rightarrow> bool" where
  "store_steps \<equiv> store_step\<^sup>*\<^sup>*"

definition reachable :: "db \<Rightarrow> bool" where
  "reachable r \<longleftrightarrow> store_steps bt_empty r"

lemmas operations_advance =
  adds_admit [THEN adds_advances] adds_start [THEN adds_advances] adds_due_as [THEN adds_advances]
  adds_catalog [THEN adds_advances] adds_beat [THEN adds_advances]
  advances_claim_as advances_renew advances_release advances_save_record advances_waits advances_describe_wait
  advances_take_event advances_spend advances_deliver advances_publish advances_finish advances_cancel_run
  advances_start_child advances_fire advances_sweep advances_control_command

theorem step_keeps_good:
  "store_step r r' \<Longrightarrow> good r \<Longrightarrow> good r' \<and> grows r r'"
  by (induction rule: store_step.induct) (rule advancesD [rotated 2], assumption, rule operations_advance, assumption)+

lemma steps_keep_good: "store_steps r r' \<Longrightarrow> good r \<Longrightarrow> good r' \<and> grows r r'"
  by (induction rule: rtranclp_induct) (auto dest: step_keeps_good intro: grows_trans)

lemma good_empty: "good bt_empty"
  by (simp add: good_def index_ok_empty stored_def)

lemma reachable_good: "reachable r \<Longrightarrow> good r"
  unfolding reachable_def using steps_keep_good good_empty by blast

lemma reachable_steps: "reachable r \<Longrightarrow> store_steps r r' \<Longrightarrow> reachable r'"
  by (simp add: reachable_def)

section \<open>Properties\<close>

text \<open>
  C2. In every reachable state, the index rows are exactly the ones the stored run rows call for: no index
  row dangles, none is missing and none is stale, whatever operations of whatever callers led there.
\<close>

theorem reachable_index_exact:
  assumes "reachable r" and "is_index k"
  shows "bt_get r k = Some v \<longleftrightarrow> (\<exists>i s. stored r i s \<and> bt_get (indexes s) k = Some v)"
  using good_index [OF reachable_good [OF assms(1)]] assms(2) unfolding index_ok_def stored_def by blast

lemma sample_step: "store_step bt_empty sample_started"
  unfolding sample_started_def by (rule store_step.start, rule commits_result, rule sample_start)

lemma sample_reachable: "reachable sample_started"
  unfolding reachable_def using sample_step by blast

theorem reachable_index_exact_witness:
  "bt_get sample_started (''due'', timed 31000 ''a'') = Some (RJson (String ''a'')) \<longleftrightarrow>
     (\<exists>i s. stored sample_started i s \<and> bt_get (indexes s) (''due'', timed 31000 ''a'') = Some (RJson (String ''a'')))"
  by (rule reachable_index_exact [OF sample_reachable]) (simp add: is_index_def timed_families_def)

text \<open>
  C3. Along any sequence of steps a stored run is never lost and changes only forward: its admission, child link,
  root, admission time and epoch are fixed, its fence generation never falls, and once it ended its end,
  its outcome and its state are final.
\<close>

theorem runs_only_evolve:
  assumes "reachable r" and "store_steps r r'" and "stored r i s"
  shows "\<exists>t. stored r' i t \<and> r_admission (s_run t) = r_admission (s_run s) \<and> r_child (s_run t) = r_child (s_run s)
    \<and> r_root (s_run t) = r_root (s_run s) \<and> r_admitted_ms (s_run t) = r_admitted_ms (s_run s)
    \<and> r_epoch (s_run t) = r_epoch (s_run s) \<and> r_generation (s_run s) \<le> r_generation (s_run t)
    \<and> (r_ended_ms (s_run s) \<noteq> None \<longrightarrow> r_ended_ms (s_run t) = r_ended_ms (s_run s)
        \<and> r_outcome (s_run t) = r_outcome (s_run s) \<and> r_state (s_run t) = r_state (s_run s))"
proof -
  obtain t where "stored r' i t" "evolves s t"
    using steps_keep_good [OF assms(2) reachable_good [OF assms(1)]] assms(3) by (auto simp: grows_def)
  then show ?thesis unfolding evolves_def by blast
qed

text \<open>
  C8. A fence that was replaced is refused forever: once the generation of a run is above that of a fence of it,
  no sequence of steps makes a fenced operation accept that fence again.
\<close>

theorem replaced_fence_stays_refused:
  assumes "reachable r" and "stored r (f_run_id f) s" and "f_generation f < r_generation (s_run s)"
    and "store_steps r r'"
  shows "\<not> commits (authority f now skew) r' a r''"
proof
  assume "commits (authority f now skew) r' a r''"
  then have a: "stored r' (f_run_id f) a" "holds_lease a f now skew" by (simp_all add: commits_authority)
  have g: "good r'" "grows r r'" using steps_keep_good [OF assms(4) reachable_good [OF assms(1)]] by simp_all
  have "evolves s a" using g(2) assms(2) a(1) stored_unique unfolding grows_def by blast
  moreover have "f_generation f = r_generation (s_run a)"
    using good_wf [OF g(1) a(1)] a(2) by (auto simp: wf_run_def holds_lease_def)
  ultimately show False using assms(3) by (simp add: evolves_def)
qed

text \<open>
  C13. A row is consistent in every reachable state: it ended exactly when its state is terminal, and exactly
  then it has an outcome; an ended run has no hold; and a run that has an owner runs under a lease, with the fence of
  its current generation.
\<close>

theorem reachable_rows_consistent:
  assumes "reachable r" and "stored r i s"
  shows "s_id s = i \<and> s_version s = VERSION
    \<and> (r_ended_ms (s_run s) \<noteq> None \<longleftrightarrow> r_state (s_run s) \<in> {StCompleted, StFailed, StCancelled})
    \<and> (r_ended_ms (s_run s) \<noteq> None \<longleftrightarrow> r_outcome (s_run s) \<noteq> None)
    \<and> (r_ended_ms (s_run s) \<noteq> None \<longrightarrow> r_held (s_run s) = None)
    \<and> (\<forall>f. r_fence (s_run s) = Some f \<longrightarrow> r_state (s_run s) = StRunning \<and> f_run_id f = i
         \<and> f_generation f = r_generation (s_run s) \<and> r_lease_until_ms (s_run s) \<noteq> None)"
proof -
  have g: "good r" by (rule reachable_good [OF assms(1)])
  show ?thesis
    using good_wf [OF g assms(2)] good_id [OF g assms(2)] unfolding wf_run_def terminal_state_def by blast
qed

section \<open>Witnesses\<close>

text \<open>The sample run is taken over by a second worker after its lease ended, then cancelled.\<close>

definition sample_taken :: db where
  "sample_taken = after (claim_as ''a'' 40000 any_worker ''w2'') sample_started"

definition sample_cancelled :: db where
  "sample_cancelled = after (cancel_run 5 sample_ext ''a'' 50000) sample_taken"

lemma sample_taken_step: "store_step sample_started sample_taken"
  unfolding sample_taken_def by (rule store_step.claim, rule commits_result, rule sample_claim)

lemma sample_cancel: "result (cancel_run 5 sample_ext ''a'' 50000) sample_taken = Some True"
  by code_simp

lemma sample_cancel_step: "store_step sample_taken sample_cancelled"
  unfolding sample_cancelled_def by (rule store_step.cancel, rule commits_result, rule sample_cancel)

lemma sample_taken_reachable: "reachable sample_taken"
  using sample_reachable sample_taken_step reachable_steps by blast

lemma sample_taken_row:
  "case bt_get sample_taken (''run'', ''a'') of Some (RRun s) \<Rightarrow> r_generation (s_run s) = 2 | _ \<Rightarrow> False"
  by code_simp

lemma sample_taken_stored: obtains s where "stored sample_taken ''a'' s" "r_generation (s_run s) = 2"
  using sample_taken_row by (auto simp: stored_def split: option.splits row.splits)

theorem runs_only_evolve_witness:
  "\<exists>s t. stored sample_taken ''a'' s \<and> stored sample_cancelled ''a'' t \<and> r_admission (s_run t) = r_admission (s_run s)
     \<and> r_generation (s_run s) \<le> r_generation (s_run t)"
proof -
  obtain s where s: "stored sample_taken ''a'' s" by (rule sample_taken_stored)
  have "store_steps sample_taken sample_cancelled" using sample_cancel_step by blast
  from runs_only_evolve [OF sample_taken_reachable this s] show ?thesis using s by blast
qed

theorem replaced_fence_stays_refused_witness:
  "\<forall>a r''. \<not> commits (authority sample_fence 41000 0) sample_cancelled a r''"
proof -
  obtain s where "stored sample_taken ''a'' s" "r_generation (s_run s) = 2" by (rule sample_taken_stored)
  then have s: "stored sample_taken (f_run_id sample_fence) s" "f_generation sample_fence < r_generation (s_run s)"
    by (simp_all add: sample_fence_def)
  have "store_steps sample_taken sample_cancelled" using sample_cancel_step by blast
  then show ?thesis using replaced_fence_stays_refused [OF sample_taken_reachable s] by blast
qed

theorem reachable_rows_consistent_witness:
  "\<exists>s. stored sample_taken ''a'' s \<and> s_version s = VERSION
     \<and> (r_ended_ms (s_run s) \<noteq> None \<longleftrightarrow> r_outcome (s_run s) \<noteq> None)"
proof -
  obtain s where s: "stored sample_taken ''a'' s" by (rule sample_taken_stored)
  from reachable_rows_consistent [OF sample_taken_reachable s] s show ?thesis by blast
qed

end
