(* ===== verification/Due_Runs.thy ===== *)
theory Due_Runs
  imports Store_Machine
begin

text \<open>
  What a worker is told to claim (\<^verbatim>\<open>due_as\<close> of \<^verbatim>\<open>crates/durable/src/engine.rs\<close>): the listed runs are the first
  of all due runs in the order of their due times, for any page limit, whether they come from the common index
  or are merged from the partitions of the versions the worker accepts.
\<close>

section \<open>Cutting sorted lists\<close>

lemma sorted_filter_eq:
  fixes xs ys :: "'a::linorder list"
  assumes "sorted_wrt (<) xs" and "sorted_wrt (<) ys" and "set ys = {x \<in> set xs. P x}"
  shows "ys = filter P xs"
proof (rule strict_sorted_equal)
  show "sorted_wrt (<) (filter P xs)" using assms(1) by (rule sorted_wrt_filter)
qed (use assms(2,3) in auto)

text \<open>A sorted selection that holds the first elements begins with them.\<close>

lemma take_limit_selection:
  fixes xs ys :: "'a::linorder list"
  assumes "sorted_wrt (<) xs" and "sorted_wrt (<) ys" and "set ys \<subseteq> set xs" and "set (take_limit n xs) \<subseteq> set ys"
  shows "take_limit n ys = take_limit n xs"
proof (cases n)
  case None
  then show ?thesis
    using assms by (auto intro: strict_sorted_equal)
next
  case (Some m)
  have "ys = filter (\<lambda>x. x \<in> set ys) xs"
    using assms(3) by (intro sorted_filter_eq [OF assms(1,2)]) auto
  also have "\<dots> = filter (\<lambda>x. x \<in> set ys) (take m xs) @ filter (\<lambda>x. x \<in> set ys) (drop m xs)"
    by (simp flip: filter_append)
  also have "filter (\<lambda>x. x \<in> set ys) (take m xs) = take m xs"
    using assms(4) Some by (auto simp: take_limit_def filter_id_conv)
  finally have eq: "ys = take m xs @ filter (\<lambda>x. x \<in> set ys) (drop m xs)" .
  show ?thesis
  proof (cases "m \<le> length xs")
    case True
    then show ?thesis using Some by (subst eq) (simp add: take_limit_def)
  next
    case False
    then show ?thesis using Some by (subst eq) (simp add: take_limit_def)
  qed
qed

text \<open>The first elements of a class are among the first elements of it alone.\<close>

lemma take_limit_class:
  assumes "x \<in> set (take_limit n xs)" and "P x"
  shows "x \<in> set (take_limit n (filter P xs))"
proof (cases n)
  case (Some m)
  have "x \<in> set (filter P (take m xs))" using assms Some by (simp add: take_limit_def)
  moreover have "filter P xs = filter P (take m xs) @ filter P (drop m xs)"
    by (simp flip: filter_append)
  moreover have "length (filter P (take m xs)) \<le> m"
    by (rule order_trans [OF length_filter_le]) simp
  ultimately show ?thesis using Some by (simp add: take_limit_def)
qed (use assms in simp)

text \<open>Merging the cut classes and cutting again is cutting the whole.\<close>

lemma merge_cut_classes:
  fixes xs :: "'a::linorder list"
  assumes xs: "sorted_wrt (<) xs" and vs: "distinct vs" and in_vs: "\<And>x. x \<in> set xs \<Longrightarrow> f x \<in> set vs"
  shows "take_limit n (sort (concat (map (\<lambda>v. take_limit n (filter (\<lambda>x. f x = v) xs)) vs))) = take_limit n xs"
proof (rule take_limit_selection [OF xs])
  let ?cut = "\<lambda>v. take_limit n (filter (\<lambda>x. f x = v) xs)"
  have part: "set (?cut v) \<subseteq> {x \<in> set xs. f x = v}" for v
    using set_take_limit [of n "filter (\<lambda>x. f x = v) xs"] by auto
  have "distinct (concat (map ?cut vs))"
    using vs
  proof (induction vs)
    case (Cons v vs)
    have "distinct xs" using xs strict_sorted_iff by blast
    then have "distinct (?cut v)" by (simp add: take_limit_def split: option.split)
    moreover have "set (?cut v) \<inter> set (concat (map ?cut vs)) = {}"
    proof (rule equals0I)
      fix x assume x: "x \<in> set (?cut v) \<inter> set (concat (map ?cut vs))"
      then obtain w where "w \<in> set vs" "x \<in> set (?cut w)" by auto
      moreover from this have "f x = w" using part by blast
      moreover have "f x = v" using x part by blast
      ultimately show False using Cons.prems by simp
    qed
    ultimately show ?case using Cons by auto
  qed simp
  then show "sorted_wrt (<) (sort (concat (map ?cut vs)))"
    by (simp add: strict_sorted_iff)
  show "set (sort (concat (map ?cut vs))) \<subseteq> set xs"
  proof
    fix x assume "x \<in> set (sort (concat (map ?cut vs)))"
    then obtain v where "x \<in> set (?cut v)" by auto
    then show "x \<in> set xs" using part by blast
  qed
  show "set (take_limit n xs) \<subseteq> set (sort (concat (map ?cut vs)))"
  proof
    fix x assume x: "x \<in> set (take_limit n xs)"
    then have "x \<in> set (?cut (f x))" by (rule take_limit_class) simp
    moreover have "f x \<in> set vs" using in_vs subsetD [OF set_take_limit x] by simp
    ultimately show "x \<in> set (sort (concat (map ?cut vs)))" by auto
  qed
qed

section \<open>The rows of a due index\<close>

text \<open>
  The times of a store are \<^verbatim>\<open>i64\<close> values, which the integers of the model need not be; \<open>times_i64\<close> says it
  of the due times of the stored runs.
\<close>

definition times_i64 :: "db \<Rightarrow> bool" where
  "times_i64 r \<longleftrightarrow> list_all (\<lambda>(_, v). case v of
     RRun s \<Rightarrow> (case due_at s of None \<Rightarrow> True | Some at \<Rightarrow> is_i64 at) | _ \<Rightarrow> True) (bt_entries r)"

lemma times_i64D: "times_i64 r \<Longrightarrow> stored r i s \<Longrightarrow> due_at s = Some at \<Longrightarrow> is_i64 at"
  by (fastforce simp: times_i64_def list_all_entries stored_def)

text \<open>\<open>due_run r now s\<close>: a stored run a claim at \<open>now\<close> would be given.\<close>

definition due_run :: "db \<Rightarrow> int \<Rightarrow> stored_run \<Rightarrow> bool" where
  "due_run r now s \<longleftrightarrow> stored r (s_id s) s \<and> claimable (s_run s) now"

lemma claimable_due:
  "wf_run s \<Longrightarrow> claimable (s_run s) now \<longleftrightarrow>
     r_ended_ms (s_run s) = None \<and> (\<exists>at. due_at s = Some at \<and> at \<le> now)"
  by (auto simp: claimable_def due_at_def wf_run_def terminal_state_def split: run_state.splits option.splits)

lemma due_run_iff:
  "good r \<Longrightarrow> due_run r now s \<longleftrightarrow> stored r (s_id s) s \<and> r_ended_ms (s_run s) = None
     \<and> (\<exists>at. due_at s = Some at \<and> at \<le> now)"
  unfolding due_run_def using claimable_due good_wf by blast

definition due_entry :: "stored_run \<Rightarrow> string \<times> string" where
  "due_entry s = (timed (the (due_at s)) (s_id s), s_id s)"

text \<open>The entries a scan of an index partition gives, as pairs of a key and the id the row names.\<close>

definition scanned_ids :: "db \<Rightarrow> string \<Rightarrow> int \<Rightarrow> nat option \<Rightarrow> (string \<times> string) list" where
  "scanned_ids r kind now limit =
     map (\<lambda>((_, k), v). (k, row_id v)) (scan_rows r kind [] (Some (until_key now)) limit)"

lemma commits_index_ids:
  assumes "commits (index_ids what rs) r ids r'"
  shows "r' = r \<and> ids = map (\<lambda>((_, k), v). (k, row_id v)) rs"
  using assms unfolding index_ids_def
  by (induction rs arbitrary: ids r') (auto simp: row_id_def)

lemma scanned_ids_cut: "scanned_ids r kind now limit = take_limit limit (scanned_ids r kind now None)"
  by (simp add: scanned_ids_def scan_rows_def map_take_limit)

lemma scanned_ids_sorted: "sorted_wrt (<) (scanned_ids r kind now limit)"
proof -
  have "sorted_wrt (\<lambda>a b. fst a < fst b) (scan_rows r kind [] (Some (until_key now)) limit)"
    using scan_rows_sorted by (simp add: sorted_wrt_map)
  then have "sorted_wrt (\<lambda>a b. snd (fst a) < snd (fst b)) (scan_rows r kind [] (Some (until_key now)) limit)"
  proof (rule sorted_wrt_mono_rel [rotated])
    fix a b
    assume "a \<in> set (scan_rows r kind [] (Some (until_key now)) limit)"
      "b \<in> set (scan_rows r kind [] (Some (until_key now)) limit)" "fst a < fst b"
    moreover have "fst (fst e) = kind" if "e \<in> set (scan_rows r kind [] (Some (until_key now)) limit)" for e
      using scan_rows_get [of "fst e" "snd e"] that by (simp add: in_range_def)
    ultimately show "snd (fst a) < snd (fst b)"
      by (metis less_prod_def less_irrefl prod.collapse less_prod_simp)
  qed
  then show ?thesis
    by (auto simp: scanned_ids_def sorted_wrt_map split_def less_prod_def elim: sorted_wrt_mono_rel [rotated])
qed

lemma in_scanned_ids:
  "(k, i) \<in> set (scanned_ids r kind now None) \<longleftrightarrow>
     k < until_key now \<and> (\<exists>v. bt_get r (kind, k) = Some v \<and> row_id v = i)"
  by (force simp: scanned_ids_def scan_rows_all in_range_def)

lemma due_before:
  assumes "good r" and "times_i64 r" and "is_i64 now" and "stored r i s" and "r_ended_ms (s_run s) = None"
    and "due_at s = Some at"
  shows "timed at i < until_key now \<longleftrightarrow> due_run r now s"
  using assms good_id [OF assms(1,4)] times_i64D [OF assms(2,4,6)]
  by (auto simp: due_run_iff timed_less_until)

lemma due_entry_iff:
  assumes "good r" and "times_i64 r" and "is_i64 now"
  shows "due_run r now s \<and> (k, i) = due_entry s \<longleftrightarrow> stored r i s \<and> r_ended_ms (s_run s) = None
    \<and> (\<exists>at. due_at s = Some at \<and> k = timed at i) \<and> k < until_key now"
proof
  assume "due_run r now s \<and> (k, i) = due_entry s"
  then have s: "due_run r now s" "i = s_id s" "k = timed (the (due_at s)) i" by (auto simp: due_entry_def)
  then obtain at where at: "stored r i s" "r_ended_ms (s_run s) = None" "due_at s = Some at"
    by (auto simp: due_run_iff [OF assms(1)])
  then show "stored r i s \<and> r_ended_ms (s_run s) = None \<and> (\<exists>at. due_at s = Some at \<and> k = timed at i) \<and> k < until_key now"
    using due_before [OF assms at] s by simp
next
  assume "stored r i s \<and> r_ended_ms (s_run s) = None \<and> (\<exists>at. due_at s = Some at \<and> k = timed at i) \<and> k < until_key now"
  then obtain at where at: "stored r i s" "r_ended_ms (s_run s) = None" "due_at s = Some at" "k = timed at i" "k < until_key now"
    by blast
  then show "due_run r now s \<and> (k, i) = due_entry s"
    using due_before [OF assms at(1-3)] good_id [OF assms(1) at(1)] by (simp add: due_entry_def)
qed

lemma row_id_string [simp]: "row_id (RJson (String i)) = i"
  by (simp add: row_id_def index_id_def)

lemma set_scanned_due:
  assumes "good r" and "times_i64 r" and "is_i64 now"
  shows "set (scanned_ids r ''due'' now None) = due_entry ` {s. due_run r now s}"
proof (rule set_eqI, clarify)
  fix k i
  have "(k, i) \<in> set (scanned_ids r ''due'' now None) \<longleftrightarrow> k < until_key now \<and>
      (\<exists>s at. stored r i s \<and> r_ended_ms (s_run s) = None \<and> due_at s = Some at \<and> k = timed at i)"
    unfolding in_scanned_ids due_lookup [OF good_index [OF assms(1)]] by (metis row_id_string)
  also have "\<dots> \<longleftrightarrow> (k, i) \<in> due_entry ` {s. due_run r now s}"
    unfolding image_iff Bex_def mem_Collect_eq using due_entry_iff [OF assms, of _ k i] by metis
  finally show "(k, i) \<in> set (scanned_ids r ''due'' now None) \<longleftrightarrow> (k, i) \<in> due_entry ` {s. due_run r now s}" .
qed

lemma set_scanned_due_app:
  assumes "good r" and "times_i64 r" and "is_i64 now"
  shows "set (scanned_ids r (partition ''due_app'' v) now None) = due_entry ` {s. due_run r now s \<and> app_of s = v}"
proof (rule set_eqI, clarify)
  fix k i
  have "(k, i) \<in> set (scanned_ids r (partition ''due_app'' v) now None) \<longleftrightarrow> k < until_key now \<and>
      (\<exists>s at. stored r i s \<and> r_ended_ms (s_run s) = None \<and> app_of s = v \<and> due_at s = Some at \<and> k = timed at i)"
    unfolding in_scanned_ids due_app_lookup [OF good_index [OF assms(1)]] by (metis row_id_string)
  also have "\<dots> \<longleftrightarrow> (k, i) \<in> due_entry ` {s. due_run r now s \<and> app_of s = v}"
    unfolding image_iff Bex_def mem_Collect_eq using due_entry_iff [OF assms, of _ k i] by metis
  finally show "(k, i) \<in> set (scanned_ids r (partition ''due_app'' v) now None) \<longleftrightarrow>
      (k, i) \<in> due_entry ` {s. due_run r now s \<and> app_of s = v}" .
qed


section \<open>The listing\<close>

text \<open>The runs a worker's listing covers: all of them, or those of the versions it declares.\<close>

definition listed :: "compatibility \<Rightarrow> stored_run \<Rightarrow> bool" where
  "listed w s \<longleftrightarrow> (case c_version w of None \<Rightarrow> True | Some own \<Rightarrow> app_of s \<in> set ([] # own # c_accepts w))"

text \<open>Earlier in the listing: due before, or due at the same time with the smaller id.\<close>

definition earlier :: "stored_run \<Rightarrow> stored_run \<Rightarrow> bool" where
  "earlier s t \<longleftrightarrow> (the (due_at s), s_id s) < (the (due_at t), s_id t)"

lemma due_entry_inj: "inj_on due_entry {s. due_run r now s}"
  by (rule inj_onI) (auto simp: due_entry_def due_run_def dest: stored_unique)

lemma due_entry_less:
  assumes "good r" and "times_i64 r" and "due_run r now s" and "due_run r now t"
  shows "due_entry s < due_entry t \<longleftrightarrow> earlier s t"
proof -
  obtain a b where "due_at s = Some a" "due_at t = Some b" and st: "stored r (s_id s) s" "stored r (s_id t) t"
    using assms(3,4) by (auto simp: due_run_iff [OF assms(1)])
  moreover have "is_i64 a" "is_i64 b" using calculation times_i64D assms(2) by blast+
  ultimately show ?thesis
    by (auto simp: due_entry_def earlier_def le_less timed_less_timed timed_inject time_key_inject)
qed

lemma map_preimage: "set es \<subseteq> f ` S \<Longrightarrow> \<exists>ss. es = map f ss \<and> set ss \<subseteq> S"
proof (induction es)
  case (Cons e es)
  then obtain s ss where "e = f s" "s \<in> S" "es = map f ss" "set ss \<subseteq> S" by auto
  then have "e # es = map f (s # ss) \<and> set (s # ss) \<subseteq> S" by simp
  then show ?case by (rule exI)
qed simp

lemma due_entries_runs:
  assumes "good r" and "times_i64 r" and "sorted_wrt (<) es" and "set es = due_entry ` {s. due_run r now s \<and> P s}"
  obtains ss where "es = map due_entry ss" "set ss = {s. due_run r now s \<and> P s}" "sorted_wrt earlier ss"
proof -
  have "\<exists>ss. es = map due_entry ss \<and> set ss \<subseteq> {s. due_run r now s \<and> P s}"
    by (rule map_preimage) (simp add: assms(4))
  then obtain ss where ss: "es = map due_entry ss" "set ss \<subseteq> {s. due_run r now s \<and> P s}" by blast
  have "set ss = {s. due_run r now s \<and> P s}"
    using assms(4) ss due_entry_inj [of r now] by (auto simp: inj_on_def image_iff)
  moreover have "sorted_wrt earlier ss"
  proof -
    have "sorted_wrt (\<lambda>s t. due_entry s < due_entry t) ss"
      using assms(3) by (simp add: ss(1) sorted_wrt_map)
    then show ?thesis
      by (rule sorted_wrt_mono_rel [rotated]) (use ss(2) due_entry_less [OF assms(1,2)] in blast)
  qed
  ultimately show ?thesis using that ss(1) by blast
qed


lemma distinct_remdups_adj: "sorted xs \<Longrightarrow> distinct (remdups_adj xs)"
proof (induction xs rule: remdups_adj.induct)
  case (3 x y xs)
  then show ?case by (cases "x = y") (auto simp: order.strict_iff_order)
qed simp_all

lemma due_versions:
  "distinct (remdups_adj (sort vs))" "set (remdups_adj (sort vs)) = set vs"
  by (simp_all add: distinct_remdups_adj)

lemma commits_due_scans:
  assumes "commits (fold_tx vs (\<lambda>v due.
      bind (scan (partition ''due_app'' v) [] (Some (until_key now)) limit) (\<lambda>rs.
      bind (index_ids ''invalid due index'' rs) (\<lambda>ids. Ret (due @ ids)))) acc) r due r'"
  shows "r' = r \<and> due = acc @ concat (map (\<lambda>v. scanned_ids r (partition ''due_app'' v) now limit) vs)"
  using assms
proof (induction vs arbitrary: acc)
  case (Cons v vs)
  from Cons.prems obtain ids t where ids: "commits (index_ids ''invalid due index''
      (scan_rows r (partition ''due_app'' v) [] (Some (until_key now)) limit)) r ids t"
    and rest: "commits (fold_tx vs (\<lambda>v due.
      bind (scan (partition ''due_app'' v) [] (Some (until_key now)) limit) (\<lambda>rs.
      bind (index_ids ''invalid due index'' rs) (\<lambda>ids. Ret (due @ ids)))) (acc @ ids)) t due r'"
    by auto
  have "t = r" "ids = scanned_ids r (partition ''due_app'' v) now limit"
    using commits_index_ids [OF ids] by (simp_all add: scanned_ids_def)
  then show ?case using Cons.IH [of "acc @ ids"] rest by simp
qed simp

definition due_ids :: "db \<Rightarrow> int \<Rightarrow> nat option \<Rightarrow> compatibility \<Rightarrow> (string \<times> string) list" where
  "due_ids r now limit w = (case c_version w of
      None \<Rightarrow> scanned_ids r ''due'' now limit
    | Some own \<Rightarrow> take_limit limit (sort (concat (map (\<lambda>v. scanned_ids r (partition ''due_app'' v) now limit)
        (remdups_adj (sort ([] # own # c_accepts w)))))))"

text \<open>What a listing holds, in terms of the entries of the due indexes.\<close>

lemma commits_due_as:
  assumes "commits (due_as x now limit w) r ids r'" and "\<not> stopped r"
  shows "ids = map snd (due_ids r' now limit w)"
proof (cases "c_version w")
  case None
  with assms show ?thesis
    by (auto simp: due_as_def due_ids_def scanned_ids_def dest!: commits_is_stopped commits_index_ids split: if_splits)
next
  case (Some own)
  with assms show ?thesis
    by (auto simp: due_as_def due_ids_def dest!: commits_is_stopped commits_due_scans simp del: fold_tx.simps split: if_splits)
qed

lemma due_entries:
  assumes "good r" and "times_i64 r" and "is_i64 now"
  obtains es where "sorted_wrt (<) es" "set es = due_entry ` {s. due_run r now s \<and> listed w s}"
    "\<And>limit. due_ids r now limit w = take_limit limit es"
proof (cases "c_version w")
  case None
  show ?thesis
  proof (rule that [OF scanned_ids_sorted])
    show "set (scanned_ids r ''due'' now None) = due_entry ` {s. due_run r now s \<and> listed w s}"
      using None by (simp add: listed_def set_scanned_due [OF assms])
  qed (unfold due_ids_def None option.case, rule scanned_ids_cut)
next
  case (Some own)
  let ?vs = "remdups_adj (sort ([] # own # c_accepts w))"
  obtain all where all: "sorted_wrt (<) all" "set all = due_entry ` {s. due_run r now s \<and> listed w s}"
  proof (rule that [of "filter (\<lambda>e. \<exists>s. due_run r now s \<and> listed w s \<and> e = due_entry s) (scanned_ids r ''due'' now None)"])
  qed (auto simp: sorted_wrt_filter scanned_ids_sorted set_scanned_due [OF assms])
  define app where "app e = (THE v. \<exists>s. due_run r now s \<and> e = due_entry s \<and> v = app_of s)" for e
  have app: "app (due_entry s) = app_of s" if "due_run r now s" for s
    unfolding app_def using that due_entry_inj [of r now] by (auto simp: inj_on_def)
  have part: "scanned_ids r (partition ''due_app'' v) now limit = take_limit limit (filter (\<lambda>e. app e = v) all)"
    if "v \<in> set ([] # own # c_accepts w)" for v limit
  proof -
    have "scanned_ids r (partition ''due_app'' v) now None = filter (\<lambda>e. app e = v) all"
      using that app Some
      by (intro sorted_filter_eq [OF all(1) scanned_ids_sorted])
         (auto simp: all(2) set_scanned_due_app [OF assms] listed_def)
    then show ?thesis using scanned_ids_cut by metis
  qed
  have "take_limit limit (sort (concat (map (\<lambda>v. scanned_ids r (partition ''due_app'' v) now limit) ?vs))) = take_limit limit all"
    for limit
  proof -
    have "map (\<lambda>v. scanned_ids r (partition ''due_app'' v) now limit) ?vs
        = map (\<lambda>v. take_limit limit (filter (\<lambda>e. app e = v) all)) ?vs"
      using part due_versions(2) [of "[] # own # c_accepts w"] by (intro map_cong) auto
    moreover have "app e \<in> set ?vs" if "e \<in> set all" for e
      using that app Some unfolding due_versions(2) by (auto simp: all(2) listed_def)
    ultimately show ?thesis
      using merge_cut_classes [OF all(1) due_versions(1), of app] by metis
  qed
  then show ?thesis using that [OF all] Some by (simp add: due_ids_def)
qed


lemma good_due_as: "commits (due_as x now limit w) r ids r' \<Longrightarrow> good r \<Longrightarrow> good r'"
  using adds_due_as [of x now limit w] unfolding adds_def by blast

text \<open>The listing and \<^verbatim>\<open>claim_as\<close> agree on every run but those that declare the empty version.\<close>

lemma listed_iff:
  "listed w s \<longleftrightarrow> admits w (application_version (r_admission (s_run s)))
     \<or> c_version w \<noteq> None \<and> application_version (r_admission (s_run s)) = Some []"
  by (auto simp: listed_def admits_def app_of_def split: option.splits)

section \<open>Properties\<close>

text \<open>
  C10. A listing of due runs is exact: it names, in the order of their due times and then of their ids, the first
  \<open>limit\<close> of all the runs that a claim at \<open>now\<close> would be given among those the listing covers; each once, and
  none is missed when the limit is not reached. It does not matter that a worker with a declared version
  reads several partitions under the same limit and merges them.
\<close>

theorem due_runs_in_order:
  assumes "reachable r" and "\<not> stopped r" and "commits (due_as x now limit w) r ids r'"
    and "times_i64 r'" and "is_i64 now"
  shows "\<exists>ss. ids = map s_id (take_limit limit ss) \<and> sorted_wrt earlier ss
    \<and> set ss = {s. stored r' (s_id s) s \<and> claimable (s_run s) now \<and> listed w s}"
proof -
  have good: "good r'" using good_due_as [OF assms(3) reachable_good [OF assms(1)]] .
  obtain es where es: "sorted_wrt (<) es" "set es = due_entry ` {s. due_run r' now s \<and> listed w s}"
    "ids = map snd (take_limit limit es)"
    using due_entries [OF good assms(4,5), of w] commits_due_as [OF assms(3,2)] by metis
  obtain ss where ss: "es = map due_entry ss" "set ss = {s. due_run r' now s \<and> listed w s}" "sorted_wrt earlier ss"
    by (rule due_entries_runs [OF good assms(4) es(1,2)])
  have "ids = map s_id (take_limit limit ss)"
    by (simp add: es(3) ss(1) due_entry_def flip: map_take_limit)
  then show ?thesis using ss(2,3) unfolding due_run_def by (intro exI [of _ ss]) simp
qed


section \<open>Witnesses\<close>

text \<open>A second run is admitted at 2000; at 40000 it is due before the first, whose lease ended at 31000.\<close>

definition sample_two :: db where
  "sample_two = after (admit sample_ext (sample_admission ''b'' ''d'') 2000) sample_started"

definition sample_due :: "string list op" where
  "sample_due = due_as sample_ext 40000 (Some 1) any_worker"

lemma sample_admit: "result (admit sample_ext (sample_admission ''b'' ''d'') 2000) sample_started = Some (Inr True)"
  by code_simp

lemma sample_two_reachable: "reachable sample_two"
proof -
  have "store_step sample_started sample_two"
    unfolding sample_two_def by (rule store_step.admit, rule commits_result, rule sample_admit)
  then show ?thesis using sample_reachable reachable_steps by blast
qed

lemma sample_listing: "result sample_due sample_two = Some [''b'']"
  by code_simp

lemma sample_two_running: "\<not> stopped sample_two"
  by code_simp

lemma sample_times: "times_i64 (after sample_due sample_two)"
  by code_simp

theorem due_runs_in_order_witness:
  "\<exists>ss. [''b''] = map s_id (take_limit (Some 1) ss) \<and> sorted_wrt earlier ss
     \<and> set ss = {s. stored (after sample_due sample_two) (s_id s) s \<and> claimable (s_run s) 40000 \<and> listed any_worker s}"
  using due_runs_in_order [OF sample_two_reachable sample_two_running
      commits_result [OF sample_listing, unfolded sample_due_def] sample_times [unfolded sample_due_def]]
  by (simp add: sample_due_def is_i64_def I64_MIN_def I64_MAX_def del: One_nat_def)

text \<open>A run admitted with the empty version, and a worker of version \<open>v1\<close>.\<close>

definition sample_unversioned :: db where
  "sample_unversioned =
     after (admit sample_ext ((sample_admission ''u'' ''d'')\<lparr>a_runtime := Object [(APPLICATION_VERSION, String [])]\<rparr>) 1000) bt_empty"

definition v1_worker :: compatibility where
  "v1_worker = \<lparr>c_version = Some ''v1'', c_accepts = []\<rparr>"

lemma sample_unversioned_row:
  "case bt_get sample_unversioned (''run'', ''u'') of
     Some (RRun s) \<Rightarrow> application_version (r_admission (s_run s)) = Some [] | _ \<Rightarrow> False"
  by code_simp

lemma sample_unversioned_claim: "result (claim_as ''u'' 5000 v1_worker ''w'') sample_unversioned = Some None"
  by code_simp


end
