(* ===== verification/Frames.thy ===== *)
theory Frames
  imports Store_Machine
begin

text \<open>
  Which families of rows an operation may write. Runs, their indexes, their mailboxes, the catalog with its
  triggers and queues and the totals are the store's working rows; the journal, the ingress identities, the
  operator's commands, the emergency stop and the workers are written only by the operations named here, and
  what they say therefore survives every other operation.
\<close>

definition work_families :: "string list" where
  "work_families = ''run'' # id_families @ timed_families @ wait_families
     @ [''event'', ''event_id'', ''event_type'', ''pending'', ''live'', ''published'', ''live_published'', ''expiry'',
        ''delivered'', ''definitions'', ''notice'', ''paused'', ''trigger'', ''trigger_due'', ''trigger_type'',
        ''trigger_queue'', ''queue_name'', ''trigger_run'', ''control_drain'', ''totals'', ''budget'']"

text \<open>\<open>frames Fs m\<close>: a commit of \<open>m\<close> changes no row outside the working rows and the families \<open>Fs\<close>.\<close>

definition outside :: "string list \<Rightarrow> key \<Rightarrow> bool" where
  "outside fs k \<longleftrightarrow> family (fst k) \<notin> set (work_families @ fs)"

definition frames :: "string list \<Rightarrow> 'a op \<Rightarrow> bool" where
  "frames fs m \<longleftrightarrow> (\<forall>r a r' k. commits m r a r' \<longrightarrow> outside fs k \<longrightarrow> bt_get r' k = bt_get r k)"

lemma framesD: "frames fs m \<Longrightarrow> commits m r a r' \<Longrightarrow> outside fs k \<Longrightarrow> bt_get r' k = bt_get r k"
  unfolding frames_def by blast

section \<open>Rules\<close>

lemma frames_bind: "frames fs m \<Longrightarrow> (\<And>a. frames fs (g a)) \<Longrightarrow> frames fs (bind m g)"
  unfolding frames_def commits_bind by metis

lemma frames_writes: "writes_in (\<lambda>k. \<not> outside fs k) m \<Longrightarrow> frames fs m"
  unfolding frames_def by (intro allI impI, rule writes_in_frame) auto

lemma frames_more: "frames [] m \<Longrightarrow> frames fs m"
  by (auto simp: frames_def outside_def)

lemma frames_Ret [simp]: "frames fs (Ret a)" "frames fs (Fail e)"
  by (simp_all add: frames_def)

lemma frames_reads: "reads_only m \<Longrightarrow> frames fs m"
  by (rule frames_writes) (erule writes_in_mono, simp)

lemma frames_for_each: "(\<And>x. x \<in> set xs \<Longrightarrow> frames fs (f x)) \<Longrightarrow> frames fs (for_each xs f)"
  by (induction xs) (auto intro!: frames_bind)

lemma frames_fold_tx: "(\<And>x s. x \<in> set xs \<Longrightarrow> frames fs (f x s)) \<Longrightarrow> frames fs (fold_tx xs f s)"
  by (induction xs arbitrary: s) (auto intro!: frames_bind)

lemma frames_scan_loop:
  assumes "\<And>rs. (\<And>e. e \<in> set rs \<Longrightarrow> fst (fst e) = kind) \<Longrightarrow> frames fs (g rs)"
  shows "frames fs (bind (scan kind lo hi lim) g)"
  unfolding frames_def
proof (intro allI impI)
  fix r a r' k
  assume "commits (bind (scan kind lo hi lim) g) r a r'" "outside fs k"
  moreover have "frames fs (g (scan_rows r kind lo hi lim))"
    by (rule assms) (simp add: scanned_kind)
  ultimately show "bt_get r' k = bt_get r k" by (simp add: framesD)
qed

lemma frames_prims [simp]:
  "frames fs (get kind i)" "frames fs (scan kind lo hi lim)" "frames fs (ensure b e)" "frames fs (of_option e x)"
  "frames fs (of_sum y)" "frames fs (get_as dec kind i)" "frames fs (find_run i)" "frames fs (load_run i)"
  "frames fs (indexed_runs kind lo hi lim)" "frames fs (load_definitions name)" "frames fs (queued k)"
  "frames fs is_stopped" "frames fs running" "frames fs (admitted a now j)" "frames fs (authority f now skew)"
  "frames fs (checked f now skew)" "frames fs (not_held s)" "frames fs (capacity name limit)"
  "frames fs (drained_refusal d a)" "frames fs (first_pending kinds)" "frames fs (pending_wanted s now)"
  "frames fs (tombstone event now)" "frames fs (ingested event now)" "frames fs (first_refusal d as)"
  "frames fs (busy_outcome fi)"
  by (rule frames_reads, simp add: not_held_def)+

lemma in_work: "f \<in> set work_families \<Longrightarrow> f \<in> set (work_families @ fs)"
  by simp

lemma frames_write [simp]:
  "\<not> outside fs (kind, i) \<Longrightarrow> frames fs (put kind i v)" "\<not> outside fs (kind, i) \<Longrightarrow> frames fs (delete kind i)"
  by (rule frames_writes, simp)+

lemma work_keys [simp]:
  "\<not> outside fs (''run'', i)" "\<not> outside fs (events_of v, i)" "\<not> outside fs (identities_of v, i)"
  "\<not> outside fs (types_of v, i)" "\<not> outside fs (pending_of v t, i)" "\<not> outside fs (live_of v t, i)"
  "\<not> outside fs (published_of v, i)" "\<not> outside fs (live_published_of v, i)" "\<not> outside fs (expiring_of v, i)"
  "\<not> outside fs (partition ''delivered'' v, i)" "\<not> outside fs (partition ''queue_name'' v, i)"
  "\<not> outside fs (partition ''trigger_type'' v, i)" "\<not> outside fs (partition ''totals'' v, i)"
  "\<not> outside fs (''definitions'', i)" "\<not> outside fs (''notice'', i)" "\<not> outside fs (''paused'', i)"
  "\<not> outside fs (''trigger'', i)" "\<not> outside fs (''trigger_due'', i)" "\<not> outside fs (''trigger_queue'', i)"
  "\<not> outside fs (''trigger_run'', i)" "\<not> outside fs (''control_drain'', i)" "\<not> outside fs (''budget'', i)"
  by (simp_all add: outside_def work_families_def events_of_def identities_of_def types_of_def pending_of_def
      live_of_def published_of_def live_published_of_def expiring_of_def)

lemma index_inside: "is_index k \<Longrightarrow> \<not> outside fs k"
  by (auto simp: is_index_def outside_def work_families_def)

lemma frames_store [simp]: "frames fs (store_run s)" "frames fs (store_run_indexed s (indexes t))"
proof -
  have own: "\<not> outside fs k" if "own_row (s_id s) k" for k
    using that index_inside [of k] by (auto simp: own_row_def)
  show "frames fs (store_run s)"
    by (rule frames_writes, rule writes_in_mono [OF writes_in_store_run], rule own)
  show "frames fs (store_run_indexed s (indexes t))"
    by (rule frames_writes, rule writes_in_mono [OF writes_in_store_run_indexed], rule indexes_has, assumption, rule own)
qed

section \<open>Mailboxes\<close>

lemma pending_rows_inside: "(kind, k, v) \<in> set (pending_rows i n e) \<Longrightarrow> \<not> outside fs (kind, k)"
  by (auto simp: pending_rows_def split: option.splits if_splits)

lemma frames_pending [simp]:
  "frames fs (for_each (pending_rows i n e) (\<lambda>(kind, k, v). put kind k v))"
  "frames fs (for_each (pending_rows i n e) (\<lambda>(kind, k, v). delete kind k))"
  by (rule frames_for_each, auto intro!: frames_write dest: pending_rows_inside)+

lemma frames_mailbox [simp]:
  "frames fs (copy i n)" "frames fs (push s e)" "frames fs (consume s n e k)" "frames fs (refresh_mailbox s)"
  unfolding copy_def push_def consume_def refresh_mailbox_def Let_def
  by (auto intro!: frames_bind split: option.split list.split prod.split)

lemma frames_accept [simp]: "frames fs (accept s e now)"
  unfolding accept_def Let_def by (auto intro!: frames_bind split: option.split)

lemma frames_deliver [simp]: "frames fs (deliver event target now pol)"
  unfolding deliver_def find_recipient_def Let_def by (auto intro!: frames_bind split: option.split prod.split)

lemma frames_notify [simp]: "frames fs (notify parent t data now)"
  unfolding notify_def Let_def by (auto intro!: frames_bind)

lemma frames_publish [simp]: "frames fs (publish event target now pol)"
  unfolding publish_def find_subscribers_def Let_def
  by (auto intro!: frames_bind frames_fold_tx split: option.split prod.split)


section \<open>Catalog and queues\<close>

lemma frames_catalog [simp]: "frames fs (store_definitions name defs)" "frames fs (remove_queue k)"
  unfolding store_definitions_def remove_queue_def by (auto intro!: frames_bind split: option.split)

lemma trigger_indexes_inside: "bt_has (trigger_indexes k t) l \<Longrightarrow> \<not> outside fs l"
  by (auto simp: trigger_indexes_def bt_of_list_has split: option.splits)

lemma frames_store_trigger [simp]: "frames fs (store_trigger k before new)"
proof -
  have "frames fs (for_each (changes (case before of None \<Rightarrow> bt_empty | Some u \<Rightarrow> trigger_indexes k u)
      (case new of None \<Rightarrow> bt_empty | Some u \<Rightarrow> trigger_indexes k u)) write_change)"
    by (intro frames_writes writes_in_changes) (auto split: option.splits dest: trigger_indexes_inside)
  then show ?thesis
    unfolding store_trigger_def Let_def by (rule frames_bind) (auto split: option.split)
qed

lemma frames_arm [simp]: "frames fs (arm defs ts)"
  unfolding arm_def by (auto intro!: frames_bind frames_for_each split: prod.split)

lemma frames_breaker [simp]: "frames fs (breaker x r fault success dflt now)"
  unfolding breaker_def Let_def by (auto intro!: frames_bind split: option.split)

lemma frames_activate [simp]: "frames fs (activate name version epoch arming act)"
  unfolding activate_def Let_def by (auto intro!: frames_bind split: option.split)

lemma frames_save_definition [simp]: "frames fs (save_definition x name yaml brk)" "frames fs (acknowledge k)"
  unfolding save_definition_def acknowledge_def Let_def by (auto intro!: frames_bind)

lemma frames_insert_run [simp]: "frames fs (insert_run a now)"
  unfolding insert_run_def by (auto intro!: frames_bind split: option.split)

lemma frames_refuse [simp]: "frames fs (refuse x rf now)"
  unfolding refuse_def Let_def by (auto intro!: frames_bind split: option.split)

lemma frames_admit_firing [simp]: "frames fs (admit_firing k a ra nxt now)"
  unfolding admit_firing_def by (auto intro!: frames_bind)

lemma frames_drain_slot [simp]: "frames fs (drain_slot x name now k)"
  unfolding drain_slot_def by (auto intro!: frames_bind split: option.split prod.split)

lemma frames_drain [simp]:
  "frames fs (drain_queues x name now)" "frames fs (drain_marked x name now)" "frames fs (drain_pending x now limit)"
  unfolding drain_marked_def drain_pending_def drain_queues_def
  by (auto intro!: frames_bind frames_for_each split: prod.split)

lemma frames_admit [simp]: "frames fs (admit x a now)" "frames fs (start x a now owner)"
  unfolding admit_def start_def by (auto intro!: frames_bind split: option.split prod.split)

section \<open>Leases\<close>

lemma frames_claim_as [simp]: "frames fs (claim_as i now w owner)"
  unfolding claim_as_def by (auto intro!: frames_bind split: option.split prod.split)

lemma frames_renew [simp]: "frames fs (renew pol f now)" "frames fs (release pol f now)"
  unfolding renew_def release_def Let_def by (auto intro!: frames_bind)

lemma frames_waits [simp]:
  "frames fs (register_wait pol f types now)" "frames fs (unregister_wait pol f k types now)"
  "frames fs (subscribe pol f k types now)" "frames fs (unsubscribe pol f k now)"
  "frames fs (describe_wait pol f k wait now)"
  unfolding register_wait_def unregister_wait_def subscribe_def unsubscribe_def describe_wait_def Let_def
  by (auto intro!: frames_bind)

lemma frames_index_ids [simp]: "frames fs (index_ids what rs)"
  unfolding index_ids_def by (rule frames_reads) (auto intro!: writes_in_bind split: prod.split)

lemma frames_due_as [simp]: "frames fs (due_as x now limit w)"
  unfolding due_as_def by (auto intro!: frames_bind frames_fold_tx split: option.split)

section \<open>Lifecycle\<close>

lemma frames_lifecycle [simp]: "frames fs (lifecycle i status now)"
  unfolding lifecycle_def close_waiting_def Let_def
  by (auto intro!: frames_bind split: option.split status.split)

lemma frames_cascade [simp]: "frames fs (cascade n x used now ps st)"
proof (induction n x used now ps st rule: cascade.induct)
  case (3 n x used now p ps st)
  then show ?case
    unfolding cascade.simps
    by (intro frames_bind frames_fold_tx)
       (auto simp: cancel_child_def Let_def intro!: frames_bind split: prod.split)
qed simp_all

lemma frames_rearm_trigger [simp]: "frames fs (rearm_trigger s now)" "frames fs (add_bucket x name now runs sums)"
  unfolding rearm_trigger_def add_bucket_def Let_def by (auto intro!: frames_bind split: option.split prod.split)

lemma frames_terminate [simp]: "frames fs (terminate fuel x i status now)"
  unfolding terminate_def Let_def by (auto intro!: frames_bind frames_for_each split: prod.split)

lemma frames_cancel_run [simp]: "frames fs (cancel_run fuel x i now)"
  unfolding cancel_run_def by (auto intro!: frames_bind split: option.split)

lemma frames_finish_state [simp]: "frames fs (finish_state s outcome now)"
  unfolding finish_state_def Let_def by (auto intro!: frames_bind split: status.split)

lemma frames_finish [simp]: "frames fs (finish fuel x pol f outcome now threshold)"
  unfolding finish_def Let_def by (auto intro!: frames_bind split: prod.split)

lemma frames_start_child [simp]: "frames fs (start_child x pol f a link now owner)"
  unfolding start_child_def Let_def by (auto intro!: frames_bind split: option.split prod.split)


section \<open>Operations with rows of their own\<close>

lemma record_inside [simp]: "''record'' \<in> set fs \<Longrightarrow> \<not> outside fs (records_of v, i)"
  by (simp add: outside_def records_of_def)

lemma frames_expire [simp]: "''record'' \<in> set fs \<Longrightarrow> frames fs (expire x s now)"
  unfolding expire_def by (auto intro!: frames_bind frames_fold_tx split: prod.split)

lemma frames_save_record: "frames [''record''] (save_record x pol f k rec now)"
  unfolding save_record_def Let_def by (intro frames_bind) (auto simp: frames_reads)

lemma frames_take_event: "frames [''record''] (take_event x pol f k types now)"
  unfolding take_event_def take_copy_def Let_def
  by (auto intro!: frames_bind split: option.split prod.split journal_record.split)

lemma frames_spend: "frames [''record''] (spend pol f k limit now)"
  unfolding spend_def refused_first_def Let_def
  by (auto intro!: frames_bind split: option.split journal_record.split)

lemma frames_forget_copies [simp]: "frames fs (forget_copies i)"
  unfolding forget_copies_def
  by (intro frames_scan_loop frames_bind frames_for_each)
     (auto intro!: frames_bind frames_write split: option.split prod.split, (metis work_keys)+)

lemma frames_forget [simp]: "''record'' \<in> set fs \<Longrightarrow> frames fs (forget s)"
  unfolding forget_def
  by (intro frames_scan_loop frames_bind frames_for_each)
     (auto intro!: frames_write, metis record_inside)

lemma frames_sweep_index:
  "(\<And>i. \<not> outside fs (index, i)) \<Longrightarrow> (\<And>i. \<not> outside fs (kind, i)) \<Longrightarrow> frames fs (sweep_index index kind what stop)"
  unfolding sweep_index_def by (auto intro!: frames_bind frames_fold_tx split: prod.split)

lemma frames_sweep: "frames [''record'', ''ingress'', ''ingress_due'', ''worker'', ''worker_expiry''] (sweep x now kept)"
  unfolding sweep_def Let_def
  by (intro frames_bind frames_fold_tx frames_sweep_index)
     (auto intro!: frames_bind simp: outside_def split: prod.split)

lemma frames_bury: "frames [''ingress'', ''ingress_due''] (bury event k old now pol)"
  unfolding bury_def Let_def by (auto intro!: frames_bind simp: outside_def split: option.split)

lemma frames_overlap_outcome [simp]: "frames fs (overlap_outcome fuel x f g a now)"
  unfolding overlap_outcome_def
  by (intro frames_bind) (auto intro!: frames_bind frames_for_each split: prod.split)

lemma frames_fire_outcome [simp]: "frames fs (fire_outcome fuel x f now)"
  unfolding fire_outcome_def by (auto split: option.split)

lemma frames_fire: "frames [''ingress'', ''ingress_due''] (fire fuel x f now pol)"
  unfolding fire_def fire_checked_def
  by (auto intro!: frames_bind frames_for_each frames_bury split: option.split prod.split fired.split)

lemma frames_beat: "frames [''worker'', ''worker_expiry''] (beat w)"
  unfolding beat_def by (auto intro!: frames_bind simp: outside_def split: option.split)

lemma frames_hold_tree [simp]: "frames fs (hold_tree n tree nxt)"
  by (induction n arbitrary: tree nxt) (auto intro!: frames_bind)

lemma frames_set_hold [simp]: "frames fs (set_hold fuel i h)"
  unfolding set_hold_def by (auto intro!: frames_bind frames_fold_tx)

lemma frames_pause [simp]: "frames fs (pause rq name note now)"
  unfolding pause_def suspend_def Let_def by (auto intro!: frames_bind frames_fold_tx split: option.split prod.split)

lemma frames_resume [simp]: "frames fs (resume x name now)"
  unfolding resume_def by (auto intro!: frames_bind frames_for_each split: option.split prod.split)

lemma frames_set_stop: "frames [''control''] (set_stop x enabled now)"
  unfolding set_stop_def by (auto intro!: frames_bind simp: outside_def)

lemma frames_offer_to_wildcard [simp]: "frames fs (offer_to_wildcard i n now)"
  unfolding offer_to_wildcard_def by (auto intro!: frames_bind)

lemma frames_respond: "frames [''control_response''] (respond x pol rq c i k event now)"
  unfolding respond_def response_event_def Let_def
  by (auto intro!: frames_bind simp: outside_def split: option.split sum.split json.split)


text \<open>Only the command log's own rows are added to those of the command that is performed.\<close>

lemma outside_mono: "set fs \<subseteq> set gs \<Longrightarrow> outside gs k \<Longrightarrow> outside fs k"
  by (auto simp: outside_def)

lemma frames_weaken: "frames fs m \<Longrightarrow> set fs \<subseteq> set gs \<Longrightarrow> frames gs m"
  unfolding frames_def using outside_mono by blast

lemma frames_perform: "frames [''control'', ''control_response''] (perform fuel x pol rq c now)"
  unfolding perform_def Let_def
  by (auto intro!: frames_bind frames_weaken [OF frames_set_stop] frames_weaken [OF frames_respond]
      split: command.split option.split)

lemma frames_control_command:
  "frames [''control'', ''control_response'', ''control_command'', ''control_history'', ''control_history_run'']
     (control_command fuel x pol rq c now)"
  unfolding control_command_def Let_def
  by (auto intro!: frames_bind frames_weaken [OF frames_perform] simp: outside_def split: option.split)

end
