(* ===== verification/Journal_Safety.thy ===== *)
theory Journal_Safety
  imports Frames
begin

text \<open>
  The journal of a run: what a step recorded is what every later attempt replays. A record only advances along
  the legal transitions, whatever operations commit in between; it disappears only when retention forgets an
  ended run, and an ended run never records anything again.
\<close>

section \<open>Transitions\<close>

lemma check_transition_refl [simp]: "check_transition a a"
  by (simp add: check_transition_def)

lemma check_transition_trans: "check_transition a b \<Longrightarrow> check_transition b c \<Longrightarrow> check_transition a c"
  by (auto simp: check_transition_def is_done_def split: journal_record.splits option.splits call_state.splits)

section \<open>Programs that leave a row alone\<close>

definition leaves :: "key \<Rightarrow> 'a op \<Rightarrow> bool" where
  "leaves k m \<longleftrightarrow> (\<forall>r a r'. commits m r a r' \<longrightarrow> bt_get r' k = bt_get r k)"

lemma leavesD: "leaves k m \<Longrightarrow> commits m r a r' \<Longrightarrow> bt_get r' k = bt_get r k"
  unfolding leaves_def by blast

lemma leaves_bind: "leaves k m \<Longrightarrow> (\<And>a. leaves k (g a)) \<Longrightarrow> leaves k (bind m g)"
  unfolding leaves_def commits_bind by metis

lemma leaves_frames: "frames fs m \<Longrightarrow> outside fs k \<Longrightarrow> leaves k m"
  by (simp add: leaves_def framesD)

lemma leaves_fold_tx: "(\<And>x s. x \<in> set xs \<Longrightarrow> leaves k (f x s)) \<Longrightarrow> leaves k (fold_tx xs f s)"
proof (induction xs arbitrary: s)
  case (Cons x xs)
  then show ?case unfolding fold_tx.simps by (intro leaves_bind) auto
qed (simp add: leaves_def)

lemma leaves_Ret [simp]: "leaves k (Ret a)" "leaves k (Fail e)"
  by (simp_all add: leaves_def)

lemma leaves_put: "k \<noteq> (kind, i) \<Longrightarrow> leaves k (put kind i v)"
  by (simp add: leaves_def)

lemma outside_record: "''record'' \<notin> set fs \<Longrightarrow> outside fs (records_of i, k)"
  by (auto simp: outside_def records_of_def work_families_def id_families_def timed_families_def wait_families_def)

lemmas leaves_record = leaves_frames [OF _ outside_record [of "[]"], simplified]

lemmas leaves_record_prims [simp] =
  frames_prims [THEN leaves_record] frames_mailbox [THEN leaves_record] frames_store [THEN leaves_record]

lemma leaves_expire:
  assumes "\<And>n. k \<noteq> expired_key n"
  shows "leaves (records_of i, k) (expire x s now)"
  unfolding expire_def
  by (auto intro!: leaves_bind leaves_fold_tx leaves_put simp: assms split: prod.split)

section \<open>What a step does to a record\<close>

text \<open>
  \<open>record_step r r' i k\<close>: the row of position \<open>k\<close> of run \<open>i\<close> stays, or is written for a run that has not ended,
  along a legal transition, or is removed for a run that has.
\<close>

definition live_run :: "db \<Rightarrow> string \<Rightarrow> bool" where
  "live_run r i \<longleftrightarrow> (\<exists>s. stored r i s \<and> r_ended_ms (s_run s) = None)"

definition ended_run_in :: "db \<Rightarrow> string \<Rightarrow> bool" where
  "ended_run_in r i \<longleftrightarrow> (\<exists>s. stored r i s \<and> r_ended_ms (s_run s) \<noteq> None)"

definition record_step :: "db \<Rightarrow> db \<Rightarrow> string \<Rightarrow> string \<Rightarrow> bool" where
  "record_step r r' i k \<longleftrightarrow>
     bt_get r' (records_of i, k) = bt_get r (records_of i, k)
     \<or> live_run r i \<and> (\<exists>new. bt_get r' (records_of i, k) = Some (RRecord new)
         \<and> (bt_get r (records_of i, k) = None
            \<or> (\<exists>old. bt_get r (records_of i, k) = Some (RRecord old) \<and> check_transition old new)))
     \<or> ended_run_in r i \<and> bt_get r' (records_of i, k) = None"

lemma record_stays: "leaves (records_of i, k) m \<Longrightarrow> commits m r a r' \<Longrightarrow> record_step r r' i k"
  unfolding record_step_def by (simp add: leavesD)

lemma lease_live: "wf_run s \<Longrightarrow> holds_lease s f now skew \<Longrightarrow> r_ended_ms (s_run s) = None"
  by (auto simp: wf_run_def holds_lease_def terminal_state_def)

lemma records_of_inject [simp]: "records_of i = records_of j \<longleftrightarrow> i = j"
  by (simp add: records_of_def partition_inject)

lemma commits_bindE:
  "commits (bind m g) r b t \<Longrightarrow> (\<And>a s. commits m r a s \<Longrightarrow> commits (g a) s b t \<Longrightarrow> P) \<Longrightarrow> P"
  by auto

lemma commits_put_new:
  "commits (if bt_get r (kind, k) \<noteq> Some v then put kind k v else Ret ()) r a r' \<longleftrightarrow> r' = bt_insert (kind, k) v r"
  by auto

lemma commits_save_settled:
  assumes "commits (save_record x pol f k rec now) r u r'"
  obtains s b where "stored r (f_run_id f) s" "holds_lease s f now (skew_ms pol)" "\<not> stopped r"
    "commits (save_transition (bt_get r (records_of (f_run_id f), k)) rec) r b r"
    "commits (if \<not> s_evidence s \<or> counted x s b rec \<noteq> r_annotations (s_run s)
       then store_run (s\<lparr>s_evidence := True, s_run := (s_run s)\<lparr>r_annotations := counted x s b rec\<rparr>\<rparr>) else Ret ())
       (bt_insert (records_of (f_run_id f), k) (RRecord rec) r) u r'"
proof -
  let ?K = "(records_of (f_run_id f), k)"
  let ?settle = "\<lambda>s b. if \<not> s_evidence s \<or> counted x s b rec \<noteq> r_annotations (s_run s)
     then store_run (s\<lparr>s_evidence := True, s_run := (s_run s)\<lparr>r_annotations := counted x s b rec\<rparr>\<rparr>) else Ret ()"
  obtain u1 r1 s r2 old r2' u2 r3 b r4 u3 r5 where c: "commits running r u1 r1"
      "commits (authority f now (skew_ms pol)) r1 s r2" "commits (get (records_of (f_run_id f)) k :: row option op) r2 old r2'"
      "commits (save_allowed s old rec) r2' u2 r3" "commits (save_transition old rec) r3 b r4"
      "commits (if old \<noteq> Some (RRecord rec) then put (records_of (f_run_id f)) k (RRecord rec) else Ret () :: unit op) r4 u3 r5"
      "commits (?settle s b) r5 u r'"
    using assms unfolding save_record_def Let_def by (elim commits_bindE) (rule that)
  have rows: "r1 = r" "r2 = r" "old = bt_get r ?K" "r2' = r" "r3 = r" "r4 = r"
    using commits_running [OF c(1)] c(2,3) reads_only_rows [OF reads_save(1) c(4)] c(5) by (auto simp: commits_authority)
  have "stored r (f_run_id f) s" "holds_lease s f now (skew_ms pol)" "\<not> stopped r"
    using commits_running [OF c(1)] c(2) rows by (auto simp: commits_authority)
  moreover have "commits (save_transition (bt_get r ?K) rec) r b r" using c(5) rows by simp
  moreover have "commits (?settle s b) (bt_insert ?K (RRecord rec) r) u r'"
    using c(6,7) unfolding rows commits_put_new by simp
  ultimately show thesis by (rule that)
qed

lemma commits_save_record:
  assumes "commits (save_record x pol f k rec now) r u r'"
  obtains s where "stored r (f_run_id f) s" "holds_lease s f now (skew_ms pol)" "\<not> stopped r"
    "\<And>old. bt_get r (records_of (f_run_id f), k) = Some old \<Longrightarrow> \<exists>o'. old = RRecord o' \<and> check_transition o' rec"
    "\<And>l. side_key l \<Longrightarrow> bt_get r' l = bt_get (bt_insert (records_of (f_run_id f), k) (RRecord rec) r) l"
  using assms
proof (rule commits_save_settled)
  fix s b
  let ?K = "(records_of (f_run_id f), k)"
  assume s: "stored r (f_run_id f) s" "holds_lease s f now (skew_ms pol)" "\<not> stopped r"
    and tr: "commits (save_transition (bt_get r ?K) rec) r b r"
    and st: "commits (if \<not> s_evidence s \<or> counted x s b rec \<noteq> r_annotations (s_run s)
       then store_run (s\<lparr>s_evidence := True, s_run := (s_run s)\<lparr>r_annotations := counted x s b rec\<rparr>\<rparr>) else Ret ())
       (bt_insert ?K (RRecord rec) r) u r'"
  have "bt_get r' l = bt_get (bt_insert ?K (RRecord rec) r) l" if "side_key l" for l
    using st store_run_side [OF _ that] by (auto split: if_splits)
  moreover have "\<exists>o'. old = RRecord o' \<and> check_transition o' rec" if "bt_get r ?K = Some old" for old
    using tr that by auto
  ultimately show thesis using that [OF s] by blast
qed

lemma live_runI: "good r \<Longrightarrow> stored r i s \<Longrightarrow> holds_lease s f now skew \<Longrightarrow> live_run r i"
  unfolding live_run_def using lease_live good_wf by blast

lemma record_step_save:
  assumes "good r" and "commits (save_record x pol f k0 rec now) r u r'"
  shows "record_step r r' i k"
proof -
  obtain s where s: "stored r (f_run_id f) s" "holds_lease s f now (skew_ms pol)"
    and old: "\<And>old. bt_get r (records_of (f_run_id f), k0) = Some old \<Longrightarrow> \<exists>o'. old = RRecord o' \<and> check_transition o' rec"
    and new: "\<And>l. side_key l \<Longrightarrow> bt_get r' l = bt_get (bt_insert (records_of (f_run_id f), k0) (RRecord rec) r) l"
    using assms(2) by (rule commits_save_record) blast
  show ?thesis
  proof (cases "i = f_run_id f \<and> k = k0")
    case True
    then have "bt_get r' (records_of i, k) = Some (RRecord rec)" using new [of "(records_of i, k)"] by simp
    then show ?thesis
      using live_runI [OF assms(1) s] old True unfolding record_step_def by (cases "bt_get r (records_of i, k)") auto
  next
    case False
    then show ?thesis using new [of "(records_of i, k)"] by (auto simp: record_step_def)
  qed
qed

lemma commits_take_event:
  assumes "commits (take_event x pol f k types now) r a r'"
  obtains (replay) e where "bt_get r (records_of (f_run_id f), k) = Some (RRecord (Event e))" "a = Some e" "r' = r"
  | (wait) s s1 n r1 where "stored r (f_run_id f) s" "holds_lease s f now (skew_ms pol)"
      "bt_get r (records_of (f_run_id f), k) = None" "commits (expire x s now) r (n, s1) r1" "a = None"
      "commits (store_run (s1\<lparr>s_listeners := bt_insert k types (s_listeners s1)\<rparr>)) r1 () r'"
  | (take) s s1 n r1 m e where "stored r (f_run_id f) s" "holds_lease s f now (skew_ms pol)"
      "bt_get r (records_of (f_run_id f), k) = None" "commits (expire x s now) r (n, s1) r1" "a = Some e"
      "commits (take_copy x (f_run_id f) s1 m k types) r1 e r'"
  using assms unfolding take_event_def Let_def
proof (elim commits_bindE)
  fix s r1 saved r2
  assume c: "commits (checked f now (skew_ms pol)) r s r1" "commits (get (records_of (f_run_id f)) k :: row option op) r1 saved r2"
    and rest: "commits (case saved of
       Some v \<Rightarrow>
         bind (of_option Decode (row_record v)) (\<lambda>r.
           case r of Event e \<Rightarrow> Ret (Some e) | _ \<Rightarrow> Fail (Message ''invalid event checkpoint''))
     | None \<Rightarrow>
         bind (expire x s now) (\<lambda>(_, s1).
         bind (first_pending (map (pending_of (f_run_id f)) types @ (if ''*'' \<in> set types then [published_of (f_run_id f)] else []))) (\<lambda>candidate.
         case candidate of
           None \<Rightarrow>
             bind (store_run (s1\<lparr>s_listeners := bt_insert k types (s_listeners s1)\<rparr>)) (\<lambda>_. Ret None)
         | Some n \<Rightarrow> bind (take_copy x (f_run_id f) s1 n k types) (\<lambda>event. Ret (Some event))))) r2 a r'"
  have s: "stored r (f_run_id f) s" "holds_lease s f now (skew_ms pol)" "r1 = r" "r2 = r"
      "saved = bt_get r (records_of (f_run_id f), k)"
    using commits_checked [OF c(1)] c(2) by auto
  show thesis
  proof (cases saved)
    case (Some v)
    then show ?thesis using rest s replay by (auto split: row.splits journal_record.splits)
  next
    case None
    then obtain n s1 r3 cand where e: "commits (expire x s now) r (n, s1) r3"
        "commits (case cand of
           None \<Rightarrow> bind (store_run (s1\<lparr>s_listeners := bt_insert k types (s_listeners s1)\<rparr>)) (\<lambda>_. Ret None)
         | Some n \<Rightarrow> bind (take_copy x (f_run_id f) s1 n k types) (\<lambda>event. Ret (Some event))) r3 a r'"
      using rest s by (auto dest!: reads_only_rows [OF side_first_pending] simp del: commits_cases(1))
    with None s show ?thesis using wait [of s n s1 r3] take [of s n s1 r3] by (cases cand) auto
  qed
qed

lemma record_step_take:
  assumes "good r" and "commits (take_event x pol f k0 types now) r a r'" and "\<And>n. k \<noteq> expired_key n"
  shows "record_step r r' i k"
  using assms(2)
proof (cases rule: commits_take_event)
  case (wait s s1 n r1)
  then have "bt_get r' (records_of i, k) = bt_get r (records_of i, k)"
    using leavesD [OF leaves_expire [of k i x s now] wait(4)] assms(3) store_run_side [OF wait(6)] by simp
  then show ?thesis by (simp add: record_step_def)
next
  case (take s s1 n r1 m e)
  have e: "bt_get r1 (records_of i, k) = bt_get r (records_of i, k)"
    using leavesD [OF leaves_expire [of k i x s now] take(4)] assms(3) by simp
  show ?thesis
  proof (cases "i = f_run_id f \<and> k = k0")
    case True
    have "\<exists>rec. bt_get r' (records_of i, k) = Some (RRecord rec)"
      using take(6) True by (auto simp: take_copy_def dest!: store_run_side [where k = "(records_of (f_run_id f), k0)"])
    then show ?thesis using live_runI [OF assms(1) take(1,2)] take(3) True by (auto simp: record_step_def)
  next
    case False
    have "leaves (records_of i, k) (take_copy x (f_run_id f) s1 m k0 types)"
      unfolding take_copy_def using False by (auto intro!: leaves_bind leaves_put)
    then show ?thesis using leavesD [OF _ take(6)] e by (simp add: record_step_def)
  qed
qed (simp add: record_step_def)

lemma commits_put_if:
  "commits (if b then put kind k v else Ret ()) r a r' \<longleftrightarrow> r' = (if b then bt_insert (kind, k) v r else r)"
  by simp

lemma commits_refused_first:
  "commits (refused_first kind k) r a r' \<longleftrightarrow>
     (case bt_get r (kind, EXCEEDED) of
        None \<Rightarrow> a = Some k \<and> r' = bt_insert (kind, EXCEEDED) (RRecord (Exceeded k)) r
      | Some v \<Rightarrow> r' = r \<and> (\<exists>by_key. v = RRecord (Exceeded by_key) \<and> a = Some by_key))"
  by (auto simp: refused_first_def split: option.splits row.splits journal_record.splits)

lemma commits_spend:
  assumes "commits (spend pol f k limit now) r rec r'"
  obtains (replay) "bt_get r (records_of (f_run_id f), k) = Some (RRecord rec)" "r' = r" "is_budget_record rec"
  | (fresh) s root used grant first r1 where "stored r (f_run_id f) s" "holds_lease s f now (skew_ms pol)"
      "root = (case r_root (s_run s) of None \<Rightarrow> f_run_id f | Some i \<Rightarrow> i)"
      "used = (case bt_get r (''budget'', root) of None \<Rightarrow> 0 | Some v \<Rightarrow> the (row_u64 v))"
      "grant \<longleftrightarrow> used < limit" "rec = Budget grant (used + of_bool grant) first"
      "bt_get r (records_of (f_run_id f), k) = None"
      "r1 = (if grant then bt_insert (''budget'', root) (u64_row (used + 1)) r
        else if bt_get r (records_of (f_run_id f), EXCEEDED) = None
        then bt_insert (records_of (f_run_id f), EXCEEDED) (RRecord (Exceeded k)) r else r)"
      "\<And>l. side_key l \<Longrightarrow> bt_get r' l = bt_get (bt_insert (records_of (f_run_id f), k) (RRecord rec) r1) l"
  using assms unfolding spend_def
proof (elim commits_bindE)
  let ?kind = "records_of (f_run_id f)"
  fix s r1
  assume c: "commits (checked f now (skew_ms pol)) r s r1"
    and rest: "commits (let kind = ?kind in bind (get kind k) (\<lambda>saved.
     case saved of
       Some v \<Rightarrow>
         bind (of_option Decode (row_record v)) (\<lambda>r.
           case r of Budget _ _ _ \<Rightarrow> Ret r | _ \<Rightarrow> Fail (Message (''invalid budget record at '' @ k)))
     | None \<Rightarrow>
         let root = (case r_root (s_run s) of None \<Rightarrow> f_run_id f | Some i \<Rightarrow> i) in
         bind (get_as row_u64 ''budget'' root) (\<lambda>b.
         let before = (case b of None \<Rightarrow> 0 | Some n \<Rightarrow> n);
             grant = before < limit;
             spent = before + of_bool grant in
         bind (if grant then put ''budget'' root (u64_row spent) else Ret ()) (\<lambda>_.
         bind (if grant then Ret None else refused_first kind k) (\<lambda>first.
         let r = Budget grant spent first in
         bind (put kind k (RRecord r)) (\<lambda>_.
         bind (if s_evidence s then Ret () else store_run (s\<lparr>s_evidence := True\<rparr>)) (\<lambda>_.
         Ret r))))))) r1 rec r'"
  have s: "stored r (f_run_id f) s" "holds_lease s f now (skew_ms pol)" "r1 = r"
    using commits_checked [OF c] by auto
  show thesis
  proof (cases "bt_get r (?kind, k)")
    case (Some v)
    then show ?thesis using rest s replay
      by (auto simp: Let_def is_budget_record_def split: row.splits journal_record.splits)
  next
    case None
    define root where "root = (case r_root (s_run s) of None \<Rightarrow> f_run_id f | Some i \<Rightarrow> i)"
    define used where "used = (case bt_get r (''budget'', root) of None \<Rightarrow> 0 | Some v \<Rightarrow> the (row_u64 v))"
    have used: "r2 = r \<and> (case b of None \<Rightarrow> 0 | Some n \<Rightarrow> n) = used"
      if "commits (get_as row_u64 ''budget'' root) r b r2" for b r2
      using that by (auto simp: used_def split: option.splits)
    obtain first r2 where first: "commits (if used < limit then Ret None else refused_first ?kind k)
        (if used < limit then bt_insert (''budget'', root) (u64_row (used + of_bool (used < limit))) r else r) first r2"
      and rec: "rec = Budget (used < limit) (used + of_bool (used < limit)) first"
      and st: "commits (if s_evidence s then Ret () else store_run (s\<lparr>s_evidence := True\<rparr>))
        (bt_insert (?kind, k) (RRecord rec) r2) () r'"
      using rest None unfolding s Let_def root_def [symmetric]
      by (auto simp: commits_put_if simp del: commits_if commits_get_as dest!: used)
    have "r2 = (if used < limit then bt_insert (''budget'', root) (u64_row (used + 1)) r
        else if bt_get r (?kind, EXCEEDED) = None then bt_insert (?kind, EXCEEDED) (RRecord (Exceeded k)) r else r)"
      using first by (auto simp: commits_refused_first split: if_splits option.splits)
    moreover have "bt_get r' l = bt_get (bt_insert (?kind, k) (RRecord rec) r2) l" if "side_key l" for l
      using st store_run_side [OF _ that] by (auto split: if_splits)
    ultimately show ?thesis
      using fresh [OF s(1,2) root_def used_def refl rec None] by blast
  qed
qed

lemma record_step_spend:
  assumes "good r" and "commits (spend pol f k0 limit now) r rec r'"
  shows "record_step r r' i k"
  using assms(2)
proof (cases rule: commits_spend)
  case (fresh s root used grant first r1)
  note live = live_runI [OF assms(1) fresh(1,2)]
  have "(''budget'', root) \<noteq> (records_of i, k)" by (simp add: records_of_def partition_def)
  then show ?thesis
    using fresh(7) fresh(9) [of "(records_of i, k)"] live
    by (auto simp: record_step_def fresh(8))
qed (simp add: record_step_def)

section \<open>Retention\<close>

lemma leaves_for_each: "(\<And>x. x \<in> set xs \<Longrightarrow> leaves k (f x)) \<Longrightarrow> leaves k (for_each xs f)"
  by (induction xs) (auto intro!: leaves_bind)

lemma commits_deletes: "commits (for_each rs (\<lambda>((kind, k), _). delete kind k) :: unit op) r a r' \<Longrightarrow>
    bt_get r' l = (if l \<in> fst ` set rs then None else bt_get r l)"
proof (induction rs arbitrary: r)
  case (Cons e rs)
  obtain kind j v where e: "e = ((kind, j), v)" by (metis prod.collapse)
  then have "commits (for_each rs (\<lambda>((kind, k), _). delete kind k) :: unit op) (bt_remove (kind, j) r) a r'"
    using Cons.prems by simp
  from Cons.IH [OF this] show ?case by (auto simp: e image_iff)
qed simp

lemma forget_records:
  assumes "commits (forget s) r a r'"
  shows "bt_get r' (records_of i, k) = (if i = s_id s then None else bt_get r (records_of i, k))"
proof -
  let ?kind = "records_of (s_id s)"
  let ?rs = "scan_rows r ?kind [] None None"
  obtain r1 r2 where del: "commits (for_each ?rs (\<lambda>((kind, k), _). delete kind k) :: unit op) r () r1"
    and copies: "commits (forget_copies (s_id s)) r1 () r'"
    using assms by (auto simp: forget_def)
  have rest: "bt_get r' (records_of i, k) = bt_get r1 (records_of i, k)"
    by (rule leavesD [OF leaves_record [OF frames_forget_copies] copies])
  have "(records_of i, k) \<in> fst ` set ?rs \<longleftrightarrow> i = s_id s \<and> bt_get r (records_of i, k) \<noteq> None"
    by (force simp: scan_rows_all in_range_def)
  then show ?thesis using commits_deletes [OF del, of "(records_of i, k)"] rest by auto
qed

lemma sweep_forgets:
  assumes "commits (fold_tx finished (\<lambda>s n.
      if due_by (r_ended_ms (s_run s)) horizon
      then bind (forget s) (\<lambda>(m, s'). bind (store_run s') (\<lambda>_. Ret (n + m)))
      else Ret n) n0) r n1 r'"
  shows "bt_get r' (records_of i, k) = bt_get r (records_of i, k)
    \<or> bt_get r' (records_of i, k) = None \<and> (\<exists>s \<in> set finished. s_id s = i \<and> r_ended_ms (s_run s) \<noteq> None)"
  using assms
proof (induction finished arbitrary: r n0)
  case (Cons s finished)
  obtain n2 r2 where one: "commits (if due_by (r_ended_ms (s_run s)) horizon
      then bind (forget s) (\<lambda>(m, s'). bind (store_run s') (\<lambda>_. Ret (n0 + m))) else Ret n0) r n2 r2"
    and rest: "commits (fold_tx finished (\<lambda>s n.
      if due_by (r_ended_ms (s_run s)) horizon
      then bind (forget s) (\<lambda>(m, s'). bind (store_run s') (\<lambda>_. Ret (n + m)))
      else Ret n) n2) r2 n1 r'"
    using Cons.prems unfolding fold_tx.simps by (rule commits_bindE)
  have "bt_get r2 (records_of i, k) = bt_get r (records_of i, k)
    \<or> bt_get r2 (records_of i, k) = None \<and> s_id s = i \<and> r_ended_ms (s_run s) \<noteq> None"
    using one
    by (auto simp: forget_records due_by_def dest!: store_run_side [where k = "(records_of i, k)"] split: if_splits option.splits)
  with Cons.IH [OF rest] show ?case by auto
qed simp

lemma record_step_sweep:
  assumes "good r" and "commits (sweep x now kept) r sw r'" and "\<And>n. k \<noteq> expired_key n"
  shows "record_step r r' i k"
proof -
  let ?K = "(records_of i, k)"
  obtain u r0 finished r1 n1 r2 mailboxes r3 n2 r4 n3 r5 n4 r6 where
    en: "commits (ensure (0 \<le> kept) (Message ''negative retention'')) r u r0"
    and f: "commits (indexed_runs ''finished'' [] (Some (until_key (sat_sub now kept))) None) r0 finished r1"
    and fold: "commits (fold_tx finished (\<lambda>s n.
             if due_by (r_ended_ms (s_run s)) (sat_sub now kept)
             then bind (forget s) (\<lambda>(m, s'). bind (store_run s') (\<lambda>_. Ret (n + m)))
             else Ret n) 0) r1 n1 r2"
    and m: "commits (indexed_runs ''mailbox'' [] (Some (until_key now)) None) r2 mailboxes r3"
    and e: "commits (fold_tx mailboxes (\<lambda>s n. bind (expire x s now) (\<lambda>(m, s'). bind (store_run s') (\<lambda>_. Ret (n + m)))) 0) r3 n2 r4"
    and i1: "commits (sweep_index ''ingress_due'' ''ingress'' ''invalid ingress index'' (until_key now)) r4 n3 r5"
    and i2: "commits (sweep_index ''worker_expiry'' ''worker'' ''invalid worker index'' (until_key (sat_sub now WORKERS_KEPT_MS))) r5 n4 r6"
    and "r' = r6"
    using assms(2) unfolding sweep_def Let_def by (elim commits_bindE) (rule that, assumption+, simp)
  have "r0 = r" using en by simp
  have fr: "r1 = r" "\<And>s. s \<in> set finished \<Longrightarrow> stored r (s_id s) s"
    using indexed_runs_stored [OF assms(1), of _ _ _ _ finished r1] f \<open>r0 = r\<close> by auto
  have "r3 = r2" using reads_only_rows [OF _ m] by simp
  moreover have "bt_get r4 ?K = bt_get r3 ?K"
    by (rule leavesD [OF leaves_fold_tx e]) (auto intro!: leaves_bind leaves_expire assms(3) split: prod.split)
  moreover have "bt_get r6 ?K = bt_get r5 ?K" "bt_get r5 ?K = bt_get r4 ?K"
  proof -
    have "frames [''ingress'', ''ingress_due'', ''worker'', ''worker_expiry''] (sweep_index ''ingress_due'' ''ingress'' what stop)"
      "frames [''ingress'', ''ingress_due'', ''worker'', ''worker_expiry''] (sweep_index ''worker_expiry'' ''worker'' what stop)" for what stop
      by (auto intro!: frames_sweep_index simp: outside_def)
    then show "bt_get r6 ?K = bt_get r5 ?K" "bt_get r5 ?K = bt_get r4 ?K"
      by (auto intro!: framesD [OF _ i1] framesD [OF _ i2] outside_record)
  qed
  ultimately show ?thesis
    using sweep_forgets [OF fold, of i k] fr \<open>r' = r6\<close> unfolding record_step_def ended_run_in_def by auto
qed


section \<open>Every step\<close>

lemma record_framed:
  "frames fs m \<Longrightarrow> ''record'' \<notin> set fs \<Longrightarrow> commits m r a r' \<Longrightarrow> record_step r r' i k"
  by (rule record_stays [OF leaves_frames [OF _ outside_record]])

lemma record_step_any:
  assumes "store_step r r'" and "good r" and "\<And>n. k \<noteq> expired_key n"
  shows "record_step r r' i k"
  using assms(1)
proof (cases rule: store_step.cases)
  case save_record
  then show ?thesis using record_step_save assms(2) by blast
next
  case take_event
  then show ?thesis using record_step_take assms(2,3) by blast
next
  case spend
  then show ?thesis using record_step_spend assms(2) by blast
next
  case sweep
  then show ?thesis using record_step_sweep assms(2,3) by blast
next
  case fire
  then show ?thesis by (rule record_framed [OF frames_fire, rotated]) simp
next
  case beat
  then show ?thesis by (rule record_framed [OF frames_beat, rotated]) simp
next
  case control
  then show ?thesis by (rule record_framed [OF frames_control_command, rotated]) simp
qed (erule record_framed [of "[]", rotated 2], simp, simp)+

lemma ended_stays: "ended_run_in r i \<Longrightarrow> grows r r' \<Longrightarrow> ended_run_in r' i"
  unfolding ended_run_in_def grows_def evolves_def by fastforce

lemma ended_not_live: "ended_run_in r i \<Longrightarrow> \<not> live_run r i"
  by (auto simp: ended_run_in_def live_run_def stored_def)

text \<open>A record only advances, or is forgotten with its ended run.\<close>

lemma journal_steps:
  assumes "store_steps r r'" and "good r" and "\<And>n. k \<noteq> expired_key n"
    and "bt_get r (records_of i, k) = Some (RRecord old)"
  shows "(\<exists>new. bt_get r' (records_of i, k) = Some (RRecord new) \<and> check_transition old new)
    \<or> bt_get r' (records_of i, k) = None \<and> ended_run_in r' i"
  using assms(1)
proof (induction rule: rtranclp_induct)
  case base
  then show ?case using assms(4) by auto
next
  case (step r1 r2)
  have g: "good r1" using steps_keep_good [OF step.hyps(1) assms(2)] by simp
  have grow: "grows r1 r2" using step_keeps_good [OF step.hyps(2) g] by simp
  note rs = record_step_any [OF step.hyps(2) g, of k i, OF assms(3)]
  show ?case
    using step.IH
  proof (elim disjE exE conjE)
    fix new assume new: "bt_get r1 (records_of i, k) = Some (RRecord new)" "check_transition old new"
    show ?thesis
      using rs new check_transition_trans ended_stays [OF _ grow] unfolding record_step_def by fastforce
  next
    assume "bt_get r1 (records_of i, k) = None" "ended_run_in r1 i"
    then show ?thesis
      using rs ended_stays [OF _ grow] ended_not_live unfolding record_step_def by metis
  qed
qed

section \<open>Properties\<close>

text \<open>
  C6. The journal is append-and-advance only. Whatever operations commit, by whatever callers, a record of a run is never
  rewritten except along a legal transition of its own intent (a pending task or call receives its result) and
  never removed while the run has not ended. Excluded are only the engine's own marks of expired copies.
\<close>

theorem journal_only_advances:
  assumes "reachable r" and "store_steps r r'" and "bt_get r (records_of i, k) = Some (RRecord old)"
    and "\<And>n. k \<noteq> expired_key n" and "stored r' i s" and "r_ended_ms (s_run s) = None"
  shows "\<exists>new. bt_get r' (records_of i, k) = Some (RRecord new) \<and> check_transition old new"
  using journal_steps [OF assms(2) reachable_good [OF assms(1)] assms(4,3)] assms(5,6)
  by (auto simp: ended_run_in_def stored_def)

text \<open>A record that is final: nothing follows it but itself.\<close>

definition final_record :: "journal_record \<Rightarrow> bool" where
  "final_record r \<longleftrightarrow> (case r of Task _ res \<Rightarrow> res \<noteq> None | Call _ _ _ _ st _ \<Rightarrow> is_done st | _ \<Rightarrow> True)"

lemma final_record_only: "final_record r \<Longrightarrow> check_transition r r' \<Longrightarrow> r' = r"
  by (auto simp: final_record_def check_transition_def split: journal_record.splits option.splits)

text \<open>
  C9. A recorded result is replayed forever: once a task has its result, a call its answer, or an event, timer, retry,
  race or budget decision is recorded, the record is the same in every later state in which the run has not ended.
\<close>

theorem recorded_result_is_final:
  assumes "reachable r" and "store_steps r r'" and "bt_get r (records_of i, k) = Some (RRecord old)"
    and "final_record old" and "\<And>n. k \<noteq> expired_key n" and "stored r' i s" and "r_ended_ms (s_run s) = None"
  shows "bt_get r' (records_of i, k) = Some (RRecord old)"
  using journal_steps [OF assms(2) reachable_good [OF assms(1)] assms(5,3)] assms(4,6,7) final_record_only
  by (auto simp: ended_run_in_def stored_def)

section \<open>Witnesses\<close>

text \<open>The sample run saves the intent of a call at 1500, then its answer at 2000.\<close>

definition sample_call :: "call_state \<Rightarrow> journal_record" where
  "sample_call st = Call ''c'' ''fetch'' Null AtLeastOnce st (bt_insert ''cost'' (ANumber (PosInt 2)) bt_empty)"

definition save_call :: "call_state \<Rightarrow> int \<Rightarrow> unit op" where
  "save_call st now = save_record sample_ext default_policy sample_fence ''k'' (sample_call st) now"

definition sample_intent :: db where
  "sample_intent = after (save_call Pending 1500) sample_started"

definition sample_answered :: db where
  "sample_answered = after (save_call (Done (Inr Null)) 2000) sample_intent"

definition sample_renewed :: db where
  "sample_renewed = after (renew default_policy sample_fence 3000) sample_answered"

lemma sample_saves:
  "result (save_call Pending 1500) sample_started = Some ()"
  "result (save_call (Done (Inr Null)) 2000) sample_intent = Some ()"
  "result (renew default_policy sample_fence 3000) sample_answered = Some (Inr ())"
  by code_simp+

lemma after_step:
  assumes "result m r = Some a" and "\<And>r'. commits m r a r' \<Longrightarrow> store_step r r'"
  shows "store_step r (after m r)"
  by (rule assms(2), rule commits_result, rule assms(1))

lemma sample_save_steps:
  "store_step sample_started sample_intent" "store_step sample_intent sample_answered" "store_step sample_answered sample_renewed"
proof -
  show "store_step sample_started sample_intent" unfolding sample_intent_def
    by (rule after_step [OF sample_saves(1)]) (auto simp: save_call_def intro: store_step.save_record)
  show "store_step sample_intent sample_answered" unfolding sample_answered_def
    by (rule after_step [OF sample_saves(2)]) (auto simp: save_call_def intro: store_step.save_record)
  show "store_step sample_answered sample_renewed" unfolding sample_renewed_def
    by (rule after_step [OF sample_saves(3)]) (rule store_step.renew)
qed

lemma sample_intent_reachable: "reachable sample_intent" "reachable sample_answered"
  using sample_reachable sample_save_steps reachable_steps by (meson r_into_rtranclp)+

lemma sample_records:
  "bt_get sample_intent (records_of ''a'', ''k'') = Some (RRecord (sample_call Pending))"
  "bt_get sample_answered (records_of ''a'', ''k'') = Some (RRecord (sample_call (Done (Inr Null))))"
  by code_simp+

lemma sample_live:
  "case bt_get sample_answered (''run'', ''a'') of Some (RRun s) \<Rightarrow> r_ended_ms (s_run s) = None | _ \<Rightarrow> False"
  "case bt_get sample_renewed (''run'', ''a'') of Some (RRun s) \<Rightarrow> r_ended_ms (s_run s) = None | _ \<Rightarrow> False"
  by code_simp+

lemma sample_live_run:
  obtains s t where "stored sample_answered ''a'' s" "r_ended_ms (s_run s) = None"
    "stored sample_renewed ''a'' t" "r_ended_ms (s_run t) = None"
  using sample_live by (auto simp: stored_def split: option.splits row.splits)

lemma not_expired_key: "''k'' \<noteq> expired_key n"
  by (simp add: expired_key_def)

theorem journal_only_advances_witness:
  "\<exists>new. bt_get sample_answered (records_of ''a'', ''k'') = Some (RRecord new) \<and> check_transition (sample_call Pending) new"
proof -
  obtain s where s: "stored sample_answered ''a'' s" "r_ended_ms (s_run s) = None" by (rule sample_live_run)
  have "store_steps sample_intent sample_answered" using sample_save_steps by blast
  then show ?thesis
    using journal_only_advances [OF sample_intent_reachable(1) _ sample_records(1) not_expired_key s] by blast
qed

theorem recorded_result_is_final_witness:
  "bt_get sample_renewed (records_of ''a'', ''k'') = Some (RRecord (sample_call (Done (Inr Null))))"
proof -
  obtain s where s: "stored sample_renewed ''a'' s" "r_ended_ms (s_run s) = None" by (rule sample_live_run)
  have "store_steps sample_answered sample_renewed" using sample_save_steps by blast
  moreover have "final_record (sample_call (Done (Inr Null)))" by (simp add: final_record_def sample_call_def is_done_def)
  ultimately show ?thesis
    using recorded_result_is_final [OF sample_intent_reachable(2) _ sample_records(2) _ not_expired_key s] by blast
qed

end
