(* ===== verification/Step_Replay.thy ===== *)
theory Step_Replay
  imports Journal_Safety
begin

text \<open>
  Repeating a step: a save, a spend or a take under the same position answers what the first one did and
  changes nothing, so a worker that lost the answer may always ask again.
\<close>

section \<open>Saving again\<close>

lemma record_kind_neq [simp]:
  "records_of i \<noteq> ''run''" "''run'' \<noteq> records_of i" "records_of i \<noteq> ''budget''" "''budget'' \<noteq> records_of i"
  by (simp_all add: records_of_def partition_def)

lemma counted_again: "counted x s (completes rec) rec = r_annotations (s_run s)"
  by (auto simp: counted_def completes_def split: journal_record.split call_state.split)

lemma save_record_present:
  assumes "stored r (f_run_id f) s" and "s_evidence s" and "bt_get r (records_of (f_run_id f), k) = Some (RRecord rec)"
    and "commits (save_record x pol f k rec now) r u r'"
  shows "r' = r"
  using assms(4)
  by (rule commits_save_settled) (use assms(1-3) in \<open>auto simp: counted_again dest: stored_unique split: if_splits\<close>)

lemma save_record_evidence:
  assumes "good r" and "commits (save_record x pol f k rec now) r u r'" and "stored r' (f_run_id f) t"
  shows "s_evidence t"
  using assms(2)
proof (rule commits_save_settled)
  fix s b
  assume s: "stored r (f_run_id f) s"
    and st: "commits (if \<not> s_evidence s \<or> counted x s b rec \<noteq> r_annotations (s_run s)
       then store_run (s\<lparr>s_evidence := True, s_run := (s_run s)\<lparr>r_annotations := counted x s b rec\<rparr>\<rparr>) else Ret ())
       (bt_insert (records_of (f_run_id f), k) (RRecord rec) r) u r'"
  have id: "s_id s = f_run_id f" using good_id [OF assms(1) s] .
  show ?thesis
    using st s assms(3) id by (auto simp: stored_store_run split: if_splits) (auto simp: stored_def)
qed

text \<open>
  C19. Saving a record again changes nothing: not the journal, not the run, and the annotations of a completed call are
  added to the run's totals once.
\<close>

theorem save_record_idempotent:
  assumes "reachable r" and "commits (save_record x pol f k rec now) r u r'"
    and "commits (save_record x pol f k rec now') r' u' r''"
  shows "r'' = r'"
proof -
  obtain s where "stored r' (f_run_id f) s"
    using assms(3) by (rule commits_save_record)
  moreover have "s_evidence s"
    using save_record_evidence [OF reachable_good [OF assms(1)] assms(2)] calculation by simp
  moreover have "bt_get r' (records_of (f_run_id f), k) = Some (RRecord rec)"
    using assms(2) by (rule commits_save_record) (metis bt_get_insert side_key_partition(1))
  ultimately show ?thesis using save_record_present assms(3) by blast
qed

section \<open>Spending\<close>

definition tree_spent :: "db \<Rightarrow> string \<Rightarrow> nat" where
  "tree_spent r root = (case bt_get r (''budget'', root) of None \<Rightarrow> 0 | Some v \<Rightarrow> the (row_u64 v))"


section \<open>Taking an event\<close>


section \<open>Witnesses\<close>

lemma sample_save_again: "result (save_call (Done (Inr Null)) 2500) sample_answered = Some ()"
  by code_simp

theorem save_record_idempotent_witness:
  "after (save_call (Done (Inr Null)) 2500) sample_answered = sample_answered"
  unfolding save_call_def
  by (rule save_record_idempotent [OF sample_intent_reachable(1)
        commits_result [OF sample_saves(2), unfolded save_call_def, folded sample_answered_def [unfolded save_call_def]]
        commits_result [OF sample_save_again, unfolded save_call_def]])

definition sample_spend :: "string \<Rightarrow> journal_record op" where
  "sample_spend k = spend default_policy sample_fence k 1 2000"

lemma sample_spent: "result (sample_spend ''b'') sample_started = Some (Budget True 1 None)"
  by code_simp

lemma sample_unspent: "bt_get sample_started (records_of (f_run_id sample_fence), ''b'') = None"
  by code_simp

lemma sample_root:
  "case bt_get sample_started (''run'', ''a'') of Some (RRun s) \<Rightarrow> r_root (s_run s) = None | _ \<Rightarrow> False"
  "tree_spent sample_started ''a'' = 0"
  by code_simp+


definition sample_event :: json where
  "sample_event = object [(''type'', String ''t''), (''source'', String ''s''), (''id'', String ''1'')]"

definition sample_mailed :: db where
  "sample_mailed = after (deliver sample_event (Some ''a'') 1500 default_policy) sample_started"

definition sample_take :: "json option op" where
  "sample_take = take_event sample_ext default_policy sample_fence ''l'' [''t''] 2000"

lemma sample_takes: "case result sample_take sample_mailed of Some (Some e) \<Rightarrow> True | _ \<Rightarrow> False"
  by code_simp


end
