(* ===== verification/Command_Safety.thy ===== *)
theory Command_Safety
  imports Journal_Safety
begin

text \<open>
  Operator commands and the emergency stop: a command takes effect at most once per request id, in every
  later state a repetition answers what the first one did and a different command under the same id is refused;
  a stopped store hands out no work until a command lifts the stop.
\<close>

section \<open>The command log\<close>

lemma outside_command: "''control_command'' \<notin> set fs \<Longrightarrow> outside fs (''control_command'', i)"
  by (auto simp: outside_def work_families_def id_families_def timed_families_def wait_families_def)

lemma log_framed:
  "frames fs m \<Longrightarrow> ''control_command'' \<notin> set fs \<Longrightarrow> commits m r a r' \<Longrightarrow>
     bt_get r' (''control_command'', i) = bt_get r (''control_command'', i)"
  by (rule framesD [OF _ _ outside_command])

lemma log_perform:
  "commits (perform fuel x pol rq c now) r a r' \<Longrightarrow> bt_get r' (''control_command'', i) = bt_get r (''control_command'', i)"
  by (rule log_framed [OF frames_perform]) simp_all

lemma command_row_neq [simp]:
  "''control_command'' \<noteq> partition ''control_history_run'' i" "partition ''control_history_run'' i \<noteq> ''control_command''"
  by (simp_all add: partition_def)

text \<open>How a command commits.\<close>

lemma commits_control_command:
  assumes "commits (control_command fuel x pol rq c now) r ap r'"
  obtains (repeated) e where "bt_get r (''control_command'', rq_id rq) = Some (REntry e)" "en_request e = rq"
      "en_command e = normalize_command c" "ap = \<lparr>ap_reply = en_reply e, ap_repeated = True\<rparr>" "r' = r"
  | (applied) answer r1 where "bt_get r (''control_command'', rq_id rq) = None"
      "commits (perform fuel x pol rq c now) r answer r1" "ap = \<lparr>ap_reply = answer, ap_repeated = False\<rparr>"
      "\<And>k. family (fst k) \<notin> {''control_command'', ''control_history'', ''control_history_run''} \<Longrightarrow> bt_get r' k = bt_get r1 k"
      "\<And>i. bt_get r' (''control_command'', i) = (if i = rq_id rq
         then Some (REntry \<lparr>en_request = rq, en_command = normalize_command c, en_at_ms = now, en_reply = answer\<rparr>)
         else bt_get r1 (''control_command'', i))"
proof (cases "bt_get r (''control_command'', rq_id rq)")
  case (Some v)
  then show ?thesis
    using assms repeated by (auto simp: control_command_def split: if_splits row.splits)
next
  case None
  let ?k = "timed now (component (rq_id rq))"
  let ?e = "\<lambda>answer. REntry \<lparr>en_request = rq, en_command = normalize_command c, en_at_ms = now, en_reply = answer\<rparr>"
  obtain answer r1 where p: "commits (perform fuel x pol rq c now) r answer r1"
      "ap = \<lparr>ap_reply = answer, ap_repeated = False\<rparr>"
      "commits ((case command_run c of None \<Rightarrow> Ret () | Some i \<Rightarrow> put (partition ''control_history_run'' i) ?k (?e answer)) :: unit op)
        (bt_insert (''control_history'', ?k) (?e answer) (bt_insert (''control_command'', rq_id rq) (?e answer) r1)) () r'"
    using assms None by (auto simp: control_command_def Let_def simp del: commits_cases split: if_splits)
  have "bt_get r' k = bt_get r1 k"
    if "family (fst k) \<notin> {''control_command'', ''control_history'', ''control_history_run''}" for k
    using p(3) that by (cases "command_run c"; cases k) auto
  moreover have "bt_get r' (''control_command'', i) = (if i = rq_id rq then Some (?e answer) else bt_get r1 (''control_command'', i))" for i
    using p(3) by (cases "command_run c") auto
  ultimately show ?thesis using applied [OF None p(1,2)] by blast
qed

text \<open>A step is a command, or leaves every row of the operator's families alone.\<close>

definition step_families :: "string list" where
  "step_families = [''record'', ''ingress'', ''ingress_due'', ''worker'', ''worker_expiry'']"

lemma store_step_control_cases:
  assumes "store_step r r'"
  obtains (control) fuel x pol rq c now ap where "commits (control_command fuel x pol rq c now) r ap r'"
  | (other) "\<And>k. outside step_families k \<Longrightarrow> bt_get r' k = bt_get r k"
proof -
  note weaken = frames_weaken [of _ _ step_families]
  from assms show thesis
  proof (cases rule: store_step.cases)
    case control
    then show ?thesis by (rule that(1))
  next
    case save_record
    show ?thesis by (rule other, rule framesD [OF weaken [OF frames_save_record] save_record]) (simp_all add: step_families_def)
  next
    case take_event
    show ?thesis by (rule other, rule framesD [OF weaken [OF frames_take_event] take_event]) (simp_all add: step_families_def)
  next
    case spend
    show ?thesis by (rule other, rule framesD [OF weaken [OF frames_spend] spend]) (simp_all add: step_families_def)
  next
    case fire
    show ?thesis by (rule other, rule framesD [OF weaken [OF frames_fire] fire]) (simp_all add: step_families_def)
  next
    case sweep
    show ?thesis by (rule other, rule framesD [OF weaken [OF frames_sweep] sweep]) (simp_all add: step_families_def)
  next
    case beat
    show ?thesis by (rule other, rule framesD [OF weaken [OF frames_beat] beat]) (simp_all add: step_families_def)
  qed (rule other, erule framesD [of step_families, rotated], assumption, simp)+
qed

lemma log_step:
  assumes "store_step r r'" and "bt_get r (''control_command'', i) = Some v"
  shows "bt_get r' (''control_command'', i) = Some v"
  using assms(1)
proof (cases rule: store_step_control_cases)
  case control
  then show ?thesis
  proof (cases rule: commits_control_command)
    case (applied answer r1)
    then show ?thesis using assms(2) log_perform [OF applied(2), of i] by auto
  qed (use assms(2) in simp)
next
  case other
  then show ?thesis using assms(2) outside_command [of step_families i] by (simp add: step_families_def)
qed

lemma log_steps:
  "store_steps r r' \<Longrightarrow> bt_get r (''control_command'', i) = Some v \<Longrightarrow> bt_get r' (''control_command'', i) = Some v"
  by (induction rule: rtranclp_induct) (auto dest: log_step)

lemma commits_not_blank:
  "commits (control_command fuel x pol rq c now) r ap r' \<Longrightarrow> \<not> (blank (rq_id rq) \<or> blank (rq_actor rq) \<or> blank (rq_reason rq))"
  by (auto simp: control_command_def split: if_splits)

section \<open>Properties\<close>

text \<open>
  C14. A command takes effect at most once: after it committed, in every state that any further operations lead to, the
  same request with the same command changes nothing and answers what the first one answered, and the same
  request with another command is a conflict.
\<close>

theorem command_applies_once:
  assumes "commits (control_command fuel x pol rq c now) r ap r'" and "store_steps r' r''"
  shows "run (control_command fuel' x' pol' rq c' now') r'' =
    (if normalize_command c' = normalize_command c then Inr (\<lparr>ap_reply = ap_reply ap, ap_repeated = True\<rparr>, r'')
     else Inl (RequestConflict (rq_id rq)))"
proof -
  have "\<exists>e. bt_get r' (''control_command'', rq_id rq) = Some (REntry e) \<and> en_request e = rq
      \<and> en_command e = normalize_command c \<and> en_reply e = ap_reply ap"
    using assms(1) by (cases rule: commits_control_command) auto
  then obtain e where e: "bt_get r'' (''control_command'', rq_id rq) = Some (REntry e)" "en_request e = rq"
      "en_command e = normalize_command c" "en_reply e = ap_reply ap"
    using log_steps [OF assms(2)] by blast
  have nb: "\<not> (blank (rq_id rq) \<or> blank (rq_actor rq) \<or> blank (rq_reason rq))"
    using commits_not_blank assms(1) by blast
  show ?thesis
    unfolding control_command_def if_not_P [OF nb] using e by (simp add: run_bind run_get_as)
qed

section \<open>The emergency stop\<close>

lemma stopped_row: "bt_get r' (''control'', ''stopped'') = bt_get r (''control'', ''stopped'') \<Longrightarrow> stopped r' \<longleftrightarrow> stopped r"
  by (simp add: stopped_def)

lemma outside_control: "''control'' \<notin> set fs \<Longrightarrow> outside fs (''control'', i)"
  by (auto simp: outside_def work_families_def id_families_def timed_families_def wait_families_def)

lemma frames_perform_running:
  "(\<And>b. c \<noteq> Stop b) \<Longrightarrow> frames [''control_response''] (perform fuel x pol rq c now)"
  unfolding perform_def Let_def
  by (auto intro!: frames_bind frames_weaken [OF frames_respond] split: command.split option.split)

lemma stop_again:
  assumes "stopped r" and "commits (set_stop x True now) r a r'"
  shows "stopped r'"
  using assms by (auto simp: set_stop_def dest!: commits_is_stopped split: if_splits)

text \<open>
  A stopped store gives out no work: no fenced step passes, no run is claimed or listed, no new run is admitted and
  no trigger fires or is due, and these refusals change nothing.
\<close>

lemma stop_refuses_work:
  assumes "stopped r"
  shows "run (checked f now skew) r = Inl Stopped \<and> run (save_record x pol f k rec now) r = Inl Stopped
    \<and> run (renew pol f now) r = Inl Stopped \<and> run (claim_as i now w owner) r = Inr (None, r)
    \<and> run (due_as x now limit w) r = Inr ([], r) \<and> run (fire fuel x fi now pol) r = Inr (Inr FChanged, r)
    \<and> run (due_triggers now limit) r = Inr ([], r) \<and> run (triggers_for t limit) r = Inr ([], r)
    \<and> (bt_get r (''run'', a_id a) = None \<longrightarrow> run (admitted a now j) r = Inl Stopped)"
proof -
  note st = is_stopped_True [OF assms]
  have stop: "run running r = Inl Stopped" by (simp add: running_def run_bind st)
  have no: "run (bind running g) r = Inl Stopped" for g :: "unit \<Rightarrow> 'b op"
    by (simp add: run_bind stop)
  have "run (checked f now skew) r = Inl Stopped" "run (save_record x pol f k rec now) r = Inl Stopped"
    "run (renew pol f now) r = Inl Stopped"
    by (simp_all add: checked_def save_record_def renew_def no)
  moreover have "run (claim_as i now w owner) r = Inr (None, r)" "run (due_as x now limit w) r = Inr ([], r)"
    "run (fire fuel x fi now pol) r = Inr (Inr FChanged, r)" "run (due_triggers now limit) r = Inr ([], r)"
    "run (triggers_for t limit) r = Inr ([], r)"
    by (simp_all add: claim_as_def due_as_def fire_def due_triggers_def triggers_for_def st)
  moreover have "run (admitted a now j) r = Inl Stopped" if "bt_get r (''run'', a_id a) = None"
    using that by (simp add: admitted_def find_run_def run_bind run_get stop)
  ultimately show ?thesis by blast
qed

text \<open>
  C27. The stop lasts until an operator lifts it: a step after which a stopped store is no longer stopped is the commit of
  a command that ends the stop.
\<close>

theorem only_command_lifts_stop:
  assumes "store_step r r'" and "stopped r" and "\<not> stopped r'"
  shows "\<exists>fuel x pol rq now ap. commits (control_command fuel x pol rq (Stop False) now) r ap r'"
  using assms(1)
proof (cases rule: store_step_control_cases)
  case other
  have "bt_get r' (''control'', ''stopped'') = bt_get r (''control'', ''stopped'')"
    by (rule other [OF outside_control]) (simp add: step_families_def)
  from stopped_row [OF this] show ?thesis using assms(2,3) by simp
next
  case (control fuel x pol rq c now ap)
  then show ?thesis
  proof (cases rule: commits_control_command)
    case repeated
    then show ?thesis using assms(2,3) by simp
  next
    case (applied answer r1)
    have "\<not> stopped r1"
      using assms(3) stopped_row [OF applied(4) [of "(''control'', ''stopped'')"]] by simp
    moreover have "stopped r1" if "\<And>b. c \<noteq> Stop b"
      using stopped_row [OF framesD [OF frames_perform_running [OF that] applied(2) outside_control]] assms(2) by simp
    moreover have "stopped r1" if "c = Stop True"
      using applied(2) that stop_again [OF assms(2)] by (auto simp: perform_def)
    ultimately have "c = Stop False" by (metis (full_types))
    then show ?thesis using control by blast
  qed
qed

section \<open>Witnesses\<close>

text \<open>An operator stops the store of the sample run, and later lifts the stop.\<close>

definition sample_request :: "string \<Rightarrow> request" where
  "sample_request i = \<lparr>rq_id = i, rq_actor = ''op'', rq_reason = ''why''\<rparr>"

definition sample_command :: "string \<Rightarrow> command \<Rightarrow> int \<Rightarrow> applied op" where
  "sample_command i c now = control_command 5 sample_ext default_policy (sample_request i) c now"

definition sample_stopped :: db where
  "sample_stopped = after (sample_command ''q1'' (Stop True) 2000) sample_started"

definition sample_lifted :: db where
  "sample_lifted = after (sample_command ''q2'' (Stop False) 3000) sample_stopped"

lemma sample_commands:
  "result (sample_command ''q1'' (Stop True) 2000) sample_started = Some \<lparr>ap_reply = Changed True, ap_repeated = False\<rparr>"
  "result (sample_command ''q2'' (Stop False) 3000) sample_stopped = Some \<lparr>ap_reply = Changed True, ap_repeated = False\<rparr>"
  "stopped sample_stopped" "\<not> stopped sample_lifted"
  by code_simp+

lemma sample_lift_step: "store_step sample_stopped sample_lifted"
  unfolding sample_lifted_def
  by (rule after_step [OF sample_commands(2)]) (auto simp: sample_command_def intro: store_step.control)

theorem command_applies_once_witness:
  "result (sample_command ''q1'' (Stop True) 9000) sample_lifted = Some \<lparr>ap_reply = Changed True, ap_repeated = True\<rparr>"
proof -
  have c: "commits (control_command 5 sample_ext default_policy (sample_request ''q1'') (Stop True) 2000) sample_started
      \<lparr>ap_reply = Changed True, ap_repeated = False\<rparr> sample_stopped"
    using commits_result [OF sample_commands(1)] by (simp add: sample_command_def sample_stopped_def)
  have "store_steps sample_stopped sample_lifted" using sample_lift_step by blast
  from command_applies_once [OF c this] show ?thesis by (simp add: sample_command_def result_def)
qed

lemma stop_refuses_work_witness:
  "run (checked sample_fence 2500 0) sample_stopped = Inl Stopped
    \<and> run (claim_as ''a'' 50000 any_worker ''w2'') sample_stopped = Inr (None, sample_stopped)"
  using stop_refuses_work [OF sample_commands(3)] by blast

theorem only_command_lifts_stop_witness:
  "\<exists>fuel x pol rq now ap. commits (control_command fuel x pol rq (Stop False) now) sample_stopped ap sample_lifted"
  by (rule only_command_lifts_stop [OF sample_lift_step sample_commands(3,4)])

end
