(* ===== verification/Tree_Endings.thy ===== *)
theory Tree_Endings
  imports Journal_Safety
begin

text \<open>
  The end of a tree of runs: a run that ends takes every live descendant with it in the same commit, and the
  loop that does so always ends.
\<close>

section \<open>How a run is terminated\<close>

lemma side_rows:
  fixes m :: "'a op"
  assumes "writes_in side_key m" and "good r" and "commits m r a r'"
  shows "good r'" and "stored r' j t \<longleftrightarrow> stored r j t"
proof -
  show "good r'" using side_adds [OF assms(1)] assms(2,3) unfolding adds_def by blast
  have "\<not> side_key (''run'', j)" by (simp add: side_key_def)
  then show "stored r' j t \<longleftrightarrow> stored r j t" using writes_in_frame [OF assms(1,3)] by (simp add: stored_def)
qed

lemma side_rearm_trigger: "writes_in side_key (rearm_trigger s now)"
  unfolding rearm_trigger_def by (auto intro!: writes_in_bind split: option.split)

lemma commits_terminate:
  assumes "good r" and "commits (terminate fuel x i status now) r u r'" and "stored r i s" and "r_ended_ms (s_run s) = None"
  obtains used r2 st0 st r3 where "good r2" "grows r r2"
    "\<And>j t. stored r2 j t \<longleftrightarrow> (if j = i then t = ended_run s status used now else stored r j t)"
    "commits (cascade fuel x used now [i] st0) r2 st r3" "good r3 \<Longrightarrow> grows r3 r'"
proof -
  have id: "s_id s = i" using good_id [OF assms(1,3)] .
  obtain s1 r1 b r2 u1 r3 u2 r4 u3 r5 st r6 where c: "commits (load_run i) r s1 r1"
      "commits (get_as row_u64 ''budget'' (case r_root (s_run s1) of None \<Rightarrow> i | Some root \<Rightarrow> root)) r1 b r2"
      "commits (store_run (ended_run s1 status (case b of None \<Rightarrow> 0 | Some n \<Rightarrow> n) now)) r2 u1 r3"
    and d: "commits (if r_root (s_run (ended_run s1 status (case b of None \<Rightarrow> 0 | Some n \<Rightarrow> n) now)) = None
           then bind (get ''budget'' i) (\<lambda>v. if v \<noteq> None then delete ''budget'' i else Ret ()) else (Ret () :: unit op)) r3 u2 r4"
      "commits (rearm_trigger (ended_run s1 status (case b of None \<Rightarrow> 0 | Some n \<Rightarrow> n) now) now) r4 u3 r5"
    and k: "commits (cascade fuel x (case b of None \<Rightarrow> 0 | Some n \<Rightarrow> n) now [i]
        (bt_insert (s_name (ended_run s1 status (case b of None \<Rightarrow> 0 | Some n \<Rightarrow> n) now)) () bt_empty,
         tally x (s_run (ended_run s1 status (case b of None \<Rightarrow> 0 | Some n \<Rightarrow> n) now)) bt_empty)) r5 st r6"
    and tail: "commits (case st of (names, ended) \<Rightarrow> bind (lifecycle i status now) (\<lambda>_.
     bind (for_each (bt_keys names) (\<lambda>name. drain_queues x name now)) (\<lambda>_.
     for_each (bt_entries ended) (\<lambda>(name, runs, sums). add_bucket x name now runs sums)))) r6 u r'"
    using assms(2) unfolding terminate_def Let_def by (elim commits_bindE) (rule that)
  define used where "used = (case b of None \<Rightarrow> 0 | Some n \<Rightarrow> n)"
  have rows: "r1 = r" "r2 = r" "s1 = s" using c assms(3) by (auto simp: stored_def split: option.splits)
  let ?s = "ended_run s status used now"
  have ev: "evolves s ?s" "wf_run ?s" using evolves_ended_run assms(4) good_wf [OF assms(1,3)] by auto
  have st3: "commits (store_run ?s) r u1 r3" using c(3) rows by (simp add: used_def)
  note g3 = store_run_evolves [OF assms(1,3) ev st3]
  have budget: "writes_in side_key (if r_root (s_run (ended_run s1 status (case b of None \<Rightarrow> 0 | Some n \<Rightarrow> n) now)) = None
      then bind (get ''budget'' i) (\<lambda>v. if v \<noteq> None then delete ''budget'' i else Ret ()) else (Ret () :: unit op))"
    by (auto intro!: writes_in_bind)
  note r4 = side_rows [OF budget g3(1) d(1)]
  note r5 = side_rows [OF side_rearm_trigger r4(1) d(2)]
  have rest: "grows r6 r'" if "good r6"
  proof -
    have "advances (case st of (names, ended) \<Rightarrow> bind (lifecycle i status now) (\<lambda>_.
       bind (for_each (bt_keys names) (\<lambda>name. drain_queues x name now)) (\<lambda>_.
       for_each (bt_entries ended) (\<lambda>(name, runs, sums). add_bucket x name now runs sums))))"
      by (auto intro!: advances_bind advances_lifecycle advances_for_each simp: adds_advances split: prod.split)
    from advancesD [OF this that tail] show ?thesis by simp
  qed
  have rows5: "stored r5 j t \<longleftrightarrow> (if j = i then t = ?s else stored r j t)" for j t
    by (simp add: r5(2) r4(2) stored_store_run [OF st3] id)
  have "grows r r5" using g3(2) by (simp add: grows_def r5(2) r4(2))
  then show thesis
    using that [OF r5(1) _ rows5 _ rest] k unfolding used_def [symmetric] by blast
qed

lemma live_desc_after:
  assumes "live_desc r p j" and "\<And>k t. k \<noteq> i \<Longrightarrow> stored r k t \<Longrightarrow> stored r2 k t"
  shows "j = i \<or> live_desc r2 p j \<or> live_desc r2 i j"
  using assms(1)
proof (induction rule: live_desc.induct)
  case (child p c)
  then show ?case using assms(2) by (auto simp: live_child_def intro!: live_desc.child)
next
  case (deeper p q c)
  then show ?case using assms(2) [of "s_id c" c] live_desc.intros [of r2] unfolding live_child_def by blast
qed

lemma terminated_tree:
  assumes "good r" and "commits (terminate fuel x i status now) r u r'" and "stored r i s" and "r_ended_ms (s_run s) = None"
  shows "\<exists>t. stored r' i t \<and> r_ended_ms (s_run t) = Some now \<and> r_outcome (s_run t) = Some status"
    and "live_desc r i j \<Longrightarrow> j \<noteq> i \<Longrightarrow>
      \<exists>t. stored r' j t \<and> r_ended_ms (s_run t) = Some now \<and> r_outcome (s_run t) = Some Cancelled"
proof -
  obtain used r2 st0 st r3 where good2: "good r2" and grow: "grows r r2"
    and r2: "\<And>j t. stored r2 j t \<longleftrightarrow> (if j = i then t = ended_run s status used now else stored r j t)"
    and k: "commits (cascade fuel x used now [i] st0) r2 st r3" and rest: "good r3 \<Longrightarrow> grows r3 r'"
    by (rule commits_terminate [OF assms]) (rule that)
  have "quiet r2 p" if "p \<in> set [i]" for p
    using that r2 [of i] by (auto simp: quiet_def)
  from cascade_ends [OF good2 this k] have ok: "index_ok r3" and ends: "ends used now (below r2 {i}) r2 r3" by auto
  have live: "below r2 {i} \<subseteq> live r2" using below_live by blast
  have good3: "good r3" using ends_good [OF good2 ok ends live] by simp
  have final: "\<exists>t. stored r' j t \<and> r_ended_ms (s_run t) = Some now \<and> r_outcome (s_run t) = Some o'"
    if "stored r3 j t" "r_ended_ms (s_run t) = Some now" "r_outcome (s_run t) = Some o'" for j t o'
    using rest [OF good3] that unfolding grows_def evolves_def by (metis option.distinct(1))
  have "i \<notin> below r2 {i}" using live r2 [of i] by (auto simp: live_def)
  then have "stored r3 i (ended_run s status used now)" using ends r2 [of i] by (auto simp: ends_def)
  then show "\<exists>t. stored r' i t \<and> r_ended_ms (s_run t) = Some now \<and> r_outcome (s_run t) = Some status"
    by (rule final) simp_all
  assume "live_desc r i j" "j \<noteq> i"
  then have b: "j \<in> below r2 {i}" using live_desc_after [of r i j i r2] r2 by (auto simp: below_def)
  then obtain t where "stored r2 j t" using live by (auto simp: live_def)
  then have "stored r3 j (ended_run t Cancelled used now)" using ends b by (auto simp: ends_def)
  then show "\<exists>t. stored r' j t \<and> r_ended_ms (s_run t) = Some now \<and> r_outcome (s_run t) = Some Cancelled"
    by (rule final) simp_all
qed

section \<open>Properties\<close>

text \<open>
  C11. A run never outlives an ancestor that was cancelled: one commit of a cancellation ends the run and every live descendant
  of it, however deep, all as cancelled at the same instant, and their end is final.
\<close>

theorem cancel_ends_tree:
  assumes "reachable r" and "commits (cancel_run fuel x i now) r True r'" and "j = i \<or> live_desc r i j"
  shows "\<exists>t. stored r' j t \<and> r_ended_ms (s_run t) = Some now \<and> r_outcome (s_run t) = Some Cancelled"
proof -
  obtain s u where "stored r i s" "r_ended_ms (s_run s) = None" "commits (terminate fuel x i Cancelled now) r u r'"
    using assms(2) by (auto simp: cancel_run_def commits_find_run stored_def split: option.splits if_splits)
  with terminated_tree [OF reachable_good [OF assms(1)]] assms(3) show ?thesis by blast
qed


section \<open>Witnesses\<close>

text \<open>The sample run starts a child, then is cancelled.\<close>

definition sample_family :: db where
  "sample_family = after (start_child sample_ext default_policy sample_fence (sample_admission ''c'' ''d'')
     \<lparr>l_parent = ''a'', l_key = ''k'', l_reference = ''r''\<rparr> 2000 ''w3'') sample_started"

lemma sample_child_started:
  "case result (start_child sample_ext default_policy sample_fence (sample_admission ''c'' ''d'')
     \<lparr>l_parent = ''a'', l_key = ''k'', l_reference = ''r''\<rparr> 2000 ''w3'') sample_started of Some (Inr (Some f)) \<Rightarrow> True | _ \<Rightarrow> False"
  by code_simp

lemma sample_family_reachable: "reachable sample_family"
proof -
  obtain v where "result (start_child sample_ext default_policy sample_fence (sample_admission ''c'' ''d'')
     \<lparr>l_parent = ''a'', l_key = ''k'', l_reference = ''r''\<rparr> 2000 ''w3'') sample_started = Some v"
    using sample_child_started by (auto split: option.splits)
  then have "store_step sample_started sample_family"
    unfolding sample_family_def by (rule after_step) (rule store_step.start_child)
  then show ?thesis using sample_reachable reachable_steps by blast
qed

lemma sample_child_row:
  "case bt_get sample_family (''run'', ''c'') of Some (RRun s) \<Rightarrow> s_id s = ''c'' \<and> r_ended_ms (s_run s) = None
      \<and> map_option l_parent (r_child (s_run s)) = Some ''a'' | _ \<Rightarrow> False"
  by code_simp

lemma sample_desc: "live_desc sample_family ''a'' ''c''"
proof -
  obtain s where "stored sample_family ''c'' s" "s_id s = ''c''" "r_ended_ms (s_run s) = None"
      "map_option l_parent (r_child (s_run s)) = Some ''a''"
    using sample_child_row by (auto simp: stored_def split: option.splits row.splits)
  then show ?thesis using live_desc.child [of sample_family "''a''" s] by (auto simp: live_child_def)
qed

lemma sample_cancel_family: "result (cancel_run 5 sample_ext ''a'' 3000) sample_family = Some True"
  by code_simp

theorem cancel_ends_tree_witness:
  "\<exists>t. stored (after (cancel_run 5 sample_ext ''a'' 3000) sample_family) ''c'' t
     \<and> r_ended_ms (s_run t) = Some 3000 \<and> r_outcome (s_run t) = Some Cancelled"
  using cancel_ends_tree [OF sample_family_reachable commits_result [OF sample_cancel_family]] sample_desc by blast

lemma sample_cancelled_row:
  "case bt_get sample_cancelled (''run'', ''a'') of Some (RRun s) \<Rightarrow> r_ended_ms (s_run s) \<noteq> None \<and> s_awaits s = bt_empty | _ \<Rightarrow> False"
  by code_simp

lemma sample_cancelled_reachable: "reachable sample_cancelled"
  using sample_taken_reachable sample_cancel_step reachable_steps by blast


end
