(* ===== verification/Event_Identity.thy ===== *)
theory Event_Identity
  imports Step_Replay
begin

text \<open>
  Events are accepted once: a run keeps evidence of every identity it accepted, so a redelivery of the same event is
  answered without a second copy and a different event under the same identity is refused.
\<close>

section \<open>Evidence\<close>

text \<open>\<open>holds r i ident event\<close>: run \<open>i\<close> has a copy of \<open>event\<close>, filed under its identity.\<close>

definition holds :: "db \<Rightarrow> string \<Rightarrow> string \<Rightarrow> json \<Rightarrow> bool" where
  "holds r i ident event \<longleftrightarrow> (\<exists>n e. bt_get r (identities_of i, component ident) = Some (u64_row n)
     \<and> bt_get r (events_of i, sequence n) = Some (REvent e) \<and> map_option payload (e_envelope e) = Some (payload event))"

lemma row_cases: "row_u64 v = Some n \<longleftrightarrow> v = u64_row n" "row_event v = Some e \<longleftrightarrow> v = REvent e"
  by (auto simp: as_u64_def split: row.splits json.splits number.splits)

lemma run_accept_held:
  assumes "holds r (s_id s) ident event" and "e_envelope e = Some event'" and "identity event' = Some ident"
  shows "run (accept s e now) r =
    (if payload event' = payload event then Inr ((False, s), r) else Inl (IdentityConflict (shown_identity ident)))"
  using assms by (auto simp: holds_def accept_def copy_def run_bind run_simps as_u64_def)

lemma mail_kind_neq [simp]:
  "identities_of i \<noteq> ''run''" "events_of i \<noteq> ''run''" "events_of i \<noteq> identities_of j" "identities_of i \<noteq> events_of j"
  by (auto simp: identities_of_def events_of_def kind_simps)

lemma mail_families [simp]:
  "family (identities_of i) = ''event_id''" "family (events_of i) = ''event''" "family (types_of i) = ''event_type''"
  "family (pending_of i t) = ''pending''" "family (live_of i t) = ''live''" "family (published_of i) = ''published''"
  "family (live_published_of i) = ''live_published''" "family (expiring_of i) = ''expiry''"
  by (simp_all add: identities_of_def events_of_def types_of_def pending_of_def live_of_def published_of_def
      live_published_of_def expiring_of_def)

lemma pending_rows_family:
  "(kind, k, v) \<in> set (pending_rows i n e) \<Longrightarrow>
     family kind \<in> {''pending'', ''live'', ''published'', ''live_published'', ''expiry''}"
  by (auto simp: pending_rows_def split: if_splits option.splits)

lemma leaves_pending:
  "family (fst l) \<notin> {''pending'', ''live'', ''published'', ''live_published'', ''expiry''} \<Longrightarrow>
     leaves l (for_each (pending_rows i n e) (\<lambda>(kind, k, v). put kind k v))"
  by (rule leaves_for_each) (auto intro!: leaves_put dest!: pending_rows_family)

lemma identities_of_inject [simp]: "identities_of i = identities_of j \<longleftrightarrow> i = j"
  by (simp add: identities_of_def partition_inject)

lemma push_holds:
  assumes "commits (push s e) r t r'" and "e_envelope e = Some event" and "identity event = Some ident"
  shows "holds r' (s_id s) ident event"
proof -
  let ?i = "s_id s" and ?n = "s_accepted s"
  let ?r1 = "bt_insert (identities_of ?i, component ident) (u64_row ?n) (bt_insert (events_of ?i, sequence ?n) (REvent e) r)"
  obtain nx r0 u1 r1 u2 r2 first r2' u3 r3 u4 r4 where
      c0: "commits (of_option (Message ''event sequence overflow'') (checked_add_u64 ?n 1)) r nx r0"
        "commits (put (events_of ?i) (sequence ?n) (REvent e) :: unit op) r0 u1 r1"
        "commits (case Option.bind (e_envelope e) identity of
              None \<Rightarrow> Ret ()
            | Some ident \<Rightarrow>
                bind (put (identities_of ?i) (component ident) (u64_row ?n)) (\<lambda>_.
                  if e_delivered e then put (partition ''delivered'' ident) ?i (RJson (String ?i)) else (Ret () :: unit op))) r1 u2 r2"
        "commits (get (types_of ?i) (component (e_type e)) :: row option op) r2 first r2'"
      and c1: "commits (if first = None then put (types_of ?i) (component (e_type e)) (u64_row ?n) else (Ret () :: unit op)) r2' u3 r3"
        "commits (for_each (pending_rows ?i ?n e) (\<lambda>(kind, k, v). put kind k v) :: unit op) r3 u4 r4"
      and last: "r' = r4"
    using assms(1) unfolding push_def Let_def by (elim commits_bindE) (rule that, assumption+, simp)
  have c: "commits (if e_delivered e then put (partition ''delivered'' ident) ?i (RJson (String ?i)) else (Ret () :: unit op)) ?r1 () r2"
      "r3 = r2 \<or> r3 = bt_insert (types_of ?i, component (e_type e)) (u64_row ?n) r2"
      "commits (for_each (pending_rows ?i ?n e) (\<lambda>(kind, k, v). put kind k v) :: unit op) r3 () r'"
    using c0 c1 last assms(2,3) by (auto split: if_splits)
  have other: "bt_get r' l = bt_get ?r1 l" if "family (fst l) \<in> {''event_id'', ''event''}" for l
  proof -
    have "bt_get r' l = bt_get r3 l" using that leavesD [OF leaves_pending c(3), of l] by auto
    also have "\<dots> = bt_get r2 l" using c(2) that by (cases l) auto
    also have "\<dots> = bt_get ?r1 l" using c(1) that by (cases l) (auto split: if_splits)
    finally show ?thesis .
  qed
  show ?thesis
    unfolding holds_def using assms(2) other [of "(identities_of ?i, component ident)"] other [of "(events_of ?i, sequence ?n)"]
    by (intro exI [of _ ?n] exI [of _ e]) simp
qed

lemma accept_holds:
  assumes "commits (accept s e now) r (taken, s') r'" and "e_envelope e = Some event" and "identity event = Some ident"
  shows "holds r' (s_id s) ident event"
proof (cases "bt_get r (identities_of (s_id s), component ident)")
  case None
  then obtain t where "commits (push t e) r s' r'" "s_id t = s_id s"
    using assms by (auto simp: accept_def Let_def split: if_splits)
  then show ?thesis using push_holds [OF _ assms(2,3)] by metis
next
  case (Some v)
  then obtain n held where "v = u64_row n" "bt_get r (events_of (s_id s), sequence n) = Some (REvent held)" "r' = r"
      "Some (payload event) = map_option payload (e_envelope held)"
    using assms by (auto simp: accept_def copy_def row_cases simp del: row_simps split: option.splits)
  then show ?thesis using Some by (auto simp: holds_def)
qed

lemma store_run_holds: "commits (store_run s) r a r' \<Longrightarrow> holds r' i ident event \<longleftrightarrow> holds r i ident event"
  by (simp add: holds_def store_run_side)

lemma deliver_to:
  assumes "good r" and "commits (deliver event (Some i) now pol) r (Some j) r'" and "identity event = Some ident"
  shows "holds r' i ident event \<and> j = i \<and> (\<exists>s. stored r' i s)"
proof -
  obtain t s e taken s' r1 where s: "stored r i s" "j = s_id s" "commits (accept s e now) r (taken, s') r1"
      "e_envelope e = Some event" "commits (if taken then store_run s' else Ret ()) r1 () r'"
    using assms(2,3) unfolding deliver_def find_recipient_def Let_def
    by (auto simp: commits_find_run stored_def simp del: commits_if split: option.splits if_splits)
  have id: "s_id s = i" using good_id [OF assms(1) s(1)] .
  have h: "holds r' i ident event"
    using accept_holds [OF s(3,4) assms(3)] s(5) id store_run_holds by (auto split: if_splits)
  have "grows r r'" using advancesD [OF advances_deliver assms(1,2)] by simp
  then have "\<exists>s. stored r' i s" using s(1) unfolding grows_def by blast
  then show ?thesis using h s(2) id by simp
qed

lemma run_deliver_held:
  assumes "good r" and "stored r i s" and "holds r i ident event" and "identity event' = Some ident" and "event_type event' = Some t"
  shows "run (deliver event' (Some i) now pol) r =
    (if payload event' = payload event then Inr (Some i, r) else Inl (IdentityConflict (shown_identity ident)))"
proof -
  have s: "s_id s = i" "s_version s = VERSION" using good_id [OF assms(1,2)] good_wf [OF assms(1,2)] by (auto simp: wf_run_def)
  have find: "run (find_run i) r = Inr (Some s, r)"
    using assms(2) s by (simp add: find_run_def run_bind run_get stored_def stored_run_row_def run_of_sum)
  obtain v where row: "bt_get r (identities_of i, component ident) = Some v" using assms(3) by (auto simp: holds_def)
  show ?thesis
    using run_accept_held [of r s ident event _ event' now, OF _ _ assms(4)] assms(3-5) s row
    by (simp add: deliver_def find_recipient_def run_bind run_simps find)
qed

section \<open>Properties\<close>

text \<open>
  An event is delivered to a run once: after a delivery to a run committed, delivering an event of the same identity
  to that run changes nothing and answers the same run when it is the same event up to its time stamp, and is
  refused as a conflict when it is not; this also when the run ended in between.
\<close>

lemma delivery_is_once:
  assumes "reachable r" and "commits (deliver event (Some i) now pol) r (Some j) r'"
    and "identity event' = identity event" and "event_type event' \<noteq> None"
  shows "run (deliver event' (Some i) now' pol') r' =
    (if payload event' = payload event then Inr (Some j, r')
     else Inl (IdentityConflict (shown_identity (the (identity event)))))"
proof -
  have g: "good r" by (rule reachable_good [OF assms(1)])
  obtain ident where ident: "identity event = Some ident"
    using assms(2) by (auto simp: deliver_def)
  obtain s where s: "stored r' i s" "holds r' i ident event" "j = i" using deliver_to [OF g assms(2) ident] by blast
  obtain t where t: "event_type event' = Some t" using assms(4) by auto
  have "good r'" using advancesD [OF advances_deliver g assms(2)] by simp
  from run_deliver_held [OF this s(1,2) _ t, of now' pol'] show ?thesis
    using ident assms(3) s(3) by simp
qed

section \<open>Witnesses\<close>

lemma sample_deliver: "result (deliver sample_event (Some ''a'') 1500 default_policy) sample_started = Some (Some ''a'')"
  by code_simp

lemma delivery_is_once_witness:
  "run (deliver sample_event (Some ''a'') 1800 default_policy) sample_mailed = Inr (Some ''a'', sample_mailed)"
proof -
  have c: "commits (deliver sample_event (Some ''a'') 1500 default_policy) sample_started (Some ''a'') sample_mailed"
    unfolding sample_mailed_def by (rule commits_result [OF sample_deliver])
  have "event_type sample_event \<noteq> None" by code_simp
  from delivery_is_once [OF sample_reachable c refl this] show ?thesis by simp
qed
end
