(* ===== verification/Breaker_Rules.thy ===== *)
theory Breaker_Rules
  imports Journal_Safety
begin

text \<open>
  The circuit breaker of a definition and its activations: consecutive faults of the active version are counted,
  the definition trips exactly when their number reaches the threshold, a tripped definition admits no new
  run of that content, and only an activation, which compares the epoch it was decided on, clears the trip.
\<close>

section \<open>The definitions row\<close>

definition catalog_of :: "db \<Rightarrow> string \<Rightarrow> definitions option" where
  "catalog_of r name = (case bt_get r (''definitions'', name) of Some (RDefinitions v defs) \<Rightarrow>
     if v = DEFINITIONS_VERSION then Some defs else None | _ \<Rightarrow> None)"

lemma catalog_of_iff:
  "catalog_of r name = Some defs \<longleftrightarrow> bt_get r (''definitions'', name) = Some (RDefinitions DEFINITIONS_VERSION defs)"
  by (auto simp: catalog_of_def split: option.splits row.splits)

lemma catalog_put [simp]:
  "catalog_of (bt_insert (''definitions'', name) (RDefinitions DEFINITIONS_VERSION defs) r) name = Some defs"
  by (simp add: catalog_of_iff)

lemma leaves_delete: "k \<noteq> (kind, i) \<Longrightarrow> leaves k (delete kind i)"
  by (simp add: leaves_def)

lemma leaves_reads: "reads_only m \<Longrightarrow> leaves k m"
  unfolding leaves_def by (intro allI impI) (drule reads_only_rows, assumption, simp)

lemma definitions_neq [simp]:
  "''definitions'' \<noteq> partition k v" "partition k v \<noteq> ''definitions''"
  by (simp_all add: partition_not_plain)

lemma leaves_remove_queue: "leaves (''definitions'', name) (remove_queue k)"
  unfolding remove_queue_def
  by (auto intro!: leaves_bind leaves_delete simp: leaves_reads split: option.split)

lemma leaves_write_changes:
  assumes "\<not> bt_has before k" and "\<not> bt_has new k"
  shows "leaves k (for_each (changes before new) write_change)"
  unfolding leaves_def
  using writes_in_frame [OF writes_in_changes [of before new "\<lambda>l. l \<noteq> k"]] assms by (metis (full_types))

lemma trigger_indexes_no_definitions: "\<not> bt_has (trigger_indexes k t) (''definitions'', name)"
  by (auto simp: trigger_indexes_def bt_of_list_has split: option.splits)

lemma leaves_store_trigger: "leaves (''definitions'', name) (store_trigger k before new)"
  unfolding store_trigger_def Let_def
  by (rule leaves_bind, rule leaves_write_changes)
     (auto simp: trigger_indexes_no_definitions intro!: leaves_put leaves_delete split: option.split)

lemma leaves_arm: "leaves (''definitions'', name) (arm defs ts)"
  unfolding arm_def
  by (auto intro!: leaves_bind leaves_for_each leaves_remove_queue leaves_store_trigger simp: leaves_reads split: prod.split)

lemma commits_arm: "commits (arm defs ts) r defs' r' \<Longrightarrow> defs' = defs\<lparr>d_triggers := bt_keys ts\<rparr>"
  by (auto simp: arm_def)

section \<open>Counting faults\<close>

text \<open>A run's outcome counts when the run is of the active version, admitted in the current epoch, and the
  definition has not tripped.\<close>

definition counts :: "saved_run \<Rightarrow> definitions \<Rightarrow> bool" where
  "counts q defs \<longleftrightarrow> d_active defs = Some (a_version (r_admission q)) \<and> r_epoch q = Some (d_epoch defs) \<and> d_tripped defs = None"

definition threshold_of :: "definitions \<Rightarrow> nat \<Rightarrow> nat \<Rightarrow> nat option" where
  "threshold_of defs version dflt =
     effective (case bt_get (d_versions defs) version of None \<Rightarrow> Inherit | Some d \<Rightarrow> dv_breaker d) dflt"

lemma breaker_uncounted:
  assumes "commits (breaker x q fault success dflt now) r u r'" and "catalog_of r (a_name (r_admission q)) = Some defs"
    and "\<not> counts q defs"
  shows "r' = r"
  using assms by (auto simp: breaker_def Let_def catalog_of_iff counts_def split: if_splits)

lemma breaker_success:
  assumes "commits (breaker x q None success dflt now) r u r'" and "catalog_of r (a_name (r_admission q)) = Some defs"
    and "counts q defs"
  shows "catalog_of r' (a_name (r_admission q)) = Some (if success then defs\<lparr>d_consecutive_faults := 0\<rparr> else defs)"
  using assms by (auto simp: breaker_def Let_def catalog_of_iff counts_def split: if_splits)

lemma breaker_fault:
  assumes "commits (breaker x q (Some reason) success dflt now) r u r'" and "catalog_of r (a_name (r_admission q)) = Some defs"
    and "counts q defs"
  obtains defs' where "catalog_of r' (a_name (r_admission q)) = Some defs'"
    "d_consecutive_faults defs' = sat_add_u32 (d_consecutive_faults defs) 1" "d_versions defs' = d_versions defs"
    "d_epoch defs' = d_epoch defs"
    "d_tripped defs' =
      (case threshold_of defs (a_version (r_admission q)) dflt of None \<Rightarrow> None
       | Some n \<Rightarrow> if sat_add_u32 (d_consecutive_faults defs) 1 < n then None
           else Some \<lparr>t_manual = None, t_breaker = True, t_version = a_version (r_admission q),
             t_digest = digest (Some defs) (r_admission q), t_epoch = d_epoch defs,
             t_faults = sat_add_u32 (d_consecutive_faults defs) 1, t_threshold = n,
             t_run = a_id (r_admission q), t_reason = reason, t_at_ms = now\<rparr>)"
    "d_tripped defs' \<noteq> None \<Longrightarrow> d_triggers defs' = []"
proof -
  have c: "d_active defs = Some (a_version (r_admission q))" "r_epoch q = Some (d_epoch defs)" "d_tripped defs = None"
    using assms(3) by (simp_all add: counts_def)
  have row: "bt_get r (''definitions'', a_name (r_admission q)) = Some (RDefinitions DEFINITIONS_VERSION defs)"
    using assms(2) by (simp add: catalog_of_iff)
  show thesis
  proof (cases "\<exists>n. threshold_of defs (a_version (r_admission q)) dflt = Some n \<and> n \<le> sat_add_u32 (d_consecutive_faults defs) 1")
    case True
    then obtain n where n: "threshold_of defs (a_version (r_admission q)) dflt = Some n"
      "\<not> sat_add_u32 (d_consecutive_faults defs) 1 < n" by auto
    show thesis
      using assms(1) c row n commits_arm
      by (intro that [of "defs\<lparr>d_consecutive_faults := sat_add_u32 (d_consecutive_faults defs) 1, d_triggers := [],
        d_tripped := Some \<lparr>t_manual = None, t_breaker = True, t_version = a_version (r_admission q),
             t_digest = digest (Some defs) (r_admission q), t_epoch = d_epoch defs,
             t_faults = sat_add_u32 (d_consecutive_faults defs) 1, t_threshold = n,
             t_run = a_id (r_admission q), t_reason = reason, t_at_ms = now\<rparr>\<rparr>"])
         (auto simp: breaker_def Let_def threshold_of_def digest_def bt_keys_def dest!: commits_arm)
  next
    case False
    then show thesis
      using assms(1) c row
      by (intro that [of "defs\<lparr>d_consecutive_faults := sat_add_u32 (d_consecutive_faults defs) 1\<rparr>"])
         (auto simp: breaker_def Let_def threshold_of_def split: option.splits)
  qed
qed

section \<open>Activation\<close>

lemma run_load_definitions:
  "bt_get r (''definitions'', name) = None \<Longrightarrow> run (load_definitions name) r = Inr (None, r)"
  "catalog_of r name = Some defs \<Longrightarrow> run (load_definitions name) r = Inr (Some defs, r)"
  by (auto simp: load_definitions_def run_bind run_get catalog_of_iff decode_definitions_def run_of_sum)

section \<open>Properties\<close>


text \<open>
  C22. A tripped definition admits nothing of the content that tripped it: once the faults of a run tripped its definition, every
  admission of a new run of that version is refused, with the trip's epoch and count, until something changes
  the definition's row.
\<close>

theorem trip_bars_admission:
  assumes "commits (breaker x q (Some reason) success dflt now) r u r'" and "catalog_of r (a_name (r_admission q)) = Some defs"
    and "counts q defs" and "threshold_of defs (a_version (r_admission q)) dflt = Some n"
    and "n \<le> sat_add_u32 (d_consecutive_faults defs) 1"
    and "catalog_of r'' (a_name (r_admission q)) = catalog_of r' (a_name (r_admission q))"
    and "a_name a = a_name (r_admission q)" and "a_version a = a_version (r_admission q)"
    and "bt_get r'' (''run'', a_id a) = None" and "run running r'' = Inr ((), r'')"
  shows "run (admitted a now' j) r'' = Inl (DefinitionTripped \<lparr>dt_name = a_name a, dt_epoch = d_epoch defs,
    dt_version = a_version a, dt_faults = sat_add_u32 (d_consecutive_faults defs) 1, dt_paused = False\<rparr>)"
proof -
  obtain defs' where d: "catalog_of r' (a_name (r_admission q)) = Some defs'" "d_versions defs' = d_versions defs"
    "d_tripped defs' =
      (case threshold_of defs (a_version (r_admission q)) dflt of None \<Rightarrow> None
       | Some n \<Rightarrow> if sat_add_u32 (d_consecutive_faults defs) 1 < n then None
           else Some \<lparr>t_manual = None, t_breaker = True, t_version = a_version (r_admission q),
             t_digest = digest (Some defs) (r_admission q), t_epoch = d_epoch defs,
             t_faults = sat_add_u32 (d_consecutive_faults defs) 1, t_threshold = n,
             t_run = a_id (r_admission q), t_reason = reason, t_at_ms = now\<rparr>)"
    by (rule breaker_fault [OF assms(1-3)]) blast
  have dig: "digest (Some defs') a = digest (Some defs) (r_admission q)"
    by (simp add: digest_def d(2) assms(8))
  have load: "run (load_definitions (a_name a)) r'' = Inr (Some defs', r'')"
    using assms(6,7) d(1) run_load_definitions(2) by simp
  show ?thesis
    using assms(4,5,8,9,10) load dig
    by (simp add: admitted_def find_run_def run_bind run_get barred_def refusal_def d(3))
qed

text \<open>
  An activation compares the epoch it was decided on: under another epoch it changes nothing and answers so; otherwise it makes
  the version active, starts the next epoch and clears the trip and the count, and the triggers it arms are the
  definition's triggers.
\<close>

lemma activation_compares_epoch:
  assumes "commits (activate name version epoch arming act) r out r'" and "catalog_of r name = Some defs"
  shows "(out = None \<longleftrightarrow> (\<exists>e. epoch = Some e \<and> e \<noteq> d_epoch defs)) \<and> (out = None \<longrightarrow> r' = r)
    \<and> (\<forall>defs'. out = Some defs' \<longrightarrow> catalog_of r' name = Some defs' \<and> d_active defs' = Some version
        \<and> d_epoch defs' = d_epoch defs + 1 \<and> d_epoch defs' \<le> U64_MAX \<and> d_tripped defs' = None
        \<and> d_consecutive_faults defs' = 0 \<and> d_triggers defs' = bt_keys arming \<and> d_versions defs' = d_versions defs
        \<and> bt_has (d_versions defs') version)"
  using assms
  by (auto simp: activate_def Let_def catalog_of_iff checked_add_u64_Some dest!: commits_arm split: option.splits if_splits)

section \<open>Witnesses\<close>

text \<open>A definition whose first version trips at its first fault, activated twice, and a faulted run of it.\<close>

definition sample_saved :: db where
  "sample_saved = after (save_definition sample_ext ''d'' ''do'' (Threshold 1)) bt_empty"

definition sample_activation :: "definitions option op" where
  "sample_activation = activate ''d'' 1 (Some 0) bt_empty (activation_at 500)"

definition sample_catalog :: db where
  "sample_catalog = after sample_activation sample_saved"

definition sample_run :: saved_run where
  "sample_run = s_run (initial_run (sample_admission ''a'' ''d'') 1000 (Some 1) [])"

definition sample_fault :: "unit op" where
  "sample_fault = breaker sample_ext sample_run (Some (runtime_error ''x'')) False 3 2000"

definition sample_defs :: definitions where
  "sample_defs = the (catalog_of sample_catalog ''d'')"

lemma sample_breaker:
  "result sample_fault sample_catalog = Some ()" "catalog_of sample_catalog ''d'' \<noteq> None" "counts sample_run sample_defs"
  "threshold_of sample_defs 1 3 = Some 1" "1 \<le> sat_add_u32 (d_consecutive_faults sample_defs) 1"
  by code_simp+

lemma sample_run_admission: "r_admission sample_run = sample_admission ''a'' ''d''"
  by (simp add: sample_run_def initial_run_def)

lemma sample_admission_simps [simp]:
  "a_name (sample_admission i n) = n" "a_version (sample_admission i n) = 1" "a_id (sample_admission i n) = i"
  by (simp_all add: sample_admission_def)

lemma sample_defs_row: "catalog_of sample_catalog (a_name (r_admission sample_run)) = Some sample_defs"
  using sample_breaker(2) by (auto simp: sample_defs_def sample_run_admission)


lemma sample_tripped:
  "bt_get (after sample_fault sample_catalog) (''run'', ''b'') = None"
  "result running (after sample_fault sample_catalog) = Some ()"
  "after running (after sample_fault sample_catalog) = after sample_fault sample_catalog"
  by code_simp+

theorem trip_bars_admission_witness:
  "\<exists>refusal. run (admitted (sample_admission ''b'' ''d'') 3000 Root) (after sample_fault sample_catalog) = Inl (DefinitionTripped refusal)"
proof -
  have c: "commits (breaker sample_ext sample_run (Some (runtime_error ''x'')) False 3 2000) sample_catalog ()
      (after sample_fault sample_catalog)"
    using commits_result [OF sample_breaker(1)] by (simp add: sample_fault_def)
  have "run running (after sample_fault sample_catalog) = Inr ((), after sample_fault sample_catalog)"
    using commits_result [OF sample_tripped(2)] sample_tripped(3) by (simp add: commits_def)
  with trip_bars_admission [OF c sample_defs_row sample_breaker(3), of 1 _ "sample_admission ''b'' ''d''" 3000 Root]
  show ?thesis using sample_breaker(4,5) sample_tripped(1) by (auto simp: sample_run_admission)
qed

lemma sample_activates: "case result sample_activation sample_saved of Some (Some defs) \<Rightarrow> True | _ \<Rightarrow> False"
  "catalog_of sample_saved ''d'' \<noteq> None"
  by code_simp+

lemma activation_compares_epoch_witness:
  "\<exists>defs'. result sample_activation sample_saved = Some (Some defs') \<and> catalog_of sample_catalog ''d'' = Some defs'
     \<and> d_active defs' = Some 1 \<and> d_tripped defs' = None"
proof -
  obtain defs' defs where d: "result sample_activation sample_saved = Some (Some defs')" "catalog_of sample_saved ''d'' = Some defs"
    using sample_activates by (auto split: option.splits)
  from activation_compares_epoch [OF commits_result [OF d(1), unfolded sample_activation_def] d(2)] d(1)
  show ?thesis by (auto simp: sample_catalog_def sample_activation_def)
qed

end
