(* ===== verification/Firing_Rules.thy ===== *)
theory Firing_Rules
  imports Breaker_Rules
begin

text \<open>
  Firing a trigger: the commit compares the trigger it was computed from, takes an ingress identity at most
  once within its retention, and counts the live runs of the definition against its ceiling.
\<close>

section \<open>Capacity\<close>

text \<open>The live runs of a definition.\<close>

definition live_of_name :: "db \<Rightarrow> string \<Rightarrow> string set" where
  "live_of_name r name = {i. \<exists>s. stored r i s \<and> r_ended_ms (s_run s) = None \<and> s_name s = name}"

lemma live_name_rows:
  assumes "index_ok r"
  shows "length (scan_rows r (partition ''live_name'' name) [] None None) = card (live_of_name r name)"
proof -
  let ?rs = "scan_rows r (partition ''live_name'' name) [] None None"
  have "distinct (map fst ?rs)" by (rule scan_rows_distinct)
  moreover have "inj_on snd (set (map fst ?rs))"
    by (rule inj_onI) (auto simp: scan_rows_all in_range_def prod_eq_iff)
  ultimately have "distinct (map snd (map fst ?rs))" by (simp add: distinct_map [of snd] del: map_map)
  moreover have "k \<in> set (map snd (map fst ?rs)) \<longleftrightarrow> k \<in> live_of_name r name" for k
  proof -
    have "k \<in> set (map snd (map fst ?rs)) \<longleftrightarrow> (\<exists>v. bt_get r (partition ''live_name'' name, k) = Some v)"
      by (force simp: scan_rows_all in_range_def)
    then show ?thesis unfolding live_name_lookup [OF assms] by (simp add: live_of_name_def)
  qed
  then have "set (map snd (map fst ?rs)) = live_of_name r name" by blast
  ultimately have "card (live_of_name r name) = length (map snd (map fst ?rs))" using distinct_card by fastforce
  then show ?thesis by simp
qed

text \<open>
  A definition has room exactly while fewer of its runs are live than the ceiling allows: the bounded scan that decides it
  counts every live run of the definition once, and a ceiling of zero never has room.
\<close>

lemma capacity_counts_live_runs:
  assumes "reachable r"
  shows "run (capacity name limit) r = Inr (card (live_of_name r name) < limit, r)"
proof -
  have "length (scan_rows r (partition ''live_name'' name) [] None (Some limit))
      = min limit (card (live_of_name r name))"
    using live_name_rows [OF good_index [OF reachable_good [OF assms]]]
    by (simp add: scan_rows_def take_limit_def min.commute)
  then show ?thesis by (auto simp: capacity_def run_bind run_scan)
qed

section \<open>Ingress\<close>

definition buried :: "db \<Rightarrow> string \<Rightarrow> json \<Rightarrow> int \<Rightarrow> bool" where
  "buried r ident event at \<longleftrightarrow>
     bt_get r (''ingress'', component ident) = Some (RTombstone \<lparr>ts_payload = payload event, ts_expires_at_ms = at\<rparr>)"

lemma run_ingested:
  assumes "buried r ident event at" and "now < at" and "identity event' = Some ident"
  shows "run (ingested event' now) r =
    (if payload event' = payload event then Inr (True, r) else Inl (IdentityConflict (shown_identity ident)))"
  using assms by (simp add: buried_def ingested_def tombstone_def Let_def run_bind run_simps)

lemma leaves_ingress:
  "leaves (''ingress'', k) (store_trigger t before new)" "leaves (''ingress'', k) (admit_firing t a ra nxt now)"
  "leaves (''ingress'', k) (refuse x rf now)" "leaves (''ingress'', k) (put ''trigger_run'' i v)"
proof -
  have "outside [] (''ingress'', k)"
    by (simp add: outside_def work_families_def id_families_def timed_families_def wait_families_def)
  note out = leaves_frames [OF _ this]
  show "leaves (''ingress'', k) (store_trigger t before new)" "leaves (''ingress'', k) (admit_firing t a ra nxt now)"
    "leaves (''ingress'', k) (refuse x rf now)" by (rule out, simp)+
qed (simp add: leaves_put)

lemma commits_bury:
  assumes "commits (bury event k old now pol) r u r'"
  shows "bt_get r' (''ingress'', k) = Some (RTombstone \<lparr>ts_payload = payload event, ts_expires_at_ms = sat_add now (ingress_ms pol)\<rparr>)"
  using assms by (auto simp: bury_def Let_def split: option.splits)

text \<open>What a firing that took its identity did after its overlap policy.\<close>

definition settle :: "ext \<Rightarrow> firing \<Rightarrow> trigger option \<Rightarrow> int \<Rightarrow> trigger option \<Rightarrow> fired \<Rightarrow> fired op" where
  "settle x f current now nxt disposition =
     bind (store_trigger (fi_key f) current nxt) (\<lambda>_.
     bind (if disposition = FCommitted
           then for_each (fi_admit f) (\<lambda>a. admit_firing (fi_key f) a (fi_rearm f) nxt now) else Ret ()) (\<lambda>_.
     bind (case (disposition, fi_refused f) of
             (FCommitted, Some r) \<Rightarrow>
               bind (refuse x r now) (\<lambda>_. put ''trigger_run'' (fi_key f) (RJson (String (a_id (rf_admission r)))))
           | _ \<Rightarrow> Ret ()) (\<lambda>_.
     Ret disposition)))"

lemma leaves_settle: "leaves (''ingress'', k) (settle x f current now nxt disposition)"
  unfolding settle_def
  by (auto intro!: leaves_bind leaves_for_each leaves_ingress split: fired.split option.split)

lemma fire_checked_buries:
  assumes "commits (fire_checked fuel x f current now pol) r d r'" and "fi_ingress f = Some event" and "d \<noteq> FIngested"
    and "identity event = Some ident"
  shows "buried r' ident event (sat_add now (ingress_ms pol))"
proof -
  obtain u r1 where one: "commits (if u then Ret FIngested else
       bind (fire_outcome fuel x f now) (\<lambda>(nxt, disposition).
       bind (bind (tombstone event now) (\<lambda>(k, old, used).
                 if used then Ret True else bind (bury event k old now pol) (\<lambda>_. Ret False))) (\<lambda>used.
       if used then Ret FIngested else settle x f current now nxt disposition))) r1 d r'"
    using assms(1) unfolding fire_checked_def assms(2) option.case settle_def [symmetric]
    by (rule commits_bindE) (rule that)
  have "commits (bind (fire_outcome fuel x f now) (\<lambda>(nxt, disposition).
       bind (bind (tombstone event now) (\<lambda>(k, old, used).
                 if used then Ret True else bind (bury event k old now pol) (\<lambda>_. Ret False))) (\<lambda>used.
       if used then Ret FIngested else settle x f current now nxt disposition))) r1 d r'"
    using one assms(3) by (simp only: split: if_splits) (auto simp only: commits_Ret)
  then obtain o1 r2 where o1: "commits ((\<lambda>(nxt, disposition).
       bind (bind (tombstone event now) (\<lambda>(k, old, used).
                 if used then Ret True else bind (bury event k old now pol) (\<lambda>_. Ret False))) (\<lambda>used.
       if used then Ret FIngested else settle x f current now nxt disposition)) o1) r2 d r'"
    by (rule commits_bindE) (rule that)
  obtain nxt disposition where pair: "o1 = (nxt, disposition)" by (cases o1)
  obtain used r3 where two:
      "commits (bind (tombstone event now) (\<lambda>(k, old, used). if used then Ret True else bind (bury event k old now pol) (\<lambda>_. Ret False))) r2 used r3"
      "commits (if used then Ret FIngested else settle x f current now nxt disposition) r3 d r'"
    using o1 [unfolded pair prod.case] by (rule commits_bindE) (rule that)
  obtain old r4 where b: "commits (bury event (component ident) old now pol) r4 () r3"
    using two assms(3,4) by (auto simp: tombstone_def Let_def split: option.splits if_splits)
  have "bt_get r' (''ingress'', component ident) = bt_get r3 (''ingress'', component ident)"
    using two(2) assms(3) leavesD [OF leaves_settle] by (auto split: if_splits)
  then show ?thesis using commits_bury [OF b] by (simp add: buried_def)
qed

lemma run_fire_checked_used:
  assumes "fi_ingress f = Some event'" and "buried r ident event at" and "now < at" and "identity event' = Some ident"
  shows "run (fire_checked fuel x f current now pol) r =
    (if payload event' = payload event then Inr (FIngested, r) else Inl (IdentityConflict (shown_identity ident)))"
  using assms run_ingested [OF assms(2-4)] by (simp add: fire_checked_def run_bind)


section \<open>Comparing the trigger\<close>

text \<open>
  A firing is a compare-and-set on its trigger: when the stored trigger is not the one the firing was computed from, it answers
  so and changes nothing; no run is admitted, no trigger moved and no identity taken. (Slots that the end of an
  emergency stop left to drain go first and are not part of the firing.)
\<close>

lemma fire_compares_trigger:
  assumes "run is_stopped r = Inr (False, r)" and "fi_refused f = None \<or> fi_admit f = []"
    and "\<And>a. candidate_of f = Some a \<Longrightarrow> bt_get r (''control_drain'', a_name a) = None"
    and "run (trigger_of (fi_key f)) r = Inr (current, r)" and "current \<noteq> fi_expected f"
  shows "run (fire fuel x f now pol) r = Inr (Inr FChanged, r)"
proof -
  have "run (case candidate_of f of None \<Rightarrow> Ret False | Some a \<Rightarrow> drain_marked x (a_name a) now) r = Inr (False, r)"
    using assms(3) by (auto simp: drain_marked_def run_bind run_get_as split: option.split)
  then show ?thesis
    using assms(1,2,4,5) by (simp add: fire_def trigger_of_def run_bind run_ensure)
qed

section \<open>Witnesses\<close>

lemma capacity_counts_live_runs_witness:
  "run (capacity ''d'' 1) sample_started = Inr (card (live_of_name sample_started ''d'') < 1, sample_started)"
  by (rule capacity_counts_live_runs [OF sample_reachable])

definition sample_webhook :: "string \<Rightarrow> json" where
  "sample_webhook data = Object [(''data'', String data), (''id'', String ''1''), (''source'', String ''s'')]"

definition sample_firing :: "string \<Rightarrow> firing" where
  "sample_firing i = \<lparr>fi_key = ''t'', fi_expected = None, fi_next = None, fi_admit = [sample_admission i ''d''],
     fi_rearm = None, fi_ingress = Some (sample_webhook ''x''), fi_busy = None, fi_refused = None, fi_overlap = None\<rparr>"

definition sample_fires :: "fired op" where
  "sample_fires = fire_checked 5 sample_ext (sample_firing ''a'') None 1000 default_policy"

lemma sample_fired:
  "result sample_fires bt_empty = Some FCommitted"
  "identity (sample_webhook ''x'') = Some (''s'' @ [CHR 0x00] @ ''1'')"
  "2000 < sat_add 1000 (ingress_ms default_policy)"
  by code_simp+


definition sample_trigger :: trigger where
  "sample_trigger = \<lparr>tg_at_ms = Some 5000, tg_types = [], tg_state = Null\<rparr>"

lemma sample_trigger_read:
  "result is_stopped (after (store_trigger ''t'' None (Some sample_trigger)) bt_empty) = Some False"
  "after is_stopped (after (store_trigger ''t'' None (Some sample_trigger)) bt_empty)
     = after (store_trigger ''t'' None (Some sample_trigger)) bt_empty"
  "bt_get (after (store_trigger ''t'' None (Some sample_trigger)) bt_empty) (''control_drain'', ''d'') = None"
  "result (trigger_of ''t'') (after (store_trigger ''t'' None (Some sample_trigger)) bt_empty) = Some (Some sample_trigger)"
  "after (trigger_of ''t'') (after (store_trigger ''t'' None (Some sample_trigger)) bt_empty)
     = after (store_trigger ''t'' None (Some sample_trigger)) bt_empty"
  by code_simp+

lemma fire_compares_trigger_witness:
  "run (fire 5 sample_ext (sample_firing ''a'') 6000 default_policy) (after (store_trigger ''t'' None (Some sample_trigger)) bt_empty)
     = Inr (Inr FChanged, after (store_trigger ''t'' None (Some sample_trigger)) bt_empty)"
proof (rule fire_compares_trigger [of _ _ "Some sample_trigger"])
  let ?r = "after (store_trigger ''t'' None (Some sample_trigger)) bt_empty"
  show "run is_stopped ?r = Inr (False, ?r)"
    using commits_result [OF sample_trigger_read(1)] by (simp add: sample_trigger_read(2) commits_def)
  show "run (trigger_of (fi_key (sample_firing ''a''))) ?r = Inr (Some sample_trigger, ?r)"
    using commits_result [OF sample_trigger_read(4)] by (simp add: sample_trigger_read(5) commits_def sample_firing_def)
qed (auto simp: sample_firing_def candidate_of_def sample_admission_def sample_trigger_read(3))

end
