(* ===== verification/Workflow_Errors.thy ===== *)
theory Workflow_Errors
  imports Store_Types
begin

text \<open>
  The errors of a workflow (\<^verbatim>\<open>crates/ows/src/run.rs\<close>, section 2): the standard ones, the answers of a function
  about a call, and the names under which a \<^verbatim>\<open>catch\<close> may ask for them.
\<close>

definition standard :: "string \<Rightarrow> nat \<Rightarrow> string \<Rightarrow> string \<Rightarrow> workflow_error" where
  "standard kind status title detail = \<lparr>err_type = STANDARD_ERRORS @ kind, err_status = status,
     err_title = Some title, err_detail = Some detail, err_instance = None\<rparr>"

definition validation :: "string \<Rightarrow> workflow_error" where
  "validation detail = standard ''validation'' 400 ''Validation Error'' detail"

definition expression :: "string \<Rightarrow> workflow_error" where
  "expression detail = standard ''expression'' 400 ''Expression Error'' detail"

definition timeout_error :: "string \<Rightarrow> workflow_error" where
  "timeout_error detail = standard ''timeout'' 408 ''Timeout'' detail"

definition communication :: "nat \<Rightarrow> string \<Rightarrow> workflow_error" where
  "communication status detail = standard ''communication'' status ''Communication Error'' detail"

definition budget_error :: "string \<Rightarrow> workflow_error" where
  "budget_error detail = standard ''budget.exhausted'' 508 ''Budget Exhausted'' detail"

definition call_outcome :: "string \<Rightarrow> nat \<Rightarrow> string \<Rightarrow> string \<Rightarrow> workflow_error" where
  "call_outcome type status title detail = \<lparr>err_type = type, err_status = status,
     err_title = Some title, err_detail = Some detail, err_instance = None\<rparr>"

definition not_executed :: "string \<Rightarrow> workflow_error" where
  "not_executed detail = call_outcome CALL_NOT_EXECUTED 503 ''Not Executed'' detail"

definition unknown_outcome :: "string \<Rightarrow> workflow_error" where
  "unknown_outcome detail = call_outcome CALL_UNKNOWN 409 ''Outcome Unknown'' detail"

definition interrupted :: "string \<Rightarrow> workflow_error" where
  "interrupted detail = call_outcome CALL_INTERRUPTED 499 ''Interrupted'' detail"

text \<open>Whether an error is the standard one of a kind, and whether a filter names its type.\<close>

definition is_kind :: "workflow_error \<Rightarrow> string \<Rightarrow> bool" where
  "is_kind e kind \<longleftrightarrow> strip_prefix STANDARD_ERRORS (err_type e) = Some kind"

definition has_type :: "workflow_error \<Rightarrow> string \<Rightarrow> bool" where
  "has_type e pattern \<longleftrightarrow> pattern = err_type e \<or>
     (case strip_prefix STANDARD_ERRORS (err_type e) of
        None \<Rightarrow> False
      | Some kind \<Rightarrow> list_ex (\<lambda>ns. strip_prefix ns pattern = Some kind)
          [''https://serverlessworkflow.io/spec/1.0.0/errors/'',
           ''https://open-workflow-specification.org/dsl/errors/types/''])"

lemma runtime_error_standard: "runtime_error detail = standard ''runtime'' 500 ''Runtime Error'' detail"
  by (simp add: runtime_error_def standard_def)

end
