(* ===== verification/Secrets.thy ===== *)
theory Secrets
  imports Workflow_Errors "HOL-Library.AList" "HOL-Library.Sublist"
begin

text \<open>
  Secrets (\<^verbatim>\<open>crates/ows/src/secrets.rs\<close>): the secrets a run resolves, the \<^verbatim>\<open>$secrets\<close> argument, and the redaction
  that puts a marker in place of every secret string in what a run persists and takes it back when the
  journal is loaded. An object keeps its members in the order of insertion here, as \<^verbatim>\<open>serde_json\<close> with
  \<^verbatim>\<open>preserve_order\<close> does.
\<close>

section \<open>Text\<close>

definition MARK :: char where
  "MARK = CHR 0x01"

text \<open>\<^verbatim>\<open>str::replace\<close> with a pattern that is not empty: the leftmost occurrences, from left to right.\<close>

function str_replace :: "string \<Rightarrow> string \<Rightarrow> string \<Rightarrow> string" where
  "str_replace p q [] = []"
| "str_replace p q (c # cs) =
     (if p \<noteq> [] \<and> take (length p) (c # cs) = p then q @ str_replace p q (drop (length p) (c # cs))
      else c # str_replace p q cs)"
  by pat_completeness auto
termination
  by (relation "measure (\<lambda>(p, q, s). length s)") (auto simp: Suc_le_eq)

definition escape :: "string \<Rightarrow> string" where
  "escape s = str_replace [MARK] [MARK, MARK] s"

definition marker :: "string \<Rightarrow> string" where
  "marker path = MARK # path @ [MARK]"

section \<open>A run's secrets\<close>

record redaction =
  rd_values :: "(string \<times> json option) list"
  rd_texts :: "(string \<times> string) list"

text \<open>Every non-empty string of a secret with its path.\<close>

fun secret_leaves :: "json \<Rightarrow> string \<Rightarrow> (string \<times> string) list"
  and leaves_items :: "json list \<Rightarrow> nat \<Rightarrow> string \<Rightarrow> (string \<times> string) list"
  and leaves_members :: "(string \<times> json) list \<Rightarrow> string \<Rightarrow> (string \<times> string) list"
where
  "secret_leaves (String s) path = (if s \<noteq> [] then [(s, path)] else [])"
| "secret_leaves (Array items) path = leaves_items items 0 path"
| "secret_leaves (Object m) path = leaves_members m path"
| "secret_leaves Null path = []"
| "secret_leaves (Bool b) path = []"
| "secret_leaves (Number n) path = []"
| "leaves_items [] i path = []"
| "leaves_items (v # vs) i path = secret_leaves v (path @ ''['' @ decimal i @ '']'') @ leaves_items vs (Suc i) path"
| "leaves_members [] path = []"
| "leaves_members ((k, v) # m) path = secret_leaves v (path @ ''.'' @ k) @ leaves_members m path"

text \<open>\<^verbatim>\<open>dedup_by\<close> on the secret strings, and the order: longest first, then by path.\<close>

fun dedup_texts :: "(string \<times> string) list \<Rightarrow> (string \<times> string) list" where
  "dedup_texts (x # y # xs) = (if fst y = fst x then dedup_texts (x # xs) else x # dedup_texts (y # xs))"
| "dedup_texts xs = xs"

definition sort_texts :: "(string \<times> string) list \<Rightarrow> (string \<times> string) list" where
  "sort_texts xs = sort_key (\<lambda>(s, path). (- int (length s), path)) xs"

fun resolve_values :: "(string \<Rightarrow> string + json option) \<Rightarrow> string list \<Rightarrow> string + (string \<times> json option) list" where
  "resolve_values store [] = Inr []"
| "resolve_values store (name # names) =
     and_then (store name) (\<lambda>v. and_then (resolve_values store names) (\<lambda>rest. Inr ((name, v) # rest)))"

definition resolve :: "string list \<Rightarrow> (string \<Rightarrow> string + json option) \<Rightarrow> string + redaction" where
  "resolve declared store =
     and_then (resolve_values store declared) (\<lambda>values.
     let texts = concat (map (\<lambda>(name, v). case v of None \<Rightarrow> [] | Some w \<Rightarrow> secret_leaves w name) values)
     in Inr \<lparr>rd_values = values, rd_texts = dedup_texts (sort_texts texts)\<rparr>)"

definition active :: "redaction \<Rightarrow> bool" where
  "active r \<longleftrightarrow> rd_texts r \<noteq> []"

fun argument_members ::
  "(string \<times> json option) list \<Rightarrow> string list option \<Rightarrow> (string \<times> json) list \<Rightarrow> workflow_error + (string \<times> json) list" where
  "argument_members [] names m = Inr m"
| "argument_members ((name, v) # rest) names m =
     (case v of
        Some w \<Rightarrow> argument_members rest names (AList.update name w m)
      | None \<Rightarrow>
          if (case names of None \<Rightarrow> True | Some ns \<Rightarrow> name \<in> set ns)
          then Inl (standard ''authorization'' 403 ''Authorization Error''
                 (''secret `'' @ name @ ''` is not available to this workflow''))
          else argument_members rest names m)"

definition argument :: "redaction \<Rightarrow> string list option \<Rightarrow> workflow_error + json" where
  "argument r names = map_sum id Object (argument_members (rd_values r) names [])"

section \<open>Redaction\<close>

definition redact_text :: "redaction \<Rightarrow> string \<Rightarrow> string" where
  "redact_text r s =
     (if \<not> active r then s
      else fold (\<lambda>(secret, path) out. str_replace (escape secret) (marker path) out) (rd_texts r) (escape s))"

text \<open>Mapping the strings of a value, keys included.\<close>

fun map_strings :: "(string \<Rightarrow> 'e + string) \<Rightarrow> json \<Rightarrow> 'e + json"
  and map_items :: "(string \<Rightarrow> 'e + string) \<Rightarrow> json list \<Rightarrow> 'e + json list"
  and map_members :: "(string \<Rightarrow> 'e + string) \<Rightarrow> (string \<times> json) list \<Rightarrow> (string \<times> json) list \<Rightarrow> 'e + (string \<times> json) list"
where
  "map_strings f (String s) = and_then (f s) (\<lambda>t. Inr (String t))"
| "map_strings f (Array items) = and_then (map_items f items) (\<lambda>vs. Inr (Array vs))"
| "map_strings f (Object m) = and_then (map_members f m []) (\<lambda>out. Inr (Object out))"
| "map_strings f Null = Inr Null"
| "map_strings f (Bool b) = Inr (Bool b)"
| "map_strings f (Number n) = Inr (Number n)"
| "map_items f [] = Inr []"
| "map_items f (v # vs) = and_then (map_strings f v) (\<lambda>w. and_then (map_items f vs) (\<lambda>ws. Inr (w # ws)))"
| "map_members f [] out = Inr out"
| "map_members f ((k, v) # m) out =
     and_then (f k) (\<lambda>k'. and_then (map_strings f v) (\<lambda>v'. map_members f m (AList.update k' v' out)))"

definition redact_value :: "redaction \<Rightarrow> json \<Rightarrow> json" where
  "redact_value r v =
     (if \<not> active r then v
      else case map_strings (\<lambda>s. Inr (redact_text r s) :: string + string) v of Inr w \<Rightarrow> w | Inl _ \<Rightarrow> v)"

definition redact_error :: "redaction \<Rightarrow> workflow_error \<Rightarrow> workflow_error" where
  "redact_error r e = \<lparr>err_type = redact_text r (err_type e), err_status = err_status e,
     err_title = map_option (redact_text r) (err_title e), err_detail = map_option (redact_text r) (err_detail e),
     err_instance = map_option (redact_text r) (err_instance e)\<rparr>"

definition redact_status :: "redaction \<Rightarrow> status \<Rightarrow> status" where
  "redact_status r s =
     (case s of
        Completed v \<Rightarrow> Completed (redact_value r v)
      | Faulted e \<Rightarrow> Faulted (redact_error r e)
      | Interrupted e \<Rightarrow> Interrupted (redact_error r e)
      | other \<Rightarrow> other)"

text \<open>\<^verbatim>\<open>Option::map(f).transpose()\<close>.\<close>

definition transpose_option :: "('a \<Rightarrow> 'e + 'b) \<Rightarrow> 'a option \<Rightarrow> 'e + 'b option" where
  "transpose_option f x = (case x of None \<Rightarrow> Inr None | Some a \<Rightarrow> and_then (f a) (\<lambda>b. Inr (Some b)))"

definition map_error :: "(string \<Rightarrow> string + string) \<Rightarrow> workflow_error \<Rightarrow> string + workflow_error" where
  "map_error f e =
     and_then (f (err_type e)) (\<lambda>ty.
     and_then (transpose_option f (err_title e)) (\<lambda>ti.
     and_then (transpose_option f (err_detail e)) (\<lambda>de.
     and_then (transpose_option f (err_instance e)) (\<lambda>ins.
     Inr \<lparr>err_type = ty, err_status = err_status e, err_title = ti, err_detail = de, err_instance = ins\<rparr>))))"

fun map_annotations ::
  "(string \<Rightarrow> string + string) \<Rightarrow> (string \<times> annotation) list \<Rightarrow> string + (string \<times> annotation) list" where
  "map_annotations f [] = Inr []"
| "map_annotations f ((k, a) # rest) =
     and_then (case a of AText t \<Rightarrow> and_then (f t) (\<lambda>u. Inr (AText u)) | number \<Rightarrow> Inr number) (\<lambda>b.
     and_then (map_annotations f rest) (\<lambda>bs. Inr ((k, b) # bs)))"

definition convert_outcome :: "(string \<Rightarrow> string + string) \<Rightarrow> step_outcome \<Rightarrow> string + step_outcome" where
  "convert_outcome f outcome =
     (case outcome of
        StepCompleted out flow \<Rightarrow> and_then (map_strings f out) (\<lambda>v. Inr (StepCompleted v flow))
      | StepFaulted e fatal \<Rightarrow> and_then (map_error f e) (\<lambda>d. Inr (StepFaulted d fatal)))"

definition convert_state :: "(string \<Rightarrow> string + string) \<Rightarrow> call_state \<Rightarrow> string + call_state" where
  "convert_state f st =
     (case st of
        Pending \<Rightarrow> Inr Pending
      | NotExecuted e \<Rightarrow> and_then (map_error f e) (\<lambda>d. Inr (NotExecuted d))
      | Done (Inr v) \<Rightarrow> and_then (map_strings f v) (\<lambda>w. Inr (Done (Inr w)))
      | Done (Inl e) \<Rightarrow> and_then (map_error f e) (\<lambda>d. Inr (Done (Inl d))))"

text \<open>A record's payloads mapped; its structure, identities and the events the host stored stay.\<close>

definition convert :: "(string \<Rightarrow> string + string) \<Rightarrow> journal_record \<Rightarrow> string + journal_record" where
  "convert f r =
     (case r of
        Execution version run_id def input rt started tasks attempts \<Rightarrow>
          and_then (map_strings f def) (\<lambda>d.
          and_then (map_strings f input) (\<lambda>i.
          and_then (map_strings f rt) (\<lambda>t.
          Inr (Execution version run_id d i t started tasks attempts))))
      | Task started res \<Rightarrow>
          (case res of
             None \<Rightarrow> Inr (Task started None)
           | Some tr \<Rightarrow>
               and_then (map_strings f (tr_context tr)) (\<lambda>c.
               and_then (convert_outcome f (tr_outcome tr)) (\<lambda>out.
               Inr (Task started (Some \<lparr>tr_context = c, tr_outcome = out\<rparr>)))))
      | Call lg fn arg dl st ann \<Rightarrow>
          and_then (map_strings f arg) (\<lambda>arg'.
          and_then (convert_state f st) (\<lambda>st'.
          and_then (map_annotations f (bt_entries ann)) (\<lambda>ann'.
          Inr (Call lg fn arg' dl st' (bt_of_list ann')))))
      | Winner out \<Rightarrow> and_then (map_strings f out) (\<lambda>v. Inr (Winner v))
      | Finished st \<Rightarrow>
          (case st of
             Completed v \<Rightarrow> and_then (map_strings f v) (\<lambda>w. Inr (Finished (Completed w)))
           | Faulted e \<Rightarrow> and_then (map_error f e) (\<lambda>d. Inr (Finished (Faulted d)))
           | other \<Rightarrow> Inr (Finished other))
      | other \<Rightarrow> Inr other)"

definition redact_record :: "redaction \<Rightarrow> journal_record \<Rightarrow> journal_record" where
  "redact_record r rec =
     (if \<not> active r then rec
      else case convert (\<lambda>s. Inr (redact_text r s)) rec of Inr c \<Rightarrow> c | Inl _ \<Rightarrow> rec)"

text \<open>
  Restoring: a doubled mark is the mark itself; between two marks stands the path of a secret (a missing
  second mark ends the path with the text).
\<close>

function restore_chars :: "(string \<times> string) list \<Rightarrow> string \<Rightarrow> string \<Rightarrow> string + string" where
  "restore_chars texts [] out = Inr out"
| "restore_chars texts (c # cs) out =
     (if c \<noteq> MARK then restore_chars texts cs (out @ [c])
      else
        let path = takeWhile (\<lambda>d. d \<noteq> MARK) cs; rest = drop (Suc (length path)) cs
        in if path = [] then restore_chars texts rest (out @ [MARK])
           else case find (\<lambda>(_, p). p = path) texts of
             Some (secret, _) \<Rightarrow> restore_chars texts rest (out @ secret)
           | None \<Rightarrow> Inl (''a saved value refers to secret `'' @ path @ ''`, which is not available''))"
  by pat_completeness auto
termination
  by (relation "measure (\<lambda>(t, s, out). length s)") auto

definition restore_text :: "redaction \<Rightarrow> string \<Rightarrow> string + string" where
  "restore_text r s = (if MARK \<notin> set s then Inr s else restore_chars (rd_texts r) s [])"

definition restore :: "redaction \<Rightarrow> journal_record \<Rightarrow> string + journal_record" where
  "restore r rec = (if \<not> active r then Inr rec else convert (restore_text r) rec)"

definition restore_value :: "redaction \<Rightarrow> json \<Rightarrow> string + json" where
  "restore_value r v = (if \<not> active r then Inr v else map_strings (restore_text r) v)"

end
