(* ===== verification/Redaction_Rules.thy ===== *)
theory Redaction_Rules
  imports Secrets
begin

text \<open>
  What redaction promises: a secret string does not occur in redacted text, and loading gives back exactly what
  was saved; both as long as no secret string occurs in the path of a marker, which the code does not check.
\<close>

section \<open>When markers and secrets do not collide\<close>

definition collision_free :: "redaction \<Rightarrow> bool" where
  "collision_free r \<longleftrightarrow>
     list_all (\<lambda>(s, p). s \<noteq> [] \<and> MARK \<notin> set s \<and> p \<noteq> [] \<and> MARK \<notin> set p
       \<and> list_all (\<lambda>(s', p'). \<not> sublist s' p \<and> (p' = p \<longrightarrow> s' = s)) (rd_texts r)) (rd_texts r)"

lemma collision_freeD:
  assumes "collision_free r" and "(s, p) \<in> set (rd_texts r)"
  shows "s \<noteq> []" "MARK \<notin> set s" "p \<noteq> []" "MARK \<notin> set p"
    and "(s', p') \<in> set (rd_texts r) \<Longrightarrow> \<not> sublist s' p"
    and "(s', p) \<in> set (rd_texts r) \<Longrightarrow> s' = s"
proof -
  note all = assms(1) [unfolded collision_free_def list_all_iff, THEN bspec, OF assms(2), unfolded prod.case]
  from all show "s \<noteq> []" "MARK \<notin> set s" "p \<noteq> []" "MARK \<notin> set p" by simp_all
  show "(s', p') \<in> set (rd_texts r) \<Longrightarrow> \<not> sublist s' p" "(s', p) \<in> set (rd_texts r) \<Longrightarrow> s' = s"
    using all by auto
qed

section \<open>Replacing\<close>

declare str_replace.simps(2) [simp del]

lemma str_replace_hit: "p \<noteq> [] \<Longrightarrow> take (length p) s = p \<Longrightarrow> str_replace p q s = q @ str_replace p q (drop (length p) s)"
  by (cases s) (auto simp: str_replace.simps)

lemma str_replace_miss: "\<not> (p \<noteq> [] \<and> take (length p) (c # cs) = p) \<Longrightarrow> str_replace p q (c # cs) = c # str_replace p q cs"
  by (auto simp: str_replace.simps)

lemma str_replace_absent: "p \<noteq> [] \<Longrightarrow> hd p \<notin> set s \<Longrightarrow> str_replace p q s = s"
proof (induction p q s rule: str_replace.induct)
  case (2 p q c cs)
  have "take (length p) (c # cs) \<noteq> p" using 2(3,4) by (cases p) auto
  then show ?case using 2 by (simp add: str_replace_miss)
qed simp

lemma escape_free: "MARK \<notin> set s \<Longrightarrow> escape s = s"
  by (simp add: escape_def str_replace_absent)

lemma escape_simps [simp]:
  "escape [] = []" "escape (c # s) = (if c = MARK then [MARK, MARK] else [c]) @ escape s"
  by (auto simp: escape_def str_replace.simps)

lemma free_prefix_replace:
  assumes "MARK \<notin> set s" and "prefix s (str_replace p (MARK # q) t)"
  shows "prefix s t"
  using assms
proof (induction p "MARK # q" t arbitrary: s rule: str_replace.induct)
  case (2 p c cs)
  show ?case
  proof (cases s)
    case (Cons d ds)
    then show ?thesis using 2 by (auto simp: str_replace.simps split: if_splits)
  qed simp
qed simp

text \<open>A string without the mark lies on one side of it.\<close>

lemma sublist_mark:
  assumes "MARK \<notin> set s" and "s \<noteq> []"
  shows "sublist s (u @ MARK # v) \<longleftrightarrow> sublist s u \<or> sublist s v"
proof
  assume "sublist s (u @ MARK # v)"
  then obtain a b where e: "u @ MARK # v = a @ s @ b" by (auto simp: sublist_def)
  then consider us where "u = a @ us" "us @ MARK # v = s @ b" | us where "u @ us = a" "MARK # v = us @ s @ b"
    by (auto simp: append_eq_append_conv2)
  then show "sublist s u \<or> sublist s v"
  proof cases
    case 1
    from 1(2) consider vs where "us = s @ vs" | vs where "us @ vs = s" "MARK # v = vs @ b"
      by (auto simp: append_eq_append_conv2)
    then show ?thesis
    proof cases
      case 1
      then show ?thesis using \<open>u = a @ us\<close> by (auto simp: sublist_def)
    next
      case (2 vs)
      then have "vs = []" using assms(1) by (cases vs) auto
      then have "u = a @ s @ []" using 2(1) \<open>u = a @ us\<close> by simp
      then show ?thesis unfolding sublist_def by blast
    qed
  next
    case (2 us)
    then have "us \<noteq> []" using assms by (cases s) auto
    then obtain w where "v = w @ s @ b" using 2(2) by (cases us) auto
    then show ?thesis by (auto simp: sublist_def)
  qed
qed (auto simp: sublist_def, metis append.assoc, metis append.assoc append_Cons)

lemma sublist_marker:
  assumes "MARK \<notin> set s" and "s \<noteq> []"
  shows "sublist s (marker p @ v) \<longleftrightarrow> sublist s p \<or> sublist s v"
  using sublist_mark [OF assms, of "[]" "p @ MARK # v"] sublist_mark [OF assms, of p v] assms(2)
  by (simp add: marker_def)

lemma sublist_replace:
  assumes "MARK \<notin> set s" and "s \<noteq> []" and "sublist s (str_replace t (marker p) u)"
  shows "sublist s p \<or> sublist s u"
  using assms(3)
proof (induction t "marker p" u rule: str_replace.induct)
  case (2 t c cs)
  show ?case
  proof (cases "t \<noteq> [] \<and> take (length t) (c # cs) = t")
    case True
    then have "c # cs = t @ drop (length t) (c # cs)" by (metis append_take_drop_id)
    moreover have "sublist s p \<or> sublist s (drop (length t) (c # cs))"
      using 2 True sublist_marker [OF assms(1,2)] by (auto simp: str_replace_hit)
    ultimately show ?thesis using suffix_drop suffix_imp_sublist sublist_order.order.trans by blast
  next
    case False
    then have "sublist s (c # str_replace t (marker p) cs)" using 2(3) by (simp add: str_replace_miss)
    then consider "prefix s (c # str_replace t (marker p) cs)" | "sublist s (str_replace t (marker p) cs)"
      by (auto simp: sublist_Cons_right)
    then show ?thesis
    proof cases
      case 1
      then have "prefix s (str_replace t (MARK # p @ [MARK]) (c # cs))" using str_replace_miss [OF False] by (simp add: marker_def)
      then show ?thesis using free_prefix_replace [OF assms(1)] by (auto simp: prefix_imp_sublist)
    next
      case 2
      then show ?thesis using "2.hyps"(2) False by (auto simp: sublist_Cons_right)
    qed
  qed
qed (use assms in simp)

lemma replaced_gone:
  assumes "MARK \<notin> set s" and "s \<noteq> []" and "\<not> sublist s p"
  shows "\<not> sublist s (str_replace s (marker p) u)"
  using assms
proof (induction s "marker p" u rule: str_replace.induct)
  case (2 s c cs)
  show ?case
  proof (cases "take (length s) (c # cs) = s")
    case True
    then show ?thesis using 2 sublist_marker [OF 2(3,4)] by (simp add: str_replace_hit)
  next
    case False
    have "\<not> prefix s (c # str_replace s (marker p) cs)"
    proof
      assume "prefix s (c # str_replace s (marker p) cs)"
      then have "prefix s (str_replace s (MARK # p @ [MARK]) (c # cs))" using False by (simp add: marker_def str_replace_miss)
      then have "prefix s (c # cs)" by (rule free_prefix_replace [OF 2(3)])
      then show False using False by (auto simp: prefix_def)
    qed
    then show ?thesis using 2 False by (auto simp: sublist_Cons_right str_replace_miss)
  qed
qed simp

section \<open>Hiding\<close>

abbreviation redact_fold :: "(string \<times> string) list \<Rightarrow> string \<Rightarrow> string" where
  "redact_fold ts s \<equiv> fold (\<lambda>(secret, path) out. str_replace (escape secret) (marker path) out) ts s"

lemma fold_keeps_hidden:
  assumes "MARK \<notin> set s" and "s \<noteq> []" and "\<forall>(t, p) \<in> set ts. \<not> sublist s p" and "\<not> sublist s u"
  shows "\<not> sublist s (redact_fold ts u)"
  using assms(3,4)
proof (induction ts arbitrary: u)
  case (Cons x ts)
  obtain t p where x: "x = (t, p)" by (cases x)
  have "\<not> sublist s (str_replace (escape t) (marker p) u)"
    using sublist_replace [OF assms(1,2)] Cons.prems by (auto simp: x)
  then show ?case using Cons by (simp add: x)
qed simp

lemma fold_hides:
  assumes "\<forall>(t, p) \<in> set ts. t \<noteq> [] \<and> MARK \<notin> set t" and "\<forall>(t, p) \<in> set ts. \<forall>(t', p') \<in> set ts. \<not> sublist t p'"
    and "(s, p) \<in> set ts"
  shows "\<not> sublist s (redact_fold ts u)"
proof -
  obtain xs ys where ts: "ts = xs @ (s, p) # ys" using assms(3) by (auto simp: in_set_conv_decomp)
  have s: "MARK \<notin> set s" "s \<noteq> []" "\<not> sublist s p" "\<forall>(t, p) \<in> set ys. \<not> sublist s p"
    using assms ts by fastforce+
  have "\<not> sublist s (str_replace (escape s) (marker p) (redact_fold xs u))"
    using replaced_gone [OF s(1-3)] by (simp add: escape_free s)
  then show ?thesis using fold_keeps_hidden [OF s(1,2,4)] by (simp add: ts)
qed


section \<open>The tokens of a redacted text\<close>

text \<open>A redacted text is a sequence of plain characters, doubled marks and markers; restoring reads them.\<close>

datatype token = Plain char | Doubled | Marked string

fun render :: "token list \<Rightarrow> string" where
  "render [] = []"
| "render (Plain c # ts) = c # render ts"
| "render (Doubled # ts) = MARK # MARK # render ts"
| "render (Marked p # ts) = marker p @ render ts"

fun meaning :: "(string \<times> string) list \<Rightarrow> token list \<Rightarrow> string" where
  "meaning texts [] = []"
| "meaning texts (Plain c # ts) = c # meaning texts ts"
| "meaning texts (Doubled # ts) = MARK # meaning texts ts"
| "meaning texts (Marked p # ts) =
     (case find (\<lambda>(_, q). q = p) texts of Some (s, _) \<Rightarrow> s | None \<Rightarrow> []) @ meaning texts ts"

fun token_ok :: "(string \<times> string) list \<Rightarrow> token \<Rightarrow> bool" where
  "token_ok texts (Plain c) \<longleftrightarrow> c \<noteq> MARK"
| "token_ok texts Doubled \<longleftrightarrow> True"
| "token_ok texts (Marked p) \<longleftrightarrow> p \<in> snd ` set texts"

definition tokens_of :: "string \<Rightarrow> token list" where
  "tokens_of s = map (\<lambda>c. if c = MARK then Doubled else Plain c) s"

lemma escape_tokens:
  "render (tokens_of s) = escape s" "meaning texts (tokens_of s) = s" "list_all (token_ok texts) (tokens_of s)"
  by (induction s) (auto simp: tokens_of_def)

lemma meaning_plain [simp]: "meaning texts (map Plain s @ ts) = s @ meaning texts ts"
  by (induction s) auto

lemma find_path:
  assumes "collision_free r" and "(s, p) \<in> set (rd_texts r)"
  shows "\<exists>q. find (\<lambda>(_, q). q = p) (rd_texts r) = Some (s, q)"
proof -
  have "find (\<lambda>(_, q). q = p) (rd_texts r) \<noteq> None" using assms(2) unfolding find_None_iff by blast
  then obtain s' q where f: "find (\<lambda>(_, q). q = p) (rd_texts r) = Some (s', q)" by auto
  then have "q = p" "(s', q) \<in> set (rd_texts r)" unfolding find_Some_iff by (auto, metis nth_mem)
  then show ?thesis using f collision_freeD(6) [OF assms] by blast
qed

lemma restore_tokens:
  assumes "collision_free r" and "list_all (token_ok (rd_texts r)) ts"
  shows "restore_chars (rd_texts r) (render ts) out = Inr (out @ meaning (rd_texts r) ts)"
  using assms(2)
proof (induction ts arbitrary: out rule: render.induct)
  case (4 p ts)
  then obtain s where sp: "(s, p) \<in> set (rd_texts r)" by auto
  obtain q where "find (\<lambda>(_, q). q = p) (rd_texts r) = Some (s, q)" using find_path [OF assms(1) sp] by blast
  moreover have "p \<noteq> []" "MARK \<notin> set p" using collision_freeD [OF assms(1) sp] by auto
  moreover have "takeWhile (\<lambda>d. d \<noteq> MARK) (p @ MARK # render ts) = p"
    using \<open>MARK \<notin> set p\<close> by (metis (mono_tags, lifting) takeWhile_eq_all_conv takeWhile_tail)
  ultimately show ?case using 4 by (simp add: marker_def)
qed simp_all

lemma replace_skips:
  assumes "MARK \<notin> set s" and "s \<noteq> []" and "\<not> sublist s p"
  shows "str_replace s q (p @ MARK # u) = p @ MARK # str_replace s q u"
  using assms(3)
proof (induction p)
  case Nil
  have "take (length s) (MARK # u) \<noteq> s" using assms by (cases s) auto
  then show ?case by (simp add: str_replace_miss)
next
  case (Cons c p)
  have "take (length s) (c # p @ MARK # u) \<noteq> s"
  proof
    assume "take (length s) (c # p @ MARK # u) = s"
    then have "prefix s ((c # p) @ MARK # u)" by (metis append_Cons take_is_prefix)
    then have "sublist s ((c # p) @ MARK # u)" by (rule prefix_imp_sublist)
    moreover have "prefix s (c # p)"
      using \<open>prefix s ((c # p) @ MARK # u)\<close> assms(1) by (auto simp: prefix_append prefix_Cons)
    ultimately show False using Cons.prems prefix_imp_sublist by blast
  qed
  moreover have "\<not> sublist s p" using Cons.prems by (auto simp: sublist_Cons_right)
  ultimately show ?case using Cons.IH by (simp add: str_replace_miss)
qed

lemma match_is_plain:
  assumes "MARK \<notin> set s" and "take (length s) (render ts) = s"
  shows "\<exists>us. ts = map Plain s @ us"
  using assms
proof (induction s arbitrary: ts)
  case (Cons c s)
  then show ?case by (cases ts rule: render.cases) (auto simp: marker_def)
qed simp

lemma replace_tokens:
  assumes "collision_free r" and "(s, p) \<in> set (rd_texts r)" and "list_all (token_ok (rd_texts r)) ts"
  shows "\<exists>us. str_replace s (marker p) (render ts) = render us \<and> list_all (token_ok (rd_texts r)) us
    \<and> meaning (rd_texts r) us = meaning (rd_texts r) ts"
  using assms(3)
proof (induction "length ts" arbitrary: ts rule: less_induct)
  case less
  note sp = collision_freeD [OF assms(1,2)]
  have mark: "str_replace s q (MARK # u) = MARK # str_replace s q u" for q u
    using replace_skips [of s "[]"] sp(1,2) by simp
  show ?case
  proof (cases ts rule: render.cases)
    case 1
    then show ?thesis by (intro exI [of _ "[]"]) simp
  next
    case (2 c vs)
    show ?thesis
    proof (cases "take (length s) (render ts) = s")
      case True
      then obtain us where us: "ts = map Plain s @ us" using match_is_plain [OF sp(2)] by blast
      have render: "render (map Plain s @ us) = s @ render us" by (induction s) auto
      have "list_all (token_ok (rd_texts r)) us" "length us < length ts" using less(2) sp(1) us by auto
      from less(1) [OF this(2,1)] obtain ws where ws: "str_replace s (marker p) (render us) = render ws"
        "list_all (token_ok (rd_texts r)) ws" "meaning (rd_texts r) ws = meaning (rd_texts r) us" by blast
      obtain q where q: "find (\<lambda>(_, q). q = p) (rd_texts r) = Some (s, q)" using find_path [OF assms(1,2)] by blast
      have "str_replace s (marker p) (s @ render us) = marker p @ str_replace s (marker p) (render us)"
        using sp(1) by (simp add: str_replace_hit)
      then show ?thesis using ws q assms(2)
        by (intro exI [of _ "Marked p # ws"]) (force simp: us render)
    next
      case False
      have "list_all (token_ok (rd_texts r)) vs" "length vs < length ts" using less(2) 2 by auto
      from less(1) [OF this(2,1)] obtain ws where ws: "str_replace s (marker p) (render vs) = render ws"
        "list_all (token_ok (rd_texts r)) ws" "meaning (rd_texts r) ws = meaning (rd_texts r) vs" by blast
      then show ?thesis using False less(2) 2 by (intro exI [of _ "Plain c # ws"]) (auto simp: str_replace_miss)
    qed
  next
    case (3 vs)
    from less(1) [of vs] obtain ws where ws: "str_replace s (marker p) (render vs) = render ws"
      "list_all (token_ok (rd_texts r)) ws" "meaning (rd_texts r) ws = meaning (rd_texts r) vs"
      using less(2) 3 by auto
    then show ?thesis using 3 by (intro exI [of _ "Doubled # ws"]) (simp add: mark)
  next
    case (4 q vs)
    obtain t where t: "(t, q) \<in> set (rd_texts r)" using less(2) 4 by auto
    from less(1) [of vs] obtain ws where ws: "str_replace s (marker p) (render vs) = render ws"
      "list_all (token_ok (rd_texts r)) ws" "meaning (rd_texts r) ws = meaning (rd_texts r) vs"
      using less(2) 4 by auto
    have "str_replace s (marker p) (marker q @ render vs) = marker q @ str_replace s (marker p) (render vs)"
      using replace_skips [OF sp(2,1) collision_freeD(5) [OF assms(1) t assms(2)]] by (simp add: marker_def mark)
    then show ?thesis using 4 ws less(2) by (intro exI [of _ "Marked q # ws"]) auto
  qed
qed

lemma redact_tokens:
  assumes "collision_free r" and "set xs \<subseteq> set (rd_texts r)" and "list_all (token_ok (rd_texts r)) ts"
  shows "\<exists>us. redact_fold xs (render ts) = render us \<and> list_all (token_ok (rd_texts r)) us
    \<and> meaning (rd_texts r) us = meaning (rd_texts r) ts"
  using assms(2,3)
proof (induction xs arbitrary: ts)
  case (Cons x xs)
  obtain s p where x: "x = (s, p)" by (cases x)
  then have sp: "(s, p) \<in> set (rd_texts r)" using Cons.prems(1) by simp
  obtain us where us: "str_replace s (marker p) (render ts) = render us" "list_all (token_ok (rd_texts r)) us"
    "meaning (rd_texts r) us = meaning (rd_texts r) ts"
    using replace_tokens [OF assms(1) sp Cons.prems(2)] by blast
  have "escape s = s" using collision_freeD(2) [OF assms(1) sp] by (rule escape_free)
  then show ?case using Cons.IH [OF _ us(2)] Cons.prems(1) us by (simp add: x)
qed auto

lemma restore_free: "MARK \<notin> set s \<Longrightarrow> restore_chars texts s out = Inr (out @ s)"
  by (induction s arbitrary: out) auto

lemma restore_redact_text:
  assumes "collision_free r" and "active r"
  shows "restore_text r (redact_text r s) = Inr s"
proof -
  obtain us where us: "redact_fold (rd_texts r) (escape s) = render us" "list_all (token_ok (rd_texts r)) us"
    "meaning (rd_texts r) us = s"
    using redact_tokens [OF assms(1) subset_refl escape_tokens(3)] by (auto simp: escape_tokens)
  show ?thesis
    unfolding restore_text_def redact_text_def us(1)
    using restore_tokens [OF assms(1) us(2), of "[]"] restore_free [of "render us" "rd_texts r" "[]"] us(3) assms(2) by auto
qed


section \<open>Values and records\<close>

text \<open>An object has one member per key.\<close>

fun distinct_keys :: "json \<Rightarrow> bool" where
  "distinct_keys (Array vs) \<longleftrightarrow> list_all distinct_keys vs"
| "distinct_keys (Object m) \<longleftrightarrow> distinct (map fst m) \<and> list_all (\<lambda>(k, v). distinct_keys v) m"
| "distinct_keys _ \<longleftrightarrow> True"

fun over_strings :: "(string \<Rightarrow> string) \<Rightarrow> json \<Rightarrow> json" where
  "over_strings h (String s) = String (h s)"
| "over_strings h (Array vs) = Array (map (over_strings h) vs)"
| "over_strings h (Object m) = Object (map (\<lambda>(k, v). (h k, over_strings h v)) m)"
| "over_strings h v = v"

lemma over_strings_id [simp]: "over_strings (\<lambda>s. s) v = v"
  by (induction v) (auto intro!: map_idI)

lemma update_new: "k \<notin> fst ` set m \<Longrightarrow> AList.update k v m = m @ [(k, v)]"
  by (induction m) auto

lemma map_items_each:
  "(\<And>v. v \<in> set vs \<Longrightarrow> map_strings f (c v) = Inr (d v)) \<Longrightarrow> map_items f (map c vs) = Inr (map d vs)"
  by (induction vs) auto

lemma map_members_each:
  assumes "\<And>k v. (k, v) \<in> set m \<Longrightarrow> f (a k) = Inr (b k) \<and> map_strings f (c v) = Inr (d v)"
    and "distinct (map (\<lambda>(k, v). b k) m)" and "fst ` set out \<inter> b ` fst ` set m = {}"
  shows "map_members f (map (\<lambda>(k, v). (a k, c v)) m) out = Inr (out @ map (\<lambda>(k, v). (b k, d v)) m)"
  using assms
proof (induction m arbitrary: out)
  case (Cons x m)
  obtain k v where x: "x = (k, v)" by (cases x)
  have new: "AList.update (b k) (d v) out = out @ [(b k, d v)]" using Cons.prems(3) by (intro update_new) (auto simp: x)
  have "map_members f (map (\<lambda>(k, v). (a k, c v)) m) (out @ [(b k, d v)])
      = Inr ((out @ [(b k, d v)]) @ map (\<lambda>(k, v). (b k, d v)) m)"
  proof (rule Cons.IH)
    show "fst ` set (out @ [(b k, d v)]) \<inter> b ` fst ` set m = {}"
      using Cons.prems(2,3) by (force simp: x image_iff)
  qed (use Cons.prems in \<open>auto simp: x\<close>)
  then show ?case using Cons.prems(1) [of k v] by (simp add: x new)
qed simp

lemma map_strings_over:
  assumes "\<And>s. f (a s) = Inr (b s)" and "inj b" and "distinct_keys v"
  shows "map_strings f (over_strings a v) = Inr (over_strings b v)"
  using assms(3)
proof (induction v)
  case (Array vs)
  then show ?case using map_items_each [of vs f "over_strings a" "over_strings b"] by (auto simp: list_all_iff)
next
  case (Object m)
  have "distinct (map (\<lambda>(k, v). b k) m)"
  proof -
    have "map (\<lambda>(k, v). b k) m = map b (map fst m)" by (simp add: case_prod_beta comp_def)
    then show ?thesis using Object.prems assms(2) by (simp add: distinct_map inj_on_subset [OF assms(2) subset_UNIV] del: map_map)
  qed
  moreover have "f (a k) = Inr (b k) \<and> map_strings f (over_strings a v) = Inr (over_strings b v)" if "(k, v) \<in> set m" for k v
    using Object that assms(1) by (fastforce simp: list_all_iff)
  ultimately show ?case
    using map_members_each [of m f a b "over_strings a" "over_strings b" "[]"] by simp
qed (simp_all add: assms(1))


definition over_error :: "(string \<Rightarrow> string) \<Rightarrow> workflow_error \<Rightarrow> workflow_error" where
  "over_error h e = \<lparr>err_type = h (err_type e), err_status = err_status e, err_title = map_option h (err_title e),
     err_detail = map_option h (err_detail e), err_instance = map_option h (err_instance e)\<rparr>"

fun over_annotation :: "(string \<Rightarrow> string) \<Rightarrow> annotation \<Rightarrow> annotation" where
  "over_annotation h (AText t) = AText (h t)"
| "over_annotation h (ANumber n) = ANumber n"

lemma map_error_over:
  assumes "\<And>s. f (a s) = Inr (b s)"
  shows "map_error f (over_error a e) = Inr (over_error b e)"
  by (auto simp: map_error_def over_error_def transpose_option_def assms split: option.splits)

lemma over_error_id [simp]: "over_error (\<lambda>s. s) e = e"
  by (simp add: over_error_def option.map_ident)

lemma map_annotations_over:
  assumes "\<And>s. f (a s) = Inr (b s)"
  shows "map_annotations f (map (\<lambda>(k, n). (k, over_annotation a n)) xs) = Inr (map (\<lambda>(k, n). (k, over_annotation b n)) xs)"
proof (induction xs)
  case (Cons x xs)
  then show ?case by (cases x; cases "snd x") (auto simp: assms)
qed simp

lemma over_annotation_id [simp]: "over_annotation (\<lambda>s. s) n = n"
  by (cases n) auto

lemma bt_of_entries [simp]: "bt_of_list (bt_entries t) = t"
  by (rule bt_eqI) (simp add: bt_get_of_list flip: bt_get_def)

lemma bt_entries_mapped:
  "bt_entries (bt_of_list (map (\<lambda>(k, n). (k, f n)) (bt_entries t))) = map (\<lambda>(k, n). (k, f n)) (bt_entries t)"
  by (rule bt_entries_of_list) (simp add: case_prod_beta comp_def)

text \<open>The values a record holds.\<close>

fun status_values :: "status \<Rightarrow> json list" where
  "status_values (Completed v) = [v]"
| "status_values _ = []"

fun record_values :: "journal_record \<Rightarrow> json list" where
  "record_values (Execution _ _ d i rt _ _ _) = [d, i, rt]"
| "record_values (Task _ (Some tr)) = tr_context tr # (case tr_outcome tr of StepCompleted v _ \<Rightarrow> [v] | _ \<Rightarrow> [])"
| "record_values (Call _ _ arg _ st _) = arg # (case st of Done (Inr v) \<Rightarrow> [v] | _ \<Rightarrow> [])"
| "record_values (Winner v) = [v]"
| "record_values (Finished st) = status_values st"
| "record_values _ = []"

lemma convert_round_trip:
  assumes "\<And>s. g (h s) = Inr s" and "list_all distinct_keys (record_values rec)"
  shows "\<exists>c. convert (\<lambda>s. Inr (h s)) rec = Inr c \<and> convert g c = Inr rec"
proof -
  have "inj h" using assms(1) by (metis injI sum.inject(2))
  then have there: "map_strings (\<lambda>s. Inr (h s)) v = Inr (over_strings h v)" if "distinct_keys v" for v
    using map_strings_over [of "\<lambda>s. Inr (h s)" "\<lambda>s. s" h v] that by simp
  have again: "map_strings g (over_strings h v) = Inr v" if "distinct_keys v" for v
    using map_strings_over [of g h "\<lambda>s. s" v] that assms(1) by simp
  have errors: "map_error (\<lambda>s. Inr (h s)) e = Inr (over_error h e)" "map_error g (over_error h e) = Inr e" for e
    using map_error_over [of "\<lambda>s. Inr (h s)" "\<lambda>s. s" h e] map_error_over [of g h "\<lambda>s. s" e] assms(1) by simp_all
  have anns: "map_annotations (\<lambda>s. Inr (h s)) xs = Inr (map (\<lambda>(k, n). (k, over_annotation h n)) xs)"
    "map_annotations g (map (\<lambda>(k, n). (k, over_annotation h n)) xs) = Inr xs" for xs
    using map_annotations_over [of "\<lambda>s. Inr (h s)" "\<lambda>s. s" h xs] map_annotations_over [of g h "\<lambda>s. s" xs] assms(1)
    by (simp_all add: case_prod_beta)
  note each = convert_def convert_outcome_def convert_state_def there again errors anns bt_entries_mapped
  show ?thesis
    using assms(2)
    by (cases rec rule: record_values.cases)
      (auto simp: each split: step_outcome.splits call_state.splits sum.splits status.splits)
qed

section \<open>Properties\<close>

text \<open>
  C28. What redaction hides comes back: as long as no secret string occurs in the path of a marker (and neither contains the
  mark), every record that is saved redacted and loaded is the record that was saved; a restored value
  never fails.
\<close>

theorem redaction_round_trip:
  assumes "collision_free r" and "list_all distinct_keys (record_values rec)"
  shows "restore r (redact_record r rec) = Inr rec"
proof (cases "active r")
  case True
  then obtain c where "convert (\<lambda>s. Inr (redact_text r s)) rec = Inr c" "convert (restore_text r) c = Inr rec"
    using convert_round_trip [of "restore_text r" "redact_text r" rec] restore_redact_text [OF assms(1) True] assms(2)
    by blast
  then show ?thesis using True by (simp add: restore_def redact_record_def)
qed (simp add: restore_def redact_record_def)

text \<open>
  C29. No secret string occurs in redacted text, whatever the text, under the same condition.
\<close>

theorem redaction_hides:
  assumes "collision_free r" and "(s, p) \<in> set (rd_texts r)"
  shows "\<not> sublist s (redact_text r t)"
proof -
  have "\<forall>(t, p) \<in> set (rd_texts r). t \<noteq> [] \<and> MARK \<notin> set t" using collision_freeD [OF assms(1)] by auto
  moreover have "\<forall>(t, p) \<in> set (rd_texts r). \<forall>(t', p') \<in> set (rd_texts r). \<not> sublist t p'"
    using collision_freeD(5) [OF assms(1)] by auto
  ultimately have "\<not> sublist s (redact_fold (rd_texts r) (escape t))" using fold_hides assms(2) by blast
  then show ?thesis using assms(2) by (auto simp: redact_text_def active_def)
qed

definition colliding_store :: "string \<Rightarrow> string + json option" where
  "colliding_store name =
     Inr (Some (Object [(''password'', String ''hunter2''), (''user'', String ''db'')]))"


section \<open>Witnesses\<close>

definition sample_redaction :: redaction where
  "sample_redaction = \<lparr>rd_values = [(''api'', Some (String ''s3cr3t''))], rd_texts = [(''s3cr3t'', ''api'')]\<rparr>"

lemma sample_redaction_free: "collision_free sample_redaction"
  by (simp add: collision_free_def sample_redaction_def MARK_def sublist_code)

theorem redaction_round_trip_witness:
  "restore sample_redaction (redact_record sample_redaction (Winner (Object [(''k'', String ''a s3cr3t'')])))
     = Inr (Winner (Object [(''k'', String ''a s3cr3t'')]))"
  by (rule redaction_round_trip [OF sample_redaction_free]) simp

theorem redaction_hides_witness:
  "\<not> sublist ''s3cr3t'' (redact_text sample_redaction ''the s3cr3t'')"
  by (rule redaction_hides [OF sample_redaction_free, of _ "''api''"]) (simp add: sample_redaction_def)

end
