(* ===== verification/Dsl.thy ===== *)
theory Dsl
  imports Workflow_Errors
begin

text \<open>
  The workflow definition (\<^verbatim>\<open>crates/ows/src/model.rs\<close>, section 1): what a parsed document holds. Event filters and
  strategies are those of the listening theory, flow directives and deliveries those of the journal. A
  \<^verbatim>\<open>Duration\<close> is its milliseconds, a time zone its IANA name.
\<close>

type_synonym members = "(string \<times> json) list"

section \<open>Small types\<close>

datatype read = ReadData | ReadEnvelope | ReadRaw

datatype catchup = CatchLatest | CatchNone

datatype schema = Document json | Resource string

record task_input =
  in_schema :: "schema option"
  in_from :: "json option"

record task_output =
  out_schema :: "schema option"
  out_as :: "json option"

datatype items = ItemsExpr string | Inline "json list"

record switch_case =
  sc_when :: "string option"
  sc_then :: flow

datatype duration_spec = Fixed nat | DurationExpr string

datatype backoff = Constant | Linear | Exponential

record retry =
  rt_when :: "string option"
  rt_except_when :: "string option"
  rt_delay :: "duration_spec option"
  rt_backoff :: backoff
  rt_attempts :: "nat option"
  rt_attempt_duration :: "duration_spec option"
  rt_duration :: "duration_spec option"
  rt_jitter :: "(duration_spec \<times> duration_spec) option"

record error_def =
  ed_type :: string
  ed_status :: nat
  ed_title :: "string option"
  ed_detail :: "string option"
  ed_instance :: "string option"

datatype raise = RaiseInline error_def | RaiseNamed string

datatype process =
    ChildWorkflow (pr_namespace: string) (pr_name: string) (pr_version: string) (pr_input: "json option")
  | External (pr_kind: string) (pr_definition: json)

definition process_function :: "string \<Rightarrow> string" where
  "process_function kind = ''run:'' @ kind"

datatype return = RStdout | RStderr | RCode | RAll | RNone

record run_task =
  rn_process :: process
  rn_inherit_host :: bool
  rn_await :: bool
  rn_return :: return

section \<open>Tasks\<close>

datatype task =
  MkTask (tk_delivery: delivery) (tk_hold: nat) (tk_when: "string option") (tk_input: "task_input option")
    (tk_output: "task_output option") (tk_export: "task_output option") (tk_timeout: "duration_spec option")
    (tk_then: "flow option") (tk_kind: kind) (tk_definition: json)
and kind =
    KCall string "json option"
  | KDo "(string \<times> task) list"
  | KFor string string items "string option" "nat option" "(string \<times> task) list"
  | KFork "(string \<times> task) list" bool
  | KSet json
  | KSwitch "(string \<times> switch_case) list"
  | KTry "(string \<times> task) list" catch
  | KRaise raise
  | KWait duration_spec
  | KListen strategy read "foreach option"
  | KEmit "(string \<times> json) list"
  | KRun run_task
and catch =
  Catch (ca_errors: "(string \<times> json) list option") (ca_as: string) (ca_when: "string option")
    (ca_except_when: "string option") (ca_retry: "retry option") (ca_tasks: "(string \<times> task) list option")
    (ca_then: "flow option")
and foreach =
  Foreach (fe_item: string) (fe_at: string) (fe_tasks: "(string \<times> task) list") (fe_output: "task_output option")
    (fe_export: "task_output option")

type_synonym task_list = "(string \<times> task) list"

fun kind_name :: "kind \<Rightarrow> string" where
  "kind_name (KCall _ _) = ''call''"
| "kind_name (KDo _) = ''do''"
| "kind_name (KFor _ _ _ _ _ _) = ''for''"
| "kind_name (KFork _ _) = ''fork''"
| "kind_name (KSet _) = ''set''"
| "kind_name (KSwitch _) = ''switch''"
| "kind_name (KTry _ _) = ''try''"
| "kind_name (KRaise _) = ''raise''"
| "kind_name (KWait _) = ''wait''"
| "kind_name (KListen _ _ _) = ''listen''"
| "kind_name (KEmit _) = ''emit''"
| "kind_name (KRun _) = ''run''"

section \<open>The definition\<close>

record extension =
  ex_extend :: string
  ex_when :: "string option"
  ex_before :: "task_list option"
  ex_after :: "task_list option"

definition extends :: "extension \<Rightarrow> kind \<Rightarrow> bool" where
  "extends e k =
     (if ex_extend e = ''all'' then True
      else if ex_extend e = ''composite'' then (case k of KDo _ \<Rightarrow> True | KFork _ _ \<Rightarrow> True | _ \<Rightarrow> False)
      else ex_extend e = kind_name k)"

record schedule =
  sd_every :: "nat option"
  sd_cron :: "string option"
  sd_after :: "nat option"
  sd_on :: "strategy option"
  sd_read :: read
  sd_at :: "int option"
  sd_timezone :: "string option"
  sd_catchup :: catchup
  sd_overlap :: overlap

datatype exceeded = ExceededRaise | ExceededEnd | ExceededTask task

record budget =
  bg_max_jumps :: "nat option"
  bg_on_exceeded :: exceeded

definition default_budget :: budget where
  "default_budget = \<lparr>bg_max_jumps = None, bg_on_exceeded = ExceededRaise\<rparr>"

definition max_jumps :: "budget \<Rightarrow> nat \<Rightarrow> nat" where
  "max_jumps b ceiling = (case bg_max_jumps b of None \<Rightarrow> ceiling | Some n \<Rightarrow> min n ceiling)"

definition MAX_THRESHOLD :: nat where
  "MAX_THRESHOLD = 1000"

record document =
  dc_dsl :: string
  dc_namespace :: string
  dc_name :: string
  dc_version :: string
  dc_title :: "string option"
  dc_summary :: "string option"

record uses =
  us_functions :: "(string \<times> task) list"
  us_errors :: "(string \<times> error_def) list"
  us_retries :: "(string \<times> retry) list"
  us_timeouts :: "(string \<times> duration_spec) list"
  us_extensions :: "(string \<times> extension) list"
  us_secrets :: "string list"

definition default_uses :: uses where
  "default_uses = \<lparr>us_functions = [], us_errors = [], us_retries = [], us_timeouts = [], us_extensions = [], us_secrets = []\<rparr>"

record workflow =
  wf_document :: document
  wf_input :: "task_input option"
  wf_output :: "task_output option"
  wf_uses :: uses
  wf_tasks :: task_list
  wf_timeout :: "duration_spec option"
  wf_schedule :: "schedule option"
  wf_budget :: budget
  wf_breaker :: breaker
  wf_definition :: json

section \<open>Expressions in text\<close>

text \<open>\<^verbatim>\<open>str::contains\<close>.\<close>

fun str_contains :: "string \<Rightarrow> string \<Rightarrow> bool" where
  "str_contains p [] \<longleftrightarrow> p = []"
| "str_contains p (c # cs) \<longleftrightarrow> take (length p) (c # cs) = p \<or> str_contains p cs"

definition bare :: "string \<Rightarrow> string" where
  "bare text = (case strip text of Some code \<Rightarrow> code | None \<Rightarrow> trim text)"

definition is_embedded :: "string \<Rightarrow> bool" where
  "is_embedded text \<longleftrightarrow> strip text = None \<and> str_contains ''${'' text"

fun template_exprs :: "json \<Rightarrow> string list" where
  "template_exprs (String s) = (case strip s of Some code \<Rightarrow> [code] | None \<Rightarrow> [])"
| "template_exprs (Array vs) = concat (map template_exprs vs)"
| "template_exprs (Object m) = concat (map (\<lambda>(k, v). template_exprs v) m)"
| "template_exprs _ = []"

fun embedded_strings :: "json \<Rightarrow> string list" where
  "embedded_strings (String s) = (if is_embedded s then [s] else [])"
| "embedded_strings (Array vs) = concat (map embedded_strings vs)"
| "embedded_strings (Object m) = concat (map (\<lambda>(k, v). embedded_strings v) m)"
| "embedded_strings _ = []"

text \<open>Rendering a template: every whole-string expression evaluated once, everything else as it is.\<close>

fun render_template :: "jq \<Rightarrow> json \<Rightarrow> json \<Rightarrow> args \<Rightarrow> string + json"
  and render_items :: "jq \<Rightarrow> json list \<Rightarrow> json \<Rightarrow> args \<Rightarrow> string + json list"
  and render_members :: "jq \<Rightarrow> members \<Rightarrow> json \<Rightarrow> args \<Rightarrow> string + members"
where
  "render_template jq (String s) input a = (case strip s of Some code \<Rightarrow> jq code input a | None \<Rightarrow> Inr (String s))"
| "render_template jq (Array vs) input a = and_then (render_items jq vs input a) (\<lambda>ws. Inr (Array ws))"
| "render_template jq (Object m) input a = and_then (render_members jq m input a) (\<lambda>out. Inr (Object out))"
| "render_template jq Null input a = Inr Null"
| "render_template jq (Bool b) input a = Inr (Bool b)"
| "render_template jq (Number n) input a = Inr (Number n)"
| "render_items jq [] input a = Inr []"
| "render_items jq (v # vs) input a =
     and_then (render_template jq v input a) (\<lambda>w. and_then (render_items jq vs input a) (\<lambda>ws. Inr (w # ws)))"
| "render_members jq [] input a = Inr []"
| "render_members jq ((k, v) # m) input a =
     and_then (render_template jq v input a) (\<lambda>w. and_then (render_members jq m input a) (\<lambda>out. Inr ((k, w) # out)))"

end
