(* ===== verification/Iso_Duration.thy ===== *)
theory Iso_Duration
  imports Dsl
begin

text \<open>
  ISO 8601 durations (\<^verbatim>\<open>parse_iso_duration\<close> of \<^verbatim>\<open>crates/ows/src/model.rs\<close>). The source computes in \<^verbatim>\<open>f64\<close>; here is what it
  uses of it: non-negative IEEE doubles with rounding to nearest, ties to even, gradual underflow and overflow to
  infinity. A finite double is \<open>Fin m e\<close> with value \<open>m * 2 ^ e\<close>.
\<close>

section \<open>Doubles\<close>

datatype f64 = Fin nat int | Inf

fun bit_length :: "nat \<Rightarrow> nat" where
  "bit_length n = (if n = 0 then 0 else Suc (bit_length (n div 2)))"

declare bit_length.simps [simp del]

text \<open>\<open>\<lfloor>log\<^sub>2 (p / q)\<rfloor>\<close>.\<close>

definition floor_log2 :: "nat \<Rightarrow> nat \<Rightarrow> int" where
  "floor_log2 p q = (if q \<le> p then int (bit_length (p div q)) - 1 else - int (bit_length ((q - 1) div p)))"

definition half_even :: "nat \<Rightarrow> nat \<Rightarrow> nat" where
  "half_even a b = (let d = a div b; r = a mod b in if 2 * r < b \<or> (2 * r = b \<and> even d) then d else Suc d)"

text \<open>The double nearest to \<open>p / q\<close>.\<close>

definition nearest :: "nat \<Rightarrow> nat \<Rightarrow> f64" where
  "nearest p q =
     (if p = 0 then Fin 0 0
      else
        let e = max (- 1074) (floor_log2 p q - 52);
          m = (if e < 0 then half_even (p * 2 ^ nat (- e)) q else half_even p (q * 2 ^ nat e))
        in if 1024 < e + int (bit_length m) then Inf else Fin m e)"

definition scaled :: "nat \<Rightarrow> int \<Rightarrow> f64" where
  "scaled n e = (if 0 \<le> e then nearest (n * 2 ^ nat e) 1 else nearest n (2 ^ nat (- e)))"

fun times :: "f64 \<Rightarrow> nat \<Rightarrow> f64" where
  "times (Fin m e) u = scaled (m * u) e"
| "times Inf u = Inf"

fun plus_f64 :: "f64 \<Rightarrow> f64 \<Rightarrow> f64" where
  "plus_f64 (Fin m e) (Fin n f) = scaled (m * 2 ^ nat (e - min e f) + n * 2 ^ nat (f - min e f)) (min e f)"
| "plus_f64 Inf _ = Inf"
| "plus_f64 _ Inf = Inf"

text \<open>\<^verbatim>\<open>x.round() as u64\<close>: halves away from zero, saturating.\<close>

fun round_u64 :: "f64 \<Rightarrow> nat" where
  "round_u64 (Fin m e) =
     min U64_MAX (if 0 \<le> e then m * 2 ^ nat e else (2 * m + 2 ^ nat (- e)) div (2 * 2 ^ nat (- e)))"
| "round_u64 Inf = U64_MAX"

text \<open>\<^verbatim>\<open>str::parse::<f64>\<close> of text made of digits and dots.\<close>

definition is_digit :: "char \<Rightarrow> bool" where
  "is_digit c \<longleftrightarrow> 48 \<le> (of_char c :: nat) \<and> (of_char c :: nat) \<le> 57"

definition number_of :: "string \<Rightarrow> nat" where
  "number_of ds = fold (\<lambda>c n. 10 * n + (of_char c - 48)) ds 0"

definition parse_f64 :: "string \<Rightarrow> f64 option" where
  "parse_f64 s =
     (let whole = takeWhile is_digit s; rest = dropWhile is_digit s; frac = drop 1 rest
      in if (rest = [] \<or> hd rest = CHR ''.'') \<and> list_all is_digit frac \<and> (whole \<noteq> [] \<or> frac \<noteq> [])
         then Some (nearest (number_of (whole @ frac)) (10 ^ length frac)) else None)"

section \<open>Durations\<close>

text \<open>\<^verbatim>\<open>str::split_once\<close> with one character.\<close>

definition split_once :: "char \<Rightarrow> string \<Rightarrow> (string \<times> string) option" where
  "split_once c s = (if c \<in> set s then Some (takeWhile (\<lambda>d. d \<noteq> c) s, tl (dropWhile (\<lambda>d. d \<noteq> c) s)) else None)"

fun take_units :: "string \<Rightarrow> string \<Rightarrow> (char \<times> nat) list \<Rightarrow> f64 \<Rightarrow> f64 option" where
  "take_units [] num units ms = (if num = [] then Some ms else None)"
| "take_units (c # cs) num units ms =
     (if is_digit c \<or> c = CHR ''.'' then take_units cs (num @ [c]) units ms
      else case dropWhile (\<lambda>(u, _). u \<noteq> c) units of
        [] \<Rightarrow> None
      | (u, w) # rest \<Rightarrow>
          (case parse_f64 num of
             None \<Rightarrow> None
           | Some x \<Rightarrow> take_units cs [] rest (plus_f64 ms (times x w))))"

definition parse_iso_duration :: "string \<Rightarrow> nat option" where
  "parse_iso_duration s =
     Option.bind (strip_prefix ''P'' (trim s)) (\<lambda>rest.
     if rest = [] then None
     else Option.bind
       (case split_once (CHR ''T'') rest of
          Some (d, t) \<Rightarrow> if t \<noteq> [] then Some (d, Some t) else None
        | None \<Rightarrow> Some (rest, None)) (\<lambda>(date, time).
     Option.bind (take_units date [] [(CHR ''D'', 86400000)] (Fin 0 0)) (\<lambda>ms.
     Option.bind (case time of
         None \<Rightarrow> Some ms
       | Some t \<Rightarrow> take_units t [] [(CHR ''H'', 3600000), (CHR ''M'', 60000), (CHR ''S'', 1000)] ms) (\<lambda>ms'.
     Some (round_u64 ms')))))"

section \<open>Exactness\<close>

text \<open>A double that is exactly a natural number.\<close>

definition exactly :: "f64 \<Rightarrow> nat \<Rightarrow> bool" where
  "exactly x n \<longleftrightarrow> (\<exists>k. x = Fin (n * 2 ^ k) (- int k))"

lemma bit_length_less: "n < 2 ^ bit_length n"
  by (induction n rule: bit_length.induct) (subst bit_length.simps, auto)

lemma bit_length_le: "n < 2 ^ k \<Longrightarrow> bit_length n \<le> k"
proof (induction n arbitrary: k rule: bit_length.induct)
  case (1 n)
  then show ?case by (cases k) (auto simp: bit_length.simps [of n] bit_length.simps [of 0])
qed

lemma half_even_exact: "0 < b \<Longrightarrow> half_even (a * b) b = a"
  by (simp add: half_even_def Let_def)

lemma nearest_exact:
  assumes "n < 2 ^ 53" and "0 < q"
  shows "exactly (nearest (n * q) q) n"
proof (cases "n = 0")
  case False
  obtain k where k: "bit_length n + k = 53" using bit_length_le [OF assms(1)] le_Suc_ex by metis
  have "1 \<le> n" using False by simp
  then have "q \<le> n * q" using mult_le_mono1 [of 1 n q] by simp
  then have f: "floor_log2 (n * q) q = int (bit_length n) - 1" using assms(2) by (simp add: floor_log2_def)
  then have e: "max (- 1074) (floor_log2 (n * q) q - 52) = - int k" using k by simp
  have m: "half_even (n * q * 2 ^ k) q = n * 2 ^ k"
    using half_even_exact [OF assms(2), of "n * 2 ^ k"] by (simp add: ac_simps)
  have lt: "n * 2 ^ k < 2 ^ 53"
  proof -
    have "n * 2 ^ k < 2 ^ bit_length n * 2 ^ k" using bit_length_less by simp
    also have "\<dots> = 2 ^ 53" using k by (simp flip: power_add)
    finally show ?thesis .
  qed
  then have "- int k + int (bit_length (n * 2 ^ k)) \<le> 1024" using bit_length_le [OF lt] by simp
  then have "nearest (n * q) q = Fin (n * 2 ^ k) (- int k)"
    unfolding nearest_def e Let_def using False assms(2) m by (cases "k = 0") (simp_all add: half_even_exact)
  then show ?thesis unfolding exactly_def by blast
qed (auto simp: nearest_def exactly_def intro: exI [of _ 0])

lemma scaled_exact: "n < 2 ^ 53 \<Longrightarrow> exactly (scaled (n * 2 ^ k) (- int k)) n"
  using nearest_exact [of n "2 ^ k"] nearest_exact [of n 1] by (cases "k = 0") (simp_all add: scaled_def)

lemma times_exact: "exactly x n \<Longrightarrow> n * u < 2 ^ 53 \<Longrightarrow> exactly (times x u) (n * u)"
  using scaled_exact [of "n * u"] by (auto simp: exactly_def [of x] ac_simps)

lemma plus_exact:
  assumes "exactly x a" and "exactly y b" and "a + b < 2 ^ 53"
  shows "exactly (plus_f64 x y) (a + b)"
proof -
  obtain j k where x: "x = Fin (a * 2 ^ j) (- int j)" and y: "y = Fin (b * 2 ^ k) (- int k)"
    using assms(1,2) by (auto simp: exactly_def)
  have "2 ^ j * 2 ^ (max j k - j) = (2 :: nat) ^ max j k" "2 ^ k * 2 ^ (max j k - k) = (2 :: nat) ^ max j k"
    by (simp_all flip: power_add)
  moreover have "min (- int j) (- int k) = - int (max j k)" "nat (- int j + int (max j k)) = max j k - j"
    "nat (- int k + int (max j k)) = max j k - k" by auto
  ultimately have "plus_f64 x y = scaled ((a + b) * 2 ^ max j k) (- int (max j k))"
    by (simp add: x y algebra_simps)
  then show ?thesis using scaled_exact [OF assms(3)] by simp
qed

lemma round_exact: "exactly x n \<Longrightarrow> n \<le> U64_MAX \<Longrightarrow> round_u64 x = n"
proof -
  assume "exactly x n" "n \<le> U64_MAX"
  then obtain k where x: "x = Fin (n * 2 ^ k) (- int k)" by (auto simp: exactly_def)
  have "(2 * (n * 2 ^ k) + 2 ^ k) div (2 * 2 ^ k) = (2 ^ k * (2 * n + 1)) div (2 ^ k * 2)" by (simp add: algebra_simps)
  also have "\<dots> = n" by (subst div_mult_mult1) simp_all
  finally show ?thesis using \<open>n \<le> U64_MAX\<close> by (cases "k = 0") (simp_all add: x)
qed


section \<open>Reading the decimal parts\<close>

lemma digit_of [simp]: "d < 10 \<Longrightarrow> of_char (digit_char d) = 48 + d"
  by (simp add: digit_char_def)

lemma is_digit_char [simp]: "d < 10 \<Longrightarrow> is_digit (digit_char d)"
  by (simp add: is_digit_def)

lemma number_of_append: "number_of (xs @ [c]) = 10 * number_of xs + (of_char c - 48)"
  by (simp add: number_of_def)

lemma decimal_reads:
  "list_all is_digit (decimal n)" "number_of (decimal n) = n" "decimal n \<noteq> []"
proof (induction n rule: decimal.induct)
  case (1 n)
  have d: "decimal n = (if n < 10 then [digit_char n] else decimal (n div 10) @ [digit_char (n mod 10)])"
    by (rule decimal.simps)
  show "list_all is_digit (decimal n)" "number_of (decimal n) = n" "decimal n \<noteq> []"
    unfolding d using 1 by (auto simp: number_of_append) (simp add: number_of_def)
qed

lemma parse_f64_decimal: "parse_f64 (decimal n) = Some (nearest n 1)"
proof -
  have whole: "takeWhile is_digit (decimal n) = decimal n" "dropWhile is_digit (decimal n) = []"
    using decimal_reads(1) [of n] by (auto simp: list_all_iff)
  show ?thesis unfolding parse_f64_def Let_def whole using decimal_reads [of n] by simp
qed

lemma take_digits:
  "list_all is_digit ds \<Longrightarrow> take_units (ds @ cs) num units ms = take_units cs (num @ ds) units ms"
  by (induction ds arbitrary: num) auto

lemma take_decimal:
  assumes "\<not> is_digit c" and "c \<noteq> CHR ''.''"
  shows "take_units (decimal n @ c # cs) [] ((c, w) # units) ms = take_units cs [] units (plus_f64 ms (times (nearest n 1) w))"
  using assms by (simp add: take_digits decimal_reads parse_f64_decimal)

lemma take_decimal_exact:
  assumes "\<not> is_digit c" and "c \<noteq> CHR ''.''" and "exactly ms a" and "a + n * w < 2 ^ 53" and "0 < w"
  obtains ms' where "exactly ms' (a + n * w)"
    and "take_units (decimal n @ c # cs) [] ((c, w) # units) ms = take_units cs [] units ms'"
proof -
  have "n \<le> n * w" using assms(5) by simp
  then have "n < 2 ^ 53" using assms(4) by linarith
  then have "exactly (nearest n 1) n" using nearest_exact [of n 1] by simp
  then have "exactly (times (nearest n 1) w) (n * w)" using times_exact assms(4) by simp
  from that [OF plus_exact [OF assms(3) this assms(4)] take_decimal [OF assms(1,2)]] show thesis .
qed

lemma no_white_space:
  "strip_any white_space (CHR ''P'' # s) = None" "strip_any (map rev white_space) (CHR ''S'' # s) = None"
  by (simp_all add: strip_any_def white_space_def strip_prefix_def char_of_def upt_rec)

lemma trim_duration: "trim (CHR ''P'' # s @ ''S'') = CHR ''P'' # s @ ''S''"
  by (simp add: trim_def trim_front.simps no_white_space)

text \<open>
  C37. A duration in whole days, hours, minutes and seconds is read exactly as long as it stays below \<open>2 ^ 53\<close> milliseconds (285
  thousand years), although the source computes it in floating point.
\<close>

theorem iso_duration_exact:
  assumes "86400000 * d + 3600000 * h + 60000 * m + 1000 * s < 2 ^ 53"
  shows "parse_iso_duration (''P'' @ decimal d @ ''DT'' @ decimal h @ ''H'' @ decimal m @ ''M'' @ decimal s @ ''S'')
    = Some (86400000 * d + 3600000 * h + 60000 * m + 1000 * s)"
proof -
  let ?time = "decimal h @ CHR ''H'' # decimal m @ CHR ''M'' # decimal s @ CHR ''S'' # []"
  note c = is_digit_def
  have zero: "exactly (Fin 0 0) 0" by (auto simp: exactly_def intro: exI [of _ 0])
  obtain a where a: "exactly a (0 + d * 86400000)"
    "take_units (decimal d @ CHR ''D'' # []) [] [(CHR ''D'', 86400000)] (Fin 0 0) = take_units [] [] [] a"
    by (rule take_decimal_exact [OF _ _ zero, of "CHR ''D''" d 86400000 "[]" "[]"]) (use assms in \<open>simp_all add: c\<close>)
  obtain b where b: "exactly b (0 + d * 86400000 + h * 3600000)"
    "take_units ?time [] [(CHR ''H'', 3600000), (CHR ''M'', 60000), (CHR ''S'', 1000)] a
      = take_units (decimal m @ CHR ''M'' # decimal s @ CHR ''S'' # []) [] [(CHR ''M'', 60000), (CHR ''S'', 1000)] b"
    by (rule take_decimal_exact [OF _ _ a(1), of "CHR ''H''" h 3600000]) (use assms in \<open>simp_all add: c\<close>)
  obtain e where e: "exactly e (0 + d * 86400000 + h * 3600000 + m * 60000)"
    "take_units (decimal m @ CHR ''M'' # decimal s @ CHR ''S'' # []) [] [(CHR ''M'', 60000), (CHR ''S'', 1000)] b
      = take_units (decimal s @ CHR ''S'' # []) [] [(CHR ''S'', 1000)] e"
    by (rule take_decimal_exact [OF _ _ b(1), of "CHR ''M''" m 60000]) (use assms in \<open>simp_all add: c\<close>)
  obtain f where f: "exactly f (0 + d * 86400000 + h * 3600000 + m * 60000 + s * 1000)"
    "take_units (decimal s @ CHR ''S'' # []) [] [(CHR ''S'', 1000)] e = take_units [] [] [] f"
    by (rule take_decimal_exact [OF _ _ e(1), of "CHR ''S''" s 1000 "[]" "[]"]) (use assms in \<open>simp_all add: c\<close>)
  have "round_u64 f = d * 86400000 + h * 3600000 + m * 60000 + s * 1000"
    using round_exact [OF f(1)] assms by (simp add: U64_MAX_def)
  moreover have "CHR ''T'' \<notin> set (decimal d)" using decimal_reads(1) [of d] by (auto simp: list_all_iff c)
  then have "split_once (CHR ''T'') (decimal d @ CHR ''D'' # CHR ''T'' # ?time) = Some (decimal d @ CHR ''D'' # [], ?time)"
    by (simp add: split_once_def takeWhile_append dropWhile_append)
  moreover have "trim (''P'' @ decimal d @ ''DT'' @ decimal h @ ''H'' @ decimal m @ ''M'' @ decimal s @ ''S'')
      = CHR ''P'' # decimal d @ CHR ''D'' # CHR ''T'' # ?time"
    using trim_duration [of "decimal d @ ''DT'' @ decimal h @ ''H'' @ decimal m @ ''M'' @ decimal s"] by simp
  ultimately show ?thesis
    using a(2) b(2) e(2) f(2) by (simp add: parse_iso_duration_def strip_prefix_def)
qed

theorem iso_duration_exact_witness:
  "parse_iso_duration (''P'' @ decimal 1 @ ''DT'' @ decimal 2 @ ''H'' @ decimal 30 @ ''M'' @ decimal 5 @ ''S'') = Some 95405000"
  using iso_duration_exact [of 1 2 30 5] by simp

end
