(* ===== verification/Definition_Parser.thy ===== *)
theory Definition_Parser
  imports Iso_Duration
begin

text \<open>
  Parsing a definition (\<^verbatim>\<open>crates/ows/src/model.rs\<close>, section 2): from a JSON value to a workflow, with every problem and
  the pointer of where it is. \<^verbatim>\<open>Parser.problems\<close> is only ever appended to, so a parser returns its result and the
  problems it adds; the named retries and timeouts, fixed while tasks are parsed, are an argument. What YAML, cron
  expressions, time zones, timestamps and JSON Schemas are is third-party code, a record of parameters.

  A task is parsed with fuel, the depth of its value: the parser of a task calls itself on values inside it
  only. \<open>Parser_Rules\<close> proves that the fuel is never used up.
\<close>

section \<open>Problems\<close>

record problem =
  pb_at :: string
  pb_message :: string

type_synonym 'a parser = "'a \<times> problem list"

definition pret :: "'a \<Rightarrow> 'a parser" where
  "pret a = (a, [])"

definition pbind :: "'a parser \<Rightarrow> ('a \<Rightarrow> 'b parser) \<Rightarrow> 'b parser" where
  "pbind m f = (fst (f (fst m)), snd m @ snd (f (fst m)))"

definition problem :: "string \<Rightarrow> string \<Rightarrow> problem" where
  "problem at message = \<lparr>pb_at = at, pb_message = message\<rparr>"

definition fail :: "string \<Rightarrow> string \<Rightarrow> unit parser" where
  "fail at message = ((), [problem at message])"

text \<open>Failing with a result, \<^verbatim>\<open>?\<close> on an option, \<^verbatim>\<open>Option::map\<close> and \<^verbatim>\<open>Option::and_then\<close> with a parser.\<close>

definition fail_with :: "'a \<Rightarrow> string \<Rightarrow> string \<Rightarrow> 'a parser" where
  "fail_with a at message = pbind (fail at message) (\<lambda>_. pret a)"

definition pquery :: "'a option parser \<Rightarrow> ('a \<Rightarrow> 'b option parser) \<Rightarrow> 'b option parser" where
  "pquery m f = pbind m (\<lambda>x. case x of None \<Rightarrow> pret None | Some a \<Rightarrow> f a)"

definition pmap :: "('a \<Rightarrow> 'b parser) \<Rightarrow> 'a option \<Rightarrow> 'b option parser" where
  "pmap f x = (case x of None \<Rightarrow> pret None | Some a \<Rightarrow> pbind (f a) (\<lambda>b. pret (Some b)))"

definition pand :: "('a \<Rightarrow> 'b option parser) \<Rightarrow> 'a option \<Rightarrow> 'b option parser" where
  "pand f x = (case x of None \<Rightarrow> pret None | Some a \<Rightarrow> f a)"

definition when_fails :: "bool \<Rightarrow> string \<Rightarrow> string \<Rightarrow> unit parser" where
  "when_fails b at message = (if b then fail at message else pret ())"

record host_parsers =
  hp_yaml :: "string \<Rightarrow> string + json"
  hp_conforms :: "json \<Rightarrow> (string \<times> string) list"
  hp_cron :: "string \<Rightarrow> string option"
  hp_zone :: "string \<Rightarrow> string option"
  hp_instant :: "string \<Rightarrow> int option"
  hp_schema :: "json \<Rightarrow> string option"

record parser_state =
  ps_retries :: "(string \<times> retry) list"
  ps_timeouts :: "(string \<times> duration_spec) list"

section \<open>Members\<close>

definition contains_key :: "members \<Rightarrow> string \<Rightarrow> bool" where
  "contains_key m k \<longleftrightarrow> map_of m k \<noteq> None"

fun join :: "string \<Rightarrow> string list \<Rightarrow> string" where
  "join sep [] = []"
| "join sep [s] = s"
| "join sep (s # t # ts) = s @ sep @ join sep (t # ts)"

definition DOCUMENT_EXTENSIONS :: "string list" where
  "DOCUMENT_EXTENSIONS = [''limits'', ''at'', ''timezone'', ''catchup'', ''overlap'', ''breaker'']"

definition TASK_EXTENSIONS :: "string list" where
  "TASK_EXTENSIONS = [''delivery'', ''concurrency'', ''hold'', ''host'']"

definition COMMON :: "string list" where
  "COMMON = [''if'', ''input'', ''output'', ''export'', ''timeout'', ''then'', ''metadata'']"

definition parse_object :: "json \<Rightarrow> string \<Rightarrow> members option parser" where
  "parse_object v at = (case v of Object m \<Rightarrow> pret (Some m) | _ \<Rightarrow> fail_with None at ''expected an object'')"

definition only :: "members \<Rightarrow> string \<Rightarrow> string list \<Rightarrow> unit parser" where
  "only m at allowed =
     ((), map (\<lambda>k. problem (at @ ''/'' @ k) (''unknown property (allowed: '' @ join '', '' allowed @ '')''))
            (filter (\<lambda>k. k \<notin> set allowed) (map fst m)))"

definition parse_ouro :: "members \<Rightarrow> string \<Rightarrow> string list \<Rightarrow> members option parser" where
  "parse_ouro owner at known =
     (case map_of owner ''metadata'' of
        Some (Object md) \<Rightarrow>
          pand (\<lambda>o'. pquery (parse_object o' (at @ ''/metadata/ouro'')) (\<lambda>m.
            pbind (only m (at @ ''/metadata/ouro'') known) (\<lambda>_. pret (Some m)))) (map_of md ''ouro'')
      | _ \<Rightarrow> pret None)"

definition parse_string :: "members \<Rightarrow> string \<Rightarrow> string \<Rightarrow> string option parser" where
  "parse_string m k at =
     (case map_of m k of
        None \<Rightarrow> pret None
      | Some (String s) \<Rightarrow> pret (Some s)
      | Some _ \<Rightarrow> fail_with None (at @ ''/'' @ k) ''expected a string'')"

definition required_string :: "members \<Rightarrow> string \<Rightarrow> string \<Rightarrow> string parser" where
  "required_string m k at =
     pbind (parse_string m k at) (\<lambda>s. case s of
       Some t \<Rightarrow> pret t
     | None \<Rightarrow> pbind (when_fails (\<not> contains_key m k) at (''missing `'' @ k @ ''`'')) (\<lambda>_. pret []))"

text \<open>An expression-typed member.\<close>

definition parse_expr :: "members \<Rightarrow> string \<Rightarrow> string \<Rightarrow> string option parser" where
  "parse_expr m k at = pbind (parse_string m k at) (\<lambda>s. pret (map_option bare s))"

section \<open>Durations, flow and data\<close>

definition sat_mul_u64 :: "nat \<Rightarrow> nat \<Rightarrow> nat" where
  "sat_mul_u64 a b = min U64_MAX (a * b)"

fun duration_parts :: "members \<Rightarrow> string \<Rightarrow> (string \<times> nat) list \<Rightarrow> nat \<Rightarrow> nat parser" where
  "duration_parts m at [] ms = pret ms"
| "duration_parts m at ((k, unit) # units) ms =
     (case map_of m k of
        None \<Rightarrow> duration_parts m at units ms
      | Some (Number (PosInt n)) \<Rightarrow> duration_parts m at units (sat_add_u64 ms (sat_mul_u64 n unit))
      | Some _ \<Rightarrow> pbind (fail (at @ ''/'' @ k) ''expected a non-negative integer'') (\<lambda>_. duration_parts m at units ms))"

definition parse_duration :: "json \<Rightarrow> string \<Rightarrow> duration_spec option parser" where
  "parse_duration v at =
     (case v of
        String s \<Rightarrow>
          (case strip s of
             Some code \<Rightarrow> pret (Some (DurationExpr code))
           | None \<Rightarrow>
               (case parse_iso_duration s of
                  Some d \<Rightarrow> pret (Some (Fixed d))
                | None \<Rightarrow> fail_with None at (''`'' @ s @ ''` is not an ISO 8601 duration (e.g. PT30S)'')))
      | Object m \<Rightarrow>
          pbind (only m at [''days'', ''hours'', ''minutes'', ''seconds'', ''milliseconds'']) (\<lambda>_.
          pbind (duration_parts m at [(''days'', 86400000), (''hours'', 3600000), (''minutes'', 60000), (''seconds'', 1000),
                   (''milliseconds'', 1)] 0) (\<lambda>ms.
          pret (Some (Fixed ms))))
      | _ \<Rightarrow> fail_with None at ''expected a duration object or an ISO 8601 string'')"

definition timeout_object :: "json \<Rightarrow> string \<Rightarrow> duration_spec option parser" where
  "timeout_object v at =
     pquery (parse_object v at) (\<lambda>m.
     pbind (only m at [''after'']) (\<lambda>_.
     case map_of m ''after'' of
       Some d \<Rightarrow> parse_duration d (at @ ''/after'')
     | None \<Rightarrow> fail_with None at ''missing `after`''))"

definition parse_timeout :: "parser_state \<Rightarrow> json \<Rightarrow> string \<Rightarrow> duration_spec option parser" where
  "parse_timeout st v at =
     (case v of
        String name \<Rightarrow>
          (case map_of (ps_timeouts st) name of
             Some d \<Rightarrow> pret (Some d)
           | None \<Rightarrow> fail_with None at (''no timeout `'' @ name @ ''` under use.timeouts''))
      | _ \<Rightarrow> timeout_object v at)"

definition parse_flow :: "json \<Rightarrow> string \<Rightarrow> flow option parser" where
  "parse_flow v at =
     (case as_str v of
        Some name \<Rightarrow>
          if name = ''continue'' then pret (Some Continue)
          else if name = ''exit'' then pret (Some Exit)
          else if name = ''end'' then pret (Some End)
          else if name \<noteq> [] then pret (Some (Goto name))
          else fail_with None at ''expected continue, exit, end or a task name''
      | None \<Rightarrow> fail_with None at ''expected continue, exit, end or a task name'')"

definition parse_transform :: "json option \<Rightarrow> string \<Rightarrow> json option parser" where
  "parse_transform v at =
     (case v of
        None \<Rightarrow> pret None
      | Some (String s) \<Rightarrow> pret (Some (String (bare s)))
      | Some (Object m) \<Rightarrow> pret (Some (Object m))
      | Some _ \<Rightarrow> fail_with None at ''expected an expression or an object'')"

definition parse_resource :: "json \<Rightarrow> string \<Rightarrow> schema option parser" where
  "parse_resource v at =
     pquery (parse_object v at) (\<lambda>r.
     pbind (only r at [''name'', ''endpoint'']) (\<lambda>_.
     case map_of r ''endpoint'' of
       Some (String uri) \<Rightarrow> pret (Some (Resource uri))
     | Some (Object e) \<Rightarrow>
         let eat = at @ ''/endpoint'' in
         pbind (only e eat [''uri'', ''authentication'']) (\<lambda>_.
         pbind (when_fails (contains_key e ''authentication'') (eat @ ''/authentication'')
                  ''authentication is not supported; the host's resource resolver carries credentials'') (\<lambda>_.
         pbind (required_string e ''uri'' eat) (\<lambda>uri. pret (Some (Resource uri)))))
     | _ \<Rightarrow> fail_with None at ''missing `endpoint`''))"

definition parse_schema :: "host_parsers \<Rightarrow> json \<Rightarrow> string \<Rightarrow> schema option parser" where
  "parse_schema x v at =
     pquery (parse_object v at) (\<lambda>m.
     pbind (only m at [''format'', ''document'', ''resource'']) (\<lambda>_.
     pbind (when_fails (case map_of m ''format'' of None \<Rightarrow> False | Some f \<Rightarrow> f \<noteq> String ''json'') (at @ ''/format'')
              ''only JSON Schema (`json`) is supported'') (\<lambda>_.
     case (map_of m ''resource'', map_of m ''document'') of
       (Some r, None) \<Rightarrow> parse_resource r (at @ ''/resource'')
     | (_, Some d) \<Rightarrow>
         (case hp_schema x d of
            None \<Rightarrow> pret (Some (Document d))
          | Some e \<Rightarrow> fail_with None (at @ ''/document'') (''invalid JSON Schema: '' @ e))
     | (None, None) \<Rightarrow> fail_with None at ''missing `document`'')))"

definition parse_input :: "host_parsers \<Rightarrow> json \<Rightarrow> string \<Rightarrow> task_input parser" where
  "parse_input x v at =
     pbind (parse_object v at) (\<lambda>om. case om of
       None \<Rightarrow> pret \<lparr>in_schema = None, in_from = None\<rparr>
     | Some m \<Rightarrow>
         pbind (only m at [''schema'', ''from'']) (\<lambda>_.
         pbind (pand (\<lambda>s. parse_schema x s (at @ ''/schema'')) (map_of m ''schema'')) (\<lambda>s.
         pbind (parse_transform (map_of m ''from'') (at @ ''/from'')) (\<lambda>f.
         pret \<lparr>in_schema = s, in_from = f\<rparr>))))"

definition parse_output :: "host_parsers \<Rightarrow> json \<Rightarrow> string \<Rightarrow> task_output parser" where
  "parse_output x v at =
     pbind (parse_object v at) (\<lambda>om. case om of
       None \<Rightarrow> pret \<lparr>out_schema = None, out_as = None\<rparr>
     | Some m \<Rightarrow>
         pbind (only m at [''schema'', ''as'']) (\<lambda>_.
         pbind (pand (\<lambda>s. parse_schema x s (at @ ''/schema'')) (map_of m ''schema'')) (\<lambda>s.
         pbind (parse_transform (map_of m ''as'') (at @ ''/as'')) (\<lambda>f.
         pret \<lparr>out_schema = s, out_as = f\<rparr>))))"

section \<open>Errors and retries\<close>

definition error_status :: "members \<Rightarrow> string \<Rightarrow> nat parser" where
  "error_status e at =
     (case map_of e ''status'' of
        Some (Number (PosInt n)) \<Rightarrow>
          if 100 \<le> n \<and> n \<le> 599 then pret n
          else fail_with 500 (at @ ''/status'') ''expected an HTTP-style status between 100 and 599''
      | Some _ \<Rightarrow> fail_with 500 (at @ ''/status'') ''expected an HTTP-style status between 100 and 599''
      | None \<Rightarrow> fail_with 500 at ''missing `status`'')"

definition parse_error_def :: "json \<Rightarrow> string \<Rightarrow> error_def option parser" where
  "parse_error_def v at =
     pquery (parse_object v at) (\<lambda>e.
     pbind (only e at [''type'', ''status'', ''title'', ''detail'', ''instance'']) (\<lambda>_.
     pbind (error_status e at) (\<lambda>status.
     pbind (required_string e ''type'' at) (\<lambda>ty.
     pbind (parse_string e ''title'' at) (\<lambda>title.
     pbind (parse_string e ''detail'' at) (\<lambda>detail.
     pbind (parse_string e ''instance'' at) (\<lambda>inst.
     pret (Some \<lparr>ed_type = ty, ed_status = status, ed_title = title, ed_detail = detail, ed_instance = inst\<rparr>))))))))"

definition parse_backoff :: "members \<Rightarrow> string \<Rightarrow> backoff parser" where
  "parse_backoff r at =
     pbind (pand (\<lambda>b. parse_object b (at @ ''/backoff'')) (map_of r ''backoff'')) (\<lambda>ob. case ob of
       None \<Rightarrow> pret Constant
     | Some b \<Rightarrow>
         pbind (only b (at @ ''/backoff'') [''constant'', ''linear'', ''exponential'']) (\<lambda>_.
         pret (if contains_key b ''exponential'' then Exponential
               else if contains_key b ''linear'' then Linear else Constant)))"

definition attempt_count :: "members \<Rightarrow> string \<Rightarrow> nat option parser" where
  "attempt_count a lat =
     (case map_of a ''count'' of
        None \<Rightarrow> pret None
      | Some (Number (PosInt n)) \<Rightarrow> pret (Some (min n U32_MAX))
      | Some _ \<Rightarrow> fail_with None (lat @ ''/attempt/count'') ''expected a non-negative integer'')"

text \<open>\<^verbatim>\<open>limit\<close>: the attempts, how long one may run, and how long to retry.\<close>

definition parse_limit :: "members \<Rightarrow> string \<Rightarrow> (nat option \<times> duration_spec option \<times> duration_spec option) parser" where
  "parse_limit r at =
     pbind (pand (\<lambda>l. parse_object l (at @ ''/limit'')) (map_of r ''limit'')) (\<lambda>ol. case ol of
       None \<Rightarrow> pret (None, None, None)
     | Some l \<Rightarrow>
         let lat = at @ ''/limit'' in
         pbind (only l lat [''attempt'', ''duration'']) (\<lambda>_.
         pbind (pand (\<lambda>a. parse_object a (lat @ ''/attempt'')) (map_of l ''attempt'')) (\<lambda>oa.
         pbind (case oa of
             None \<Rightarrow> pret (None, None)
           | Some a \<Rightarrow>
               pbind (only a (lat @ ''/attempt'') [''count'', ''duration'']) (\<lambda>_.
               pbind (pand (\<lambda>d. parse_duration d (lat @ ''/attempt/duration'')) (map_of a ''duration'')) (\<lambda>each.
               pbind (attempt_count a lat) (\<lambda>count. pret (count, each))))) (\<lambda>(count, each).
         pbind (pand (\<lambda>d. parse_duration d (lat @ ''/duration'')) (map_of l ''duration'')) (\<lambda>total.
         pret (count, each, total))))))"

definition parse_jitter :: "members \<Rightarrow> string \<Rightarrow> (duration_spec \<times> duration_spec) option parser" where
  "parse_jitter r at =
     pbind (pand (\<lambda>j. parse_object j (at @ ''/jitter'')) (map_of r ''jitter'')) (\<lambda>oj. case oj of
       None \<Rightarrow> pret None
     | Some j \<Rightarrow>
         pbind (pand (\<lambda>d. parse_duration d (at @ ''/jitter/from'')) (map_of j ''from'')) (\<lambda>lo.
         pbind (pand (\<lambda>d. parse_duration d (at @ ''/jitter/to'')) (map_of j ''to'')) (\<lambda>hi.
         case (lo, hi) of
           (Some f, Some t) \<Rightarrow> pret (Some (f, t))
         | _ \<Rightarrow> fail_with None (at @ ''/jitter'') ''jitter needs `from` and `to`'')))"

definition parse_retry :: "json \<Rightarrow> string \<Rightarrow> retry option parser" where
  "parse_retry v at =
     pquery (parse_object v at) (\<lambda>r.
     pbind (only r at [''when'', ''exceptWhen'', ''delay'', ''backoff'', ''limit'', ''jitter'']) (\<lambda>_.
     pbind (parse_expr r ''when'' at) (\<lambda>when.
     pbind (parse_expr r ''exceptWhen'' at) (\<lambda>except.
     pbind (pand (\<lambda>d. parse_duration d (at @ ''/delay'')) (map_of r ''delay'')) (\<lambda>delay.
     pbind (parse_backoff r at) (\<lambda>backoff.
     pbind (parse_limit r at) (\<lambda>(count, each, total).
     pbind (parse_jitter r at) (\<lambda>jitter.
     pret (Some \<lparr>rt_when = when, rt_except_when = except, rt_delay = delay, rt_backoff = backoff, rt_attempts = count,
       rt_attempt_duration = each, rt_duration = total, rt_jitter = jitter\<rparr>)))))))))"

end
