(* ===== verification/Task_Parser.thy ===== *)
theory Task_Parser
  imports Definition_Parser
begin

text \<open>
  Parsing events, tasks and the workflow (\<^verbatim>\<open>crates/ows/src/model.rs\<close>, section 2). A parser of a task takes the parser of
  the tasks inside it as an argument, \<open>task_at\<close> ties the knot.
\<close>

section \<open>Events\<close>

definition parse_read :: "json option \<Rightarrow> string \<Rightarrow> read parser" where
  "parse_read v at =
     (case v of
        None \<Rightarrow> pret ReadData
      | Some w \<Rightarrow>
          if as_str w = Some ''data'' then pret ReadData
          else if as_str w = Some ''envelope'' then pret ReadEnvelope
          else if as_str w = Some ''raw'' then pret ReadRaw
          else fail_with ReadData at ''expected data, envelope or raw'')"

fun parse_correlations :: "members \<Rightarrow> string \<Rightarrow> (string \<times> correlation) list parser" where
  "parse_correlations [] at = pret []"
| "parse_correlations ((name, def) # c) at =
     (let cat = at @ ''/correlate/'' @ name in
      pbind (parse_object def cat) (\<lambda>od. case od of
        None \<Rightarrow> parse_correlations c at
      | Some d \<Rightarrow>
          pbind (only d cat [''from'', ''expect'']) (\<lambda>_.
          pbind (required_string d ''from'' cat) (\<lambda>source.
          pbind (parse_string d ''expect'' cat) (\<lambda>expect.
          pbind (parse_correlations c at) (\<lambda>rest.
          pret ((name, \<lparr>corr_from = bare source, corr_expect = expect\<rparr>) # rest)))))))"

definition parse_filter :: "json \<Rightarrow> string \<Rightarrow> event_filter option parser" where
  "parse_filter v at =
     pquery (parse_object v at) (\<lambda>m.
     pbind (only m at [''with'', ''correlate'']) (\<lambda>_.
     pquery (case map_of m ''with'' of
         Some w \<Rightarrow> parse_object w (at @ ''/with'')
       | None \<Rightarrow> fail_with None at ''missing `with`'') (\<lambda>attrs.
     pbind (when_fails (attrs = []) (at @ ''/with'') ''an event filter needs at least one attribute'') (\<lambda>_.
     pbind (pand (\<lambda>c. parse_object c (at @ ''/correlate'')) (map_of m ''correlate'')) (\<lambda>oc.
     pbind (case oc of None \<Rightarrow> pret [] | Some c \<Rightarrow> parse_correlations c at) (\<lambda>cs.
     pret (Some \<lparr>with_attrs = attrs, correlate = cs\<rparr>)))))))"

fun parse_filters :: "json list \<Rightarrow> string \<Rightarrow> nat \<Rightarrow> event_filter list parser" where
  "parse_filters [] at i = pret []"
| "parse_filters (v # vs) at i =
     pbind (parse_filter v (at @ ''/'' @ decimal i)) (\<lambda>f.
     pbind (parse_filters vs at (Suc i)) (\<lambda>fs.
     pret (case f of None \<Rightarrow> fs | Some g \<Rightarrow> g # fs)))"

definition filter_list :: "members \<Rightarrow> string \<Rightarrow> string \<Rightarrow> event_filter list parser" where
  "filter_list m k at =
     (case map_of m k of
        Some (Array vs) \<Rightarrow> parse_filters vs (at @ ''/'' @ k) 0
      | _ \<Rightarrow> fail_with [] (at @ ''/'' @ k) ''expected a list of event filters'')"

lemma member_smaller: "map_of m k = Some v \<Longrightarrow> size v < Suc (size_list (size_prod (\<lambda>_. 0) size) m)"
  using size_list_estimation' [OF map_of_SomeD, of m k v "size v" "size_prod (\<lambda>_. 0) size"] by simp

function parse_strategy :: "json \<Rightarrow> string \<Rightarrow> bool \<Rightarrow> strategy option parser" where
  "parse_strategy v at until =
     (case v of
        Object m \<Rightarrow>
          pbind (only m at [''one'', ''any'', ''all'', ''until'']) (\<lambda>_.
          if length (filter (contains_key m) [''one'', ''any'', ''all'']) \<noteq> 1
          then fail_with None at ''expected exactly one of one, any, all''
          else
            pbind (when_fails (contains_key m ''until'' \<and> \<not> (until \<and> contains_key m ''any'')) (at @ ''/until'')
                     ''until applies to `any` only, and not inside another until'') (\<lambda>_.
            case map_of m ''one'' of
              Some one \<Rightarrow> pbind (parse_filter one (at @ ''/one'')) (\<lambda>f. pret (map_option One f))
            | None \<Rightarrow>
                if contains_key m ''all'' then
                  pbind (filter_list m ''all'' at) (\<lambda>fs.
                  pbind (when_fails (fs = []) (at @ ''/all'') ''`all` needs at least one event filter'') (\<lambda>_.
                  pret (Some (All fs))))
                else
                  pbind (filter_list m ''any'' at) (\<lambda>fs.
                  pbind (case map_of m ''until'' of
                      None \<Rightarrow> pret None
                    | Some (String code) \<Rightarrow> pret (Some (Condition (bare code)))
                    | Some other \<Rightarrow>
                        pbind (parse_strategy other (at @ ''/until'') False) (\<lambda>s. pret (map_option Events s))) (\<lambda>u.
                  pret (Some (Any fs u))))))
      | _ \<Rightarrow> fail_with None at ''expected an object'')"
  by pat_completeness auto
termination
  by (relation "measure (\<lambda>(v, _). size v)") (auto dest: member_smaller)

declare parse_strategy.simps [simp del]

definition parse_emit :: "json \<Rightarrow> string \<Rightarrow> kind option parser" where
  "parse_emit v at =
     pquery (parse_object v at) (\<lambda>m.
     pbind (only m at [''event'']) (\<lambda>_.
     pbind (pand (\<lambda>e. parse_object e (at @ ''/event'')) (map_of m ''event'')) (\<lambda>oe. case oe of
       None \<Rightarrow> fail_with None at ''missing `event`''
     | Some event \<Rightarrow>
         pbind (only event (at @ ''/event'') [''with'']) (\<lambda>_.
         pquery (parse_object (case map_of event ''with'' of None \<Rightarrow> Null | Some w \<Rightarrow> w) (at @ ''/event/with'')) (\<lambda>attrs.
         pbind (when_fails (case Option.bind (map_of attrs ''type'') as_str of None \<Rightarrow> True | Some t \<Rightarrow> t = [])
                  (at @ ''/event/with'') ''an emitted event needs a `type`'') (\<lambda>_.
         pret (Some (KEmit attrs))))))))"

section \<open>Processes\<close>

definition parse_await :: "members \<Rightarrow> string \<Rightarrow> bool parser" where
  "parse_await m at =
     (case map_of m ''await'' of
        None \<Rightarrow> pret True
      | Some (Bool b) \<Rightarrow> pret b
      | Some _ \<Rightarrow> fail_with True (at @ ''/await'') ''expected a boolean'')"

definition parse_return :: "members \<Rightarrow> string \<Rightarrow> return parser" where
  "parse_return m at =
     (case map_of m ''return'' of
        None \<Rightarrow> pret RStdout
      | Some r \<Rightarrow>
          if as_str r = Some ''stdout'' then pret RStdout
          else if as_str r = Some ''stderr'' then pret RStderr
          else if as_str r = Some ''code'' then pret RCode
          else if as_str r = Some ''all'' then pret RAll
          else if as_str r = Some ''none'' then pret RNone
          else fail_with RStdout (at @ ''/return'') ''expected stdout, stderr, code, all or none'')"

definition parse_process :: "string \<Rightarrow> members \<Rightarrow> string \<Rightarrow> process parser" where
  "parse_process kind def wat =
     (if kind = ''workflow'' then
        pbind (only def wat [''namespace'', ''name'', ''version'', ''input'']) (\<lambda>_.
        pbind (required_string def ''namespace'' wat) (\<lambda>namespace.
        pbind (required_string def ''name'' wat) (\<lambda>name.
        pbind (parse_string def ''version'' wat) (\<lambda>version.
        pret (ChildWorkflow namespace name (case version of None \<Rightarrow> ''latest'' | Some s \<Rightarrow> s) (map_of def ''input''))))))
      else pret (External kind (Object def)))"

definition parse_run :: "json \<Rightarrow> string \<Rightarrow> kind option parser" where
  "parse_run v at =
     pquery (parse_object v at) (\<lambda>m.
     pbind (only m at [''container'', ''script'', ''shell'', ''workflow'', ''await'', ''return'']) (\<lambda>_.
     pbind (parse_await m at) (\<lambda>await.
     pbind (parse_return m at) (\<lambda>ret.
     case filter (\<lambda>(k, v). v \<noteq> None) (map (\<lambda>k. (k, map_of m k)) [''container'', ''script'', ''shell'', ''workflow'']) of
       [(kind, Some d)] \<Rightarrow>
         let wat = at @ ''/'' @ kind in
         pquery (parse_object d wat) (\<lambda>def.
         pbind (parse_process kind def wat) (\<lambda>process.
         pret (Some (KRun \<lparr>rn_process = process, rn_inherit_host = False, rn_await = await, rn_return = ret\<rparr>))))
     | _ \<Rightarrow> fail_with None at ''expected exactly one of container, script, shell, workflow''))))"

section \<open>Tasks\<close>

type_synonym task_parser = "json \<Rightarrow> string \<Rightarrow> task option parser"

fun task_items :: "task_parser \<Rightarrow> json list \<Rightarrow> string \<Rightarrow> nat \<Rightarrow> task_list \<Rightarrow> task_list parser" where
  "task_items task [] at i out = pret out"
| "task_items task (v # vs) at i out =
     (let iat = at @ ''/'' @ decimal i in
      pbind (parse_object v iat) (\<lambda>om. case om of
        None \<Rightarrow> task_items task vs at (Suc i) out
      | Some [(name, def)] \<Rightarrow>
          pbind (when_fails (name \<in> fst ` set out) iat (''duplicate task name `'' @ name @ ''` in this list'')) (\<lambda>_.
          pbind (task def (iat @ ''/'' @ name)) (\<lambda>t.
          task_items task vs at (Suc i) (case t of None \<Rightarrow> out | Some u \<Rightarrow> out @ [(name, u)])))
      | Some _ \<Rightarrow>
          pbind (fail iat ''each entry must be a single `name: task` pair'') (\<lambda>_. task_items task vs at (Suc i) out)))"

definition parse_task_list :: "task_parser \<Rightarrow> json \<Rightarrow> string \<Rightarrow> task_list parser" where
  "parse_task_list task v at =
     (case v of
        Array vs \<Rightarrow> task_items task vs at 0 []
      | _ \<Rightarrow> fail_with [] at ''expected a list of `- name: task` entries'')"

definition for_items :: "members \<Rightarrow> string \<Rightarrow> items option parser" where
  "for_items f at =
     (case map_of f ''in'' of
        Some (String s) \<Rightarrow> pret (Some (ItemsExpr (bare s)))
      | Some (Array a) \<Rightarrow> pret (Some (Inline a))
      | Some _ \<Rightarrow> fail_with None (at @ ''/for/in'') ''expected an expression or an inline array''
      | None \<Rightarrow> fail_with None (at @ ''/for'') ''missing `in`'')"

definition for_concurrency :: "json option \<Rightarrow> string option \<Rightarrow> string \<Rightarrow> nat option parser" where
  "for_concurrency concurrency condition at =
     (case concurrency of
        None \<Rightarrow> pret None
      | Some n \<Rightarrow>
          (case as_u64 n of
             Some i \<Rightarrow>
               if i = 0 then fail_with None (at @ ''/metadata/ouro/concurrency'') ''expected a positive integer''
               else if condition \<noteq> None
               then fail_with None (at @ ''/metadata/ouro/concurrency'') ''a concurrent for has no `while`''
               else pret (Some i)
           | None \<Rightarrow> fail_with None (at @ ''/metadata/ouro/concurrency'') ''expected a positive integer''))"

definition or_default :: "string \<Rightarrow> string option \<Rightarrow> string" where
  "or_default d s = (case s of None \<Rightarrow> d | Some t \<Rightarrow> t)"

definition parse_for :: "task_parser \<Rightarrow> members \<Rightarrow> json \<Rightarrow> json option \<Rightarrow> string \<Rightarrow> kind option parser" where
  "parse_for task m fv concurrency at =
     pquery (parse_object fv (at @ ''/for'')) (\<lambda>f.
     pbind (only f (at @ ''/for'') [''each'', ''in'', ''at'']) (\<lambda>_.
     pquery (for_items f at) (\<lambda>items.
     pbind (parse_string f ''each'' (at @ ''/for'')) (\<lambda>each.
     pbind (parse_string f ''at'' (at @ ''/for'')) (\<lambda>index.
     pbind (parse_expr m ''while'' at) (\<lambda>condition.
     pbind (for_concurrency concurrency condition at) (\<lambda>conc.
     pbind (case map_of m ''do'' of
         Some d \<Rightarrow> parse_task_list task d (at @ ''/do'')
       | None \<Rightarrow> fail_with [] at ''a for task needs `do`'') (\<lambda>tasks.
     pret (Some (KFor (or_default ''item'' each) (or_default ''index'' index) items condition conc tasks))))))))))"

definition catch_errors :: "members \<Rightarrow> string \<Rightarrow> members option option parser" where
  "catch_errors c cat =
     (case map_of c ''errors'' of
        None \<Rightarrow> pret (Some None)
      | Some ev \<Rightarrow>
          pquery (parse_object ev (cat @ ''/errors'')) (\<lambda>e.
          pbind (only e (cat @ ''/errors'') [''with'']) (\<lambda>_.
          pbind (pand (\<lambda>w. parse_object w (cat @ ''/errors/with'')) (map_of e ''with'')) (\<lambda>w. pret (Some w)))))"

definition catch_retry :: "parser_state \<Rightarrow> members \<Rightarrow> string \<Rightarrow> retry option parser" where
  "catch_retry st c cat =
     (case map_of c ''retry'' of
        None \<Rightarrow> pret None
      | Some (String name) \<Rightarrow>
          (case map_of (ps_retries st) name of
             Some r \<Rightarrow> pret (Some r)
           | None \<Rightarrow> fail_with None (cat @ ''/retry'') (''no retry policy `'' @ name @ ''` under use.retries''))
      | Some r \<Rightarrow> parse_retry r (cat @ ''/retry''))"

definition parse_catch :: "task_parser \<Rightarrow> parser_state \<Rightarrow> json \<Rightarrow> string \<Rightarrow> catch option parser" where
  "parse_catch task st cv cat =
     pquery (parse_object cv cat) (\<lambda>c.
     pbind (only c cat [''errors'', ''as'', ''when'', ''exceptWhen'', ''retry'', ''do'', ''then'']) (\<lambda>_.
     pquery (catch_errors c cat) (\<lambda>errors.
     pbind (catch_retry st c cat) (\<lambda>retry.
     pbind (parse_string c ''as'' cat) (\<lambda>name.
     pbind (parse_expr c ''when'' cat) (\<lambda>when.
     pbind (parse_expr c ''exceptWhen'' cat) (\<lambda>except.
     pbind (pmap (\<lambda>d. parse_task_list task d (cat @ ''/do'')) (map_of c ''do'')) (\<lambda>tasks.
     pbind (pand (\<lambda>t. parse_flow t (cat @ ''/then'')) (map_of c ''then'')) (\<lambda>thn.
     pret (Some (Catch errors (or_default ''error'' name) when except retry tasks thn)))))))))))"

definition parse_try :: "task_parser \<Rightarrow> parser_state \<Rightarrow> members \<Rightarrow> json \<Rightarrow> string \<Rightarrow> kind option parser" where
  "parse_try task st m tv at =
     pbind (parse_task_list task tv (at @ ''/try'')) (\<lambda>tasks.
     case map_of m ''catch'' of
       None \<Rightarrow> fail_with None at ''a try task needs `catch`''
     | Some cv \<Rightarrow> pquery (parse_catch task st cv (at @ ''/catch'')) (\<lambda>c. pret (Some (KTry tasks c))))"

definition parse_fork :: "task_parser \<Rightarrow> json \<Rightarrow> string \<Rightarrow> kind option parser" where
  "parse_fork task v at =
     pquery (parse_object v at) (\<lambda>f.
     pbind (only f at [''branches'', ''compete'']) (\<lambda>_.
     pbind (case map_of f ''branches'' of
         Some b \<Rightarrow> parse_task_list task b (at @ ''/branches'')
       | None \<Rightarrow> pret []) (\<lambda>branches.
     pbind (case map_of f ''compete'' of
         None \<Rightarrow> pret False
       | Some (Bool b) \<Rightarrow> pret b
       | Some _ \<Rightarrow> fail_with False (at @ ''/compete'') ''expected a boolean'') (\<lambda>compete.
     pret (Some (KFork branches compete))))))"


fun switch_cases :: "json list \<Rightarrow> string \<Rightarrow> nat \<Rightarrow> nat \<Rightarrow> (nat \<times> (string \<times> switch_case) list) parser" where
  "switch_cases [] at i defaults = pret (defaults, [])"
| "switch_cases (v # vs) at i defaults =
     (let iat = at @ ''/'' @ decimal i in
      pbind (parse_object v iat) (\<lambda>om. case om of
        None \<Rightarrow> switch_cases vs at (Suc i) defaults
      | Some [(name, cv)] \<Rightarrow>
          let cat = iat @ ''/'' @ name in
          pbind (parse_object cv cat) (\<lambda>oc. case oc of
            None \<Rightarrow> switch_cases vs at (Suc i) defaults
          | Some c \<Rightarrow>
              pbind (only c cat [''when'', ''then'']) (\<lambda>_.
              pbind (parse_expr c ''when'' cat) (\<lambda>when.
              let n = (if when = None then Suc defaults else defaults) in
              pbind (pand (\<lambda>t. parse_flow t (cat @ ''/then'')) (map_of c ''then'')) (\<lambda>thn. case thn of
                None \<Rightarrow>
                  pbind (when_fails (\<not> contains_key c ''then'') cat ''a switch case needs `then`'') (\<lambda>_.
                  switch_cases vs at (Suc i) n)
              | Some f \<Rightarrow>
                  pbind (switch_cases vs at (Suc i) n) (\<lambda>(d, rest).
                  pret (d, (name, \<lparr>sc_when = when, sc_then = f\<rparr>) # rest))))))
      | Some _ \<Rightarrow>
          pbind (fail iat ''each entry must be a single `name: case` pair'') (\<lambda>_. switch_cases vs at (Suc i) defaults)))"

definition parse_switch :: "json \<Rightarrow> string \<Rightarrow> kind option parser" where
  "parse_switch v at =
     (case v of
        Array vs \<Rightarrow>
          pbind (switch_cases vs at 0 0) (\<lambda>(defaults, cases).
          pbind (when_fails (1 < defaults) at ''only one case may omit `when` (the default)'') (\<lambda>_.
          pret (Some (KSwitch cases))))
      | _ \<Rightarrow> fail_with None at ''expected a list of `- name: case` entries'')"

definition parse_raise :: "json \<Rightarrow> string \<Rightarrow> kind option parser" where
  "parse_raise v at =
     pquery (parse_object v at) (\<lambda>r.
     pbind (only r at [''error'']) (\<lambda>_.
     case map_of r ''error'' of
       Some (String name) \<Rightarrow> pret (Some (KRaise (RaiseNamed name)))
     | Some e \<Rightarrow> pbind (parse_error_def e (at @ ''/error'')) (\<lambda>d. pret (map_option (\<lambda>d. KRaise (RaiseInline d)) d))
     | None \<Rightarrow> fail_with None at ''missing `error`''))"

definition parse_foreach :: "task_parser \<Rightarrow> host_parsers \<Rightarrow> json \<Rightarrow> string \<Rightarrow> foreach option parser" where
  "parse_foreach task x v fat =
     pquery (parse_object v fat) (\<lambda>f.
     pbind (only f fat [''item'', ''at'', ''do'', ''output'', ''export'']) (\<lambda>_.
     pbind (parse_string f ''item'' fat) (\<lambda>item.
     pbind (parse_string f ''at'' fat) (\<lambda>index.
     pbind (pmap (\<lambda>d. parse_task_list task d (fat @ ''/do'')) (map_of f ''do'')) (\<lambda>tasks.
     pbind (pmap (\<lambda>o'. parse_output x o' (fat @ ''/output'')) (map_of f ''output'')) (\<lambda>out.
     pbind (pmap (\<lambda>o'. parse_output x o' (fat @ ''/export'')) (map_of f ''export'')) (\<lambda>export.
     pret (Some (Foreach (or_default ''item'' item) (or_default ''index'' index)
       (case tasks of None \<Rightarrow> [] | Some ts \<Rightarrow> ts) out export)))))))))"

definition parse_listen ::
  "task_parser \<Rightarrow> host_parsers \<Rightarrow> json \<Rightarrow> json option \<Rightarrow> string \<Rightarrow> kind option parser" where
  "parse_listen task x v foreach tat =
     (let at = tat @ ''/listen'' in
      pquery (parse_object v at) (\<lambda>m.
      pbind (only m at [''to'', ''read'']) (\<lambda>_.
      pbind (parse_read (map_of m ''read'') (at @ ''/read'')) (\<lambda>rd.
      pquery (case map_of m ''to'' of
          Some to \<Rightarrow> parse_strategy to (at @ ''/to'') True
        | None \<Rightarrow> fail_with None at ''missing `to`'') (\<lambda>to.
      case foreach of
        None \<Rightarrow> pret (Some (KListen to rd None))
      | Some f \<Rightarrow> pquery (parse_foreach task x f (tat @ ''/foreach'')) (\<lambda>e. pret (Some (KListen to rd (Some e)))))))))"

text \<open>The kind of a task, by the first of its defining members.\<close>

definition ellipsis :: string where
  "ellipsis = map char_of [0xE2, 0x80, 0xA6 :: nat]"

definition parse_call :: "members \<Rightarrow> string \<Rightarrow> kind option parser" where
  "parse_call m at =
     pbind (required_string m ''call'' at) (\<lambda>function.
     pbind (when_fails (case map_of m ''with'' of None \<Rightarrow> False | Some (Object _) \<Rightarrow> False | Some _ \<Rightarrow> True) (at @ ''/with'')
              ''expected an object of arguments'') (\<lambda>_.
     pret (Some (KCall function (map_of m ''with'')))))"

definition parse_set :: "json \<Rightarrow> string \<Rightarrow> kind option parser" where
  "parse_set s at =
     pbind (when_fails (case s of Object _ \<Rightarrow> False | String t \<Rightarrow> strip t = None | _ \<Rightarrow> True) (at @ ''/set'')
              (''expected an object or a `${ '' @ ellipsis @ '' }` expression (a fixed text is `set: '${ \"''
                 @ ellipsis @ ''\" }'`)'')) (\<lambda>_.
     pret (Some (KSet s)))"

definition parse_wait :: "json \<Rightarrow> string \<Rightarrow> kind option parser" where
  "parse_wait w at = pbind (parse_duration w (at @ ''/wait'')) (\<lambda>d. pret (map_option KWait d))"

definition known_members :: "members \<Rightarrow> string \<Rightarrow> string list \<Rightarrow> unit parser" where
  "known_members m at own = only m at (COMMON @ own)"

definition on_member :: "members \<Rightarrow> string \<Rightarrow> (json \<Rightarrow> 'a) \<Rightarrow> 'a \<Rightarrow> 'a" where
  "on_member m k f otherwise = (case map_of m k of Some v \<Rightarrow> f v | None \<Rightarrow> otherwise)"

definition task_kind ::
  "task_parser \<Rightarrow> host_parsers \<Rightarrow> parser_state \<Rightarrow> members \<Rightarrow> members \<Rightarrow> string \<Rightarrow> kind option parser" where
  "task_kind task x st m ouro at =
     on_member m ''for'' (\<lambda>fv.
        pbind (known_members m at [''for'', ''while'', ''do'']) (\<lambda>_. parse_for task m fv (map_of ouro ''concurrency'') at)) (
     on_member m ''try'' (\<lambda>tv.
        pbind (known_members m at [''try'', ''catch'']) (\<lambda>_. parse_try task st m tv at)) (
     on_member m ''fork'' (\<lambda>f.
        pbind (known_members m at [''fork'']) (\<lambda>_. parse_fork task f (at @ ''/fork''))) (
     on_member m ''call'' (\<lambda>_.
        pbind (known_members m at [''call'', ''with'']) (\<lambda>_. parse_call m at)) (
     on_member m ''set'' (\<lambda>s.
        pbind (known_members m at [''set'']) (\<lambda>_. parse_set s at)) (
     on_member m ''switch'' (\<lambda>s.
        pbind (known_members m at [''switch'']) (\<lambda>_. parse_switch s (at @ ''/switch''))) (
     on_member m ''raise'' (\<lambda>r.
        pbind (known_members m at [''raise'']) (\<lambda>_. parse_raise r (at @ ''/raise''))) (
     on_member m ''listen'' (\<lambda>v.
        pbind (known_members m at [''listen'', ''foreach'']) (\<lambda>_. parse_listen task x v (map_of m ''foreach'') at)) (
     on_member m ''emit'' (\<lambda>e.
        pbind (known_members m at [''emit'']) (\<lambda>_. parse_emit e (at @ ''/emit''))) (
     on_member m ''run'' (\<lambda>r.
        pbind (known_members m at [''run'']) (\<lambda>_. parse_run r (at @ ''/run''))) (
     on_member m ''wait'' (\<lambda>w.
        pbind (known_members m at [''wait'']) (\<lambda>_. parse_wait w at)) (
     on_member m ''do'' (\<lambda>d.
        pbind (known_members m at [''do'']) (\<lambda>_. pbind (parse_task_list task d (at @ ''/do'')) (\<lambda>ts. pret (Some (KDo ts)))))
     (fail_with None at
        ''unknown task: expected one of call, do, emit, for, fork, listen, raise, run, set, switch, try, wait''))))))))))))"

text \<open>The extensions of a task: inherited host data, the delivery of a call, how long a listen holds.\<close>

definition inherits :: "kind option \<Rightarrow> json \<Rightarrow> run_task option" where
  "inherits k hv =
     (case k of
        Some (KRun r) \<Rightarrow>
          (case rn_process r of
             ChildWorkflow _ _ _ _ \<Rightarrow> if as_str hv = Some ''inherit'' then Some (r\<lparr>rn_inherit_host := True\<rparr>) else None
           | External _ _ \<Rightarrow> None)
      | _ \<Rightarrow> None)"

definition host_extension :: "kind option \<Rightarrow> members \<Rightarrow> string \<Rightarrow> kind option parser" where
  "host_extension k ouro at =
     (case map_of ouro ''host'' of
        None \<Rightarrow> pret k
      | Some hv \<Rightarrow>
          (case inherits k hv of
             Some r \<Rightarrow> pret (Some (KRun r))
           | None \<Rightarrow> fail_with k (at @ ''/metadata/ouro/host'') ''expected literal inherit on a workflow run task''))"

text \<open>\<^verbatim>\<open>Delivery\<close> as \<^verbatim>\<open>serde\<close> reads it: a variant's name, or an object of it with a null.\<close>

definition delivery_of :: "json \<Rightarrow> delivery option" where
  "delivery_of v =
     (let named = (\<lambda>s. if s = ''at_least_once'' then Some AtLeastOnce else if s = ''at_most_once'' then Some AtMostOnce else None)
      in case v of String s \<Rightarrow> named s | Object [(s, Null)] \<Rightarrow> named s | _ \<Rightarrow> None)"

definition delivery_extension :: "members \<Rightarrow> members \<Rightarrow> string \<Rightarrow> delivery parser" where
  "delivery_extension m ouro at =
     (case map_of ouro ''delivery'' of
        None \<Rightarrow> pret AtLeastOnce
      | Some v \<Rightarrow>
          (case delivery_of v of
             Some policy \<Rightarrow>
               if contains_key m ''call'' then pret policy
               else fail_with AtLeastOnce (at @ ''/metadata/ouro/delivery'') ''expected at_least_once or at_most_once on a call task''
           | None \<Rightarrow> fail_with AtLeastOnce (at @ ''/metadata/ouro/delivery'') ''expected at_least_once or at_most_once on a call task''))"

definition hold_extension :: "members \<Rightarrow> members \<Rightarrow> string \<Rightarrow> nat parser" where
  "hold_extension m ouro at =
     (case map_of ouro ''hold'' of
        None \<Rightarrow> pret 0
      | Some v \<Rightarrow>
          pbind (when_fails (\<not> contains_key m ''listen'') (at @ ''/metadata/ouro/hold'') ''hold belongs on a listen task'') (\<lambda>_.
          case Option.bind (as_str v) parse_iso_duration of
            Some d \<Rightarrow> pret d
          | None \<Rightarrow> fail_with 0 (at @ ''/metadata/ouro/hold'') ''expected an ISO 8601 duration (e.g. PT5S)''))"

definition parse_task :: "task_parser \<Rightarrow> host_parsers \<Rightarrow> parser_state \<Rightarrow> task_parser" where
  "parse_task task x st v at =
     pquery (parse_object v at) (\<lambda>m.
     pbind (parse_ouro m at TASK_EXTENSIONS) (\<lambda>oo. let ouro = (case oo of None \<Rightarrow> [] | Some o' \<Rightarrow> o') in
     pbind (task_kind task x st m ouro at) (\<lambda>k.
     pbind (parse_string m ''if'' at) (\<lambda>when.
     pbind (pmap (\<lambda>i. parse_input x i (at @ ''/input'')) (map_of m ''input'')) (\<lambda>input.
     pbind (pmap (\<lambda>o'. parse_output x o' (at @ ''/output'')) (map_of m ''output'')) (\<lambda>out.
     pbind (pmap (\<lambda>o'. parse_output x o' (at @ ''/export'')) (map_of m ''export'')) (\<lambda>export.
     pbind (pand (\<lambda>t. parse_timeout st t (at @ ''/timeout'')) (map_of m ''timeout'')) (\<lambda>timeout.
     pbind (pand (\<lambda>t. parse_flow t (at @ ''/then'')) (map_of m ''then'')) (\<lambda>thn.
     pbind (when_fails (contains_key ouro ''concurrency'' \<and> \<not> contains_key m ''for'') (at @ ''/metadata/ouro/concurrency'')
              ''concurrency belongs on a for task'') (\<lambda>_.
     pbind (host_extension k ouro at) (\<lambda>k'.
     pbind (delivery_extension m ouro at) (\<lambda>delivery.
     pbind (hold_extension m ouro at) (\<lambda>hold.
     pret (map_option (\<lambda>kd. MkTask delivery hold when input out export timeout thn kd v) k'))))))))))))))"

fun depth :: "json \<Rightarrow> nat" where
  "depth (Array vs) = Suc (foldr (\<lambda>v n. max (depth v) n) vs 0)"
| "depth (Object m) = Suc (foldr (\<lambda>(k, v) n. max (depth v) n) m 0)"
| "depth _ = 1"

primrec task_at :: "nat \<Rightarrow> host_parsers \<Rightarrow> parser_state \<Rightarrow> task_parser" where
  "task_at 0 x st = (\<lambda>v at. pret None)"
| "task_at (Suc n) x st = parse_task (task_at n x st) x st"

definition task_of :: "host_parsers \<Rightarrow> parser_state \<Rightarrow> task_parser" where
  "task_of x st v at = task_at (depth v) x st v at"

end
