(* ===== verification/Workflow_Parser.thy ===== *)
theory Workflow_Parser
  imports Task_Parser
begin

text \<open>
  Parsing the document around the tasks (\<^verbatim>\<open>crates/ows/src/model.rs\<close>, section 2): \<^verbatim>\<open>document\<close>, \<^verbatim>\<open>use\<close>, \<^verbatim>\<open>schedule\<close>, the
  engine's extensions in \<^verbatim>\<open>document.metadata.ouro\<close>, and the whole definition.
\<close>

section \<open>Document and reusable parts\<close>

definition parse_document :: "json \<Rightarrow> document option parser" where
  "parse_document v =
     pquery (parse_object v ''/document'') (\<lambda>m.
     pbind (only m ''/document'' [''dsl'', ''namespace'', ''name'', ''version'', ''title'', ''summary'', ''tags'', ''metadata'']) (\<lambda>_.
     pbind (required_string m ''dsl'' ''/document'') (\<lambda>dsl.
     pbind (when_fails (dsl \<noteq> [] \<and> strip_prefix ''1.'' dsl = None) ''/document/dsl''
              (''DSL '' @ dsl @ '' is not supported (1.x only)'')) (\<lambda>_.
     pbind (required_string m ''namespace'' ''/document'') (\<lambda>namespace.
     pbind (required_string m ''name'' ''/document'') (\<lambda>name.
     pbind (required_string m ''version'' ''/document'') (\<lambda>version.
     pbind (parse_string m ''title'' ''/document'') (\<lambda>title.
     pbind (parse_string m ''summary'' ''/document'') (\<lambda>summary.
     pret (Some \<lparr>dc_dsl = dsl, dc_namespace = namespace, dc_name = name, dc_version = version, dc_title = title,
       dc_summary = summary\<rparr>))))))))))"

fun secret_list :: "json list \<Rightarrow> nat \<Rightarrow> string list \<Rightarrow> string list parser" where
  "secret_list [] i out = pret out"
| "secret_list (v # vs) i out =
     (case Option.bind (as_str v) (\<lambda>n. if n = [] then None else Some n) of
        Some n \<Rightarrow>
          if n \<in> set out
          then pbind (fail (''/use/secrets/'' @ decimal i) (''secret `'' @ n @ ''` is declared twice'')) (\<lambda>_. secret_list vs (Suc i) out)
          else secret_list vs (Suc i) (out @ [n])
      | None \<Rightarrow> pbind (fail (''/use/secrets/'' @ decimal i) ''expected a secret name'') (\<lambda>_. secret_list vs (Suc i) out))"

definition parse_secrets :: "members \<Rightarrow> string list parser" where
  "parse_secrets m =
     (case map_of m ''secrets'' of
        None \<Rightarrow> pret []
      | Some (Array names) \<Rightarrow> secret_list names 0 []
      | Some _ \<Rightarrow> fail_with [] ''/use/secrets'' ''expected a list of secret names'')"

text \<open>Each member of an object parsed on its own; the ones without a result are left out.\<close>

fun each_member :: "(json \<Rightarrow> string \<Rightarrow> 'a option parser) \<Rightarrow> members \<Rightarrow> string \<Rightarrow> (string \<times> 'a) list parser" where
  "each_member f [] at = pret []"
| "each_member f ((name, def) # m) at =
     pbind (f def (at @ ''/'' @ name)) (\<lambda>d.
     pbind (each_member f m at) (\<lambda>rest.
     pret (case d of None \<Rightarrow> rest | Some e \<Rightarrow> (name, e) # rest)))"

definition named_section :: "(json \<Rightarrow> string \<Rightarrow> 'a option parser) \<Rightarrow> members \<Rightarrow> string \<Rightarrow> (string \<times> 'a) list parser" where
  "named_section f m k =
     pbind (pand (\<lambda>v. parse_object v (''/use/'' @ k)) (map_of m k)) (\<lambda>os. case os of
       None \<Rightarrow> pret []
     | Some s \<Rightarrow> each_member f s (''/use/'' @ k))"

definition placeholder :: task where
  "placeholder = MkTask AtLeastOnce 0 None None None None None None (KDo []) Null"

definition parse_uses :: "json \<Rightarrow> uses parser" where
  "parse_uses v =
     pbind (parse_object v ''/use'') (\<lambda>om. case om of
       None \<Rightarrow> pret default_uses
     | Some m \<Rightarrow>
         pbind (when_fails (contains_key m ''authentications'') ''/use/authentications''
                  ''authentication is not supported; functions carry their own credentials'') (\<lambda>_.
         pbind (when_fails (contains_key m ''catalogs'') ''/use/catalogs''
                  ''external catalogs are not supported; functions come from the runtime's catalog'') (\<lambda>_.
         pbind (only m ''/use'' [''functions'', ''errors'', ''retries'', ''timeouts'', ''authentications'', ''catalogs'',
                  ''extensions'', ''secrets'']) (\<lambda>_.
         pbind (parse_secrets m) (\<lambda>secrets.
         pbind (named_section parse_error_def m ''errors'') (\<lambda>errors.
         pbind (named_section parse_retry m ''retries'') (\<lambda>retries.
         pbind (named_section timeout_object m ''timeouts'') (\<lambda>timeouts.
         pbind (pand (\<lambda>f. parse_object f ''/use/functions'') (map_of m ''functions'')) (\<lambda>functions.
         pret \<lparr>us_functions = (case functions of None \<Rightarrow> [] | Some f \<Rightarrow> map (\<lambda>(name, _). (name, placeholder)) f),
           us_errors = errors, us_retries = retries, us_timeouts = timeouts, us_extensions = [], us_secrets = secrets\<rparr>)))))))))"

text \<open>The bodies of the functions, once the named retries and timeouts are known.\<close>

fun set_function :: "string \<Rightarrow> task \<Rightarrow> (string \<times> task) list \<Rightarrow> (string \<times> task) list" where
  "set_function name t [] = []"
| "set_function name t ((n, u) # fs) = (if n = name then (n, t) # fs else (n, u) # set_function name t fs)"

fun parse_functions :: "task_parser \<Rightarrow> members \<Rightarrow> (string \<times> task) list \<Rightarrow> (string \<times> task) list parser" where
  "parse_functions task [] out = pret out"
| "parse_functions task ((name, def) # m) out =
     pbind (task def (''/use/functions/'' @ name)) (\<lambda>t.
     parse_functions task m (case t of None \<Rightarrow> out | Some u \<Rightarrow> set_function name u out))"

definition KINDS :: "string list" where
  "KINDS = [''call'', ''composite'', ''emit'', ''for'', ''listen'', ''raise'', ''run'', ''set'', ''switch'', ''try'', ''wait'', ''all'']"

definition parse_extension :: "task_parser \<Rightarrow> members \<Rightarrow> string \<Rightarrow> extension parser" where
  "parse_extension task e at =
     pbind (only e at [''extend'', ''when'', ''before'', ''after'']) (\<lambda>_.
     pbind (required_string e ''extend'' at) (\<lambda>extend.
     pbind (when_fails (extend \<noteq> [] \<and> extend \<notin> set KINDS) (at @ ''/extend'') (''expected one of '' @ join '', '' KINDS)) (\<lambda>_.
     pbind (parse_expr e ''when'' at) (\<lambda>when.
     pbind (pmap (\<lambda>b. parse_task_list task b (at @ ''/before'')) (map_of e ''before'')) (\<lambda>before.
     pbind (pmap (\<lambda>b. parse_task_list task b (at @ ''/after'')) (map_of e ''after'')) (\<lambda>aft.
     pret \<lparr>ex_extend = extend, ex_when = when, ex_before = before, ex_after = aft\<rparr>))))))"

fun extension_items :: "task_parser \<Rightarrow> json list \<Rightarrow> nat \<Rightarrow> (string \<times> extension) list parser" where
  "extension_items task [] i = pret []"
| "extension_items task (v # vs) i =
     (let iat = ''/use/extensions/'' @ decimal i in
      case v of
        Object [(name, def)] \<Rightarrow>
          let at = iat @ ''/'' @ name in
          pbind (parse_object def at) (\<lambda>oe. case oe of
            None \<Rightarrow> extension_items task vs (Suc i)
          | Some e \<Rightarrow>
              pbind (parse_extension task e at) (\<lambda>ext.
              pbind (extension_items task vs (Suc i)) (\<lambda>rest. pret ((name, ext) # rest))))
      | _ \<Rightarrow>
          pbind (fail iat ''each entry must be a single `name: extension` pair'') (\<lambda>_. extension_items task vs (Suc i)))"

definition parse_extensions :: "task_parser \<Rightarrow> json \<Rightarrow> (string \<times> extension) list parser" where
  "parse_extensions task v =
     (case v of
        Array vs \<Rightarrow> extension_items task vs 0
      | _ \<Rightarrow> fail_with [] ''/use/extensions'' ''expected a list of `- name: extension` entries'')"

section \<open>Schedules and extensions of the document\<close>

definition schedule_fixed :: "members \<Rightarrow> string \<Rightarrow> nat option parser" where
  "schedule_fixed m k =
     pbind (pand (\<lambda>d. parse_duration d (''/schedule/'' @ k)) (map_of m k)) (\<lambda>d. case d of
       Some (Fixed n) \<Rightarrow> if n \<noteq> 0 then pret (Some n) else fail_with None (''/schedule/'' @ k) ''expected a positive literal duration''
     | Some (DurationExpr _) \<Rightarrow> fail_with None (''/schedule/'' @ k) ''expected a positive literal duration''
     | None \<Rightarrow> pret None)"

definition parse_schedule :: "host_parsers \<Rightarrow> json \<Rightarrow> schedule option parser" where
  "parse_schedule x v =
     pquery (parse_object v ''/schedule'') (\<lambda>m.
     pbind (only m ''/schedule'' [''every'', ''cron'', ''after'', ''on'', ''read'']) (\<lambda>_.
     pbind (schedule_fixed m ''every'') (\<lambda>every.
     pbind (schedule_fixed m ''after'') (\<lambda>aft.
     pbind (parse_string m ''cron'' ''/schedule'') (\<lambda>cron.
     pbind (case Option.bind cron (hp_cron x) of
         None \<Rightarrow> pret ()
       | Some e \<Rightarrow> fail ''/schedule/cron'' (''invalid cron expression: '' @ e)) (\<lambda>_.
     pbind (pand (\<lambda>o'. parse_strategy o' ''/schedule/on'' True) (map_of m ''on'')) (\<lambda>on.
     pbind (when_fails (contains_key m ''read'' \<and> \<not> contains_key m ''on'') ''/schedule/read'' ''read applies only with `on`'') (\<lambda>_.
     pbind (parse_read (map_of m ''read'') ''/schedule/read'') (\<lambda>rd.
     pbind (when_fails (every = None \<and> aft = None \<and> cron = None \<and> on = None) ''/schedule''
              ''a schedule needs every, cron, after or on'') (\<lambda>_.
     pret (Some \<lparr>sd_every = every, sd_cron = cron, sd_after = aft, sd_on = on, sd_read = rd, sd_at = None,
       sd_timezone = None, sd_catchup = CatchLatest, sd_overlap = OSkip\<rparr>)))))))))))"

definition parse_instant :: "host_parsers \<Rightarrow> json \<Rightarrow> string \<Rightarrow> int option parser" where
  "parse_instant x v at =
     (let parsed = Option.bind (as_str v) (hp_instant x) in
      pbind (when_fails (parsed = None) at ''expected an RFC 3339 timestamp with an offset, e.g. 2030-01-31T09:00:00Z'') (\<lambda>_.
      pret parsed))"

definition one_shot :: "int \<Rightarrow> schedule" where
  "one_shot at = \<lparr>sd_every = None, sd_cron = None, sd_after = None, sd_on = None, sd_read = ReadData, sd_at = Some at,
     sd_timezone = None, sd_catchup = CatchLatest, sd_overlap = OSkip\<rparr>"

definition at_extension :: "host_parsers \<Rightarrow> members \<Rightarrow> members \<Rightarrow> schedule option \<Rightarrow> schedule option parser" where
  "at_extension x m ouro schedule =
     (case (map_of ouro ''at'', schedule) of
        (None, _) \<Rightarrow> pret schedule
      | (Some a, None) \<Rightarrow>
          pbind (parse_instant x a ''/document/metadata/ouro/at'') (\<lambda>at.
          pret (if contains_key m ''schedule'' then None else map_option one_shot at))
      | (Some _, Some _) \<Rightarrow>
          fail_with schedule ''/document/metadata/ouro/at''
            ''a one-shot `at` is a schedule of its own: remove `schedule` (every, cron, after, on)'')"

definition timezone_extension :: "host_parsers \<Rightarrow> members \<Rightarrow> schedule option \<Rightarrow> schedule option parser" where
  "timezone_extension x ouro schedule =
     (case (map_of ouro ''timezone'', schedule) of
        (None, _) \<Rightarrow> pret schedule
      | (Some zone, Some s) \<Rightarrow>
          if sd_cron s \<noteq> None
          then (case Option.bind (as_str zone) (hp_zone x) of
              Some z \<Rightarrow> pret (Some (s\<lparr>sd_timezone := Some z\<rparr>))
            | None \<Rightarrow> fail_with schedule ''/document/metadata/ouro/timezone'' ''expected an IANA time zone name, e.g. Europe/Berlin'')
          else fail_with schedule ''/document/metadata/ouro/timezone'' ''timezone applies only with a `cron` schedule''
      | (Some _, None) \<Rightarrow>
          fail_with schedule ''/document/metadata/ouro/timezone'' ''timezone applies only with a `cron` schedule'')"

definition catchup_extension :: "members \<Rightarrow> schedule option \<Rightarrow> schedule option parser" where
  "catchup_extension ouro schedule =
     (case map_of ouro ''catchup'' of
        None \<Rightarrow> pret schedule
      | Some c \<Rightarrow>
          (case (as_str c, schedule) of
             (Some _, None) \<Rightarrow> fail_with schedule ''/document/metadata/ouro/catchup'' ''catchup applies only with a schedule''
           | (Some name, Some s) \<Rightarrow>
               if name = ''latest'' then pret (Some (s\<lparr>sd_catchup := CatchLatest\<rparr>))
               else if name = ''none'' then pret (Some (s\<lparr>sd_catchup := CatchNone\<rparr>))
               else fail_with schedule ''/document/metadata/ouro/catchup'' ''expected latest or none''
           | (None, _) \<Rightarrow> fail_with schedule ''/document/metadata/ouro/catchup'' ''expected latest or none''))"

definition overlap_extension :: "members \<Rightarrow> schedule option \<Rightarrow> schedule option parser" where
  "overlap_extension ouro schedule =
     (case map_of ouro ''overlap'' of
        None \<Rightarrow> pret schedule
      | Some c \<Rightarrow>
          (case (as_str c, schedule) of
             (Some _, None) \<Rightarrow> fail_with schedule ''/document/metadata/ouro/overlap'' ''overlap applies only with a schedule''
           | (Some name, Some s) \<Rightarrow>
               if name = ''skip'' then pret (Some (s\<lparr>sd_overlap := OSkip\<rparr>))
               else if name = ''allow'' then pret (Some (s\<lparr>sd_overlap := OAllow\<rparr>))
               else if name = ''queue'' then pret (Some (s\<lparr>sd_overlap := OQueue\<rparr>))
               else if name = ''replace'' then pret (Some (s\<lparr>sd_overlap := OReplace\<rparr>))
               else fail_with schedule ''/document/metadata/ouro/overlap'' ''expected skip, allow, queue or replace''
           | (None, _) \<Rightarrow> fail_with schedule ''/document/metadata/ouro/overlap'' ''expected skip, allow, queue or replace''))"

definition parse_breaker :: "json \<Rightarrow> breaker parser" where
  "parse_breaker v =
     (let at = ''/document/metadata/ouro/breaker'' in
      if as_str v = Some ''off'' then pret Off
      else case v of
        Object m \<Rightarrow>
          pbind (only m at [''threshold'']) (\<lambda>_.
          case map_of m ''threshold'' of
            Some n \<Rightarrow>
              (case as_u64 n of
                 Some t \<Rightarrow>
                   if 1 \<le> t \<and> t \<le> MAX_THRESHOLD then pret (Threshold t)
                   else fail_with Inherit (at @ ''/threshold'') (''expected an integer from 1 to '' @ decimal MAX_THRESHOLD)
               | None \<Rightarrow> fail_with Inherit (at @ ''/threshold'') (''expected an integer from 1 to '' @ decimal MAX_THRESHOLD))
          | None \<Rightarrow> pbind (when_fails (m = []) at ''expected `off` or `{ threshold: <n> }`'') (\<lambda>_. pret Inherit))
      | _ \<Rightarrow> fail_with Inherit at ''expected `off` or `{ threshold: <n> }`'')"

definition parse_max_jumps :: "members \<Rightarrow> nat option parser" where
  "parse_max_jumps m =
     (case map_of m ''max_jumps'' of
        None \<Rightarrow> pret None
      | Some n \<Rightarrow>
          pbind (when_fails (as_u64 n = None) ''/document/metadata/ouro/limits/max_jumps'' ''expected a non-negative integer'') (\<lambda>_.
          pret (as_u64 n)))"

definition parse_on_exceeded :: "task_parser \<Rightarrow> members \<Rightarrow> exceeded parser" where
  "parse_on_exceeded task m =
     (let at = ''/document/metadata/ouro/limits/on_exceeded'' in
      case map_of m ''on_exceeded'' of
        None \<Rightarrow> pret ExceededRaise
      | Some (Object t) \<Rightarrow>
          pbind (task (Object t) at) (\<lambda>u. pret (case u of Some w \<Rightarrow> ExceededTask w | None \<Rightarrow> ExceededRaise))
      | Some v \<Rightarrow>
          if v = String ''end'' then pret ExceededEnd
          else fail_with ExceededRaise at ''expected `end` or a task (e.g. `call: report`)'')"

definition parse_budget :: "task_parser \<Rightarrow> json \<Rightarrow> budget parser" where
  "parse_budget task v =
     pbind (parse_object v ''/document/metadata/ouro/limits'') (\<lambda>om. case om of
       None \<Rightarrow> pret default_budget
     | Some m \<Rightarrow>
         pbind (only m ''/document/metadata/ouro/limits'' [''max_jumps'', ''on_exceeded'']) (\<lambda>_.
         pbind (parse_max_jumps m) (\<lambda>jumps.
         pbind (parse_on_exceeded task m) (\<lambda>exceeded.
         pret \<lparr>bg_max_jumps = jumps, bg_on_exceeded = exceeded\<rparr>))))"

section \<open>The workflow\<close>

definition parse_evaluate :: "members \<Rightarrow> unit parser" where
  "parse_evaluate m =
     pbind (pand (\<lambda>e. parse_object e ''/evaluate'') (map_of m ''evaluate'')) (\<lambda>oe. case oe of
       None \<Rightarrow> pret ()
     | Some ev \<Rightarrow>
         pbind (only ev ''/evaluate'' [''language'', ''mode'']) (\<lambda>_.
         pbind (when_fails (case map_of ev ''language'' of None \<Rightarrow> False | Some l \<Rightarrow> l \<noteq> String ''jq'') ''/evaluate/language''
                  ''only jq is supported'') (\<lambda>_.
         when_fails (case map_of ev ''mode'' of None \<Rightarrow> False | Some l \<Rightarrow> l \<noteq> String ''strict'') ''/evaluate/mode''
           ''only strict mode is supported'')))"

definition function_bodies :: "members \<Rightarrow> members" where
  "function_bodies m =
     (case Option.bind (map_of m ''use'') (\<lambda>u. member_of u ''functions'') of Some (Object f) \<Rightarrow> f | _ \<Rightarrow> [])"

definition document_ouro :: "members \<Rightarrow> members parser" where
  "document_ouro m =
     (case map_of m ''document'' of
        Some (Object d) \<Rightarrow>
          pbind (parse_ouro d ''/document'' DOCUMENT_EXTENSIONS) (\<lambda>oo. pret (case oo of None \<Rightarrow> [] | Some o' \<Rightarrow> o'))
      | _ \<Rightarrow> pret [])"

text \<open>The schedule with the extensions the document adds to it.\<close>

definition extended_schedule :: "host_parsers \<Rightarrow> members \<Rightarrow> members \<Rightarrow> schedule option \<Rightarrow> schedule option parser" where
  "extended_schedule x m ouro schedule =
     pbind (at_extension x m ouro schedule) (\<lambda>s1.
     pbind (timezone_extension x ouro s1) (\<lambda>s2.
     pbind (catchup_extension ouro s2) (\<lambda>s3.
     overlap_extension ouro s3)))"

definition parse_workflow :: "host_parsers \<Rightarrow> json \<Rightarrow> workflow option parser" where
  "parse_workflow x v =
     pquery (parse_object v []) (\<lambda>m.
     pbind (only m [] [''document'', ''input'', ''output'', ''use'', ''do'', ''timeout'', ''schedule'', ''evaluate'']) (\<lambda>_.
     pbind (parse_evaluate m) (\<lambda>_.
     pbind (case map_of m ''document'' of
         Some d \<Rightarrow> parse_document d
       | None \<Rightarrow> fail_with None [] ''missing `document`'') (\<lambda>doc.
     pbind (case map_of m ''use'' of None \<Rightarrow> pret default_uses | Some u \<Rightarrow> parse_uses u) (\<lambda>u0.
     let task = task_of x \<lparr>ps_retries = us_retries u0, ps_timeouts = us_timeouts u0\<rparr> in
     pbind (parse_functions task (function_bodies m) (us_functions u0)) (\<lambda>functions.
     pbind (case Option.bind (map_of m ''use'') (\<lambda>u. member_of u ''extensions'') of
         None \<Rightarrow> pret []
       | Some e \<Rightarrow> parse_extensions task e) (\<lambda>exts.
     pbind (case map_of m ''do'' of
         Some d \<Rightarrow> parse_task_list task d ''/do''
       | None \<Rightarrow> fail_with [] [] ''missing `do`'') (\<lambda>tasks.
     pbind (pmap (\<lambda>i. parse_input x i ''/input'') (map_of m ''input'')) (\<lambda>input.
     pbind (pmap (\<lambda>o'. parse_output x o' ''/output'') (map_of m ''output'')) (\<lambda>out.
     pbind (pand (\<lambda>t. parse_timeout \<lparr>ps_retries = us_retries u0, ps_timeouts = us_timeouts u0\<rparr> t ''/timeout'')
              (map_of m ''timeout'')) (\<lambda>timeout.
     pbind (pand (parse_schedule x) (map_of m ''schedule'')) (\<lambda>sched.
     pbind (document_ouro m) (\<lambda>ouro.
     pbind (extended_schedule x m ouro sched) (\<lambda>schedule.
     pbind (case map_of ouro ''limits'' of Some l \<Rightarrow> parse_budget task l | None \<Rightarrow> pret default_budget) (\<lambda>budget.
     pbind (case map_of ouro ''breaker'' of Some b \<Rightarrow> parse_breaker b | None \<Rightarrow> pret Inherit) (\<lambda>breaker.
     pret (map_option (\<lambda>d. \<lparr>wf_document = d, wf_input = input, wf_output = out,
         wf_uses = u0\<lparr>us_functions := functions, us_extensions := exts\<rparr>, wf_tasks = tasks, wf_timeout = timeout,
         wf_schedule = schedule, wf_budget = budget, wf_breaker = breaker, wf_definition = v\<rparr>) doc)))))))))))))))))"

definition conforms :: "host_parsers \<Rightarrow> json \<Rightarrow> problem list + unit" where
  "conforms x v =
     (case take 5 (hp_conforms x v) of
        [] \<Rightarrow> Inr ()
      | es \<Rightarrow> Inl (map (\<lambda>(path, e). problem path (''not valid by the specification's schema: '' @ e)) es))"

definition parse :: "host_parsers \<Rightarrow> json \<Rightarrow> problem list + workflow" where
  "parse x v =
     (case parse_workflow x v of
        (Some w, []) \<Rightarrow> and_then (conforms x v) (\<lambda>_. Inr w)
      | (_, problems) \<Rightarrow> Inl problems)"

definition parse_yaml :: "host_parsers \<Rightarrow> string \<Rightarrow> problem list + workflow" where
  "parse_yaml x text =
     (case hp_yaml x text of
        Inl e \<Rightarrow> Inl [problem [] (''not YAML: '' @ e)]
      | Inr v \<Rightarrow> parse x v)"

end
