(* ===== verification/Parser_Rules.thy ===== *)
theory Parser_Rules
  imports Workflow_Parser
begin

text \<open>
  What the parser of definitions guarantees: its fuel is never used up, and a definition it accepts has the shape the
  rest of the program relies on.
\<close>

section \<open>Enough fuel\<close>

definition agree_below :: "nat \<Rightarrow> task_parser \<Rightarrow> task_parser \<Rightarrow> bool" where
  "agree_below n f g \<longleftrightarrow> (\<forall>v at. depth v < n \<longrightarrow> f v at = g v at)"

lemma foldr_max_member: "x \<in> set xs \<Longrightarrow> f x \<le> foldr (\<lambda>x n. max (f x) n) xs (0 :: nat)"
  by (induction xs) (auto simp: max_def)

lemma depth_member: "map_of m k = Some v \<Longrightarrow> depth v < depth (Object m)"
  using foldr_max_member [of "(k, v)" m "\<lambda>(k, v). depth v"] map_of_SomeD [of m k v]
  by (simp add: case_prod_beta')

lemma depth_entry: "depth v < depth (Object [(k, v)])"
  by simp

lemma depth_item: "v \<in> set vs \<Longrightarrow> depth v < depth (Array vs)"
  using foldr_max_member [of v vs depth] by simp

lemma task_items_cong:
  assumes "agree_below n f g" and "\<And>v. v \<in> set vs \<Longrightarrow> depth v \<le> n"
  shows "task_items f vs at i out = task_items g vs at i out"
  using assms(2)
proof (induction vs arbitrary: i out)
  case (Cons v vs)
  have rest: "task_items f vs at j out' = task_items g vs at j out'" for j out' using Cons by simp
  have "f def at' = g def at'" if "v = Object [(name, def)]" for name def at'
    using assms(1) Cons.prems [of v] depth_entry [of def name] that by (simp add: agree_below_def)
  then have entry: "(case om of None \<Rightarrow> A | Some [(name, def)] \<Rightarrow> pbind (W name) (\<lambda>_. pbind (f def (at' @ ''/'' @ name)) (B name)) | Some _ \<Rightarrow> C)
     = (case om of None \<Rightarrow> A | Some [(name, def)] \<Rightarrow> pbind (W name) (\<lambda>_. pbind (g def (at' @ ''/'' @ name)) (B name)) | Some _ \<Rightarrow> C)"
    if "om = fst (parse_object v at')" for om A B C W at'
    using that by (cases v) (auto simp: parse_object_def pret_def fail_with_def pbind_def split: list.split)
  show ?case
    unfolding task_items.simps Let_def rest by (simp only: pbind_def [of "parse_object v (at @ ''/'' @ decimal i)"] entry [OF refl])
qed simp

lemma task_list_cong:
  assumes "agree_below n f g" and "depth v \<le> n"
  shows "parse_task_list f v at = parse_task_list g v at"
proof (cases v)
  case (Array vs)
  have "depth w \<le> n" if "w \<in> set vs" for w using depth_item [OF that] assms(2) by (simp add: Array)
  from task_items_cong [OF assms(1) this] show ?thesis by (simp add: parse_task_list_def Array)
qed (simp_all add: parse_task_list_def)

lemma member_list_cong:
  assumes "agree_below n f g" and "depth (Object m) \<le> n" and "map_of m k = Some d"
  shows "parse_task_list f d at = parse_task_list g d at"
  using task_list_cong [OF assms(1)] depth_member [OF assms(3)] assms(2) by simp

lemma pmap_list_cong:
  assumes "agree_below n f g" and "depth (Object m) \<le> n"
  shows "pmap (\<lambda>d. parse_task_list f d at) (map_of m k) = pmap (\<lambda>d. parse_task_list g d at) (map_of m k)"
  using member_list_cong [OF assms] by (auto simp: pmap_def split: option.split)

lemma pquery_object_cong:
  "(\<And>m. v = Object m \<Longrightarrow> F m = G m) \<Longrightarrow> pquery (parse_object v at) F = pquery (parse_object v at) G"
  by (cases v) (auto simp: parse_object_def pquery_def pbind_def pret_def fail_with_def)

lemma parse_for_cong:
  assumes "agree_below n f g" and "depth (Object m) \<le> n"
  shows "parse_for f m fv c at = parse_for g m fv c at"
proof -
  have "(case map_of m ''do'' of Some d \<Rightarrow> parse_task_list f d (at @ ''/do'') | None \<Rightarrow> fail_with [] at ''a for task needs `do`'')
      = (case map_of m ''do'' of Some d \<Rightarrow> parse_task_list g d (at @ ''/do'') | None \<Rightarrow> fail_with [] at ''a for task needs `do`'')"
    using member_list_cong [OF assms] by (auto split: option.split)
  then show ?thesis by (simp add: parse_for_def)
qed

lemma parse_catch_cong:
  assumes "agree_below n f g" and "depth v \<le> n"
  shows "parse_catch f st v at = parse_catch g st v at"
  unfolding parse_catch_def
  by (rule pquery_object_cong) (use pmap_list_cong [OF assms(1)] assms(2) in simp)

lemma parse_try_cong:
  assumes "agree_below n f g" and "depth (Object m) \<le> n" and "map_of m ''try'' = Some tv"
  shows "parse_try f st m tv at = parse_try g st m tv at"
proof -
  have "parse_catch f st c at' = parse_catch g st c at'" if "map_of m ''catch'' = Some c" for c at'
    using parse_catch_cong [OF assms(1)] depth_member [OF that] assms(2) by simp
  then show ?thesis
    using member_list_cong [OF assms(1,2,3)] by (cases "map_of m ''catch''") (simp_all add: parse_try_def)
qed

lemma parse_fork_cong:
  assumes "agree_below n f g" and "depth v \<le> n"
  shows "parse_fork f v at = parse_fork g v at"
  unfolding parse_fork_def
proof (rule pquery_object_cong)
  fix m assume "v = Object m"
  then have "(case map_of m ''branches'' of Some b \<Rightarrow> parse_task_list f b (at @ ''/branches'') | None \<Rightarrow> pret [])
      = (case map_of m ''branches'' of Some b \<Rightarrow> parse_task_list g b (at @ ''/branches'') | None \<Rightarrow> pret [])"
    using member_list_cong [OF assms(1)] assms(2) by (auto split: option.split)
  then show "pbind (only m at [''branches'', ''compete'']) (\<lambda>_.
     pbind (case map_of m ''branches'' of Some b \<Rightarrow> parse_task_list f b (at @ ''/branches'') | None \<Rightarrow> pret []) (\<lambda>branches.
     pbind (case map_of m ''compete'' of
         None \<Rightarrow> pret False
       | Some (Bool b) \<Rightarrow> pret b
       | Some _ \<Rightarrow> fail_with False (at @ ''/compete'') ''expected a boolean'') (\<lambda>compete.
     pret (Some (KFork branches compete))))) =
    pbind (only m at [''branches'', ''compete'']) (\<lambda>_.
     pbind (case map_of m ''branches'' of Some b \<Rightarrow> parse_task_list g b (at @ ''/branches'') | None \<Rightarrow> pret []) (\<lambda>branches.
     pbind (case map_of m ''compete'' of
         None \<Rightarrow> pret False
       | Some (Bool b) \<Rightarrow> pret b
       | Some _ \<Rightarrow> fail_with False (at @ ''/compete'') ''expected a boolean'') (\<lambda>compete.
     pret (Some (KFork branches compete)))))" by simp
qed

lemma parse_foreach_cong:
  assumes "agree_below n f g" and "depth v \<le> n"
  shows "parse_foreach f x v at = parse_foreach g x v at"
  unfolding parse_foreach_def
  by (rule pquery_object_cong) (use pmap_list_cong [OF assms(1)] assms(2) in simp)

lemma parse_listen_cong:
  assumes "agree_below n f g" and "\<And>e. fe = Some e \<Longrightarrow> depth e \<le> n"
  shows "parse_listen f x v fe at = parse_listen g x v fe at"
  using parse_foreach_cong [OF assms] by (cases fe) (simp_all add: parse_listen_def)

lemma on_member_cong:
  "(\<And>v. map_of m k = Some v \<Longrightarrow> f v = g v) \<Longrightarrow> a = b \<Longrightarrow> on_member m k f a = on_member m k g b"
  by (auto simp: on_member_def split: option.split)

lemma task_kind_cong:
  assumes "agree_below n f g" and "depth (Object m) \<le> n"
  shows "task_kind f x st m ouro at = task_kind g x st m ouro at"
proof -
  have d: "depth v \<le> n" if "map_of m k = Some v" for k v using depth_member [OF that] assms(2) by simp
  show ?thesis
    unfolding task_kind_def
    by (intro on_member_cong)
      (simp_all add: parse_for_cong [OF assms] parse_try_cong [OF assms] parse_fork_cong [OF assms(1) d]
        parse_listen_cong [OF assms(1) d] member_list_cong [OF assms])
qed

lemma parse_task_cong:
  assumes "agree_below (depth v) f g"
  shows "parse_task f x st v at = parse_task g x st v at"
  unfolding parse_task_def
  by (rule pquery_object_cong) (use task_kind_cong [OF assms] in simp)

lemma task_at_enough: "depth v \<le> n \<Longrightarrow> task_at n x st v at = task_at (depth v) x st v at"
proof (induction "depth v" arbitrary: v n at rule: less_induct)
  case less
  obtain m d where nm: "n = Suc m" "depth v = Suc d" using less.prems by (cases v; cases n) auto
  have "agree_below (depth v) (task_at m x st) (task_at d x st)"
    unfolding agree_below_def
  proof (intro allI impI)
    fix w at' assume w: "depth w < depth v"
    then have "depth w \<le> m" "depth w \<le> d" using less.prems nm by simp_all
    then show "task_at m x st w at' = task_at d x st w at'"
      using less.hyps [OF w] by metis
  qed
  then show ?case unfolding nm by (simp add: parse_task_cong nm)
qed

text \<open>
  C31. The parser of a task always has enough fuel: the depth of the value suffices, more changes nothing, and with it the parser
  satisfies the recursive equation of the source, in which it calls itself on the tasks inside a task.
\<close>

theorem task_parser_has_enough_fuel:
  "task_of x st v at = parse_task (task_of x st) x st v at \<and> (depth v \<le> n \<longrightarrow> task_at n x st v at = task_of x st v at)"
proof -
  obtain d where d: "depth v = Suc d" by (cases v) auto
  have "agree_below (depth v) (task_at d x st) (task_of x st)"
    unfolding agree_below_def task_of_def by (auto intro!: task_at_enough simp: d)
  from parse_task_cong [OF this] have "task_at (depth v) x st v at = parse_task (task_of x st) x st v at" by (simp add: d)
  then show ?thesis unfolding task_of_def [of x st v at] using task_at_enough [of v n x st at] by auto
qed

end
