(* ===== verification/Parsed_Shape.thy ===== *)
theory Parsed_Shape
  imports Parser_Rules Evaluation
begin

text \<open>
  The shape of an accepted definition: what the rest of the program may assume of a parsed workflow, as a predicate on
  the types of the definition, and that everything \<^verbatim>\<open>parse\<close> accepts has it.
\<close>

section \<open>Well-formed definitions\<close>

definition opt :: "('a \<Rightarrow> bool) \<Rightarrow> 'a option \<Rightarrow> bool" where
  "opt P x = (case x of None \<Rightarrow> True | Some a \<Rightarrow> P a)"

fun flow_ok :: "flow \<Rightarrow> bool" where
  "flow_ok (Goto name) \<longleftrightarrow> name \<noteq> [] \<and> name \<notin> {''continue'', ''exit'', ''end''}"
| "flow_ok _ \<longleftrightarrow> True"

definition filter_ok :: "event_filter \<Rightarrow> bool" where
  "filter_ok f \<longleftrightarrow> with_attrs f \<noteq> []"

text \<open>The argument: whether an \<^verbatim>\<open>until\<close> is allowed, which is outside another one only.\<close>

fun strategy_ok :: "bool \<Rightarrow> strategy \<Rightarrow> bool" and until_ok :: "bool \<Rightarrow> until \<Rightarrow> bool" where
  "strategy_ok u (One f) \<longleftrightarrow> filter_ok f"
| "strategy_ok u (All fs) \<longleftrightarrow> fs \<noteq> [] \<and> list_all filter_ok fs"
| "strategy_ok u (Any fs w) \<longleftrightarrow> list_all filter_ok fs \<and> (case w of None \<Rightarrow> True | Some v \<Rightarrow> u \<and> until_ok u v)"
| "until_ok u (Condition c) \<longleftrightarrow> True"
| "until_ok u (Events s) \<longleftrightarrow> strategy_ok False s"

definition error_ok :: "error_def \<Rightarrow> bool" where
  "error_ok e \<longleftrightarrow> 100 \<le> ed_status e \<and> ed_status e \<le> 599"

definition cases_ok :: "(string \<times> switch_case) list \<Rightarrow> bool" where
  "cases_ok cs \<longleftrightarrow> length (filter (\<lambda>(_, c). sc_when c = None) cs) \<le> 1 \<and> list_all (\<lambda>(_, c). flow_ok (sc_then c)) cs"

definition run_ok :: "run_task \<Rightarrow> bool" where
  "run_ok r \<longleftrightarrow> rn_inherit_host r \<longrightarrow> (case rn_process r of ChildWorkflow _ _ _ _ \<Rightarrow> True | External _ _ \<Rightarrow> False)"

definition emit_ok :: "members \<Rightarrow> bool" where
  "emit_ok m \<longleftrightarrow> (case Option.bind (map_of m ''type'') as_str of None \<Rightarrow> False | Some t \<Rightarrow> t \<noteq> [])"

fun is_call :: "kind \<Rightarrow> bool" where
  "is_call (KCall _ _) \<longleftrightarrow> True"
| "is_call _ \<longleftrightarrow> False"

fun is_listen :: "kind \<Rightarrow> bool" where
  "is_listen (KListen _ _ _) \<longleftrightarrow> True"
| "is_listen _ \<longleftrightarrow> False"

text \<open>
  A task: only a call is delivered at most once and only a listen holds; the names of a list are distinct.
\<close>

fun task_ok :: "task \<Rightarrow> bool" and kind_ok :: "kind \<Rightarrow> bool" and tasks_ok :: "(string \<times> task) list \<Rightarrow> bool"
  and catch_ok :: "catch \<Rightarrow> bool" and foreach_ok :: "foreach \<Rightarrow> bool" where
  "task_ok (MkTask delivery hold when input out export timeout thn k def) \<longleftrightarrow>
     kind_ok k \<and> (delivery = AtMostOnce \<longrightarrow> is_call k) \<and> (hold \<noteq> 0 \<longrightarrow> is_listen k) \<and> opt flow_ok thn"
| "kind_ok (KCall f w) \<longleftrightarrow> (case w of None \<Rightarrow> True | Some (Object _) \<Rightarrow> True | _ \<Rightarrow> False)"
| "kind_ok (KDo ts) \<longleftrightarrow> distinct (map fst ts) \<and> tasks_ok ts"
| "kind_ok (KFor each at items cond conc ts) \<longleftrightarrow>
     (case conc of None \<Rightarrow> True | Some n \<Rightarrow> 0 < n \<and> cond = None) \<and> distinct (map fst ts) \<and> tasks_ok ts"
| "kind_ok (KFork ts compete) \<longleftrightarrow> distinct (map fst ts) \<and> tasks_ok ts"
| "kind_ok (KSet v) \<longleftrightarrow> (case v of Object _ \<Rightarrow> True | String s \<Rightarrow> strip s \<noteq> None | _ \<Rightarrow> False)"
| "kind_ok (KSwitch cs) \<longleftrightarrow> cases_ok cs"
| "kind_ok (KTry ts c) \<longleftrightarrow> distinct (map fst ts) \<and> tasks_ok ts \<and> catch_ok c"
| "kind_ok (KRaise r) \<longleftrightarrow> (case r of RaiseInline d \<Rightarrow> error_ok d | RaiseNamed _ \<Rightarrow> True)"
| "kind_ok (KWait d) \<longleftrightarrow> True"
| "kind_ok (KListen s rd fe) \<longleftrightarrow> strategy_ok True s \<and> (case fe of None \<Rightarrow> True | Some f \<Rightarrow> foreach_ok f)"
| "kind_ok (KEmit m) \<longleftrightarrow> emit_ok m"
| "kind_ok (KRun r) \<longleftrightarrow> run_ok r"
| "tasks_ok [] \<longleftrightarrow> True"
| "tasks_ok ((name, t) # ts) \<longleftrightarrow> task_ok t \<and> tasks_ok ts"
| "catch_ok (Catch errors as when except retry ts thn) \<longleftrightarrow>
     (case ts of None \<Rightarrow> True | Some us \<Rightarrow> distinct (map fst us) \<and> tasks_ok us) \<and> opt flow_ok thn"
| "foreach_ok (Foreach item at ts out export) \<longleftrightarrow> distinct (map fst ts) \<and> tasks_ok ts"

definition list_ok :: "task_list \<Rightarrow> bool" where
  "list_ok ts \<longleftrightarrow> distinct (map fst ts) \<and> tasks_ok ts"

definition extension_ok :: "extension \<Rightarrow> bool" where
  "extension_ok e \<longleftrightarrow> (ex_extend e = [] \<or> ex_extend e \<in> set KINDS) \<and> opt list_ok (ex_before e) \<and> opt list_ok (ex_after e)"

definition schedule_ok :: "schedule \<Rightarrow> bool" where
  "schedule_ok s \<longleftrightarrow>
     sd_every s \<noteq> Some 0 \<and> sd_after s \<noteq> Some 0 \<and> opt (strategy_ok True) (sd_on s)
     \<and> (sd_timezone s \<noteq> None \<longrightarrow> sd_cron s \<noteq> None)
     \<and> (sd_at s \<noteq> None \<longleftrightarrow> sd_every s = None \<and> sd_cron s = None \<and> sd_after s = None \<and> sd_on s = None)"

definition uses_ok :: "uses \<Rightarrow> bool" where
  "uses_ok u \<longleftrightarrow> list_all (\<lambda>(_, t). task_ok t) (us_functions u) \<and> list_all (\<lambda>(_, e). error_ok e) (us_errors u)
     \<and> list_all (\<lambda>(_, e). extension_ok e) (us_extensions u) \<and> distinct (us_secrets u) \<and> [] \<notin> set (us_secrets u)"

definition workflow_ok :: "workflow \<Rightarrow> bool" where
  "workflow_ok w \<longleftrightarrow>
     (dc_dsl (wf_document w) = [] \<or> strip_prefix ''1.'' (dc_dsl (wf_document w)) \<noteq> None)
     \<and> uses_ok (wf_uses w) \<and> list_ok (wf_tasks w) \<and> opt schedule_ok (wf_schedule w)
     \<and> (case bg_on_exceeded (wf_budget w) of ExceededTask t \<Rightarrow> task_ok t | _ \<Rightarrow> True)
     \<and> (case wf_breaker w of Threshold n \<Rightarrow> 1 \<le> n \<and> n \<le> MAX_THRESHOLD | _ \<Rightarrow> True)"

section \<open>What a parser without problems yields\<close>

definition yields :: "'a parser \<Rightarrow> ('a \<Rightarrow> bool) \<Rightarrow> bool" where
  "yields m P \<longleftrightarrow> (snd m = [] \<longrightarrow> P (fst m))"

named_theorems parses \<open>what the parsers of parts yield\<close>

lemma yields_pret [simp]: "yields (pret a) P \<longleftrightarrow> P a"
  by (simp add: yields_def pret_def)

lemma yields_fail [simp]: "yields (pbind (fail at msg) f) P"
  by (simp add: yields_def fail_def pbind_def)

lemma yields_fail_with [simp]: "yields (fail_with a at msg) P"
  by (simp add: fail_with_def)

lemma gives_bind: "yields m Q \<Longrightarrow> (\<And>a. Q a \<Longrightarrow> yields (f a) P) \<Longrightarrow> yields (pbind m f) P"
  by (auto simp: yields_def pbind_def)

lemma yields_any: "yields m (\<lambda>_. True)"
  by (simp add: yields_def)

text \<open>A part whose result does not matter, and one whose result is checked.\<close>

lemma yields_skip: "(\<And>a. yields (f a) P) \<Longrightarrow> yields (pbind m f) P"
  by (rule gives_bind [OF yields_any]) simp

lemma yields_when [simp]: "yields (pbind (when_fails b at msg) f) P \<longleftrightarrow> (\<not> b \<longrightarrow> yields (f ()) P)"
  by (auto simp: yields_def when_fails_def pbind_def pret_def fail_def)

lemma yields_only: "yields (pbind (only m at ks) f) P \<longleftrightarrow> (fst ` set m \<subseteq> set ks \<longrightarrow> yields (f ()) P)"
  by (auto simp: yields_def only_def pbind_def filter_empty_conv image_subset_iff)

lemma yields_query:
  assumes "yields m (opt Q)" and "\<And>a. Q a \<Longrightarrow> yields (f a) (opt P)"
  shows "yields (pquery m f) (opt P)"
  unfolding pquery_def by (rule gives_bind [OF assms(1)]) (auto simp: opt_def assms(2) split: option.splits)

lemma yields_object: "(\<And>m. v = Object m \<Longrightarrow> yields (f m) (opt P)) \<Longrightarrow> yields (pquery (parse_object v at) f) (opt P)"
  by (cases v) (auto simp: parse_object_def pquery_def pbind_def pret_def yields_def fail_with_def fail_def opt_def)

lemma yields_pmap: "(\<And>a. x = Some a \<Longrightarrow> yields (f a) P) \<Longrightarrow> yields (pmap f x) (opt P)"
  by (cases x) (auto simp: pmap_def opt_def intro!: gives_bind)

lemma yields_pand: "(\<And>a. x = Some a \<Longrightarrow> yields (f a) (opt P)) \<Longrightarrow> yields (pand f x) (opt P)"
  by (cases x) (auto simp: pand_def opt_def)

lemma opt_simps [simp]: "opt P None" "opt P (Some a) \<longleftrightarrow> P a"
  by (simp_all add: opt_def)

lemma opt_map: "opt P (map_option f x) \<longleftrightarrow> opt (\<lambda>a. P (f a)) x"
  by (cases x) simp_all


lemma yields_each:
  "yields a P \<Longrightarrow> (\<And>m. yields (f m) P) \<Longrightarrow>
    yields (pbind (parse_object v at) (\<lambda>om. case om of None \<Rightarrow> a | Some m \<Rightarrow> f m)) P"
  by (rule yields_skip) (simp split: option.split)

lemma yields_query_any: "(\<And>a. yields (f a) (opt P)) \<Longrightarrow> yields (pquery m f) (opt P)"
  by (rule yields_query [where Q = "\<lambda>_. True"]) (simp_all add: yields_def opt_def split: option.split)

section \<open>Events\<close>

lemma parse_flow_yields: "yields (parse_flow v at) (opt flow_ok)"
  by (auto simp: parse_flow_def split: option.split)

lemma member_flow_yields: "yields (pand (\<lambda>t. parse_flow t at) x) (opt flow_ok)"
  by (rule yields_pand) (rule parse_flow_yields)

lemma parse_filter_yields: "yields (parse_filter v at) (opt filter_ok)"
  unfolding parse_filter_def
  by (rule yields_object, simp add: yields_only, intro impI yields_query_any, simp)
    (intro impI yields_skip, simp add: filter_ok_def)

lemma parse_filters_yields: "yields (parse_filters vs at i) (list_all filter_ok)"
proof (induction vs arbitrary: i)
  case (Cons v vs)
  show ?case unfolding parse_filters.simps
    by (rule gives_bind [OF parse_filter_yields], rule gives_bind [OF Cons.IH]) (simp add: opt_def split: option.splits)
qed simp

lemma filter_list_yields: "yields (filter_list m k at) (list_all filter_ok)"
  by (auto simp: filter_list_def parse_filters_yields split: option.split json.split)

lemma parse_until_yields:
  assumes "\<And>w. map_of m ''until'' = Some w \<Longrightarrow> yields (parse_strategy w at False) (opt (strategy_ok False))"
  shows "yields (case map_of m ''until'' of
          None \<Rightarrow> pret None
        | Some (String code) \<Rightarrow> pret (Some (Condition (bare code)))
        | Some other \<Rightarrow> pbind (parse_strategy other at False) (\<lambda>s. pret (map_option Events s)))
      (\<lambda>w. opt (until_ok u) w \<and> (w \<noteq> None \<longrightarrow> contains_key m ''until''))"
proof -
  have "yields (pbind (parse_strategy w at False) (\<lambda>s. pret (map_option Events s)))
      (\<lambda>v. opt (until_ok u) v \<and> (v \<noteq> None \<longrightarrow> contains_key m ''until''))" if "map_of m ''until'' = Some w" for w
    by (rule gives_bind [OF assms [OF that]]) (auto simp: opt_map that contains_key_def)
  then show ?thesis by (auto simp: contains_key_def split: option.split json.split)
qed

lemma parse_strategy_yields: "yields (parse_strategy v at u) (opt (strategy_ok u))"
proof (induction "size v" arbitrary: v at u rule: less_induct)
  case less
  show ?case
  proof (cases v)
    case (Object m)
    have rec: "yields (parse_strategy w at' False) (opt (strategy_ok False))" if "map_of m ''until'' = Some w" for w at'
      using less [of w] member_smaller [OF that] by (simp add: Object)
    have one: "yields (pbind (parse_filter f at') (\<lambda>f. pret (map_option One f))) (opt (strategy_ok u))" for f at'
      by (rule gives_bind [OF parse_filter_yields]) (simp add: opt_map)
    have all: "yields (pbind (filter_list m ''all'' at) (\<lambda>fs.
        pbind (when_fails (fs = []) (at @ ''/all'') ''`all` needs at least one event filter'') (\<lambda>_. pret (Some (All fs)))))
        (opt (strategy_ok u))"
      by (rule gives_bind [OF filter_list_yields]) simp
    have any: "yields (pbind (filter_list m ''any'' at) (\<lambda>fs.
        pbind (case map_of m ''until'' of
            None \<Rightarrow> pret None
          | Some (String code) \<Rightarrow> pret (Some (Condition (bare code)))
          | Some other \<Rightarrow> pbind (parse_strategy other (at @ ''/until'') False) (\<lambda>s. pret (map_option Events s))) (\<lambda>w.
        pret (Some (Any fs w))))) (opt (strategy_ok u))" if "contains_key m ''until'' \<longrightarrow> u"
      by (rule gives_bind [OF filter_list_yields], rule gives_bind [OF parse_until_yields [OF rec, where u = u]])
        (use that in \<open>auto simp: opt_def split: option.splits\<close>)
    show ?thesis
      unfolding Object parse_strategy.simps [of "Object m"] json.case
      by (subst yields_only, intro impI) (auto simp: one all any split: option.split)
  qed (simp_all add: parse_strategy.simps)
qed


section \<open>Tasks\<close>

text \<open>A parser of the tasks inside a task that yields well-formed tasks.\<close>

definition task_parser_ok :: "task_parser \<Rightarrow> bool" where
  "task_parser_ok task \<longleftrightarrow> (\<forall>v at. yields (task v at) (opt task_ok))"

lemma tasks_ok_iff: "tasks_ok ts \<longleftrightarrow> list_all (\<lambda>(_, t). task_ok t) ts"
  by (induction ts) auto

lemma list_ok_simps [simp]:
  "list_ok []" "list_ok (ts @ [(name, t)]) \<longleftrightarrow> list_ok ts \<and> name \<notin> fst ` set ts \<and> task_ok t"
  by (auto simp: list_ok_def tasks_ok_iff)

lemma task_items_yields:
  assumes "task_parser_ok task"
  shows "list_ok out \<Longrightarrow> yields (task_items task vs at i out) list_ok"
proof (induction vs arbitrary: i out)
  case (Cons v vs)
  have entry: "yields (pbind (task def at') (\<lambda>t.
      task_items task vs at (Suc i) (case t of None \<Rightarrow> out | Some u \<Rightarrow> out @ [(name, u)]))) list_ok"
    if "name \<notin> fst ` set out" for name def at'
    by (rule gives_bind [OF assms [unfolded task_parser_ok_def, rule_format]])
      (use that Cons in \<open>auto simp: opt_def split: option.splits\<close>)
  show ?case unfolding task_items.simps Let_def
    by (rule yields_skip) (auto simp: entry Cons split: option.split list.split)
qed simp

lemma task_list_yields: "task_parser_ok task \<Longrightarrow> yields (parse_task_list task v at) list_ok"
  by (cases v) (simp_all add: parse_task_list_def task_items_yields)

lemma member_tasks_yields: "task_parser_ok task \<Longrightarrow> yields (pmap (\<lambda>d. parse_task_list task d at) x) (opt list_ok)"
  by (rule yields_pmap) (rule task_list_yields)

lemma parse_for_yields:
  assumes "task_parser_ok task"
  shows "yields (parse_for task m fv c at) (opt kind_ok)"
proof -
  have conc: "yields (for_concurrency c cond at) (\<lambda>n. case n of None \<Rightarrow> True | Some i \<Rightarrow> 0 < i \<and> cond = None)" for cond
    by (auto simp: for_concurrency_def split: option.split)
  have tasks: "yields (case map_of m ''do'' of Some d \<Rightarrow> parse_task_list task d (at @ ''/do'')
      | None \<Rightarrow> fail_with [] at ''a for task needs `do`'') list_ok"
    using task_list_yields [OF assms] by (auto split: option.split)
  show ?thesis unfolding parse_for_def
    apply (rule yields_object)
    apply (subst yields_only, rule impI)
    apply (rule yields_query_any, rule yields_skip, rule yields_skip, rule yields_skip)
    apply (rule gives_bind [OF conc], rule gives_bind [OF tasks])
    apply (simp add: list_ok_def)
    done
qed

lemma parse_catch_yields:
  assumes "task_parser_ok task"
  shows "yields (parse_catch task st v at) (opt catch_ok)"
  unfolding parse_catch_def
  apply (rule yields_object)
  apply (subst yields_only, rule impI)
  apply (rule yields_query_any, rule yields_skip, rule yields_skip, rule yields_skip, rule yields_skip)
  apply (rule gives_bind [OF member_tasks_yields [OF assms]], rule gives_bind [OF member_flow_yields])
  apply (auto simp: list_ok_def opt_def split: option.splits)
  done

lemma parse_try_yields:
  assumes "task_parser_ok task"
  shows "yields (parse_try task st m tv at) (opt kind_ok)"
proof -
  have "yields (pquery (parse_catch task st cv at') (\<lambda>c. pret (Some (KTry ts c)))) (opt kind_ok)" if "list_ok ts" for cv ts at'
    by (rule yields_query [OF parse_catch_yields [OF assms]]) (use that in \<open>simp add: list_ok_def\<close>)
  then show ?thesis unfolding parse_try_def
    by (intro gives_bind [OF task_list_yields [OF assms]]) (auto split: option.split)
qed

lemma parse_fork_yields:
  assumes "task_parser_ok task"
  shows "yields (parse_fork task v at) (opt kind_ok)"
proof -
  have "yields (case map_of f ''branches'' of Some b \<Rightarrow> parse_task_list task b at' | None \<Rightarrow> pret []) list_ok" for f at'
    using task_list_yields [OF assms] by (auto split: option.split)
  then show ?thesis unfolding parse_fork_def
    apply (intro yields_object)
    apply (subst yields_only, rule impI)
    apply (rule gives_bind, assumption)
    apply (rule yields_skip, simp add: list_ok_def)
    done
qed

lemma switch_cases_yields:
  "yields (switch_cases vs at i n) (\<lambda>(d, cs). n + length (filter (\<lambda>(_, c). sc_when c = None) cs) \<le> d
     \<and> list_all (\<lambda>(_, c). flow_ok (sc_then c)) cs)"
proof (induction vs arbitrary: i n)
  case (Cons v vs)
  let ?P = "\<lambda>n. \<lambda>(d, cs). n + length (filter (\<lambda>(_, c). sc_when c = None) cs) \<le> d
     \<and> list_all (\<lambda>(_, c). flow_ok (sc_then c)) cs"
  have less: "yields (switch_cases vs at' j (Suc n)) (?P n)" if "yields (switch_cases vs at' j (Suc n)) (?P (Suc n))" for at' j
    using that by (auto simp: yields_def)
  have entry: "yields (pbind (switch_cases vs at j (Suc n)) (\<lambda>(d, rest).
      pret (d, (name, \<lparr>sc_when = None, sc_then = f\<rparr>) # rest))) (?P n)"
    "yields (pbind (switch_cases vs at j n) (\<lambda>(d, rest).
      pret (d, (name, \<lparr>sc_when = Some y, sc_then = f\<rparr>) # rest))) (?P n)" if "flow_ok f" for f j name y
    by (rule gives_bind [OF Cons.IH], use that in auto)+
  have skip: "yields (switch_cases vs at j (Suc n)) (?P n)" "yields (switch_cases vs at j n) (?P n)" for j
    by (rule less [OF Cons.IH]) (rule Cons.IH)
  have one: "yields (pbind (parse_expr c ''when'' cat) (\<lambda>when.
              let n' = (if when = None then Suc n else n) in
              pbind (pand (\<lambda>t. parse_flow t (cat @ ''/then'')) (map_of c ''then'')) (\<lambda>thn. case thn of
                None \<Rightarrow>
                  pbind (when_fails (\<not> contains_key c ''then'') cat ''a switch case needs `then`'') (\<lambda>_.
                  switch_cases vs at (Suc i) n')
              | Some f \<Rightarrow>
                  pbind (switch_cases vs at (Suc i) n') (\<lambda>(d, rest).
                  pret (d, (name, \<lparr>sc_when = when, sc_then = f\<rparr>) # rest))))) (?P n)" for c cat name
    unfolding Let_def
    apply (rule yields_skip, rule gives_bind [OF member_flow_yields])
    subgoal for w thn by (cases w; cases thn) (simp_all add: entry skip)
    done
  have case_: "yields (pbind (parse_object cv cat) (\<lambda>oc. case oc of
            None \<Rightarrow> switch_cases vs at (Suc i) n
          | Some c \<Rightarrow>
              pbind (only c cat [''when'', ''then'']) (\<lambda>_.
              pbind (parse_expr c ''when'' cat) (\<lambda>when.
              let n' = (if when = None then Suc n else n) in
              pbind (pand (\<lambda>t. parse_flow t (cat @ ''/then'')) (map_of c ''then'')) (\<lambda>thn. case thn of
                None \<Rightarrow>
                  pbind (when_fails (\<not> contains_key c ''then'') cat ''a switch case needs `then`'') (\<lambda>_.
                  switch_cases vs at (Suc i) n')
              | Some f \<Rightarrow>
                  pbind (switch_cases vs at (Suc i) n') (\<lambda>(d, rest).
                  pret (d, (name, \<lparr>sc_when = when, sc_then = f\<rparr>) # rest))))))) (?P n)" for cv cat name
    by (intro yields_each Cons.IH yields_skip one)
  show ?case unfolding switch_cases.simps
    by (subst Let_def, rule yields_skip)
      (simp only: Cons.IH case_ yields_fail Let_def [of "_ @ _"] prod.case split: option.split list.split prod.split, simp)
qed simp

lemma parse_switch_yields: "yields (parse_switch v at) (opt kind_ok)"
proof (cases v)
  case (Array vs)
  then show ?thesis unfolding parse_switch_def Array json.case
    by (intro gives_bind [OF switch_cases_yields]) (auto simp: cases_ok_def)
qed (simp_all add: parse_switch_def)

lemma parse_error_yields: "yields (parse_error_def v at) (opt error_ok)"
proof -
  have status: "yields (error_status e at) (\<lambda>n. 100 \<le> n \<and> n \<le> 599)" for e
    by (auto simp: error_status_def split: option.split json.split number.split)
  show ?thesis unfolding parse_error_def_def
    apply (rule yields_object)
    apply (subst yields_only, rule impI)
    apply (rule gives_bind [OF status], (rule yields_skip)+)
    apply (simp add: error_ok_def)
    done
qed

lemma parse_raise_yields: "yields (parse_raise v at) (opt kind_ok)"
proof -
  have "yields (pbind (parse_error_def e at') (\<lambda>d. pret (map_option (\<lambda>d. KRaise (RaiseInline d)) d))) (opt kind_ok)" for e at'
    by (rule gives_bind [OF parse_error_yields]) (simp add: opt_map)
  then show ?thesis unfolding parse_raise_def
    by (intro yields_object) (auto simp: yields_only split: option.split json.split)
qed

lemma parse_foreach_yields:
  assumes "task_parser_ok task"
  shows "yields (parse_foreach task x v at) (opt foreach_ok)"
  unfolding parse_foreach_def
  apply (rule yields_object)
  apply (subst yields_only, rule impI, rule yields_skip, rule yields_skip)
  apply (rule gives_bind [OF member_tasks_yields [OF assms]], (rule yields_skip)+)
  apply (auto simp: list_ok_def opt_def split: option.splits)
  done

lemma parse_listen_yields:
  assumes "task_parser_ok task"
  shows "yields (parse_listen task x v fe at) (opt (\<lambda>k. kind_ok k \<and> is_listen k))"
proof -
  have to: "yields (case map_of m ''to'' of Some to \<Rightarrow> parse_strategy to at' True | None \<Rightarrow> fail_with None at'' msg)
      (opt (strategy_ok True))" for m at' at'' msg
    by (auto simp: parse_strategy_yields split: option.split)
  have each: "yields (pquery (parse_foreach task x f at') (\<lambda>e. pret (Some (KListen s rd (Some e)))))
      (opt (\<lambda>k. kind_ok k \<and> is_listen k))" if "strategy_ok True s" for f s rd at'
    by (rule yields_query [OF parse_foreach_yields [OF assms]]) (use that in simp)
  show ?thesis unfolding parse_listen_def Let_def
    apply (rule yields_object)
    apply (subst yields_only, rule impI, rule yields_skip)
    apply (rule yields_query [OF to])
    apply (auto simp: each split: option.split)
    done
qed


lemma parse_emit_yields: "yields (parse_emit v at) (opt kind_ok)"
  unfolding parse_emit_def
  apply (rule yields_object)
  apply (subst yields_only, rule impI, rule yields_skip)
  apply (auto simp: yields_only intro!: yields_query_any split: option.split)
  apply (auto simp: emit_ok_def split: option.splits)
  done

lemma parse_run_yields: "yields (parse_run v at) (opt kind_ok)"
  unfolding parse_run_def
  apply (rule yields_object)
  apply (subst yields_only, rule impI, rule yields_skip, rule yields_skip)
  apply (auto simp: Let_def run_ok_def intro!: yields_query_any yields_skip split: list.split option.split)
  done

lemma parse_call_yields: "yields (parse_call m at) (opt (\<lambda>k. kind_ok k \<and> is_call k))"
  unfolding parse_call_def by (rule yields_skip) (auto split: option.splits json.splits)

lemma parse_set_yields: "yields (parse_set v at) (opt kind_ok)"
  by (auto simp: parse_set_def split: json.splits)

lemma parse_wait_yields: "yields (parse_wait w at) (opt kind_ok)"
  unfolding parse_wait_def by (rule yields_skip) (simp add: opt_map opt_def split: option.split)

text \<open>The kind of a task is that of its members: only a task with \<^verbatim>\<open>call\<close> is a call, only one with \<^verbatim>\<open>listen\<close> a listen.\<close>

definition kind_of_members :: "members \<Rightarrow> kind \<Rightarrow> bool" where
  "kind_of_members m k \<longleftrightarrow> kind_ok k \<and> (contains_key m ''call'' \<longrightarrow> is_call k) \<and> (contains_key m ''listen'' \<longrightarrow> is_listen k)"

lemma contains_key_iff: "contains_key m k \<longleftrightarrow> k \<in> fst ` set m"
  by (simp add: contains_key_def map_of_eq_None_iff)

lemma on_member_yields:
  "(\<And>v. map_of m k = Some v \<Longrightarrow> yields (f v) P) \<Longrightarrow> yields a P \<Longrightarrow> yields (on_member m k f a) P"
  by (auto simp: on_member_def split: option.split)

lemma known_yields:
  assumes "yields p (opt kind_ok)" and "''call'' \<notin> set own" and "''listen'' \<notin> set own"
  shows "yields (pbind (known_members m at own) (\<lambda>_. p)) (opt (kind_of_members m))"
  unfolding known_members_def
proof (subst yields_only, intro impI)
  assume "fst ` set m \<subseteq> set (COMMON @ own)"
  then have "\<not> contains_key m ''call''" "\<not> contains_key m ''listen''"
    using assms(2,3) by (auto simp: contains_key_iff COMMON_def)
  then show "yields p (opt (kind_of_members m))"
    using assms(1) by (auto simp: yields_def opt_def kind_of_members_def split: option.splits)
qed

lemma task_kind_yields:
  assumes "task_parser_ok task"
  shows "yields (task_kind task x st m ouro at) (opt (kind_of_members m))"
proof -
  have call: "yields (pbind (known_members m at [''call'', ''with'']) (\<lambda>_. parse_call m at)) (opt (kind_of_members m))"
    unfolding known_members_def
  proof (subst yields_only, intro impI)
    assume "fst ` set m \<subseteq> set (COMMON @ [''call'', ''with''])"
    then have "\<not> contains_key m ''listen''" by (auto simp: contains_key_iff COMMON_def)
    then show "yields (parse_call m at) (opt (kind_of_members m))"
      using parse_call_yields [of m at] by (auto simp: yields_def opt_def kind_of_members_def split: option.splits)
  qed
  have listen: "yields (pbind (known_members m at [''listen'', ''foreach'']) (\<lambda>_. parse_listen task x v fe at)) (opt (kind_of_members m))" for v fe
    unfolding known_members_def
  proof (subst yields_only, intro impI)
    assume "fst ` set m \<subseteq> set (COMMON @ [''listen'', ''foreach''])"
    then have "\<not> contains_key m ''call''" by (auto simp: contains_key_iff COMMON_def)
    then show "yields (parse_listen task x v fe at) (opt (kind_of_members m))"
      using parse_listen_yields [OF assms, of x v fe at] by (auto simp: yields_def opt_def kind_of_members_def split: option.splits)
  qed
  have do_: "yields (pbind (parse_task_list task d at') (\<lambda>ts. pret (Some (KDo ts)))) (opt kind_ok)" for d at'
    by (rule gives_bind [OF task_list_yields [OF assms]]) (simp add: list_ok_def)
  show ?thesis unfolding task_kind_def
    by (intro on_member_yields known_yields call listen do_ parse_for_yields parse_try_yields parse_fork_yields
        parse_set_yields parse_switch_yields parse_raise_yields parse_emit_yields parse_run_yields parse_wait_yields assms)
      simp_all
qed

lemma host_extension_yields:
  assumes "opt (kind_of_members m) k"
  shows "yields (host_extension k ouro at) (opt (kind_of_members m))"
  using assms
  by (auto simp: host_extension_def inherits_def kind_of_members_def run_ok_def
      split: option.splits kind.splits process.splits if_splits)

lemma delivery_extension_yields:
  "yields (delivery_extension m ouro at) (\<lambda>d. d = AtMostOnce \<longrightarrow> contains_key m ''call'')"
  by (auto simp: delivery_extension_def split: option.split)

lemma hold_extension_yields: "yields (hold_extension m ouro at) (\<lambda>d. d \<noteq> 0 \<longrightarrow> contains_key m ''listen'')"
  by (auto simp: hold_extension_def split: option.split)

lemma parse_task_yields:
  assumes "task_parser_ok task"
  shows "yields (parse_task task x st v at) (opt task_ok)"
  unfolding parse_task_def
  apply (rule yields_object, rule yields_skip, subst Let_def)
  apply (rule gives_bind [OF task_kind_yields [OF assms]])
  apply (rule yields_skip, rule yields_skip, rule yields_skip, rule yields_skip, rule yields_skip)
  apply (rule gives_bind [OF member_flow_yields], subst yields_when, rule impI)
  apply (rule gives_bind [OF host_extension_yields], assumption)
  apply (rule gives_bind [OF delivery_extension_yields], rule gives_bind [OF hold_extension_yields])
  apply (auto simp: opt_map opt_def kind_of_members_def split: option.splits)
  done

lemma task_of_yields: "task_parser_ok (task_of x st)"
proof -
  have "task_parser_ok (task_at n x st)" for n
    by (induction n) (auto simp: task_parser_ok_def parse_task_yields)
  then show ?thesis by (simp add: task_parser_ok_def task_of_def)
qed


section \<open>The workflow\<close>

lemma each_member_yields:
  assumes "\<And>v at. yields (f v at) (opt P)"
  shows "yields (each_member f m at) (list_all (\<lambda>(_, d). P d))"
proof (induction m)
  case (Cons e m)
  obtain name def where e: "e = (name, def)" by (cases e)
  show ?case unfolding e each_member.simps
    by (rule gives_bind [OF assms], rule gives_bind [OF Cons.IH]) (auto simp: opt_def split: option.splits)
qed simp

lemma named_section_yields:
  assumes "\<And>v at. yields (f v at) (opt P)"
  shows "yields (named_section f m k) (list_all (\<lambda>(_, d). P d))"
  unfolding named_section_def using each_member_yields [OF assms]
  by (intro yields_skip) (auto split: option.split)

lemma secret_list_yields:
  "distinct out \<Longrightarrow> [] \<notin> set out \<Longrightarrow> yields (secret_list vs i out) (\<lambda>ns. distinct ns \<and> [] \<notin> set ns)"
  by (induction vs arbitrary: i out) (auto split: option.split simp: bind_eq_Some_conv)

lemma parse_secrets_yields: "yields (parse_secrets m) (\<lambda>ns. distinct ns \<and> [] \<notin> set ns)"
  using secret_list_yields [of "[]"] by (auto simp: parse_secrets_def split: option.split json.split)

lemma placeholder_ok: "task_ok placeholder"
  by (simp add: placeholder_def)

lemma parse_uses_yields: "yields (parse_uses v) uses_ok"
proof -
  have funs: "list_all (\<lambda>(_, t). task_ok t) (case fs of None \<Rightarrow> [] | Some f \<Rightarrow> map (\<lambda>(name, _). (name, placeholder)) f)"
    for fs :: "members option"
    by (auto simp: list_all_iff placeholder_ok split: option.split)
  show ?thesis unfolding parse_uses_def
  proof (rule yields_skip)
    fix om
    show "yields (case om of
       None \<Rightarrow> pret default_uses
     | Some m \<Rightarrow>
         pbind (when_fails (contains_key m ''authentications'') ''/use/authentications''
                  ''authentication is not supported; functions carry their own credentials'') (\<lambda>_.
         pbind (when_fails (contains_key m ''catalogs'') ''/use/catalogs''
                  ''external catalogs are not supported; functions come from the runtime's catalog'') (\<lambda>_.
         pbind (only m ''/use'' [''functions'', ''errors'', ''retries'', ''timeouts'', ''authentications'', ''catalogs'',
                  ''extensions'', ''secrets'']) (\<lambda>_.
         pbind (parse_secrets m) (\<lambda>secrets.
         pbind (named_section parse_error_def m ''errors'') (\<lambda>errors.
         pbind (named_section parse_retry m ''retries'') (\<lambda>retries.
         pbind (named_section timeout_object m ''timeouts'') (\<lambda>timeouts.
         pbind (pand (\<lambda>f. parse_object f ''/use/functions'') (map_of m ''functions'')) (\<lambda>functions.
         pret \<lparr>us_functions = (case functions of None \<Rightarrow> [] | Some f \<Rightarrow> map (\<lambda>(name, _). (name, placeholder)) f),
           us_errors = errors, us_retries = retries, us_timeouts = timeouts, us_extensions = [], us_secrets = secrets\<rparr>))))))))) uses_ok"
    proof (cases om)
      case (Some m)
      show ?thesis unfolding Some option.case
        apply (subst yields_when, rule impI, subst yields_when, rule impI, subst yields_only, rule impI)
        apply (rule gives_bind [OF parse_secrets_yields], rule gives_bind [OF named_section_yields [OF parse_error_yields]])
        apply (rule yields_skip, rule yields_skip, rule yields_skip)
        apply (simp add: uses_ok_def funs)
        done
    qed (simp add: uses_ok_def default_uses_def)
  qed
qed

lemma parse_functions_yields:
  assumes "task_parser_ok task"
  shows "list_all (\<lambda>(_, t). task_ok t) out \<Longrightarrow> yields (parse_functions task m out) (list_all (\<lambda>(_, t). task_ok t))"
proof (induction m arbitrary: out)
  case (Cons e m)
  obtain name def where e: "e = (name, def)" by (cases e)
  have set: "list_all (\<lambda>(_, t). task_ok t) (set_function name u out)" if "task_ok u" for u
    using Cons.prems that by (induction name u out rule: set_function.induct) auto
  show ?case unfolding e parse_functions.simps
    by (rule gives_bind [OF assms [unfolded task_parser_ok_def, rule_format]])
      (use Cons set in \<open>auto simp: opt_def split: option.splits\<close>)
qed simp

lemma parse_extension_yields:
  assumes "task_parser_ok task"
  shows "yields (parse_extension task e at) extension_ok"
  unfolding parse_extension_def
  apply (subst yields_only, rule impI, rule yields_skip, subst yields_when, rule impI, rule yields_skip)
  apply (rule gives_bind [OF member_tasks_yields [OF assms]], rule gives_bind [OF member_tasks_yields [OF assms]])
  apply (auto simp: extension_ok_def)
  done

lemma extension_items_yields:
  assumes "task_parser_ok task"
  shows "yields (extension_items task vs i) (list_all (\<lambda>(_, e). extension_ok e))"
proof (induction vs arbitrary: i)
  case (Cons v vs)
  have ext: "yields (pbind (parse_extension task e at) (\<lambda>ext. pbind (extension_items task vs (Suc i)) (\<lambda>rest. pret ((name, ext) # rest))))
      (list_all (\<lambda>(_, e). extension_ok e))" for e at name
    by (rule gives_bind [OF parse_extension_yields [OF assms]], rule gives_bind [OF Cons.IH]) simp
  show ?case unfolding extension_items.simps Let_def
    using Cons.IH ext by (auto intro!: yields_skip split: json.split list.split option.split)
qed simp

lemma parse_schedule_yields: "yields (parse_schedule x v) (opt (\<lambda>s. schedule_ok s \<and> sd_at s = None))"
proof -
  have fixed: "yields (schedule_fixed m k) (\<lambda>d. d \<noteq> Some 0)" for m k
    unfolding schedule_fixed_def by (rule yields_skip) (auto split: option.split duration_spec.split)
  have on: "yields (pand (\<lambda>o'. parse_strategy o' at True) y) (opt (strategy_ok True))" for at y
    by (rule yields_pand) (rule parse_strategy_yields)
  show ?thesis unfolding parse_schedule_def
    apply (rule yields_object, subst yields_only, rule impI)
    apply (rule gives_bind [OF fixed], rule gives_bind [OF fixed], rule yields_skip, rule yields_skip)
    apply (rule gives_bind [OF on], subst yields_when, rule impI, rule yields_skip, subst yields_when, rule impI)
    apply (auto simp: schedule_ok_def)
    done
qed

lemma schedule_ok_updates [simp]:
  "schedule_ok (s\<lparr>sd_catchup := c\<rparr>) \<longleftrightarrow> schedule_ok s" "schedule_ok (s\<lparr>sd_overlap := p\<rparr>) \<longleftrightarrow> schedule_ok s"
  "sd_cron s \<noteq> None \<Longrightarrow> schedule_ok s \<Longrightarrow> schedule_ok (s\<lparr>sd_timezone := z\<rparr>)"
  by (simp_all add: schedule_ok_def)

lemma extended_schedule_yields:
  assumes "opt (\<lambda>s. schedule_ok s \<and> sd_at s = None) s"
  shows "yields (extended_schedule x m ouro s) (opt schedule_ok)"
proof -
  have shot: "schedule_ok (one_shot a)" for a by (simp add: schedule_ok_def one_shot_def)
  have "yields (pbind (parse_instant x a at) (\<lambda>at. pret (if b then None else map_option one_shot at))) (opt schedule_ok)" for a at b
    by (rule yields_skip) (simp add: opt_def shot split: option.split)
  then have at: "yields (at_extension x m ouro s) (opt schedule_ok)"
    using assms by (cases "map_of ouro ''at''"; cases s) (simp_all add: at_extension_def)
  have zone: "yields (timezone_extension x ouro s1) (opt schedule_ok)" if "opt schedule_ok s1" for s1
    using that by (cases "map_of ouro ''timezone''"; cases s1) (simp_all add: timezone_extension_def split: option.split)
  have catch: "yields (catchup_extension ouro s1) (opt schedule_ok)" if "opt schedule_ok s1" for s1
  proof (cases "map_of ouro ''catchup''")
    case (Some c)
    then show ?thesis using that by (cases s1; cases "as_str c") (simp_all add: catchup_extension_def)
  qed (use that in \<open>simp add: catchup_extension_def\<close>)
  have overlap: "yields (overlap_extension ouro s1) (opt schedule_ok)" if "opt schedule_ok s1" for s1
  proof (cases "map_of ouro ''overlap''")
    case (Some c)
    then show ?thesis using that by (cases s1; cases "as_str c") (simp_all add: overlap_extension_def)
  qed (use that in \<open>simp add: overlap_extension_def\<close>)
  show ?thesis unfolding extended_schedule_def
    by (intro gives_bind [OF at] gives_bind [OF zone] gives_bind [OF catch] overlap)
qed

lemma parse_breaker_yields: "yields (parse_breaker v) (\<lambda>b. case b of Threshold n \<Rightarrow> 1 \<le> n \<and> n \<le> MAX_THRESHOLD | _ \<Rightarrow> True)"
  unfolding parse_breaker_def Let_def
  by (auto simp: yields_only split: json.split option.split)

lemma parse_budget_yields:
  assumes "task_parser_ok task"
  shows "yields (parse_budget task v) (\<lambda>b. case bg_on_exceeded b of ExceededTask t \<Rightarrow> task_ok t | _ \<Rightarrow> True)"
proof -
  have ex: "yields (parse_on_exceeded task m) (\<lambda>e. case e of ExceededTask t \<Rightarrow> task_ok t | _ \<Rightarrow> True)" for m
  proof -
    have "yields (pbind (task w at) (\<lambda>u. pret (case u of Some w \<Rightarrow> ExceededTask w | None \<Rightarrow> ExceededRaise)))
        (\<lambda>e. case e of ExceededTask t \<Rightarrow> task_ok t | _ \<Rightarrow> True)" for w at
      by (rule gives_bind [OF assms [unfolded task_parser_ok_def, rule_format]]) (auto simp: opt_def split: option.splits)
    note body = this
    show ?thesis
    proof (cases "map_of m ''on_exceeded''")
      case (Some v)
      then show ?thesis by (cases v) (simp_all add: parse_on_exceeded_def Let_def body)
    qed (simp add: parse_on_exceeded_def Let_def)
  qed
  have some: "yields (pbind (only m at ks) (\<lambda>_. pbind (parse_max_jumps m) (\<lambda>jumps. pbind (parse_on_exceeded task m) (\<lambda>exceeded.
      pret \<lparr>bg_max_jumps = jumps, bg_on_exceeded = exceeded\<rparr>)))) (\<lambda>b. case bg_on_exceeded b of ExceededTask t \<Rightarrow> task_ok t | _ \<Rightarrow> True)" for m at ks
    by (rule yields_skip, rule yields_skip, rule gives_bind [OF ex]) simp
  show ?thesis unfolding parse_budget_def
    by (rule yields_skip) (auto simp: some default_budget_def split: option.split)
qed

lemma parse_document_yields:
  "yields (parse_document v) (opt (\<lambda>d. dc_dsl d = [] \<or> strip_prefix ''1.'' (dc_dsl d) \<noteq> None))"
  unfolding parse_document_def
  apply (rule yields_object, subst yields_only, rule impI, rule yields_skip, subst yields_when, rule impI)
  apply (rule yields_skip, rule yields_skip, rule yields_skip, rule yields_skip, rule yields_skip)
  apply auto
  done


lemma parse_workflow_yields: "yields (parse_workflow x v) (opt workflow_ok)"
proof -
  have doc: "yields (case map_of m ''document'' of Some d \<Rightarrow> parse_document d | None \<Rightarrow> fail_with None [] msg)
      (opt (\<lambda>d. dc_dsl d = [] \<or> strip_prefix ''1.'' (dc_dsl d) \<noteq> None))" for m msg
    using parse_document_yields by (auto split: option.split)
  have uses: "yields (case map_of m ''use'' of None \<Rightarrow> pret default_uses | Some u \<Rightarrow> parse_uses u) uses_ok" for m
    using parse_uses_yields by (auto simp: uses_ok_def default_uses_def split: option.split)
  have exts: "yields (case y of None \<Rightarrow> pret [] | Some e \<Rightarrow> parse_extensions (task_of x st) e)
      (list_all (\<lambda>(_, e). extension_ok e))" for y st
    using extension_items_yields [OF task_of_yields] by (auto simp: parse_extensions_def split: option.split json.split)
  have tasks: "yields (case map_of m ''do'' of Some d \<Rightarrow> parse_task_list (task_of x st) d at | None \<Rightarrow> fail_with [] [] msg) list_ok"
    for m at st msg
    using task_list_yields [OF task_of_yields] by (auto split: option.split)
  have sched: "yields (pand (parse_schedule x) y) (opt (\<lambda>s. schedule_ok s \<and> sd_at s = None))" for y
    by (rule yields_pand) (rule parse_schedule_yields)
  have budget: "yields (case y of Some l \<Rightarrow> parse_budget (task_of x st) l | None \<Rightarrow> pret default_budget)
      (\<lambda>b. case bg_on_exceeded b of ExceededTask t \<Rightarrow> task_ok t | _ \<Rightarrow> True)" for y st
    using parse_budget_yields [OF task_of_yields] by (auto simp: default_budget_def split: option.split)
  have breaker: "yields (case y of Some b \<Rightarrow> parse_breaker b | None \<Rightarrow> pret Inherit)
      (\<lambda>b. case b of Threshold n \<Rightarrow> 1 \<le> n \<and> n \<le> MAX_THRESHOLD | _ \<Rightarrow> True)" for y
    using parse_breaker_yields by (auto split: option.split)
  show ?thesis unfolding parse_workflow_def
    apply (rule yields_object, subst yields_only, rule impI, rule yields_skip)
    apply (rule gives_bind [OF doc], rule gives_bind [OF uses], subst Let_def)
    apply (rule gives_bind [OF parse_functions_yields [OF task_of_yields]], simp add: uses_ok_def)
    apply (rule gives_bind [OF exts], rule gives_bind [OF tasks], rule yields_skip, rule yields_skip, rule yields_skip)
    apply (rule gives_bind [OF sched], rule yields_skip, rule gives_bind [OF extended_schedule_yields], assumption)
    apply (rule gives_bind [OF budget], rule gives_bind [OF breaker])
    apply (simp add: opt_map opt_def uses_ok_def workflow_ok_def split: option.splits)
    done
qed



section \<open>Witnesses\<close>

definition sample_parsers :: host_parsers where
  "sample_parsers = \<lparr>hp_yaml = (\<lambda>t. Inr (String t)), hp_conforms = (\<lambda>v. []), hp_cron = (\<lambda>c. None), hp_zone = Some,
     hp_instant = (\<lambda>t. Some 0), hp_schema = (\<lambda>v. None)\<rparr>"

definition sample_document :: json where
  "sample_document = Object [
     (''document'', Object [(''dsl'', String ''1.0.0''), (''namespace'', String ''n''), (''name'', String ''w''), (''version'', String ''1'')]),
     (''do'', Array [Object [(''a'', Object [(''call'', String ''f''), (''then'', String ''end'')])]])]"

lemma sample_parses: "case parse sample_parsers sample_document of Inr w \<Rightarrow> length (wf_tasks w) = 1 | Inl _ \<Rightarrow> False"
  by code_simp


theorem task_parser_has_enough_fuel_witness:
  "task_at 9 sample_parsers \<lparr>ps_retries = [], ps_timeouts = []\<rparr> (Object [(''call'', String ''f'')]) []
     = task_of sample_parsers \<lparr>ps_retries = [], ps_timeouts = []\<rparr> (Object [(''call'', String ''f'')]) []"
  using task_parser_has_enough_fuel [of sample_parsers _ "Object [(''call'', String ''f'')]" "[]" 9] by simp

end
