(* ===== verification/Flow_Graph.thy ===== *)
theory Flow_Graph
  imports Dsl Iso_Duration
begin

text \<open>
  The flow of a task list (\<^verbatim>\<open>crates/ows/src/model.rs\<close>, end of section 3): where a task may continue, whether running it
  may leave the list from inside, and the jump cycles that nothing leaves, which validation rejects.
\<close>

section \<open>Edges\<close>

datatype next_task = NTask nat | NOut

definition flow_to :: "task_list \<Rightarrow> nat \<Rightarrow> flow \<Rightarrow> next_task" where
  "flow_to tasks i f =
     (case f of
        Continue \<Rightarrow> if i + 1 < length tasks then NTask (i + 1) else NOut
      | Goto name \<Rightarrow> (case position name (map fst tasks) of None \<Rightarrow> NOut | Some j \<Rightarrow> NTask j)
      | _ \<Rightarrow> NOut)"

definition dedup :: "'a list \<Rightarrow> 'a list" where
  "dedup xs = fold (\<lambda>x out. if x \<in> set out then out else out @ [x]) xs []"

definition successors :: "task_list \<Rightarrow> nat \<Rightarrow> next_task list" where
  "successors tasks i =
     (let t = snd (tasks ! i);
        own = (case tk_then t of None \<Rightarrow> flow_to tasks i Continue | Some f \<Rightarrow> flow_to tasks i f);
        out = (case tk_kind t of
            KRaise _ \<Rightarrow> [NOut]
          | KSwitch cases \<Rightarrow>
              map (\<lambda>(_, c). flow_to tasks i (sc_then c)) cases
              @ (if list_ex (\<lambda>(_, c). sc_when c = None) cases then [] else [own])
          | KTry _ c \<Rightarrow> [own, case ca_then c of None \<Rightarrow> own | Some f \<Rightarrow> flow_to tasks i f]
          | _ \<Rightarrow> [own])
      in dedup (out @ (if tk_when t \<noteq> None then [flow_to tasks i Continue] else [])))"

text \<open>\<^verbatim>\<open>name:version@default\<close> names a function of the default catalog.\<close>

definition function_name :: "string \<Rightarrow> string" where
  "function_name call =
     (case strip_suffix ''@default'' call of
        Some rest \<Rightarrow> (case split_once (CHR '':'') rest of None \<Rightarrow> rest | Some (n, _) \<Rightarrow> n)
      | None \<Rightarrow> call)"

fun can_leave :: "(string \<times> task) list \<Rightarrow> task \<Rightarrow> bool" and kind_leaves :: "(string \<times> task) list \<Rightarrow> kind \<Rightarrow> bool"
  and list_leaves :: "(string \<times> task) list \<Rightarrow> (string \<times> task) list \<Rightarrow> bool"
  and catch_leaves :: "(string \<times> task) list \<Rightarrow> catch \<Rightarrow> bool" and foreach_leaves :: "(string \<times> task) list \<Rightarrow> foreach \<Rightarrow> bool"
where
  "can_leave fs (MkTask delivery hold when input out export timeout thn k def) = kind_leaves fs k"
| "kind_leaves fs (KRaise r) = True"
| "kind_leaves fs (KCall f w) = list_ex (\<lambda>(n, _). n = function_name f) fs"
| "kind_leaves fs (KDo ts) = list_leaves fs ts"
| "kind_leaves fs (KFor each at items cond conc ts) = list_leaves fs ts"
| "kind_leaves fs (KFork ts compete) = list_leaves fs ts"
| "kind_leaves fs (KSwitch cases) = list_ex (\<lambda>(_, c). sc_then c = End) cases"
| "kind_leaves fs (KTry ts c) = (list_leaves fs ts \<or> catch_leaves fs c)"
| "kind_leaves fs (KListen s rd fe) = (case fe of None \<Rightarrow> False | Some f \<Rightarrow> foreach_leaves fs f)"
| "kind_leaves fs (KSet v) = False"
| "kind_leaves fs (KWait d) = False"
| "kind_leaves fs (KEmit m) = False"
| "kind_leaves fs (KRun r) = False"
| "list_leaves fs [] = False"
| "list_leaves fs ((name, t) # ts) = (tk_then t = Some End \<or> can_leave fs t \<or> list_leaves fs ts)"
| "catch_leaves fs (Catch errors as when except retry ts thn) =
     (thn = Some End \<or> (case ts of None \<Rightarrow> False | Some us \<Rightarrow> list_leaves fs us))"
| "foreach_leaves fs (Foreach item at ts out export) = list_leaves fs ts"

section \<open>Closed cycles\<close>

text \<open>
  A depth-first search: the stack's top is its head. The source indexes the row; an index out of range, which
  \<open>flow_to\<close> never gives, is left out here.
\<close>

definition targets :: "next_task list \<Rightarrow> nat list" where
  "targets es = List.map_filter (\<lambda>e. case e of NTask j \<Rightarrow> Some j | NOut \<Rightarrow> None) es"

function visit :: "nat list list \<Rightarrow> nat list \<Rightarrow> bool list \<Rightarrow> bool list" where
  "visit es [] row = row"
| "visit es (j # stack) row =
     (if j < length row \<and> \<not> row ! j then visit es (rev (es ! j) @ stack) (row[j := True]) else visit es stack row)"
  by pat_completeness auto
termination
proof (relation "measures [\<lambda>(es, stack, row). length (filter Not row), \<lambda>(es, stack, row). length stack]")
  fix es j stack and row :: "bool list"
  assume j: "j < length row \<and> \<not> row ! j"
  then have row: "row = take j row @ False # drop (Suc j) row" using id_take_nth_drop [of j row] by simp
  have "row[j := True] = take j row @ True # drop (Suc j) row" using j by (simp add: upd_conv_take_nth_drop)
  then have "length (filter Not (row[j := True])) < length (filter Not row)" by (subst (2) row) simp
  then show "((es, rev (es ! j) @ stack, row[j := True]), (es, j # stack, row))
    \<in> measures [\<lambda>(es, stack, row). length (filter Not row), \<lambda>(es, stack, row). length stack]" by simp
qed simp_all

definition reach :: "nat list list \<Rightarrow> bool list list" where
  "reach es = map (\<lambda>i. visit es (rev (es ! i)) (replicate (length es) False)) [0..<length es]"

definition component :: "bool list list \<Rightarrow> nat \<Rightarrow> nat list" where
  "component r i = filter (\<lambda>j. j = i \<or> (r ! i ! j \<and> r ! j ! i)) [0..<length r]"

definition component_leaves :: "task_list \<Rightarrow> (string \<times> task) list \<Rightarrow> nat list \<Rightarrow> bool" where
  "component_leaves tasks fs c =
     list_ex (\<lambda>j. can_leave fs (snd (tasks ! j))
       \<or> (1 < length (successors tasks j)
          \<and> list_ex (\<lambda>e. case e of NTask k \<Rightarrow> k \<notin> set c | NOut \<Rightarrow> True) (successors tasks j))) c"

fun cycles_in :: "task_list \<Rightarrow> (string \<times> task) list \<Rightarrow> bool list list \<Rightarrow> nat list \<Rightarrow> bool list \<Rightarrow> nat list list" where
  "cycles_in tasks fs r [] seen = []"
| "cycles_in tasks fs r (i # is) seen =
     (if seen ! i \<or> \<not> r ! i ! i then cycles_in tasks fs r is seen
      else
        let c = component r i; seen' = fold (\<lambda>j s. s[j := True]) c seen
        in if component_leaves tasks fs c then cycles_in tasks fs r is seen' else c # cycles_in tasks fs r is seen')"

definition edges :: "task_list \<Rightarrow> nat list list" where
  "edges tasks = map (\<lambda>i. targets (successors tasks i)) [0..<length tasks]"

definition closed_cycles :: "task_list \<Rightarrow> (string \<times> task) list \<Rightarrow> nat list list" where
  "closed_cycles tasks fs =
     cycles_in tasks fs (reach (edges tasks)) [0..<length tasks] (replicate (length tasks) False)"

end
