(* ===== verification/Validator.thy ===== *)
theory Validator
  imports Definition_Parser Flow_Graph
begin

text \<open>
  Validation (\<^verbatim>\<open>crates/ows/src/model.rs\<close>, section 3): what parsing cannot check. The problems are returned in the order the
  source pushes them. Compiling a jq expression against the variables in scope is the third-party compiler's, a
  parameter; so is the host's catalog of functions and capabilities.
\<close>

section \<open>The host\<close>

record host_catalog =
  hc_has :: "string \<Rightarrow> bool"
  hc_events :: bool
  hc_emits :: bool
  hc_children :: bool
  hc_processes :: "string \<Rightarrow> bool"
  hc_secrets :: bool
  hc_resources :: bool

type_synonym compiler = "string \<Rightarrow> args \<Rightarrow> string option"

record validator =
  vd_wf :: workflow
  vd_catalog :: host_catalog
  vd_check :: compiler

section \<open>Expressions\<close>

definition RUN :: string where
  "RUN = ''run''"

definition SECRETS :: string where
  "SECRETS = ''secrets''"

definition BASE_VARS :: "string list" where
  "BASE_VARS = [''context'', ''input'', ''output'', ''task'', ''workflow'', ''runtime'', RUN]"

definition base_args :: args where
  "base_args = fold (\<lambda>n a. args_set n Null a) BASE_VARS args_new"

definition names :: "args \<Rightarrow> string list" where
  "names a = map (drop 1) (arg_names a)"

text \<open>\<^verbatim>\<open>str::find\<close> and the slice after the match.\<close>

fun after_first :: "string \<Rightarrow> string \<Rightarrow> string option" where
  "after_first p [] = (if p = [] then Some [] else None)"
| "after_first p (c # cs) = (if take (length p) (c # cs) = p then Some (drop (length p) (c # cs)) else after_first p cs)"

definition is_word :: "char \<Rightarrow> bool" where
  "is_word c \<longleftrightarrow> is_digit c \<or> (let n = of_char c :: nat in (65 \<le> n \<and> n \<le> 90) \<or> (97 \<le> n \<and> n \<le> 122)) \<or> c = CHR ''_''"

lemma after_first_shorter: "after_first p s = Some r \<Longrightarrow> p \<noteq> [] \<Longrightarrow> length r < length s"
  by (induction p s rule: after_first.induct) (auto split: if_splits)

definition secret_at :: "string \<Rightarrow> string" where
  "secret_at rest =
     (case strip_prefix ''.'' rest of
        Some n \<Rightarrow> takeWhile is_word n
      | None \<Rightarrow>
          (case strip_prefix [CHR ''['', CHR 0x22] rest of
             Some n \<Rightarrow> takeWhile (\<lambda>c. c \<noteq> CHR 0x22) n
           | None \<Rightarrow> []))"

function secret_names :: "string \<Rightarrow> string list option" where
  "secret_names code =
     (case after_first ''$secrets'' code of
        None \<Rightarrow> Some []
      | Some rest \<Rightarrow>
          if rest \<noteq> [] \<and> is_word (hd rest) then secret_names rest
          else if secret_at rest = [] then None
          else map_option ((#) (secret_at rest)) (secret_names rest))"
  by pat_completeness auto
termination by (relation "measure length") (auto dest: after_first_shorter)

declare secret_names.simps [simp del]

type_synonym problems = "problem list"

definition check_secrets :: "validator \<Rightarrow> string \<Rightarrow> string \<Rightarrow> problems" where
  "check_secrets v code at =
     concat (map (\<lambda>name. if name \<in> set (us_secrets (wf_uses (vd_wf v))) then []
         else [problem at (''secret `'' @ name @ ''` is not declared under use.secrets'')])
       (case secret_names code of None \<Rightarrow> [] | Some ns \<Rightarrow> ns))"

definition check_expr :: "validator \<Rightarrow> string \<Rightarrow> string \<Rightarrow> args \<Rightarrow> problems" where
  "check_expr v code at a =
     (let compiled = (case vd_check v code a of None \<Rightarrow> [] | Some e \<Rightarrow> [problem at e]) in
      if str_contains ''$authorization'' code then
        [problem at (''`$authorization` describes a call's resolved authentication, which this runtime does not ''
          @ ''implement; functions carry their own credentials'')]
      else if str_contains ''$secrets'' code then
        (if SECRETS \<notin> set (names a) then [problem at ''`$secrets` is only available in `input.from`'']
         else check_secrets v code at @ compiled)
      else compiled)"

definition embeds_message :: "string \<Rightarrow> string" where
  "embeds_message s =
     ''`'' @ s @ ''` embeds `${` inside text; make the whole value one expression, e.g. '' @ [CHR 0x22] @ ''${ ''
     @ [CHR 0x5C, CHR 0x22] @ ''Hello '' @ [CHR 0x5C] @ ''(.name)'' @ [CHR 0x5C, CHR 0x22] @ '' }'' @ [CHR 0x22]"

definition check_template :: "validator \<Rightarrow> json \<Rightarrow> string \<Rightarrow> args \<Rightarrow> problems" where
  "check_template v t at a =
     concat (map (\<lambda>e. check_expr v e at a) (template_exprs t))
     @ map (\<lambda>s. problem at (embeds_message s)) (embedded_strings t)"

definition check_transform :: "validator \<Rightarrow> json option \<Rightarrow> string \<Rightarrow> args \<Rightarrow> problems" where
  "check_transform v t at a =
     (case t of
        Some (String code) \<Rightarrow> check_expr v code at a
      | Some o' \<Rightarrow> check_template v o' at a
      | None \<Rightarrow> [])"

definition check_schema :: "validator \<Rightarrow> schema option \<Rightarrow> string \<Rightarrow> problems" where
  "check_schema v s at =
     (case s of
        Some (Resource uri) \<Rightarrow>
          if hc_resources (vd_catalog v) then []
          else [problem at (''external schema `'' @ uri @ ''` needs a host resource resolver'')]
      | _ \<Rightarrow> [])"

definition check_input :: "validator \<Rightarrow> task_input \<Rightarrow> string \<Rightarrow> args \<Rightarrow> problems" where
  "check_input v i at a =
     check_schema v (in_schema i) (at @ ''/schema'')
     @ check_transform v (in_from i) (at @ ''/from'') (args_set SECRETS Null a)"

definition check_output :: "validator \<Rightarrow> task_output \<Rightarrow> string \<Rightarrow> args \<Rightarrow> problems" where
  "check_output v out at a =
     check_schema v (out_schema out) (at @ ''/schema'') @ check_transform v (out_as out) (at @ ''/as'') a"

text \<open>\<^verbatim>\<open>if let Some(x)\<close> around a check.\<close>

definition if_some :: "'a option \<Rightarrow> ('a \<Rightarrow> problems) \<Rightarrow> problems" where
  "if_some x f = (case x of None \<Rightarrow> [] | Some a \<Rightarrow> f a)"

definition unless :: "bool \<Rightarrow> string \<Rightarrow> string \<Rightarrow> problems" where
  "unless b at message = (if b then [] else [problem at message])"

definition check_duration :: "validator \<Rightarrow> duration_spec option \<Rightarrow> string \<Rightarrow> args \<Rightarrow> problems" where
  "check_duration v d at a = (case d of Some (DurationExpr e) \<Rightarrow> check_expr v e at a | _ \<Rightarrow> [])"

section \<open>Flow, variables and filters\<close>

definition check_flow :: "flow option \<Rightarrow> string \<Rightarrow> string list \<Rightarrow> problems" where
  "check_flow f at siblings =
     (case f of
        Some (Goto name) \<Rightarrow> unless (name \<in> set siblings) at
          (''`then: '' @ name @ ''` must name a task in the same list (flow directives cannot leave their scope)'')
      | _ \<Rightarrow> [])"

definition check_variable :: "string \<Rightarrow> string \<Rightarrow> problems" where
  "check_variable name at = unless (name \<noteq> RUN) at ''`run` is reserved for the runtime argument `$run`''"

definition check_filter :: "validator \<Rightarrow> event_filter \<Rightarrow> string \<Rightarrow> args \<Rightarrow> problems" where
  "check_filter v f at a =
     concat (map (\<lambda>(attribute, value).
         case Option.bind (as_str value) strip of
           Some code \<Rightarrow> check_expr v code (at @ ''/with/'' @ attribute) a
         | None \<Rightarrow> unless (\<not> (case as_str value of None \<Rightarrow> False | Some s \<Rightarrow> is_embedded s)) (at @ ''/with/'' @ attribute)
             ''embeds `${` inside text; make it one expression'') (with_attrs f))
     @ concat (map (\<lambda>(name, c).
         check_expr v (corr_from c) (at @ ''/correlate/'' @ name @ ''/from'') a
         @ if_some (Option.bind (corr_expect c) strip)
             (\<lambda>code. check_expr v code (at @ ''/correlate/'' @ name @ ''/expect'') a)) (correlate f))"

fun check_filters :: "validator \<Rightarrow> event_filter list \<Rightarrow> string \<Rightarrow> nat \<Rightarrow> args \<Rightarrow> problems" where
  "check_filters v [] at i a = []"
| "check_filters v (f # fs) at i a = check_filter v f (at @ ''/'' @ decimal i) a @ check_filters v fs at (Suc i) a"

fun check_strategy :: "validator \<Rightarrow> strategy \<Rightarrow> string \<Rightarrow> args \<Rightarrow> problems" where
  "check_strategy v (One f) at a = check_filter v f (at @ ''/one'') a"
| "check_strategy v (All fs) at a = check_filters v fs (at @ ''/all'') 0 a"
| "check_strategy v (Any fs None) at a = check_filters v fs (at @ ''/any'') 0 a"
| "check_strategy v (Any fs (Some (Condition c))) at a =
     check_filters v fs (at @ ''/any'') 0 a @ check_expr v c (at @ ''/until'') a"
| "check_strategy v (Any fs (Some (Events s))) at a =
     check_filters v fs (at @ ''/any'') 0 a @ check_strategy v s (at @ ''/until'') a"

section \<open>Tasks\<close>

definition exits :: "workflow \<Rightarrow> bool" where
  "exits w \<longleftrightarrow>
     list_ex (\<lambda>(_, e). list_ex (\<lambda>l. list_ex (\<lambda>(_, t). can_leave (us_functions (wf_uses w)) t) (case l of None \<Rightarrow> [] | Some ts \<Rightarrow> ts))
       [ex_before e, ex_after e]) (us_extensions (wf_uses w))"

definition check_cycles :: "validator \<Rightarrow> task_list \<Rightarrow> string \<Rightarrow> problems" where
  "check_cycles v ts at =
     (if exits (vd_wf v) then []
      else map (\<lambda>c. problem (at @ ''/'' @ decimal (c ! 0) @ ''/'' @ fst (ts ! (c ! 0)))
          (''the tasks '' @ join '', '' (map (\<lambda>i. fst (ts ! i)) c)
            @ '' jump in a cycle with no conditional way out (add a switch case or an `if` that leaves it)''))
        (closed_cycles ts (us_functions (wf_uses (vd_wf v)))))"

definition is_local :: "workflow \<Rightarrow> string \<Rightarrow> bool" where
  "is_local w name \<longleftrightarrow> list_ex (\<lambda>(n, _). n = name) (us_functions (wf_uses w))"

definition check_call :: "validator \<Rightarrow> delivery \<Rightarrow> string \<Rightarrow> json option \<Rightarrow> string \<Rightarrow> args \<Rightarrow> problems" where
  "check_call v delivery function w at a =
     (let name = function_name function; own = is_local (vd_wf v) name in
      unless (\<not> (own \<and> delivery \<noteq> AtLeastOnce)) (at @ ''/metadata/ouro/delivery'')
        ''put delivery on the external call inside the reusable function''
      @ unless (own \<or> hc_has (vd_catalog v) name) (at @ ''/call'') (''unknown function `'' @ function @ ''`'')
      @ if_some w (\<lambda>t. check_template v t (at @ ''/with'') a))"

fun check_cases :: "validator \<Rightarrow> (string \<times> switch_case) list \<Rightarrow> string \<Rightarrow> nat \<Rightarrow> args \<Rightarrow> string list \<Rightarrow> problems" where
  "check_cases v [] at i a siblings = []"
| "check_cases v ((name, c) # cs) at i a siblings =
     (let cat = at @ ''/switch/'' @ decimal i @ ''/'' @ name in
      if_some (sc_when c) (\<lambda>w. check_expr v w (cat @ ''/when'') a)
      @ check_flow (Some (sc_then c)) (cat @ ''/then'') siblings
      @ check_cases v cs at (Suc i) a siblings)"

definition check_retry :: "validator \<Rightarrow> retry \<Rightarrow> string \<Rightarrow> args \<Rightarrow> problems" where
  "check_retry v r at a =
     if_some (rt_when r) (\<lambda>c. check_expr v c (at @ ''/catch/retry/when'') a)
     @ if_some (rt_except_when r) (\<lambda>c. check_expr v c (at @ ''/catch/retry/exceptWhen'') a)
     @ concat (map (\<lambda>d. check_duration v d (at @ ''/catch/retry'') a) [rt_delay r, rt_attempt_duration r, rt_duration r])"

definition named_error :: "workflow \<Rightarrow> raise \<Rightarrow> error_def option" where
  "named_error w r = (case r of RaiseInline d \<Rightarrow> Some d | RaiseNamed name \<Rightarrow> map_of (us_errors (wf_uses w)) name)"

definition check_raise :: "validator \<Rightarrow> raise \<Rightarrow> string \<Rightarrow> args \<Rightarrow> problems" where
  "check_raise v r at a =
     (let def = named_error (vd_wf v) r in
      unless (def \<noteq> None) (at @ ''/raise/error'')
        (''no error `'' @ (case r of RaiseNamed name \<Rightarrow> name | _ \<Rightarrow> []) @ ''` under use.errors'')
      @ if_some def (\<lambda>d. concat (map (\<lambda>text. if_some (Option.bind text strip)
          (\<lambda>code. check_expr v code (at @ ''/raise/error'') a)) [ed_title d, ed_detail d])))"

definition check_run :: "validator \<Rightarrow> run_task \<Rightarrow> string \<Rightarrow> args \<Rightarrow> problems" where
  "check_run v r at a =
     (case rn_process r of
        ChildWorkflow namespace name version input \<Rightarrow>
          unless (hc_children (vd_catalog v)) (at @ ''/run/workflow'') ''child workflows are not supported by this host''
          @ if_some input (\<lambda>i. check_template v i (at @ ''/run/workflow/input'') a)
      | External kind def \<Rightarrow>
          unless (hc_processes (vd_catalog v) kind) (at @ ''/run/'' @ kind)
            (''run: '' @ kind @ '' needs a host process runner, and this host has none for it'')
          @ check_template v def (at @ ''/run/'' @ kind) a)"

text \<open>
  The recursion over tasks. \<open>check_list\<close> runs through a list with the running index and, at its end, checks the cycles of
  the whole list.
\<close>

fun check_task :: "validator \<Rightarrow> task \<Rightarrow> string \<Rightarrow> args \<Rightarrow> string list \<Rightarrow> problems"
  and check_kind :: "validator \<Rightarrow> kind \<Rightarrow> delivery \<Rightarrow> string \<Rightarrow> args \<Rightarrow> string list \<Rightarrow> problems"
  and check_list :: "validator \<Rightarrow> (string \<times> task) list \<Rightarrow> task_list \<Rightarrow> string \<Rightarrow> nat \<Rightarrow> args \<Rightarrow> problems"
  and check_branches :: "validator \<Rightarrow> (string \<times> task) list \<Rightarrow> string \<Rightarrow> nat \<Rightarrow> args \<Rightarrow> problems"
  and check_catch :: "validator \<Rightarrow> catch \<Rightarrow> string \<Rightarrow> args \<Rightarrow> string list \<Rightarrow> problems"
  and check_foreach :: "validator \<Rightarrow> foreach \<Rightarrow> string \<Rightarrow> args \<Rightarrow> problems"
where
  "check_task v (MkTask delivery hold w input out export timeout thn k def) = (\<lambda>at a siblings.
     if_some w (\<lambda>c. check_expr v (bare c) (at @ ''/if'') a)
     @ if_some input (\<lambda>i. check_input v i (at @ ''/input'') a)
     @ if_some out (\<lambda>o'. check_output v o' (at @ ''/output'') a)
     @ if_some export (\<lambda>e. check_output v e (at @ ''/export'') a)
     @ check_duration v timeout (at @ ''/timeout'') a
     @ check_flow thn (at @ ''/then'') siblings
     @ check_kind v k delivery at a siblings)"
| "check_kind v (KCall f w) = (\<lambda>delivery at a siblings. check_call v delivery f w at a)"
| "check_kind v (KDo ts) = (\<lambda>delivery at a siblings. check_list v ts ts (at @ ''/do'') 0 a)"
| "check_kind v (KFor each index items cond conc ts) = (\<lambda>delivery at a siblings.
     let inner = args_set index Null (args_set each Null a) in
     check_variable each (at @ ''/for/each'')
     @ check_variable index (at @ ''/for/at'')
     @ (case items of ItemsExpr e \<Rightarrow> check_expr v e (at @ ''/for/in'') a | Inline _ \<Rightarrow> [])
     @ if_some cond (\<lambda>c. check_expr v c (at @ ''/while'') inner)
     @ check_list v ts ts (at @ ''/do'') 0 inner)"
| "check_kind v (KFork ts compete) = (\<lambda>delivery at a siblings. check_branches v ts at 0 a)"
| "check_kind v (KSet x) = (\<lambda>delivery at a siblings.
     case x of
       String code \<Rightarrow> check_expr v (bare code) (at @ ''/set'') a
     | other \<Rightarrow> check_template v other (at @ ''/set'') a)"
| "check_kind v (KSwitch cases) = (\<lambda>delivery at a siblings. check_cases v cases at 0 a siblings)"
| "check_kind v (KTry ts c) = (\<lambda>delivery at a siblings.
     check_list v ts ts (at @ ''/try'') 0 a @ check_catch v c at a siblings)"
| "check_kind v (KRaise r) = (\<lambda>delivery at a siblings. check_raise v r at a)"
| "check_kind v (KListen s rd fe) = (\<lambda>delivery at a siblings.
     unless (hc_events (vd_catalog v)) (at @ ''/listen'') ''events are not supported by this host''
     @ check_strategy v s (at @ ''/listen/to'') a
     @ (case fe of None \<Rightarrow> [] | Some f \<Rightarrow> check_foreach v f at a))"
| "check_kind v (KEmit m) = (\<lambda>delivery at a siblings.
     unless (hc_emits (vd_catalog v)) (at @ ''/emit'') ''emitting events is not supported by this host''
     @ check_template v (Object m) (at @ ''/emit/event/with'') a)"
| "check_kind v (KRun r) = (\<lambda>delivery at a siblings. check_run v r at a)"
| "check_kind v (KWait d) = (\<lambda>delivery at a siblings. check_duration v (Some d) (at @ ''/wait'') a)"
| "check_list v [] = (\<lambda>whole at i a. check_cycles v whole at)"
| "check_list v ((name, t) # ts) = (\<lambda>whole at i a.
     check_task v t (at @ ''/'' @ decimal i @ ''/'' @ name) a (map fst whole)
     @ check_list v ts whole at (Suc i) a)"
| "check_branches v [] = (\<lambda>at i a. [])"
| "check_branches v ((name, t) # ts) = (\<lambda>at i a.
     check_task v t (at @ ''/fork/branches/'' @ decimal i @ ''/'' @ name) a [] @ check_branches v ts at (Suc i) a)"
| "check_catch v (Catch errors as w except retry handler thn) = (\<lambda>at a siblings.
     let caught = args_set as Null a in
     check_variable as (at @ ''/catch/as'')
     @ if_some w (\<lambda>c. check_expr v c (at @ ''/catch/when'') caught)
     @ if_some except (\<lambda>c. check_expr v c (at @ ''/catch/exceptWhen'') caught)
     @ if_some retry (\<lambda>r. check_retry v r at caught)
     @ (case handler of None \<Rightarrow> [] | Some ts \<Rightarrow> check_list v ts ts (at @ ''/catch/do'') 0 caught)
     @ check_flow thn (at @ ''/catch/then'') siblings)"
| "check_foreach v (Foreach item index ts out export) = (\<lambda>at a.
     let inner = args_set index Null (args_set item Null a) in
     check_variable item (at @ ''/foreach/item'')
     @ check_variable index (at @ ''/foreach/at'')
     @ check_list v ts ts (at @ ''/foreach/do'') 0 inner
     @ if_some out (\<lambda>o'. check_output v o' (at @ ''/foreach/output'') inner)
     @ if_some export (\<lambda>e. check_output v e (at @ ''/foreach/export'') inner))"

section \<open>The definition\<close>

definition check_extension_list :: "validator \<Rightarrow> string \<Rightarrow> string \<Rightarrow> args \<Rightarrow> task_list option \<Rightarrow> problems" where
  "check_extension_list v at key a l = if_some l (\<lambda>ts. check_list v ts ts (at @ ''/'' @ key) 0 a)"

fun check_extensions :: "validator \<Rightarrow> (string \<times> extension) list \<Rightarrow> nat \<Rightarrow> args \<Rightarrow> problems" where
  "check_extensions v [] i a = []"
| "check_extensions v ((name, e) # es) i a =
     (let at = ''/use/extensions/'' @ decimal i @ ''/'' @ name in
      if_some (ex_when e) (\<lambda>w. check_expr v w (at @ ''/when'') a)
      @ check_extension_list v at ''before'' a (ex_before e)
      @ check_extension_list v at ''after'' a (ex_after e)
      @ check_extensions v es (Suc i) a)"

definition check_workflow :: "validator \<Rightarrow> problems" where
  "check_workflow v =
     (let w = vd_wf v; a = base_args in
      unless (us_secrets (wf_uses w) = [] \<or> hc_secrets (vd_catalog v)) ''/use/secrets'' ''secrets need a host secret resolver''
      @ if_some (wf_input w) (\<lambda>i. check_input v i ''/input'' a)
      @ if_some (wf_output w) (\<lambda>o'. check_output v o' ''/output'' a)
      @ concat (map (\<lambda>(name, f). check_task v f (''/use/functions/'' @ name) a []) (us_functions (wf_uses w)))
      @ check_extensions v (us_extensions (wf_uses w)) 0 a
      @ if_some (Option.bind (wf_schedule w) sd_on) (\<lambda>s. check_strategy v s ''/schedule/on'' a)
      @ (case bg_on_exceeded (wf_budget w) of
           ExceededTask h \<Rightarrow> check_task v h ''/document/metadata/ouro/limits/on_exceeded'' a []
         | _ \<Rightarrow> [])
      @ check_list v (wf_tasks w) (wf_tasks w) ''/do'' 0 a)"

definition validate :: "compiler \<Rightarrow> workflow \<Rightarrow> host_catalog \<Rightarrow> problems + unit" where
  "validate jqc w cat =
     (let ps = check_workflow \<lparr>vd_wf = w, vd_catalog = cat, vd_check = jqc\<rparr> in
      if ps = [] then Inr () else Inl ps)"

section \<open>Static analysis\<close>

text \<open>
  \<^verbatim>\<open>lists\<close> visits every task with its reference; here it returns them in the order visited.
\<close>

fun task_visits :: "task \<Rightarrow> string \<Rightarrow> (task \<times> string) list" and kind_visits :: "kind \<Rightarrow> string \<Rightarrow> (task \<times> string) list"
  and list_visits :: "(string \<times> task) list \<Rightarrow> string \<Rightarrow> nat \<Rightarrow> (task \<times> string) list"
  and catch_visits :: "catch \<Rightarrow> string \<Rightarrow> (task \<times> string) list" and foreach_visits :: "foreach \<Rightarrow> string \<Rightarrow> (task \<times> string) list"
where
  "task_visits (MkTask delivery hold w input out export timeout thn k def) = (\<lambda>at.
     (MkTask delivery hold w input out export timeout thn k def, at) # kind_visits k at)"
| "kind_visits (KDo ts) = (\<lambda>at. list_visits ts (at @ ''/do'') 0)"
| "kind_visits (KFor each index items cond conc ts) = (\<lambda>at. list_visits ts (at @ ''/do'') 0)"
| "kind_visits (KFork ts compete) = (\<lambda>at. list_visits ts (at @ ''/fork/branches'') 0)"
| "kind_visits (KTry ts c) = (\<lambda>at. list_visits ts (at @ ''/try'') 0 @ catch_visits c at)"
| "kind_visits (KListen s rd fe) = (\<lambda>at. case fe of None \<Rightarrow> [] | Some f \<Rightarrow> foreach_visits f at)"
| "kind_visits (KSet x) = (\<lambda>at. [])"
| "kind_visits (KSwitch cases) = (\<lambda>at. [])"
| "kind_visits (KRaise r) = (\<lambda>at. [])"
| "kind_visits (KWait d) = (\<lambda>at. [])"
| "kind_visits (KEmit m) = (\<lambda>at. [])"
| "kind_visits (KRun r) = (\<lambda>at. [])"
| "kind_visits (KCall f x) = (\<lambda>at. [])"
| "list_visits [] = (\<lambda>at i. [])"
| "list_visits ((name, t) # ts) = (\<lambda>at i.
     task_visits t (at @ ''/'' @ decimal i @ ''/'' @ name) @ list_visits ts at (Suc i))"
| "catch_visits (Catch errors as w except retry handler thn) = (\<lambda>at.
     case handler of None \<Rightarrow> [] | Some ts \<Rightarrow> list_visits ts (at @ ''/catch/do'') 0)"
| "foreach_visits (Foreach item index ts out export) = (\<lambda>at. list_visits ts (at @ ''/foreach/do'') 0)"

fun extension_visits :: "(string \<times> extension) list \<Rightarrow> nat \<Rightarrow> (task \<times> string) list" where
  "extension_visits [] i = []"
| "extension_visits ((name, e) # es) i =
     (let at = ''/use/extensions/'' @ decimal i @ ''/'' @ name in
      (case ex_before e of None \<Rightarrow> [] | Some ts \<Rightarrow> list_visits ts (at @ ''/before'') 0)
      @ (case ex_after e of None \<Rightarrow> [] | Some ts \<Rightarrow> list_visits ts (at @ ''/after'') 0)
      @ extension_visits es (Suc i))"

definition lists :: "workflow \<Rightarrow> (task \<times> string) list" where
  "lists w =
     concat (map (\<lambda>(name, f). task_visits f (''/use/functions/'' @ name)) (us_functions (wf_uses w)))
     @ extension_visits (us_extensions (wf_uses w)) 0
     @ list_visits (wf_tasks w) ''/do'' 0"

record call_site =
  cs_reference :: string
  cs_function :: string
  cs_with :: "json option"
  cs_delivery :: delivery

definition call_sites :: "workflow \<Rightarrow> call_site list" where
  "call_sites w = List.map_filter (\<lambda>(t, at).
     case tk_kind t of
       KCall f x \<Rightarrow> Some \<lparr>cs_reference = at, cs_function = function_name f, cs_with = x, cs_delivery = tk_delivery t\<rparr>
     | _ \<Rightarrow> None) (lists w)"

definition processes :: "workflow \<Rightarrow> process list" where
  "processes w = List.map_filter (\<lambda>(t, at). case tk_kind t of KRun r \<Rightarrow> Some (rn_process r) | _ \<Rightarrow> None) (lists w)"

definition io_schemas :: "task_input option \<Rightarrow> task_output option \<Rightarrow> task_output option \<Rightarrow> schema option list" where
  "io_schemas i out e = [Option.bind i in_schema, Option.bind out out_schema, Option.bind e out_schema]"

definition schema_resources :: "workflow \<Rightarrow> string list" where
  "schema_resources w =
     fold (\<lambda>s out. case s of Some (Resource uri) \<Rightarrow> if uri \<in> set out then out else out @ [uri] | _ \<Rightarrow> out)
       (io_schemas (wf_input w) (wf_output w) None
        @ concat (map (\<lambda>(t, at). io_schemas (tk_input t) (tk_output t) (tk_export t)
            @ (case tk_kind t of KListen _ _ (Some f) \<Rightarrow> io_schemas None (fe_output f) (fe_export f) | _ \<Rightarrow> [])) (lists w))) []"

end
