(* ===== verification/Registry.thy ===== *)
theory Registry
  imports Workflow_Parser Validator
begin

text \<open>
  Host functions and the start check (\<^verbatim>\<open>crates/runtime/src/registry.rs\<close>, \<^verbatim>\<open>capabilities.rs\<close>, and the admitter's
  \<^verbatim>\<open>check_tree\<close> and \<^verbatim>\<open>target\<close> of \<^verbatim>\<open>execution.rs\<close>): the registry, validation against it, the bindings a run is admitted
  with, the installed registry by generation, and the check that every function a definition can call is registered,
  cached per definition version and generation. Handlers, the JSON Schema library and the text hash are parameters; the
  capabilities are what validation asks of them.
\<close>

section \<open>Functions\<close>

record host_function =
  hf_name :: string
  hf_input_schema :: json
  hf_output_schema :: json
  hf_delivery :: delivery

record schema_library =
  sl_compile :: "json \<Rightarrow> string option"
  sl_validate :: "json \<Rightarrow> json \<Rightarrow> string option"

type_synonym registry = "(string, host_function) btree"

record capabilities =
  cp_runs :: "(string \<Rightarrow> bool) option"
  cp_secrets :: bool
  cp_resources :: "(string \<Rightarrow> string + json) option"

definition builtin :: "string \<Rightarrow> bool" where
  "builtin name \<longleftrightarrow> name = ''start_child'' \<or> name = ''child_outcome''"

definition register :: "schema_library \<Rightarrow> host_function \<Rightarrow> registry \<Rightarrow> string + registry" where
  "register x f r =
     (if hf_name f = [] \<or> builtin (hf_name f) then Inl ''empty or reserved function name''
      else if bt_has r (hf_name f) then Inl (''function '' @ hf_name f @ '' already registered'')
      else
        case sl_compile x (hf_input_schema f) of
          Some e \<Rightarrow> Inl e
        | None \<Rightarrow>
            (case sl_compile x (hf_output_schema f) of
               Some e \<Rightarrow> Inl e
             | None \<Rightarrow> Inr (bt_insert (hf_name f) f r)))"

definition registry_has :: "registry \<Rightarrow> string \<Rightarrow> bool" where
  "registry_has r name \<longleftrightarrow> bt_has r name \<or> builtin name"

definition runs_process :: "capabilities \<Rightarrow> string \<Rightarrow> bool" where
  "runs_process c kind = (case cp_runs c of None \<Rightarrow> False | Some p \<Rightarrow> p kind)"

text \<open>The catalog validation sees: events, emits and child workflows are the runtime's own.\<close>

definition catalog_of :: "registry \<Rightarrow> capabilities \<Rightarrow> host_catalog" where
  "catalog_of r c = \<lparr>hc_has = registry_has r, hc_events = True, hc_emits = True, hc_children = True,
     hc_processes = runs_process c, hc_secrets = cp_secrets c, hc_resources = (cp_resources c \<noteq> None)\<rparr>"

fun has_expression :: "json \<Rightarrow> bool" where
  "has_expression (String s) = str_contains ''${'' s"
| "has_expression (Array vs) = list_ex has_expression vs"
| "has_expression (Object m) = list_ex (\<lambda>(k, v). has_expression v) m"
| "has_expression _ = False"

section \<open>Validation against the registry\<close>

datatype invalid = InvalidDsl "problem list" | BadCall string

record world =
  wo_parsers :: host_parsers
  wo_compiler :: compiler
  wo_schemas :: schema_library

text \<open>\<^verbatim>\<open>value["member"]\<close>: \<^verbatim>\<open>null\<close> when there is none.\<close>

definition index :: "json \<Rightarrow> string \<Rightarrow> json" where
  "index v k = (case member_of v k of None \<Rightarrow> Null | Some w \<Rightarrow> w)"

fun needs_arguments :: "call_site \<Rightarrow> members \<Rightarrow> json list \<Rightarrow> invalid + unit" where
  "needs_arguments site given [] = Inr ()"
| "needs_arguments site given (v # vs) =
     (case as_str v of
        Some name \<Rightarrow>
          if contains_key given name then needs_arguments site given vs
          else Inl (BadCall (cs_reference site @ '': '' @ cs_function site @ '' needs argument '' @ name))
      | None \<Rightarrow> needs_arguments site given vs)"

fun takes_arguments :: "call_site \<Rightarrow> members \<Rightarrow> members \<Rightarrow> invalid + unit" where
  "takes_arguments site properties [] = Inr ()"
| "takes_arguments site properties ((name, v) # given) =
     (if contains_key properties name then takes_arguments site properties given
      else Inl (BadCall (cs_reference site @ '': '' @ cs_function site @ '' takes no argument '' @ name)))"

definition check_site :: "schema_library \<Rightarrow> registry \<Rightarrow> call_site \<Rightarrow> invalid + unit" where
  "check_site x r site =
     (case bt_get r (cs_function site) of
        None \<Rightarrow> Inr ()
      | Some f \<Rightarrow>
          let given = (case cs_with site of None \<Rightarrow> Object [] | Some v \<Rightarrow> v) in
          if \<not> has_expression given then
            (case sl_validate x (hf_input_schema f) given of
               Some e \<Rightarrow> Inl (BadCall (cs_reference site @ '': '' @ cs_function site @ '' input: '' @ e))
             | None \<Rightarrow> Inr ())
          else
            (case given of
               Object m \<Rightarrow>
                 and_then (case index (hf_input_schema f) ''required'' of Array vs \<Rightarrow> needs_arguments site m vs | _ \<Rightarrow> Inr ()) (\<lambda>_.
                   if index (hf_input_schema f) ''additionalProperties'' = Bool False then
                     (case index (hf_input_schema f) ''properties'' of
                        Object properties \<Rightarrow> takes_arguments site properties m
                      | _ \<Rightarrow> Inr ())
                   else Inr ())
             | _ \<Rightarrow> Inr ()))"

fun check_sites :: "schema_library \<Rightarrow> registry \<Rightarrow> call_site list \<Rightarrow> invalid + unit" where
  "check_sites x r [] = Inr ()"
| "check_sites x r (s # ss) = and_then (check_site x r s) (\<lambda>_. check_sites x r ss)"

definition validate_with :: "world \<Rightarrow> registry \<Rightarrow> string \<Rightarrow> capabilities \<Rightarrow> invalid + workflow" where
  "validate_with o' r yaml c =
     and_then (map_sum InvalidDsl id (parse_yaml (wo_parsers o') yaml)) (\<lambda>w.
     and_then (map_sum InvalidDsl id (validate (wo_compiler o') w (catalog_of r c))) (\<lambda>_.
     and_then (check_sites (wo_schemas o') r (call_sites w)) (\<lambda>_.
     Inr w)))"

definition delivery_json :: "delivery \<Rightarrow> json" where
  "delivery_json d = String (case d of AtLeastOnce \<Rightarrow> ''at_least_once'' | AtMostOnce \<Rightarrow> ''at_most_once'')"

definition binding_of :: "host_function \<Rightarrow> json" where
  "binding_of f = object [(''input'', hf_input_schema f), (''output'', hf_output_schema f), (''delivery'', delivery_json (hf_delivery f))]"

definition bindings :: "registry \<Rightarrow> workflow \<Rightarrow> json" where
  "bindings r w =
     Object (fold (\<lambda>site m. case bt_get r (cs_function site) of
         None \<Rightarrow> m
       | Some f \<Rightarrow> obj_insert (cs_function site) (binding_of f) m) (call_sites w) [])"

section \<open>What a definition needs\<close>

record needs =
  nd_missing :: "string option"
  nd_children :: "(string \<times> string \<times> string) list"

fun scan_processes :: "capabilities \<Rightarrow> process list \<Rightarrow> needs \<Rightarrow> needs" where
  "scan_processes c [] n = n"
| "scan_processes c (ChildWorkflow namespace name version input # ps) n =
     scan_processes c ps (n\<lparr>nd_children := nd_children n @ [(namespace, name, version)]\<rparr>)"
| "scan_processes c (External kind def # ps) n =
     scan_processes c ps
       (if nd_missing n = None \<and> \<not> runs_process c kind then n\<lparr>nd_missing := Some (process_function kind)\<rparr> else n)"

definition needs_of :: "host_parsers \<Rightarrow> string \<Rightarrow> registry \<Rightarrow> capabilities \<Rightarrow> needs" where
  "needs_of x yaml r c =
     (case parse_yaml x yaml of
        Inl _ \<Rightarrow> \<lparr>nd_missing = None, nd_children = []\<rparr>
      | Inr w \<Rightarrow>
          scan_processes c (processes w)
            \<lparr>nd_missing = List.find (\<lambda>name. \<not> is_local w name \<and> \<not> registry_has r name) (map cs_function (call_sites w)),
             nd_children = []\<rparr>)"

section \<open>The installed registry\<close>

type_synonym check_key = "string \<times> nat \<times> nat \<times> nat"
type_synonym checks = "(check_key \<times> needs) list"

record installed =
  ir_registry :: registry
  ir_generation :: nat
  ir_checks :: checks

definition installed_new :: "registry \<Rightarrow> installed" where
  "installed_new r = \<lparr>ir_registry = r, ir_generation = 0, ir_checks = []\<rparr>"

definition replace :: "registry \<Rightarrow> installed \<Rightarrow> installed" where
  "replace r i = \<lparr>ir_registry = r, ir_generation = ir_generation i + 1, ir_checks = []\<rparr>"

record checker =
  ck_parsers :: host_parsers
  ck_hash :: "string \<Rightarrow> nat"
  ck_registry :: registry
  ck_generation :: nat
  ck_capabilities :: capabilities

definition cached_needs :: "checker \<Rightarrow> string \<Rightarrow> nat \<Rightarrow> string \<Rightarrow> checks \<Rightarrow> needs \<times> checks" where
  "cached_needs k name version yaml cache =
     (let key = (name, version, ck_hash k yaml, ck_generation k) in
      case map_of cache key of
        Some n \<Rightarrow> (n, cache)
      | None \<Rightarrow>
          let n = needs_of (ck_parsers k) yaml (ck_registry k) (ck_capabilities k) in (n, (key, n) # cache))"

section \<open>The start check\<close>

record missing_function =
  mf_function :: string
  mf_path :: "(string \<times> nat) list"

fun path_text :: "(string \<times> nat) list \<Rightarrow> string" where
  "path_text [] = []"
| "path_text [(name, version)] = name @ '' version '' @ decimal version"
| "path_text ((name, version) # p # ps) = name @ '' version '' @ decimal version @ '' > '' @ path_text (p # ps)"

definition missing_text :: "missing_function \<Rightarrow> string" where
  "missing_text m =
     ''function `'' @ mf_function m @ ''` is not registered''
     @ (if mf_path m = [] then [] else ''; called by '' @ path_text (mf_path m))"

definition missing_error :: "missing_function \<Rightarrow> workflow_error" where
  "missing_error m = standard ''configuration'' 400 ''Configuration Error'' (missing_text m)"

text \<open>The namespace and the version of a stored definition's document.\<close>

definition document_of :: "host_parsers \<Rightarrow> definition_version \<Rightarrow> (string \<times> string) option" where
  "document_of x d =
     (case hp_yaml x (dv_yaml d) of
        Inl _ \<Rightarrow> None
      | Inr v \<Rightarrow>
          Option.bind (member_of v ''document'') (\<lambda>doc.
          Option.bind (Option.bind (member_of doc ''namespace'') as_str) (\<lambda>ns.
          Option.bind (Option.bind (member_of doc ''version'') as_str) (\<lambda>vs.
          Some (ns, vs)))))"

definition target :: "host_parsers \<Rightarrow> (string \<Rightarrow> definitions) \<Rightarrow> string \<times> string \<times> string \<Rightarrow> definition_version option" where
  "target x defs t =
     (case t of (namespace, name, version) \<Rightarrow>
        let ds = defs name;
          candidate =
            (if version = ''latest'' then Option.bind (d_active ds) (bt_get (d_versions ds))
             else List.find (\<lambda>d. case document_of x d of None \<Rightarrow> False | Some (_, v) \<Rightarrow> v = version)
               (rev (bt_values (d_versions ds))))
        in Option.bind candidate (\<lambda>d.
             if (case document_of x d of None \<Rightarrow> False | Some (ns, _) \<Rightarrow> ns = namespace) then Some d else None))"

text \<open>
  The walk over the children: a definition reached twice was checked already. The path is pushed before the children and
  popped after them, so it is an argument here; the versions seen and the cached checks are threaded. The fuel bounds the
  nesting; \<open>Start_Check\<close> proves that one more than the versions the catalog holds is enough. \<open>None\<close> is out of fuel.
\<close>

type_synonym walk = "(missing_function + unit) option \<times> (string \<times> nat) list \<times> checks"

function (sequential) check_tree :: "nat \<Rightarrow> checker \<Rightarrow> (string \<Rightarrow> definitions) \<Rightarrow> string \<Rightarrow> nat \<Rightarrow> string \<Rightarrow> (string \<times> nat) list \<Rightarrow>
    (string \<times> nat) list \<Rightarrow> checks \<Rightarrow> walk"
  and check_children :: "nat \<Rightarrow> checker \<Rightarrow> (string \<Rightarrow> definitions) \<Rightarrow> (string \<times> string \<times> string) list \<Rightarrow> (string \<times> nat) list \<Rightarrow>
    (string \<times> nat) list \<Rightarrow> checks \<Rightarrow> walk"
where
  "check_tree 0 k defs name version yaml path seen cache = (None, seen, cache)"
| "check_tree (Suc fuel) k defs name version yaml path seen cache =
     (if (name, version) \<in> set seen then (Some (Inr ()), seen, cache)
      else
        let path = path @ [(name, version)]; seen = (name, version) # seen;
          (n, cache) = cached_needs k name version yaml cache
        in case nd_missing n of
             Some f \<Rightarrow> (Some (Inl \<lparr>mf_function = f, mf_path = path\<rparr>), seen, cache)
           | None \<Rightarrow> check_children fuel k defs (nd_children n) path seen cache)"
| "check_children fuel k defs [] path seen cache = (Some (Inr ()), seen, cache)"
| "check_children fuel k defs (t # ts) path seen cache =
     (case target (ck_parsers k) defs t of
        None \<Rightarrow> check_children fuel k defs ts path seen cache
      | Some d \<Rightarrow>
          (case check_tree fuel k defs (dv_name d) (dv_version d) (dv_yaml d) path seen cache of
             (outcome, seen, cache) \<Rightarrow>
               if outcome = Some (Inr ()) then check_children fuel k defs ts path seen cache
               else (outcome, seen, cache)))"
  by pat_completeness auto
termination
  by (relation "measures [case_sum (\<lambda>x. fst x) (\<lambda>x. fst x), case_sum (\<lambda>_. 0) (\<lambda>(_, _, _, ts, _). Suc (length ts))]") auto

definition check_start :: "nat \<Rightarrow> checker \<Rightarrow> (string \<Rightarrow> definitions) \<Rightarrow> string \<Rightarrow> nat \<Rightarrow> string \<Rightarrow> checks \<Rightarrow> walk" where
  "check_start fuel k defs name version yaml cache = check_tree fuel k defs name version yaml [] [] cache"

end
