(* ===== verification/Flow_Rules.thy ===== *)
theory Flow_Rules
  imports Flow_Graph
begin

text \<open>
  What the cycle check of validation establishes: the search computes reachability, the cycles reported are exactly
  the components that nothing leaves, and in a list without any, the end can be reached from every task.
\<close>

section \<open>Reachability\<close>

definition goes :: "task_list \<Rightarrow> nat \<Rightarrow> nat \<Rightarrow> bool" where
  "goes tasks i j \<longleftrightarrow> i < length tasks \<and> NTask j \<in> set (successors tasks i)"

abbreviation reaches :: "task_list \<Rightarrow> nat \<Rightarrow> nat \<Rightarrow> bool" where
  "reaches tasks \<equiv> (goes tasks)\<^sup>+\<^sup>+"

lemma set_dedup: "set (dedup xs) = set xs"
proof -
  have "set (fold (\<lambda>x out. if x \<in> set out then out else out @ [x]) xs out) = set out \<union> set xs" for out
    by (induction xs arbitrary: out) auto
  then show ?thesis by (simp add: dedup_def)
qed

lemma position_bound: "position x xs = Some i \<Longrightarrow> i < length xs"
  by (induction xs arbitrary: i) (auto split: if_splits)

lemma flow_to_bound: "flow_to tasks i f = NTask j \<Longrightarrow> j < length tasks"
  by (auto simp: flow_to_def dest: position_bound split: flow.splits if_splits option.splits)

lemma goes_bound: "goes tasks i j \<Longrightarrow> i < length tasks \<and> j < length tasks"
  unfolding goes_def successors_def Let_def set_dedup
  by (auto dest!: sym [of "NTask j"] dest: flow_to_bound split: kind.splits option.splits if_splits)

lemma successors_nonempty: "successors tasks i \<noteq> []"
proof -
  have "set (successors tasks i) \<noteq> {}"
    unfolding successors_def Let_def set_dedup by (auto split: kind.splits)
  then show ?thesis by auto
qed

lemma set_targets: "j \<in> set (targets es) \<longleftrightarrow> NTask j \<in> set es"
  by (force simp: targets_def List.map_filter_def split: next_task.splits)

lemma edges_iff: "i < length tasks \<Longrightarrow> j \<in> set (edges tasks ! i) \<longleftrightarrow> goes tasks i j"
  by (simp add: edges_def set_targets goes_def)

lemma visit_skip: "\<not> (j < length row \<and> \<not> row ! j) \<Longrightarrow> visit es (j # stack) row = visit es stack row"
  by (simp only: visit.simps if_False)

lemma visit_mark: "j < length row \<and> \<not> row ! j \<Longrightarrow> visit es (j # stack) row = visit es (rev (es ! j) @ stack) (row[j := True])"
  by (simp only: visit.simps simp_thms if_True)

lemma length_visit [simp]: "length (visit es stack row) = length row"
  by (induction es stack row rule: visit.induct) auto

text \<open>
  The search marks what was marked, and what a path from the stack reaches without passing a marked place.
\<close>

lemma visit_keeps: "row ! j \<Longrightarrow> visit es stack row ! j"
proof (induction es stack row rule: visit.induct)
  case (2 es k stack row)
  then show ?case by (cases "j = k") (auto simp: nth_list_update split: if_splits)
qed simp

lemma visit_stack: "j \<in> set stack \<Longrightarrow> j < length row \<Longrightarrow> visit es stack row ! j"
proof (induction es stack row rule: visit.induct)
  case (2 es k stack row)
  show ?case
  proof (cases "j = k")
    case True
    then show ?thesis using 2(4) visit_keeps [of "row[k := True]" k] visit_keeps [of row k] by auto
  qed (use 2 in auto)
qed simp

lemma visit_closed:
  assumes "\<forall>k l. k < length row \<longrightarrow> row ! k \<longrightarrow> l \<in> set (es ! k) \<longrightarrow> l < length row \<longrightarrow> row ! l \<or> l \<in> set stack"
    and "visit es stack row ! k" and "k < length row" and "l \<in> set (es ! k)" and "l < length row"
  shows "visit es stack row ! l"
  using assms
proof (induction es stack row rule: visit.induct)
  case (1 es row)
  have "row ! k" using "1.prems"(2) by simp
  then have "row ! l \<or> l \<in> set []" using "1.prems"(1,3-5) by blast
  then show ?case by simp
next
  case (2 es j stack row)
  show ?case
  proof (cases "j < length row \<and> \<not> row ! j")
    case True
    have "\<forall>k l. k < length (row[j := True]) \<longrightarrow> row[j := True] ! k \<longrightarrow> l \<in> set (es ! k) \<longrightarrow> l < length (row[j := True])
        \<longrightarrow> row[j := True] ! l \<or> l \<in> set (rev (es ! j) @ stack)"
    proof (intro allI impI)
      fix k l assume kl: "k < length (row[j := True])" "row[j := True] ! k" "l \<in> set (es ! k)" "l < length (row[j := True])"
      show "row[j := True] ! l \<or> l \<in> set (rev (es ! j) @ stack)"
      proof (cases "k = j")
        case False
        then have "row ! l \<or> l \<in> set (j # stack)" using "2.prems"(1) kl by simp
        then show ?thesis using kl(4) by (cases "l = j") auto
      qed (use kl in simp)
    qed
    then show ?thesis using "2.IH"(1) [OF True] "2.prems"(2-5) True by simp
  next
    case False
    have "\<forall>k l. k < length row \<longrightarrow> row ! k \<longrightarrow> l \<in> set (es ! k) \<longrightarrow> l < length row \<longrightarrow> row ! l \<or> l \<in> set stack"
      using "2.prems"(1) False by (metis set_ConsD)
    then show ?thesis using "2.IH"(2) [OF False] "2.prems"(2-5) unfolding visit_skip [OF False] by blast
  qed
qed

lemma visit_sound:
  assumes "visit es stack row ! j" and "j < length row"
    and "\<forall>k < length row. row ! k \<longrightarrow> P k" and "\<forall>k \<in> set stack. k < length row \<longrightarrow> P k"
    and "\<forall>k l. P k \<longrightarrow> k < length row \<longrightarrow> l \<in> set (es ! k) \<longrightarrow> P l"
  shows "P j"
  using assms
proof (induction es stack row rule: visit.induct)
  case (1 es row)
  then show ?case by simp
next
  case (2 es k stack row)
  show ?case
  proof (cases "k < length row \<and> \<not> row ! k")
    case True
    have "P k" using "2.prems"(4) True by simp
    have "\<forall>l < length (row[k := True]). row[k := True] ! l \<longrightarrow> P l"
    proof (intro allI impI)
      fix l assume "l < length (row[k := True])" and "row[k := True] ! l"
      then show "P l" using "2.prems"(3) \<open>P k\<close> by (cases "l = k") simp_all
    qed
    moreover have "\<forall>l \<in> set (rev (es ! k) @ stack). l < length (row[k := True]) \<longrightarrow> P l"
      using "2.prems"(4,5) \<open>P k\<close> True by auto
    ultimately show ?thesis using "2.IH"(1) [OF True] "2.prems"(1,2,5) True by simp
  next
    case False
    have "\<forall>l \<in> set stack. l < length row \<longrightarrow> P l" using "2.prems"(4) by simp
    then show ?thesis using "2.IH"(2) [OF False] "2.prems"(1-3,5) unfolding visit_skip [OF False] by blast
  qed
qed

lemma length_edges [simp]: "length (edges tasks) = length tasks"
  by (simp add: edges_def)

lemma length_reach [simp]: "length (reach es) = length es"
  by (simp add: reach_def)

lemma reach_iff:
  assumes "i < length tasks" and "j < length tasks"
  shows "reach (edges tasks) ! i ! j \<longleftrightarrow> reaches tasks i j"
proof -
  let ?es = "edges tasks" and ?row = "replicate (length tasks) False"
  let ?v = "visit ?es (rev (?es ! i)) ?row"
  have start: "k \<in> set (rev (?es ! i)) \<longleftrightarrow> goes tasks i k" for k using edges_iff [OF assms(1)] by simp
  have "reaches tasks i j" if "?v ! j"
  proof (rule visit_sound [OF that])
    show "\<forall>k l. reaches tasks i k \<longrightarrow> k < length ?row \<longrightarrow> l \<in> set (?es ! k) \<longrightarrow> reaches tasks i l"
      using edges_iff by (metis length_replicate tranclp.trancl_into_trancl)
    show "\<forall>k \<in> set (rev (?es ! i)). k < length ?row \<longrightarrow> reaches tasks i k" using start by blast
  qed (use assms in simp_all)
  moreover have "?v ! j" if "reaches tasks i j"
    using that
  proof (induction rule: tranclp_induct)
    case (base k)
    then show ?case using visit_stack [of k "rev (?es ! i)" ?row ?es] start goes_bound by auto
  next
    case (step k l)
    show ?case
      using visit_closed [of ?row ?es "rev (?es ! i)" k l] step goes_bound [OF step(2)] edges_iff [of k tasks l] by simp
  qed
  ultimately show ?thesis using assms by (auto simp: reach_def)
qed

section \<open>The cycles reported\<close>

definition mutual :: "task_list \<Rightarrow> nat \<Rightarrow> nat \<Rightarrow> bool" where
  "mutual tasks i j \<longleftrightarrow> reaches tasks i j \<and> reaches tasks j i"

definition cycle_of :: "task_list \<Rightarrow> nat \<Rightarrow> nat list" where
  "cycle_of tasks i = filter (mutual tasks i) [0..<length tasks]"

definition sealed :: "task_list \<Rightarrow> (string \<times> task) list \<Rightarrow> nat list \<Rightarrow> bool" where
  "sealed tasks fs c \<longleftrightarrow>
     (\<forall>j \<in> set c. \<not> can_leave fs (snd (tasks ! j)) \<and> (\<forall>e \<in> set (successors tasks j). \<exists>k \<in> set c. e = NTask k))"

lemma reaches_bound: "reaches tasks i j \<Longrightarrow> i < length tasks \<and> j < length tasks"
  by (induction rule: tranclp_induct) (auto dest: goes_bound)

lemma mutual_trans: "mutual tasks i j \<Longrightarrow> mutual tasks j k \<Longrightarrow> mutual tasks i k"
  unfolding mutual_def by (meson tranclp_trans)

lemma mutual_sym: "mutual tasks i j \<Longrightarrow> mutual tasks j i"
  unfolding mutual_def by simp

lemma mutual_refl: "mutual tasks i j \<Longrightarrow> mutual tasks i i"
  using mutual_trans mutual_sym by blast

lemma set_cycle_of: "set (cycle_of tasks i) = {j. mutual tasks i j}"
  by (auto simp: cycle_of_def mutual_def dest: reaches_bound)

lemma cycle_of_mutual: "mutual tasks i j \<Longrightarrow> cycle_of tasks j = cycle_of tasks i"
  unfolding cycle_of_def by (rule filter_cong) (auto intro: mutual_trans mutual_sym)

lemma component_eq:
  assumes "reaches tasks i i"
  shows "component (reach (edges tasks)) i = cycle_of tasks i"
proof -
  have "i < length tasks" using reaches_bound [OF assms] by simp
  then show ?thesis
    using assms by (auto simp: component_def cycle_of_def mutual_def reach_iff intro!: filter_cong)
qed

lemma step_inside:
  assumes "reaches tasks j j"
  shows "\<exists>k. goes tasks j k \<and> mutual tasks j k"
proof -
  obtain k where k: "goes tasks j k" "(goes tasks)\<^sup>*\<^sup>* k j" using tranclpD [OF assms] by blast
  have "reaches tasks k j" using rtranclp_into_tranclp1 rtranclp_tranclp_tranclp [OF k(2) assms] by blast
  then show ?thesis using k(1) by (auto simp: mutual_def)
qed

lemma outside_iff: "(case e of NTask k \<Rightarrow> k \<notin> S | NOut \<Rightarrow> True) \<longleftrightarrow> (\<forall>k \<in> S. e \<noteq> NTask k)"
  by (cases e) auto

text \<open>A task with a single way on, inside a cycle, stays in it: the length guard of the source rules out nothing.\<close>

lemma leaves_iff: "component_leaves tasks fs (cycle_of tasks i) \<longleftrightarrow> \<not> sealed tasks fs (cycle_of tasks i)"
proof -
  have "1 < length (successors tasks j)"
    if j: "mutual tasks i j" and e: "e \<in> set (successors tasks j)" "\<forall>k \<in> set (cycle_of tasks i). e \<noteq> NTask k" for j e
  proof -
    have "reaches tasks j j" using mutual_refl [OF mutual_sym [OF j]] by (simp add: mutual_def)
    then obtain k where "goes tasks j k" "mutual tasks j k" using step_inside by blast
    then have "NTask k \<in> set (successors tasks j)" and "e \<noteq> NTask k"
      using e(2) mutual_trans [OF j] by (auto simp: goes_def set_cycle_of)
    then show ?thesis using e(1) by (cases "successors tasks j"; cases "tl (successors tasks j)") auto
  qed
  then have "(1 < length (successors tasks j)
      \<and> (\<exists>e \<in> set (successors tasks j). case e of NTask k \<Rightarrow> k \<notin> set (cycle_of tasks i) | NOut \<Rightarrow> True))
    \<longleftrightarrow> \<not> (\<forall>e \<in> set (successors tasks j). \<exists>k \<in> set (cycle_of tasks i). e = NTask k)"
    if "j \<in> set (cycle_of tasks i)" for j
    using that unfolding outside_iff by (simp only: set_cycle_of mem_Collect_eq) blast
  then show ?thesis unfolding component_leaves_def sealed_def list_ex_iff by blast
qed

lemma nth_mark: "i < length s \<Longrightarrow> fold (\<lambda>j s. s[j := True]) c s ! i \<longleftrightarrow> s ! i \<or> i \<in> set c"
proof (induction c arbitrary: s)
  case (Cons a c)
  then show ?case by (cases "a = i") auto
qed simp

lemma length_mark [simp]: "length (fold (\<lambda>j s. s[j := True]) c s) = length s"
  by (induction c arbitrary: s) auto

lemma cycles_in_set:
  assumes "set is \<subseteq> {..<length tasks}" and "length seen = length tasks"
    and "\<forall>j k. mutual tasks j k \<longrightarrow> seen ! j \<longrightarrow> seen ! k"
  shows "set (cycles_in tasks fs (reach (edges tasks)) is seen)
    = {cycle_of tasks i |i. i \<in> set is \<and> \<not> seen ! i \<and> reaches tasks i i \<and> sealed tasks fs (cycle_of tasks i)}"
  using assms
proof (induction "is" arbitrary: seen)
  case (Cons i "is")
  let ?r = "reach (edges tasks)" and ?seen = "fold (\<lambda>j s. s[j := True]) (cycle_of tasks i) seen"
  have bnd: "i < length tasks" using Cons.prems(1) by simp
  show ?case
  proof (cases "seen ! i \<or> \<not> reaches tasks i i")
    case True
    then show ?thesis using Cons bnd by (auto simp: reach_iff)
  next
    case False
    have nth: "?seen ! j \<longleftrightarrow> seen ! j \<or> mutual tasks i j" if "j < length tasks" for j
      using that Cons.prems(2) by (simp add: nth_mark set_cycle_of)
    have "\<forall>j k. mutual tasks j k \<longrightarrow> ?seen ! j \<longrightarrow> ?seen ! k"
    proof (intro allI impI)
      fix j k assume jk: "mutual tasks j k" and "?seen ! j"
      then have b: "j < length tasks" "k < length tasks" using reaches_bound [of tasks j k] by (simp_all add: mutual_def)
      then have "seen ! j \<or> mutual tasks i j" using \<open>?seen ! j\<close> nth by blast
      then show "?seen ! k" using Cons.prems(3) mutual_trans [OF _ jk] jk nth [OF b(2)] by blast
    qed
    then have "set (cycles_in tasks fs ?r is ?seen)
      = {cycle_of tasks j |j. j \<in> set is \<and> \<not> ?seen ! j \<and> reaches tasks j j \<and> sealed tasks fs (cycle_of tasks j)}"
      using Cons.IH [of ?seen] Cons.prems by simp
    moreover have "?seen ! j \<longleftrightarrow> seen ! j \<or> mutual tasks i j" if "j \<in> set is" for j
      using nth that Cons.prems(1) by auto
    moreover have "reaches tasks i i" and "\<not> seen ! i" using False by simp_all
    moreover have "cycles_in tasks fs ?r (i # is) seen
      = (if sealed tasks fs (cycle_of tasks i) then [cycle_of tasks i] else []) @ cycles_in tasks fs ?r is ?seen"
      using False bnd by (simp add: reach_iff component_eq Let_def leaves_iff)
    moreover have "mutual tasks i j \<Longrightarrow> cycle_of tasks j = cycle_of tasks i" for j by (rule cycle_of_mutual)
    ultimately have split: "set (cycles_in tasks fs ?r (i # is) seen)
      = {c. c = cycle_of tasks i \<and> sealed tasks fs c}
        \<union> {cycle_of tasks j |j. j \<in> set is \<and> \<not> seen ! j \<and> \<not> mutual tasks i j \<and> reaches tasks j j
             \<and> sealed tasks fs (cycle_of tasks j)}"
      by auto
    show ?thesis unfolding split using cycle_of_mutual [of tasks i] \<open>reaches tasks i i\<close> \<open>\<not> seen ! i\<close> by (simp only: list.set) blast
  qed
qed simp

lemma set_closed_cycles:
  "set (closed_cycles tasks fs) = {cycle_of tasks i |i. reaches tasks i i \<and> sealed tasks fs (cycle_of tasks i)}"
proof -
  have "set (closed_cycles tasks fs)
    = {cycle_of tasks i |i. i \<in> set [0..<length tasks] \<and> \<not> replicate (length tasks) False ! i \<and> reaches tasks i i
         \<and> sealed tasks fs (cycle_of tasks i)}"
    unfolding closed_cycles_def by (rule cycles_in_set) (auto simp: mutual_def dest: reaches_bound)
  moreover have "i \<in> set [0..<length tasks] \<and> \<not> replicate (length tasks) False ! i" if "reaches tasks i i" for i
    using reaches_bound [OF that] by simp
  ultimately show ?thesis by blast
qed

text \<open>
  C32. The cycle check reports exactly the loops nothing leaves: a list of indices is reported if and only if it is the
  set of tasks that some task on a cycle reaches and is reached from, in order, where no task of it can leave the list
  from inside and every way on from it leads back into it.
\<close>

theorem closed_cycles_exact:
  "c \<in> set (closed_cycles tasks fs) \<longleftrightarrow> (\<exists>i. reaches tasks i i \<and> c = cycle_of tasks i \<and> sealed tasks fs c)"
  unfolding set_closed_cycles by blast

section \<open>Reaching the end\<close>

definition can_end :: "task_list \<Rightarrow> (string \<times> task) list \<Rightarrow> nat \<Rightarrow> bool" where
  "can_end tasks fs j \<longleftrightarrow> NOut \<in> set (successors tasks j) \<or> can_leave fs (snd (tasks ! j))"

lemma trapped_cycle:
  assumes "\<forall>l. (goes tasks)\<^sup>*\<^sup>* i l \<longrightarrow> \<not> can_end tasks fs l" and "i < length tasks"
  shows "\<exists>k. reaches tasks k k \<and> sealed tasks fs (cycle_of tasks k)"
proof -
  let ?R = "{l. (goes tasks)\<^sup>*\<^sup>* i l}" and ?D = "\<lambda>l. {m. reaches tasks l m}"
  have fin: "finite (?D l)" for l by (rule finite_subset [of _ "{..<length tasks}"]) (auto dest: reaches_bound)
  have mono: "?D m \<subseteq> ?D l" if "reaches tasks l m" for l m using that by (auto intro: tranclp_trans)
  obtain j where j: "(goes tasks)\<^sup>*\<^sup>* i j" and least: "\<forall>l. (goes tasks)\<^sup>*\<^sup>* i l \<longrightarrow> card (?D j) \<le> card (?D l)"
    using ex_has_least_nat [of "\<lambda>l. (goes tasks)\<^sup>*\<^sup>* i l" i "\<lambda>l. card (?D l)"] by blast
  have same: "?D l = ?D j" if "reaches tasks j l" for l
    using card_seteq [OF fin mono [OF that]] least rtranclp_trans [OF j tranclp_into_rtranclp [OF that]] by blast
  have twoway: "mutual tasks l m" if "reaches tasks j l" "reaches tasks j m" for l m
    using same [OF that(1)] same [OF that(2)] that unfolding mutual_def by blast
  have bound: "l < length tasks" if "(goes tasks)\<^sup>*\<^sup>* i l" for l
    using that assms(2) by (induction rule: rtranclp_induct) (auto dest: goes_bound)
  have step: "goes tasks l m" if "(goes tasks)\<^sup>*\<^sup>* i l" "e = NTask m" "e \<in> set (successors tasks l)" for l m e
    using that bound by (simp add: goes_def)
  have stays: "\<exists>m. e = NTask m" if "(goes tasks)\<^sup>*\<^sup>* i l" "e \<in> set (successors tasks l)" for l e
    using that assms(1) by (cases e) (auto simp: can_end_def)
  obtain k where "goes tasks j k"
    using successors_nonempty [of tasks j] stays [OF j] step [OF j] by (metis list.set_sel(1))
  then have k: "reaches tasks j k" by blast
  have "sealed tasks fs (cycle_of tasks k)"
    unfolding sealed_def set_cycle_of
  proof (intro ballI conjI)
    fix l assume "l \<in> {l. mutual tasks k l}"
    then have l: "reaches tasks j l" using k by (auto simp: mutual_def intro: tranclp_trans)
    then have il: "(goes tasks)\<^sup>*\<^sup>* i l" using j by (meson rtranclp_trans tranclp_into_rtranclp)
    then show "\<not> can_leave fs (snd (tasks ! l))" using assms(1) by (auto simp: can_end_def)
    fix e assume e: "e \<in> set (successors tasks l)"
    obtain m where m: "e = NTask m" using stays [OF il e] by blast
    then have "reaches tasks j m" using step [OF il m e] l by (meson tranclp.trancl_into_trancl)
    then show "\<exists>m \<in> {l. mutual tasks k l}. e = NTask m" using m twoway [OF k] by blast
  qed
  then show ?thesis using twoway [OF k k] by (auto simp: mutual_def)
qed

lemma no_cycle_can_end:
  assumes "closed_cycles tasks fs = []" and "i < length tasks"
  shows "\<exists>j. (goes tasks)\<^sup>*\<^sup>* i j \<and> can_end tasks fs j"
proof (rule ccontr)
  assume "\<not> ?thesis"
  then obtain k where "reaches tasks k k" "sealed tasks fs (cycle_of tasks k)" using trapped_cycle [OF _ assms(2)] by blast
  then show False using assms(1) set_closed_cycles [of tasks fs] by auto
qed

end
