(* ===== verification/Validation_Rules.thy ===== *)
theory Validation_Rules
  imports Validator Flow_Rules
begin

text \<open>
  What validation establishes, for every task of a definition at any depth: jumps stay in their list and name a task of
  it, the end of every list can be reached, and the host has what the task needs. The tasks and lists of a definition are
  an inductive pair; that \<open>lists\<close> visits them all, the budget's handler apart, is proved against it.
\<close>

section \<open>The tasks of a definition\<close>

definition opt_list :: "'a option \<Rightarrow> 'a list" where
  "opt_list x = (case x of None \<Rightarrow> [] | Some a \<Rightarrow> [a])"

fun inner_lists :: "kind \<Rightarrow> task_list list" where
  "inner_lists (KDo ts) = [ts]"
| "inner_lists (KFor each index items cond conc ts) = [ts]"
| "inner_lists (KTry ts c) = ts # opt_list (ca_tasks c)"
| "inner_lists (KListen s rd fe) = map fe_tasks (opt_list fe)"
| "inner_lists _ = []"

inductive listed :: "workflow \<Rightarrow> task_list \<Rightarrow> bool" and part :: "workflow \<Rightarrow> task \<Rightarrow> bool" for w where
  main: "listed w (wf_tasks w)"
| before: "(n, e) \<in> set (us_extensions (wf_uses w)) \<Longrightarrow> ex_before e = Some ts \<Longrightarrow> listed w ts"
| following: "(n, e) \<in> set (us_extensions (wf_uses w)) \<Longrightarrow> ex_after e = Some ts \<Longrightarrow> listed w ts"
| inner: "part w t \<Longrightarrow> ts \<in> set (inner_lists (tk_kind t)) \<Longrightarrow> listed w ts"
| member: "listed w ts \<Longrightarrow> (n, t) \<in> set ts \<Longrightarrow> part w t"
| reusable: "(n, t) \<in> set (us_functions (wf_uses w)) \<Longrightarrow> part w t"
| handler: "bg_on_exceeded (wf_budget w) = ExceededTask t \<Longrightarrow> part w t"
| branch: "part w t \<Longrightarrow> tk_kind t = KFork ts c \<Longrightarrow> (n, b) \<in> set ts \<Longrightarrow> part w b"

section \<open>Clean tasks\<close>

lemma if_some_Nil [simp]: "if_some x f = [] \<longleftrightarrow> (\<forall>a. x = Some a \<longrightarrow> f a = [])"
  by (cases x) (auto simp: if_some_def)

lemma unless_Nil [simp]: "unless b at m = [] \<longleftrightarrow> b"
  by (simp add: unless_def)

lemma check_list_member:
  "check_list v ts whole at i a = [] \<Longrightarrow> (n, t) \<in> set ts \<Longrightarrow> \<exists>at'. check_task v t at' a (map fst whole) = []"
proof (induction ts arbitrary: i)
  case (Cons x ts)
  then show ?case by (cases x) auto
qed simp

lemma check_list_cycles: "check_list v ts whole at i a = [] \<Longrightarrow> check_cycles v whole at = []"
proof (induction ts arbitrary: i)
  case (Cons x ts)
  then show ?case by (cases x) auto
qed simp

lemma check_branches_member:
  "check_branches v ts at i a = [] \<Longrightarrow> (n, t) \<in> set ts \<Longrightarrow> \<exists>at'. check_task v t at' a [] = []"
proof (induction ts arbitrary: i)
  case (Cons x ts)
  then show ?case by (cases x) auto
qed simp

lemma check_task_kind: "check_task v t at a siblings = [] \<Longrightarrow> check_kind v (tk_kind t) (tk_delivery t) at a siblings = []"
  by (cases t) simp

lemma check_kind_lists:
  assumes "check_kind v k d at a siblings = []" and "ts \<in> set (inner_lists k)"
  shows "\<exists>at' a'. check_list v ts ts at' 0 a' = []"
proof (cases k)
  case (KTry us c)
  then show ?thesis using assms by (cases c) (auto simp: opt_list_def Let_def split: option.splits)
next
  case (KListen s rd fe)
  show ?thesis
  proof (cases fe)
    case None
    then show ?thesis using assms KListen by (simp add: opt_list_def)
  next
    case (Some f)
    then show ?thesis using assms KListen by (cases f) (auto simp: opt_list_def Let_def)
  qed
qed (use assms in \<open>auto simp: Let_def\<close>)

lemma check_extensions_member:
  "check_extensions v es i a = [] \<Longrightarrow> (n, e) \<in> set es \<Longrightarrow>
     \<exists>at. check_extension_list v at ''before'' a (ex_before e) = [] \<and> check_extension_list v at ''after'' a (ex_after e) = []"
proof (induction es arbitrary: i)
  case (Cons x es)
  then show ?case by (cases x) (auto simp: Let_def)
qed simp

definition list_clean :: "validator \<Rightarrow> task_list \<Rightarrow> bool" where
  "list_clean v ts \<longleftrightarrow> (\<exists>at a. check_list v ts ts at 0 a = [])"

definition task_clean :: "validator \<Rightarrow> task \<Rightarrow> bool" where
  "task_clean v t \<longleftrightarrow> (\<exists>at a siblings. check_task v t at a siblings = [])"

lemma clean_parts:
  assumes "check_workflow v = []"
  shows "(listed (vd_wf v) ts \<longrightarrow> list_clean v ts) \<and> (part (vd_wf v) t \<longrightarrow> task_clean v t)"
proof -
  have ext: "check_extensions v (us_extensions (wf_uses (vd_wf v))) 0 base_args = []"
    and funs: "\<And>n f. (n, f) \<in> set (us_functions (wf_uses (vd_wf v)))
      \<Longrightarrow> check_task v f (''/use/functions/'' @ n) base_args [] = []"
    using assms by (auto simp: check_workflow_def Let_def)
  have "(listed (vd_wf v) ts \<Longrightarrow> list_clean v ts)" and "(part (vd_wf v) t \<Longrightarrow> task_clean v t)"
  proof (induction ts and t rule: listed_part.inducts)
    case main
    show ?case using assms by (auto simp: check_workflow_def Let_def list_clean_def)
  next
    case (before n e ts)
    then show ?case using check_extensions_member [OF ext] by (fastforce simp: check_extension_list_def list_clean_def)
  next
    case (following n e ts)
    then show ?case using check_extensions_member [OF ext] by (fastforce simp: check_extension_list_def list_clean_def)
  next
    case (inner t ts)
    then show ?case using check_task_kind check_kind_lists unfolding list_clean_def task_clean_def by blast
  next
    case (member ts n t)
    then show ?case using check_list_member unfolding list_clean_def task_clean_def by blast
  next
    case (reusable n t)
    then show ?case using funs unfolding task_clean_def by blast
  next
    case (handler t)
    then show ?case using assms by (auto simp: check_workflow_def Let_def task_clean_def)
  next
    case (branch t ts c n b)
    then obtain at a siblings where "check_kind v (KFork ts c) (tk_delivery t) at a siblings = []"
      using check_task_kind unfolding task_clean_def by metis
    then show ?case using check_branches_member branch unfolding task_clean_def by fastforce
  qed
  then show ?thesis by blast
qed

lemma validate_clean:
  "validate jqc w cat = Inr () \<Longrightarrow> check_workflow \<lparr>vd_wf = w, vd_catalog = cat, vd_check = jqc\<rparr> = []"
  by (auto simp: validate_def Let_def split: if_splits)

lemma validated_list:
  "validate jqc w cat = Inr () \<Longrightarrow> listed w ts \<Longrightarrow> list_clean \<lparr>vd_wf = w, vd_catalog = cat, vd_check = jqc\<rparr> ts"
  using clean_parts [OF validate_clean, of jqc w cat ts] by simp

lemma validated_task:
  "validate jqc w cat = Inr () \<Longrightarrow> part w t \<Longrightarrow> task_clean \<lparr>vd_wf = w, vd_catalog = cat, vd_check = jqc\<rparr> t"
  using clean_parts [OF validate_clean, of jqc w cat _ t] by simp

section \<open>Jumps and ends\<close>

definition jumps :: "task \<Rightarrow> string \<Rightarrow> bool" where
  "jumps t name \<longleftrightarrow>
     tk_then t = Some (Goto name)
     \<or> (\<exists>cases n c. tk_kind t = KSwitch cases \<and> (n, c) \<in> set cases \<and> sc_then c = Goto name)
     \<or> (\<exists>ts c. tk_kind t = KTry ts c \<and> ca_then c = Some (Goto name))"

lemma check_cases_flow:
  "check_cases v cs at i a siblings = [] \<Longrightarrow> (n, c) \<in> set cs \<Longrightarrow> \<exists>at'. check_flow (Some (sc_then c)) at' siblings = []"
proof (induction cs arbitrary: i)
  case (Cons x cs)
  then show ?case by (cases x) (auto simp: Let_def)
qed simp

lemma check_flow_goto: "check_flow (Some (Goto name)) at siblings = [] \<Longrightarrow> name \<in> set siblings"
  by (simp add: check_flow_def)

lemma clean_jump:
  assumes "check_task v t at a siblings = []" and "jumps t name"
  shows "name \<in> set siblings"
  using assms(2) unfolding jumps_def
proof (elim disjE exE conjE)
  assume "tk_then t = Some (Goto name)"
  then show ?thesis using assms(1) by (cases t) (auto dest: check_flow_goto)
next
  fix cases n c assume "tk_kind t = KSwitch cases" "(n, c) \<in> set cases" "sc_then c = Goto name"
  then show ?thesis using check_task_kind [OF assms(1)] check_cases_flow [of v cases at 0 a siblings n c]
    by (auto dest: check_flow_goto)
next
  fix ts c assume "tk_kind t = KTry ts c" "ca_then c = Some (Goto name)"
  then show ?thesis using check_task_kind [OF assms(1)] by (cases c) (auto simp: Let_def dest: check_flow_goto)
qed

text \<open>
  C33. In every task list of a validated definition, at any depth (bodies of functions, extensions, loops, handlers), a
  jump of a task, by its own flow, by a case of a switch or after a catch, names a task of the same list; and, unless an
  extension can leave any list, from every task of the list some task is reached that may leave it.
\<close>

theorem validated_flow:
  assumes "validate jqc w cat = Inr ()" and "listed w ts"
  shows "(\<forall>(n, t) \<in> set ts. \<forall>name. jumps t name \<longrightarrow> name \<in> fst ` set ts)
    \<and> (exits w \<or> (\<forall>i < length ts. \<exists>j. (goes ts)\<^sup>*\<^sup>* i j \<and> can_end ts (us_functions (wf_uses w)) j))"
proof
  let ?v = "\<lparr>vd_wf = w, vd_catalog = cat, vd_check = jqc\<rparr>"
  obtain at a where clean: "check_list ?v ts ts at 0 a = []"
    using validated_list [OF assms] by (auto simp: list_clean_def)
  show "\<forall>(n, t) \<in> set ts. \<forall>name. jumps t name \<longrightarrow> name \<in> fst ` set ts"
    using check_list_member [OF clean] clean_jump by fastforce
  have "exits w \<or> closed_cycles ts (us_functions (wf_uses w)) = []"
    using check_list_cycles [OF clean] by (auto simp: check_cycles_def split: if_splits)
  then show "exits w \<or> (\<forall>i < length ts. \<exists>j. (goes ts)\<^sup>*\<^sup>* i j \<and> can_end ts (us_functions (wf_uses w)) j)"
    using no_cycle_can_end by blast
qed

definition plain :: "flow option \<Rightarrow> string option \<Rightarrow> kind \<Rightarrow> task" where
  "plain thn c k = MkTask AtLeastOnce 0 c None None None None thn k Null"

definition sample_workflow :: "task_list \<Rightarrow> exceeded \<Rightarrow> workflow" where
  "sample_workflow ts exceeded =
     \<lparr>wf_document = \<lparr>dc_dsl = ''1.0.4'', dc_namespace = ''t'', dc_name = ''w'', dc_version = ''0.1.0'', dc_title = None, dc_summary = None\<rparr>,
      wf_input = None, wf_output = None, wf_uses = default_uses, wf_tasks = ts, wf_timeout = None, wf_schedule = None,
      wf_budget = \<lparr>bg_max_jumps = None, bg_on_exceeded = exceeded\<rparr>,
      wf_breaker = Inherit, wf_definition = Null\<rparr>"

definition bare_host :: host_catalog where
  "bare_host = \<lparr>hc_has = (\<lambda>n. n = ''f''), hc_events = False, hc_emits = False, hc_children = False, hc_processes = (\<lambda>k. False),
     hc_secrets = False, hc_resources = False\<rparr>"

definition looping_list :: task_list where
  "looping_list = [(''a'', plain None None (KCall ''f'' None)), (''b'', plain (Some (Goto ''a'')) (Some ''.more'') (KSet Null))]"

lemma looping_validates: "validate (\<lambda>code a. None) (sample_workflow looping_list ExceededEnd) bare_host = Inr ()"
proof -
  define v :: validator where
    "v = \<lparr>vd_wf = sample_workflow looping_list ExceededEnd, vd_catalog = bare_host, vd_check = (\<lambda>code a. None)\<rparr>"
  have call: "check_call v AtLeastOnce ''f'' None at a = []" for at a
    by (simp add: v_def check_call_def Let_def bare_host_def is_local_def sample_workflow_def default_uses_def
        function_name_def strip_suffix_def strip_prefix_def)
  have more: "check_expr v (bare ''.more'') at a = []" for at a
  proof -
    have "strip_any white_space ''.more'' = None" "strip_any (map rev white_space) ''erom.'' = None"
      by (simp_all add: strip_any_def white_space_def strip_prefix_def char_of_def upt_rec)
    then have "trim ''.more'' = ''.more''" by (simp add: trim_def trim_front.simps)
    then have "bare ''.more'' = ''.more''" by (simp add: bare_def strip_def strip_prefix_def)
    then show ?thesis by (simp add: v_def check_expr_def Let_def)
  qed
  have "check_list v looping_list whole at 0 a = []"
    if "fst ` set whole = {''a'', ''b''}" "check_cycles v whole at = []" for whole at a
    using that
    by (simp add: looping_list_def plain_def call more check_duration_def check_flow_def check_template_def)
  moreover have "fst ` set looping_list = {''a'', ''b''}" by (simp add: looping_list_def)
  moreover have "check_cycles v looping_list ''/do'' = []" unfolding v_def by code_simp
  ultimately have "check_list v looping_list looping_list ''/do'' 0 base_args = []" by blast
  then show ?thesis
    unfolding v_def by (simp add: validate_def check_workflow_def Let_def sample_workflow_def default_uses_def)
qed

theorem validated_flow_witness:
  "validate (\<lambda>code a. None) (sample_workflow looping_list ExceededEnd) bare_host = Inr ()
   \<and> (\<exists>j. (goes looping_list)\<^sup>*\<^sup>* 0 j \<and> can_end looping_list [] j)"
proof -
  have "listed (sample_workflow looping_list ExceededEnd) looping_list"
    using listed_part.main [of "sample_workflow looping_list ExceededEnd"] by (simp add: sample_workflow_def)
  then have "exits (sample_workflow looping_list ExceededEnd)
      \<or> (\<forall>i < length looping_list. \<exists>j. (goes looping_list)\<^sup>*\<^sup>* i j
           \<and> can_end looping_list (us_functions (wf_uses (sample_workflow looping_list ExceededEnd))) j)"
    using validated_flow [OF looping_validates] by blast
  moreover have "\<not> exits (sample_workflow looping_list ExceededEnd)" by code_simp
  ultimately show ?thesis
    using looping_validates by (auto simp: sample_workflow_def default_uses_def looping_list_def)
qed

section \<open>What the host has\<close>

definition supported :: "workflow \<Rightarrow> host_catalog \<Rightarrow> kind \<Rightarrow> bool" where
  "supported w cat k \<longleftrightarrow>
     (case k of
        KCall f _ \<Rightarrow> is_local w (function_name f) \<or> hc_has cat (function_name f)
      | KListen _ _ _ \<Rightarrow> hc_events cat
      | KEmit _ \<Rightarrow> hc_emits cat
      | KRun r \<Rightarrow> (case rn_process r of ChildWorkflow _ _ _ _ \<Rightarrow> hc_children cat | External kind _ \<Rightarrow> hc_processes cat kind)
      | KRaise (RaiseNamed name) \<Rightarrow> name \<in> fst ` set (us_errors (wf_uses w))
      | _ \<Rightarrow> True)"

lemma clean_supported:
  assumes "check_kind v k d at a siblings = []"
  shows "supported (vd_wf v) (vd_catalog v) k"
proof (cases k)
  case (KRaise r)
  then show ?thesis using assms
    by (cases r) (auto simp: supported_def check_raise_def named_error_def Let_def dest: map_of_SomeD intro: rev_image_eqI)
qed (use assms in \<open>auto simp: supported_def check_call_def check_run_def Let_def split: process.splits\<close>)

text \<open>
  C34. Every task of a validated definition, at any depth and in the budget's handler, is supported by the host: a call
  resolves to a function of the definition or of the host, a listen, an emit, a child workflow and a process runner need
  the capability, and a raised error that is named is declared.
\<close>

theorem validated_supported:
  assumes "validate jqc w cat = Inr ()" and "part w t"
  shows "supported w cat (tk_kind t)"
  using validated_task [OF assms] check_task_kind clean_supported unfolding task_clean_def by fastforce

theorem validated_supported_witness:
  "supported (sample_workflow looping_list ExceededEnd) bare_host (tk_kind (snd (looping_list ! 0)))"
proof -
  have "listed (sample_workflow looping_list ExceededEnd) looping_list"
    using listed_part.main [of "sample_workflow looping_list ExceededEnd"] by (simp add: sample_workflow_def)
  then have "part (sample_workflow looping_list ExceededEnd) (snd (looping_list ! 0))"
    by (rule listed_part.member [of _ _ "''a''"]) (simp add: looping_list_def)
  then show ?thesis by (rule validated_supported [OF looping_validates])
qed

section \<open>Static analysis visits every task\<close>

definition kids :: "kind \<Rightarrow> task set" where
  "kids k = snd ` set (concat (inner_lists k)) \<union> (case k of KFork ts c \<Rightarrow> snd ` set ts | _ \<Rightarrow> {})"

definition within :: "task \<Rightarrow> task set" where
  "within u = {t. (\<lambda>a b. b \<in> kids (tk_kind a))\<^sup>*\<^sup>* u t}"

lemma within_task: "within u = insert u (\<Union>b \<in> kids (tk_kind u). within b)"
  unfolding within_def by (auto elim: converse_rtranclpE intro: converse_rtranclp_into_rtranclp)

lemma within_closed: "t \<in> within u \<Longrightarrow> b \<in> kids (tk_kind t) \<Longrightarrow> b \<in> within u"
  unfolding within_def by (auto intro: rtranclp.rtrancl_into_rtrancl)

lemma visits_within:
  "\<forall>at. fst ` set (task_visits u at) = within u"
  "\<forall>at. fst ` set (kind_visits k at) = (\<Union>b \<in> kids k. within b)"
  "\<forall>at i. fst ` set (list_visits ts at i) = (\<Union>b \<in> snd ` set ts. within b)"
  "\<forall>at. fst ` set (catch_visits c at) = (\<Union>b \<in> snd ` set (concat (opt_list (ca_tasks c))). within b)"
  "\<forall>at. fst ` set (foreach_visits f at) = (\<Union>b \<in> snd ` set (fe_tasks f). within b)"
proof (induction u and k and ts and c and f
    rule: task_visits_kind_visits_list_visits_catch_visits_foreach_visits.induct)
  case (1 delivery hold w input out export timeout thn k def)
  then show ?case by (subst within_task) simp
next
  case (6 s rd fe)
  then show ?case by (cases fe) (simp_all add: kids_def opt_list_def)
next
  case (16 errors as w except retry handler thn)
  then show ?case by (cases handler) (simp_all add: opt_list_def)
qed (simp_all add: kids_def image_Un)

definition roots :: "workflow \<Rightarrow> task set" where
  "roots w = snd ` set (us_functions (wf_uses w)) \<union> snd ` set (wf_tasks w)
     \<union> (\<Union>e \<in> snd ` set (us_extensions (wf_uses w)). snd ` set (concat (opt_list (ex_before e) @ opt_list (ex_after e))))"

lemma extension_visits_within:
  "fst ` set (extension_visits es i)
   = (\<Union>e \<in> snd ` set es. \<Union>b \<in> snd ` set (concat (opt_list (ex_before e) @ opt_list (ex_after e))). within b)"
proof (induction es arbitrary: i)
  case (Cons x es)
  show ?case
  proof (cases x)
    case (Pair n e)
    have "fst ` set (case o' of None \<Rightarrow> [] | Some ts \<Rightarrow> list_visits ts at 0)
      = (\<Union>b \<in> snd ` set (concat (opt_list o')). within b)" for o' at
      by (cases o') (simp_all add: opt_list_def visits_within)
    then show ?thesis using Cons.IH Pair by (simp only: extension_visits.simps Let_def set_append image_Un) auto
  qed
qed simp

lemma lists_within: "fst ` set (lists w) = (\<Union>b \<in> roots w. within b)"
proof -
  have "fst ` set (concat (map (\<lambda>(name, f). task_visits f (''/use/functions/'' @ name)) fs)) = (\<Union>b \<in> snd ` set fs. within b)" for fs
    by (simp add: image_UN case_prod_unfold visits_within(1))
  then show ?thesis
    unfolding lists_def roots_def set_append image_Un extension_visits_within visits_within(3) [rule_format]
    by (simp only: image_Un Union_Un_distrib UN_UN_flatten Un_ac)
qed

lemma kids_iff:
  "b \<in> kids k \<longleftrightarrow> (\<exists>ts \<in> set (inner_lists k). \<exists>n. (n, b) \<in> set ts) \<or> (\<exists>ts c n. k = KFork ts c \<and> (n, b) \<in> set ts)"
proof -
  have "(case k of KFork ts c \<Rightarrow> snd ` set ts | _ \<Rightarrow> {}) = {b. \<exists>ts c n. k = KFork ts c \<and> (n, b) \<in> set ts}"
    by (cases k) force+
  moreover have "b \<in> snd ` set (concat tss) \<longleftrightarrow> (\<exists>ts \<in> set tss. \<exists>n. (n, b) \<in> set ts)" for tss :: "task_list list"
    by force
  ultimately show ?thesis unfolding kids_def by (simp only: Un_iff mem_Collect_eq)
qed

lemma part_kid: "part w t \<Longrightarrow> b \<in> kids (tk_kind t) \<Longrightarrow> part w b"
  unfolding kids_iff by (elim disjE bexE exE conjE) (erule (1) listed_part.member [OF listed_part.inner] listed_part.branch, assumption)+

lemma roots_part: "b \<in> roots w \<Longrightarrow> part w b"
  unfolding roots_def
  by (auto simp: opt_list_def split: option.splits
      intro: listed_part.member [OF listed_part.main] listed_part.member [OF listed_part.before [OF _ sym]]
        listed_part.member [OF listed_part.following [OF _ sym]] listed_part.reusable)

lemma part_within: "t \<in> within b \<Longrightarrow> part w b \<Longrightarrow> part w t"
  unfolding within_def mem_Collect_eq by (induction rule: rtranclp_induct) (auto intro: part_kid)

lemma visited_closed: "t \<in> fst ` set (lists w) \<Longrightarrow> b \<in> kids (tk_kind t) \<Longrightarrow> b \<in> fst ` set (lists w)"
  unfolding lists_within using within_closed by blast

lemma roots_visited: "b \<in> roots w \<Longrightarrow> b \<in> fst ` set (lists w)"
  unfolding lists_within using within_task by blast

lemma part_visited:
  assumes "\<forall>h. bg_on_exceeded (wf_budget w) \<noteq> ExceededTask h"
  shows "(listed w ts \<longrightarrow> snd ` set ts \<subseteq> fst ` set (lists w)) \<and> (part w t \<longrightarrow> t \<in> fst ` set (lists w))"
proof -
  have "listed w ts \<Longrightarrow> snd ` set ts \<subseteq> fst ` set (lists w)" and "part w t \<Longrightarrow> t \<in> fst ` set (lists w)"
  proof (induction ts and t rule: listed_part.inducts)
    case main
    show ?case by (force intro!: roots_visited simp: roots_def)
  next
    case (before n e ts)
    then show ?case by (force intro!: roots_visited simp: roots_def opt_list_def)
  next
    case (following n e ts)
    then show ?case by (force intro!: roots_visited simp: roots_def opt_list_def)
  next
    case (inner t ts)
    then have "snd ` set ts \<subseteq> kids (tk_kind t)" by (auto simp: kids_def)
    then show ?case using visited_closed inner by blast
  next
    case (member ts n t)
    then show ?case by force
  next
    case (reusable n t)
    then show ?case by (force intro!: roots_visited simp: roots_def)
  next
    case (handler t)
    then show ?case using assms by simp
  next
    case (branch t ts c n b)
    then have "b \<in> kids (tk_kind t)" by (force simp: kids_def)
    then show ?case using visited_closed branch by blast
  qed
  then show ?thesis by blast
qed

text \<open>
  The tasks that the static analysis visits, and so the call sites, processes and schema resources it reports, are
  exactly the tasks of the definition, where the jump budget's \<^verbatim>\<open>on_exceeded\<close> is no task of its own.
\<close>

lemma lists_visits_every_task:
  assumes "\<forall>h. bg_on_exceeded (wf_budget w) \<noteq> ExceededTask h"
  shows "fst ` set (lists w) = {t. part w t}"
proof
  show "fst ` set (lists w) \<subseteq> {t. part w t}" unfolding lists_within using roots_part part_within by blast
  show "{t. part w t} \<subseteq> fst ` set (lists w)" using part_visited [OF assms] by blast
qed

lemma lists_visits_every_task_witness:
  "fst ` set (lists (sample_workflow looping_list ExceededEnd)) = {t. part (sample_workflow looping_list ExceededEnd) t}"
  by (rule lists_visits_every_task) (simp add: sample_workflow_def)

end
