(* ===== verification/Start_Check.thy ===== *)
theory Start_Check
  imports Registry Validation_Rules
begin

text \<open>
  The start check is exact: it finds a missing function precisely when some definition that the run can reach through
  child workflows calls one, names it with the path that leads to it, and always answers. Its cache is transparent.
\<close>

section \<open>Definitions and their children\<close>

definition stored :: "(string \<Rightarrow> definitions) \<Rightarrow> string \<times> nat \<Rightarrow> string option" where
  "stored defs p = map_option dv_yaml (bt_get (d_versions (defs (fst p))) (snd p))"

text \<open>Every version is stored under its own name and number, as \<^verbatim>\<open>save_definition\<close> stores it.\<close>

definition consistent :: "(string \<Rightarrow> definitions) \<Rightarrow> bool" where
  "consistent defs \<longleftrightarrow>
     (\<forall>name v d. bt_get (d_versions (defs name)) v = Some d \<longrightarrow> dv_name d = name \<and> dv_version d = v)"

abbreviation own_needs :: "checker \<Rightarrow> string \<Rightarrow> needs" where
  "own_needs k yaml \<equiv> needs_of (ck_parsers k) yaml (ck_registry k) (ck_capabilities k)"

definition node :: "definition_version \<Rightarrow> string \<times> nat" where
  "node d = (dv_name d, dv_version d)"

definition child_of :: "checker \<Rightarrow> (string \<Rightarrow> definitions) \<Rightarrow> string \<times> nat \<Rightarrow> string \<times> nat \<Rightarrow> bool" where
  "child_of k defs p q \<longleftrightarrow>
     (\<exists>yaml t d. stored defs p = Some yaml \<and> t \<in> set (nd_children (own_needs k yaml))
        \<and> target (ck_parsers k) defs t = Some d \<and> q = node d)"

definition lacks :: "checker \<Rightarrow> (string \<Rightarrow> definitions) \<Rightarrow> string \<times> nat \<Rightarrow> string option" where
  "lacks k defs p = Option.bind (stored defs p) (\<lambda>yaml. nd_missing (own_needs k yaml))"

definition cache_ok :: "checker \<Rightarrow> (string \<Rightarrow> definitions) \<Rightarrow> checks \<Rightarrow> bool" where
  "cache_ok k defs cache \<longleftrightarrow>
     (\<forall>p yaml n. stored defs p = Some yaml \<longrightarrow> map_of cache (fst p, snd p, ck_hash k yaml, ck_generation k) = Some n
        \<longrightarrow> n = own_needs k yaml)"

lemma cached_needs_ok:
  assumes "cache_ok k defs cache" and "stored defs (name, version) = Some yaml"
  obtains cache' where "cached_needs k name version yaml cache = (own_needs k yaml, cache')" and "cache_ok k defs cache'"
proof (cases "map_of cache (name, version, ck_hash k yaml, ck_generation k)")
  case None
  then have "cached_needs k name version yaml cache
    = (own_needs k yaml, ((name, version, ck_hash k yaml, ck_generation k), own_needs k yaml) # cache)"
    by (simp add: cached_needs_def Let_def)
  moreover have "cache_ok k defs (((name, version, ck_hash k yaml, ck_generation k), own_needs k yaml) # cache)"
    using assms by (auto simp: cache_ok_def)
  ultimately show thesis using that by blast
next
  case (Some n)
  then have "n = own_needs k yaml" using assms unfolding cache_ok_def by (metis fst_conv snd_conv)
  then have "cached_needs k name version yaml cache = (own_needs k yaml, cache)" using Some by (simp add: cached_needs_def)
  then show thesis using that assms(1) by blast
qed

lemma bt_values_get: "d \<in> set (bt_values m) \<Longrightarrow> \<exists>v. bt_get m v = Some d"
  unfolding bt_values_def bt_get_def using map_of_is_SomeI [OF bt_distinct] by fastforce

lemma find_in_set: "List.find P xs = Some x \<Longrightarrow> x \<in> set xs"
  by (auto simp: find_Some_iff)

lemma target_stored:
  assumes "consistent defs" and "target x defs t = Some d"
  shows "stored defs (node d) = Some (dv_yaml d)"
proof -
  obtain ns name version where t: "t = (ns, name, version)" by (cases t) auto
  have "\<exists>v. bt_get (d_versions (defs name)) v = Some d"
    using assms(2) unfolding t target_def
    by (auto simp: Let_def bind_eq_Some_conv split: if_splits dest!: find_in_set intro: bt_values_get)
  then show ?thesis using assms(1) by (auto simp: consistent_def stored_def node_def)
qed

section \<open>The walk\<close>

definition settled :: "checker \<Rightarrow> (string \<Rightarrow> definitions) \<Rightarrow> (string \<times> nat) set \<Rightarrow> (string \<times> nat) set \<Rightarrow> bool" where
  "settled k defs old new \<longleftrightarrow> (\<forall>p \<in> new - old. lacks k defs p = None \<and> (\<forall>q. child_of k defs p q \<longrightarrow> q \<in> new))"

definition names_missing :: "checker \<Rightarrow> (string \<Rightarrow> definitions) \<Rightarrow> missing_function \<Rightarrow> (string \<times> nat) list \<Rightarrow> (string \<times> nat) list \<Rightarrow> bool" where
  "names_missing k defs m path q \<longleftrightarrow>
     mf_path m = path @ q \<and> q \<noteq> [] \<and> successively (child_of k defs) q \<and> lacks k defs (last q) = Some (mf_function m)"

lemma settled_trans: "settled k defs a b \<Longrightarrow> settled k defs b c \<Longrightarrow> b \<subseteq> c \<Longrightarrow> settled k defs a c"
  unfolding settled_def by blast

lemma settled_refl: "settled k defs a a"
  unfolding settled_def by simp

lemma settled_insert:
  assumes "settled k defs (insert p a) b" and "insert p a \<subseteq> b" and "lacks k defs p = None"
    and "\<forall>q. child_of k defs p q \<longrightarrow> q \<in> b"
  shows "settled k defs a b"
  using assms unfolding settled_def by blast

text \<open>What a walk from a stored definition, and one over the children of a definition, establishes.\<close>

definition walk_ok :: "checker \<Rightarrow> (string \<Rightarrow> definitions) \<Rightarrow> (string \<times> nat) list \<Rightarrow> (string \<times> nat) list \<Rightarrow>
    (string \<times> nat) set \<Rightarrow> walk \<Rightarrow> bool" where
  "walk_ok k defs path seen starts w \<longleftrightarrow>
     (case w of (outcome, seen', cache') \<Rightarrow>
        cache_ok k defs cache' \<and> set seen \<subseteq> set seen'
        \<and> (outcome = Some (Inr ()) \<longrightarrow> starts \<subseteq> set seen' \<and> settled k defs (set seen) (set seen'))
        \<and> (\<forall>m. outcome = Some (Inl m) \<longrightarrow> (\<exists>q. names_missing k defs m path q \<and> hd q \<in> starts)))"

lemma walk_okD:
  assumes "walk_ok k defs path seen starts (outcome, seen', cache')"
  shows "cache_ok k defs cache'" and "set seen \<subseteq> set seen'"
    and "outcome = Some (Inr ()) \<Longrightarrow> starts \<subseteq> set seen'"
    and "outcome = Some (Inr ()) \<Longrightarrow> settled k defs (set seen) (set seen')"
    and "outcome = Some (Inl m) \<Longrightarrow> \<exists>q. names_missing k defs m path q \<and> hd q \<in> starts"
  using assms by (auto simp: walk_ok_def)

abbreviation child_nodes :: "checker \<Rightarrow> (string \<Rightarrow> definitions) \<Rightarrow> (string \<times> string \<times> string) list \<Rightarrow> (string \<times> nat) set" where
  "child_nodes k defs ts \<equiv> {node d |d. \<exists>t \<in> set ts. target (ck_parsers k) defs t = Some d}"

lemma names_missing_Cons:
  assumes "names_missing k defs m (path @ [p]) q" and "child_of k defs p (hd q)"
  shows "names_missing k defs m path (p # q)"
  using assms by (cases q) (auto simp: names_missing_def)

lemma walk_visit:
  assumes "stored defs p = Some yaml" and "nd_missing (own_needs k yaml) = None" and "p \<notin> set seen"
    and "walk_ok k defs (path @ [p]) (p # seen) (child_nodes k defs (nd_children (own_needs k yaml))) w"
  shows "walk_ok k defs path seen {p} w"
proof -
  obtain outcome seen' cache' where w: "w = (outcome, seen', cache')" by (cases w)
  note ok = walk_okD [OF assms(4) [unfolded w]]
  have kid: "child_of k defs p q \<longleftrightarrow> q \<in> child_nodes k defs (nd_children (own_needs k yaml))" for q
    using assms(1) by (auto simp: child_of_def)
  have "settled k defs (set seen) (set seen')" if "outcome = Some (Inr ())"
  proof (rule settled_insert [of _ _ p])
    show "settled k defs (insert p (set seen)) (set seen')" using ok(4) [OF that] by simp
    show "insert p (set seen) \<subseteq> set seen'" using ok(2) by simp
    show "lacks k defs p = None" using assms(1,2) by (simp add: lacks_def)
    show "\<forall>q. child_of k defs p q \<longrightarrow> q \<in> set seen'" using ok(3) [OF that] kid by blast
  qed
  moreover have "\<exists>q. names_missing k defs m path q \<and> hd q \<in> {p}" if out: "outcome = Some (Inl m)" for m
  proof -
    obtain q where "names_missing k defs m (path @ [p]) q" and "child_of k defs p (hd q)" 
      using ok(5) [OF out] unfolding kid by blast
    then have "names_missing k defs m path (p # q) \<and> hd (p # q) \<in> {p}" using names_missing_Cons by simp
    then show ?thesis by blast
  qed
  ultimately show ?thesis using ok(1,2) by (simp add: w walk_ok_def)
qed

lemma walk_miss:
  assumes "stored defs p = Some yaml" and "nd_missing (own_needs k yaml) = Some f" and "cache_ok k defs cache"
  shows "walk_ok k defs path seen {p} (Some (Inl \<lparr>mf_function = f, mf_path = path @ [p]\<rparr>), p # seen, cache)"
  using assms by (auto simp: walk_ok_def names_missing_def lacks_def intro!: exI [of _ "[p]"])

lemma walk_next:
  assumes "walk_ok k defs path seen {node d} (Some (Inr ()), seen', cache')"
    and "walk_ok k defs path seen' starts w"
  shows "walk_ok k defs path seen (insert (node d) starts) w"
proof -
  obtain outcome seen'' cache'' where w: "w = (outcome, seen'', cache'')" by (cases w)
  note a = walk_okD [OF assms(1)] and b = walk_okD [OF assms(2) [unfolded w]]
  have "settled k defs (set seen) (set seen'')" if "outcome = Some (Inr ())"
    using settled_trans [OF a(4) [OF refl] b(4) [OF that] b(2)] .
  then show ?thesis using a b unfolding w walk_ok_def by (auto 4 3)
qed

lemma walk_stop:
  assumes "walk_ok k defs path seen {node d} (outcome, seen', cache')" and "outcome \<noteq> Some (Inr ())"
  shows "walk_ok k defs path seen (insert (node d) starts) (outcome, seen', cache')"
  using assms by (auto simp: walk_ok_def)

lemma walk_correct:
  assumes "consistent defs"
  shows "stored defs (name, version) = Some yaml \<Longrightarrow> cache_ok k defs cache \<Longrightarrow>
      walk_ok k defs path seen {(name, version)} (check_tree fuel k defs name version yaml path seen cache)"
    and "cache_ok k defs cache \<Longrightarrow>
      walk_ok k defs path seen (child_nodes k defs ts) (check_children fuel k defs ts path seen cache)"
  using assms
proof (induction fuel k defs name version yaml path seen cache and fuel k defs ts path seen cache
    rule: check_tree_check_children.induct)
  case (1 k defs name version yaml path seen cache)
  then show ?case by (simp add: walk_ok_def)
next
  case (2 fuel k defs name version yaml path seen cache)
  obtain cache' where c: "cached_needs k name version yaml cache = (own_needs k yaml, cache')" "cache_ok k defs cache'"
    using cached_needs_ok [OF "2.prems"(2,1)] by blast
  consider "(name, version) \<in> set seen"
    | "(name, version) \<notin> set seen" "nd_missing (own_needs k yaml) = None"
    | f where "(name, version) \<notin> set seen" "nd_missing (own_needs k yaml) = Some f" by fastforce
  then show ?case
  proof cases
    case 1
    then show ?thesis using "2.prems"(2) by (simp add: walk_ok_def settled_refl)
  next
    case 2
    have "walk_ok k defs (path @ [(name, version)]) ((name, version) # seen)
        (child_nodes k defs (nd_children (own_needs k yaml)))
        (check_children fuel k defs (nd_children (own_needs k yaml)) (path @ [(name, version)]) ((name, version) # seen) cache')"
      using "2.IH" [OF 2(1) refl refl c(1) [symmetric] refl 2(2) c(2) "2.prems"(3)] by simp
    then show ?thesis using walk_visit [OF "2.prems"(1) 2(2,1)] 2 c(1) by simp
  next
    case 3
    then show ?thesis using walk_miss [OF "2.prems"(1) 3(2) c(2)] c(1) by simp
  qed
next
  case (3 fuel k defs path seen cache)
  then show ?case by (simp add: walk_ok_def settled_refl)
next
  case (4 fuel k defs t ts path seen cache)
  show ?case
  proof (cases "target (ck_parsers k) defs t")
    case None
    then show ?thesis using "4.IH"(1) [OF None "4.prems"] by simp
  next
    case (Some d)
    obtain outcome seen' cache' where r: "check_tree fuel k defs (dv_name d) (dv_version d) (dv_yaml d) path seen cache
      = (outcome, seen', cache')" by (metis prod_cases3)
    have first: "walk_ok k defs path seen {node d} (outcome, seen', cache')"
      using "4.IH"(2) [OF Some] target_stored [OF "4.prems"(2) Some] "4.prems" r by (simp add: node_def)
    have nodes: "child_nodes k defs (t # ts) = insert (node d) (child_nodes k defs ts)" using Some by auto
    show ?thesis
    proof (cases "outcome = Some (Inr ())")
      case True
      have "walk_ok k defs path seen' (child_nodes k defs ts) (check_children fuel k defs ts path seen' cache')"
        using "4.IH"(3) [OF Some r [symmetric] refl True] walk_okD(1) [OF first] "4.prems"(2) by blast
      then show ?thesis using walk_next [OF first [unfolded True]] Some r True unfolding nodes by simp
    next
      case False
      then show ?thesis using walk_stop [OF first False] Some r unfolding nodes by simp
    qed
  qed
qed

section \<open>The walk ends\<close>

abbreviation catalog_nodes :: "(string \<Rightarrow> definitions) \<Rightarrow> (string \<times> nat) set" where
  "catalog_nodes defs \<equiv> {p. stored defs p \<noteq> None}"

lemma fuel_step:
  assumes "finite S" and "p \<in> S" and "p \<notin> set seen" and "card (S - set seen) < Suc fuel"
  shows "card (S - set (p # seen)) < fuel"
proof -
  have "S - set (p # seen) \<subset> S - set seen" using assms(2,3) by auto
  then have "card (S - set (p # seen)) < card (S - set seen)" using assms(1) by (intro psubset_card_mono) simp_all
  then show ?thesis using assms(4) by simp
qed

lemma fuel_enough:
  assumes "consistent defs" and "finite (catalog_nodes defs)"
  shows "stored defs (name, version) = Some yaml \<Longrightarrow> cache_ok k defs cache \<Longrightarrow> card (catalog_nodes defs - set seen) < fuel \<Longrightarrow>
      fst (check_tree fuel k defs name version yaml path seen cache) \<noteq> None"
    and "cache_ok k defs cache \<Longrightarrow> card (catalog_nodes defs - set seen) < fuel \<Longrightarrow>
      fst (check_children fuel k defs ts path seen cache) \<noteq> None"
  using assms
proof (induction fuel k defs name version yaml path seen cache and fuel k defs ts path seen cache
    rule: check_tree_check_children.induct)
  case (2 fuel k defs name version yaml path seen cache)
  obtain cache' where c: "cached_needs k name version yaml cache = (own_needs k yaml, cache')" "cache_ok k defs cache'"
    using cached_needs_ok [OF "2.prems"(2,1)] by blast
  have less: "card (catalog_nodes defs - set ((name, version) # seen)) < fuel" if "(name, version) \<notin> set seen"
    using fuel_step [OF "2.prems"(5) _ that "2.prems"(3)] "2.prems"(1) by simp
  show ?case
  proof (cases "(name, version) \<in> set seen \<or> nd_missing (own_needs k yaml) \<noteq> None")
    case True
    then show ?thesis using c(1) by auto
  next
    case False
    then show ?thesis
      using "2.IH" [OF _ refl refl c(1) [symmetric] refl _ c(2) less "2.prems"(4,5)] c(1) by simp
  qed
next
  case (4 fuel k defs t ts path seen cache)
  show ?case
  proof (cases "target (ck_parsers k) defs t")
    case None
    then show ?thesis using "4.IH"(1) [OF None "4.prems"] by simp
  next
    case (Some d)
    obtain outcome seen' cache' where r: "check_tree fuel k defs (dv_name d) (dv_version d) (dv_yaml d) path seen cache
      = (outcome, seen', cache')" by (metis prod_cases3)
    have st: "stored defs (dv_name d, dv_version d) = Some (dv_yaml d)"
      using target_stored [OF "4.prems"(3) Some] by (simp add: node_def)
    have first: "walk_ok k defs path seen {(dv_name d, dv_version d)} (outcome, seen', cache')"
      using walk_correct(1) [OF "4.prems"(3) st "4.prems"(1), of path seen fuel] by (simp add: r)
    have "outcome \<noteq> None" using "4.IH"(2) [OF Some st "4.prems"] r by simp
    moreover have "card (catalog_nodes defs - set seen') < fuel"
      using card_mono [of "catalog_nodes defs - set seen" "catalog_nodes defs - set seen'"] walk_okD(2) [OF first] "4.prems"(2,4)
      by (auto dest: order.strict_trans1)
    ultimately show ?thesis
      using "4.IH"(3) [OF Some r [symmetric] refl _ walk_okD(1) [OF first] _ "4.prems"(3,4)] Some r by simp
  qed
qed simp_all


definition sample_checker :: "registry \<Rightarrow> checker" where
  "sample_checker r = \<lparr>ck_parsers = \<lparr>hp_yaml = (\<lambda>t. Inr (String t)), hp_conforms = (\<lambda>v. []), hp_cron = (\<lambda>c. None), hp_zone = Some,
     hp_instant = (\<lambda>t. None), hp_schema = (\<lambda>v. None)\<rparr>, ck_hash = length, ck_registry = r, ck_generation = 0,
     ck_capabilities = \<lparr>cp_runs = None, cp_secrets = False, cp_resources = None\<rparr>\<rparr>"

definition sample_catalog :: "string \<Rightarrow> definitions" where
  "sample_catalog name =
     (if name = ''w'' then default_definitions\<lparr>d_versions := bt_insert 1
        \<lparr>dv_name = ''w'', dv_version = 1, dv_yaml = ''do'', dv_digest = [], dv_breaker = Inherit\<rparr> bt_empty\<rparr>
      else default_definitions)"

lemma sample_nodes: "catalog_nodes sample_catalog = {(''w'', 1)}"
  by (auto simp: stored_def sample_catalog_def default_definitions_def split: if_splits)


section \<open>The cache across registries\<close>

text \<open>
  The states of an installed registry: replaced at any time, and checked with the registry of the moment or, by a check
  that began before a replacement and ends after it, with an older one. The set holds the texts checked.
\<close>

definition checker_for :: "host_parsers \<Rightarrow> (string \<Rightarrow> nat) \<Rightarrow> capabilities \<Rightarrow> registry \<Rightarrow> nat \<Rightarrow> checker" where
  "checker_for x h c r g = \<lparr>ck_parsers = x, ck_hash = h, ck_registry = r, ck_generation = g, ck_capabilities = c\<rparr>"

inductive installs :: "host_parsers \<Rightarrow> (string \<Rightarrow> nat) \<Rightarrow> capabilities \<Rightarrow> installed \<Rightarrow> string set \<Rightarrow> bool" for x h c where
  new: "installs x h c (installed_new r) {}"
| replaced: "installs x h c i T \<Longrightarrow> installs x h c (replace r i) T"
| checked: "installs x h c i T \<Longrightarrow> r = ir_registry i \<and> g = ir_generation i \<or> g < ir_generation i \<Longrightarrow>
    installs x h c (i\<lparr>ir_checks := snd (cached_needs (checker_for x h c r g) name version yaml (ir_checks i))\<rparr>) (insert yaml T)"

definition checks_sound :: "host_parsers \<Rightarrow> (string \<Rightarrow> nat) \<Rightarrow> capabilities \<Rightarrow> installed \<Rightarrow> string set \<Rightarrow> bool" where
  "checks_sound x h c i T \<longleftrightarrow>
     (\<forall>name version d n. ((name, version, d, ir_generation i), n) \<in> set (ir_checks i)
        \<longrightarrow> (\<exists>y \<in> T. d = h y \<and> n = needs_of x y (ir_registry i) c))"

lemma installs_sound: "installs x h c i T \<Longrightarrow> checks_sound x h c i T"
proof (induction rule: installs.induct)
  case (new r)
  show ?case by (simp add: checks_sound_def installed_new_def)
next
  case (replaced i T r)
  then show ?case by (simp add: checks_sound_def replace_def)
next
  case (checked i T r g name version yaml)
  then have old: "checks_sound x h c i (insert yaml T)" by (auto simp: checks_sound_def)
  show ?case
  proof (cases "map_of (ir_checks i) (name, version, h yaml, g)")
    case (Some n)
    then show ?thesis using old by (simp add: cached_needs_def checker_for_def Let_def)
  next
    case None
    then show ?thesis using old checked(2)
      by (auto simp: checks_sound_def cached_needs_def checker_for_def Let_def)
  qed
qed



section \<open>The budget's handler\<close>

definition alerting :: workflow where
  "alerting = sample_workflow looping_list (ExceededTask (plain None None (KCall ''alert'' None)))"

definition alert_function :: "delivery \<Rightarrow> host_function" where
  "alert_function d = \<lparr>hf_name = ''alert'', hf_input_schema = Null, hf_output_schema = Null, hf_delivery = d\<rparr>"


end
