(* ===== verification/Admitter.thy ===== *)
theory Admitter
  imports Registry Control
begin

text \<open>
  Building admissions (\<^verbatim>\<open>crates/runtime/src/execution.rs\<close>, section 3): the definition version, its checks against this host
  and what the run is bound to. The host works through the store, one committed operation at a time; between two of them
  other processes commit. A host step here carries that interference with it: a list of changes, one applied before each
  call of the store. What the telemetry adds to an admission and the resource resolver are parameters.
\<close>

section \<open>Host steps\<close>

datatype host_error =
    StoreFailed error
  | TrippedDefinition definition_tripped
  | UnknownDefinition string
  | MissingFunction missing_function
  | InvalidDefinition string
  | ResourceUnavailable string string
  | HostError string

type_synonym interference = "(db \<Rightarrow> db) list"

type_synonym 'a host_step = "interference \<Rightarrow> db \<Rightarrow> (host_error + 'a) \<times> interference \<times> db"

definition hret :: "'a \<Rightarrow> 'a host_step" where
  "hret a env r = (Inr a, env, r)"

definition hfail :: "host_error \<Rightarrow> 'a host_step" where
  "hfail e env r = (Inl e, env, r)"

definition hbind :: "'a host_step \<Rightarrow> ('a \<Rightarrow> 'b host_step) \<Rightarrow> 'b host_step" where
  "hbind m f env r = (case m env r of (Inl e, env', s) \<Rightarrow> (Inl e, env', s) | (Inr a, env', s) \<Rightarrow> f a env' s)"

definition disturbed :: "interference \<Rightarrow> db \<Rightarrow> interference \<times> db" where
  "disturbed env r = (case env of [] \<Rightarrow> ([], r) | e # es \<Rightarrow> (es, e r))"

definition call :: "'a op \<Rightarrow> 'a host_step" where
  "call m env r =
     (case disturbed env r of (env', s) \<Rightarrow>
        (case run m s of Inl e \<Rightarrow> (Inl (StoreFailed e), env', s) | Inr (a, s') \<Rightarrow> (Inr a, env', s')))"

definition hsum :: "host_error + 'a \<Rightarrow> 'a host_step" where
  "hsum v = (case v of Inl e \<Rightarrow> hfail e | Inr a \<Rightarrow> hret a)"

text \<open>The definitions of every name, as the reads of the start check find them.\<close>

definition catalog_in :: "db \<Rightarrow> string \<Rightarrow> definitions" where
  "catalog_in r name = (case run (definitions_of name) r of Inr (d, _) \<Rightarrow> d | Inl _ \<Rightarrow> default_definitions)"

definition read_catalog :: "(string \<Rightarrow> definitions) host_step" where
  "read_catalog env r = (case disturbed env r of (env', s) \<Rightarrow> (Inr (catalog_in s), env', s))"

section \<open>Limits and lineage\<close>

record limits =
  lm_max_tasks :: nat
  lm_max_jumps :: nat
  lm_max_depth :: nat
  lm_max_attempts :: nat
  lm_max_sleep :: "nat option"
  lm_max_listen :: "nat option"
  lm_max_hold :: "nat option"

definition default_limits :: limits where
  "default_limits = \<lparr>lm_max_tasks = 10000, lm_max_jumps = 100, lm_max_depth = 10, lm_max_attempts = 10, lm_max_sleep = None,
     lm_max_listen = None, lm_max_hold = None\<rparr>"

definition validate_limits :: "workflow \<Rightarrow> limits \<Rightarrow> problem list + unit" where
  "validate_limits w l =
     (case bg_max_jumps (wf_budget w) of
        Some n \<Rightarrow>
          if n > lm_max_jumps l
          then Inl [problem ''/document/metadata/ouro/limits/max_jumps''
                 (decimal n @ '' is above this host's ceiling of '' @ decimal (lm_max_jumps l) @ '' jumps'')]
          else Inr ()
      | None \<Rightarrow> Inr ())"

record lineage =
  ln_max_jumps :: nat
  ln_depth :: nat

definition lineage_of :: "admission \<Rightarrow> limits \<Rightarrow> lineage" where
  "lineage_of a l =
     (let p = index (a_runtime a) ''limits'' in
      \<lparr>ln_max_jumps = (case as_u64 (index p ''max_jumps'') of None \<Rightarrow> lm_max_jumps l | Some n \<Rightarrow> n),
       ln_depth = (case as_u64 (index p ''depth'') of None \<Rightarrow> 0 | Some d \<Rightarrow> if d \<le> U32_MAX then d else 0)\<rparr>)"

definition child_lineage :: "lineage \<Rightarrow> limits \<Rightarrow> workflow_error + lineage" where
  "child_lineage ln l =
     (let depth = min (ln_depth ln + 1) U32_MAX in
      if depth > lm_max_depth l
      then Inl (budget_error (''a child run would nest '' @ decimal depth @ '' deep; this host allows '' @ decimal (lm_max_depth l)))
      else Inr (ln\<lparr>ln_depth := depth\<rparr>))"

definition pin :: "lineage \<Rightarrow> json" where
  "pin ln = object [(''max_jumps'', Number (PosInt (ln_max_jumps ln))), (''depth'', Number (PosInt (ln_depth ln)))]"

section \<open>The admitter\<close>

record admitter =
  am_world :: world
  am_checker :: checker
  am_checks :: checks
  am_metadata :: json
  am_package :: string
  am_trace :: "(string \<times> json) list"
  am_application :: "string option"
  am_limits :: limits
  am_breaker_threshold :: nat
  am_max_concurrent_runs :: nat
  am_fuel :: nat

text \<open>\<^verbatim>\<open>value["member"] = v\<close> on an object, or on \<^verbatim>\<open>null\<close>, which becomes one.\<close>

definition set_member :: "string \<Rightarrow> json \<Rightarrow> json \<Rightarrow> json" where
  "set_member k v j = (case j of Object m \<Rightarrow> Object (obj_insert k v m) | Null \<Rightarrow> Object [(k, v)] | _ \<Rightarrow> j)"

definition problem_text :: "problem \<Rightarrow> string" where
  "problem_text p = (if pb_at p = [] then ''/'' else pb_at p) @ '': '' @ pb_message p"

definition NEWLINE :: string where
  "NEWLINE = [CHR 0x0A]"

definition problems_text :: "problem list \<Rightarrow> string" where
  "problems_text ps = ''invalid workflow:'' @ NEWLINE @ join NEWLINE (map (\<lambda>p. ''  - '' @ problem_text p) ps)"

definition invalid_text :: "invalid \<Rightarrow> string" where
  "invalid_text i = (case i of InvalidDsl ps \<Rightarrow> problems_text ps | BadCall s \<Rightarrow> s)"

text \<open>A failure of the resolver is no property of the definition; every other one is.\<close>

fun resolve_schemas :: "schema_library \<Rightarrow> (string \<Rightarrow> string + json) option \<Rightarrow> string list \<Rightarrow> members \<Rightarrow> host_error + members" where
  "resolve_schemas x resolver [] out = Inr out"
| "resolve_schemas x resolver (uri # uris) out =
     (case resolver of
        None \<Rightarrow> Inl (InvalidDefinition (''no resource resolver for '' @ uri))
      | Some resolve \<Rightarrow>
          (case resolve uri of
             Inl e \<Rightarrow> Inl (ResourceUnavailable uri e)
           | Inr doc \<Rightarrow>
               (case sl_compile x doc of
                  Some e \<Rightarrow> Inl (InvalidDefinition (''schema '' @ uri @ '' is not a JSON Schema: '' @ e))
                | None \<Rightarrow> resolve_schemas x resolver uris (obj_insert uri doc out))))"

definition schemas :: "admitter \<Rightarrow> workflow \<Rightarrow> host_error + members" where
  "schemas m w = resolve_schemas (wo_schemas (am_world m)) (cp_resources (ck_capabilities (am_checker m))) (schema_resources w) []"

definition validate_admitted :: "admitter \<Rightarrow> string \<Rightarrow> host_error + workflow" where
  "validate_admitted m yaml =
     and_then (map_sum (InvalidDefinition \<circ> invalid_text) id
       (validate_with (am_world m) (ck_registry (am_checker m)) yaml (ck_capabilities (am_checker m)))) (\<lambda>w.
     and_then (map_sum (InvalidDefinition \<circ> problems_text) id (validate_limits w (am_limits m))) (\<lambda>_.
     and_then (schemas m w) (\<lambda>_. Inr w)))"

definition root_lineage :: "admitter \<Rightarrow> lineage" where
  "root_lineage m = \<lparr>ln_max_jumps = lm_max_jumps (am_limits m), ln_depth = 0\<rparr>"

definition admission_of ::
  "admitter \<Rightarrow> string \<Rightarrow> definition_version \<Rightarrow> json \<Rightarrow> lineage \<Rightarrow> (json \<times> members) option \<Rightarrow> admission" where
  "admission_of m i d input ln bound =
     (let base = object [(''name'', String ''ouro-runtime''), (''version'', String (am_package m)), (''metadata'', am_metadata m)];
        bnd = (case bound of None \<Rightarrow> base
          | Some (b, s) \<Rightarrow> set_member ''schemas'' (Object s) (set_member ''bindings'' b base));
        lim = set_member ''limits'' (pin ln) bnd;
        app = (case am_application m of None \<Rightarrow> lim | Some v \<Rightarrow> set_member APPLICATION_VERSION (String v) lim)
      in \<lparr>a_id = i, a_name = dv_name d, a_version = dv_version d, a_definition = dv_yaml d, a_input = input,
          a_runtime = fold (\<lambda>(k, v). set_member k v) (am_trace m) app\<rparr>)"

text \<open>\<^verbatim>\<open>check\<close>, then validation, the schemas and the bindings.\<close>

definition check_host :: "admitter \<Rightarrow> definition_version \<Rightarrow> unit host_step" where
  "check_host m d =
     hbind read_catalog (\<lambda>defs.
     case fst (check_start (am_fuel m) (am_checker m) defs (dv_name d) (dv_version d) (dv_yaml d) (am_checks m)) of
       Some (Inr _) \<Rightarrow> hret ()
     | Some (Inl f) \<Rightarrow> hfail (MissingFunction f)
     | None \<Rightarrow> hfail (StoreFailed Diverged))"

definition admit :: "admitter \<Rightarrow> string \<Rightarrow> definition_version \<Rightarrow> json \<Rightarrow> lineage \<Rightarrow> admission host_step" where
  "admit m i d input ln =
     hbind (check_host m d) (\<lambda>_.
     hbind (hsum (validate_admitted m (dv_yaml d))) (\<lambda>w.
     hbind (hsum (schemas m w)) (\<lambda>s.
     hret (admission_of m i d input ln (Some (bindings (ck_registry (am_checker m)) w, s))))))"

definition current_definition :: "string \<Rightarrow> definition_version host_step" where
  "current_definition name =
     hbind (call (definitions_of name)) (\<lambda>ds.
     case d_tripped ds of
       Some t \<Rightarrow> hfail (TrippedDefinition (refusal t name))
     | None \<Rightarrow>
         (case Option.bind (d_active ds) (bt_get (d_versions ds)) of
            Some d \<Rightarrow> hret d
          | None \<Rightarrow> hfail (UnknownDefinition (''no active definition for '' @ name))))"

definition active_in :: "admitter \<Rightarrow> string \<Rightarrow> string \<Rightarrow> json \<Rightarrow> lineage \<Rightarrow> admission host_step" where
  "active_in m i name input ln = hbind (current_definition name) (\<lambda>d. admit m i d input ln)"

definition pinned_in :: "admitter \<Rightarrow> string \<Rightarrow> string \<Rightarrow> nat \<Rightarrow> json \<Rightarrow> lineage \<Rightarrow> admission host_step" where
  "pinned_in m i name version input ln =
     hbind (call (definitions_of name)) (\<lambda>ds.
     case bt_get (d_versions ds) version of
       None \<Rightarrow> hfail (UnknownDefinition (''unknown definition version '' @ decimal version @ '' of '' @ name))
     | Some d \<Rightarrow>
         hbind (admit m i d input ln) (\<lambda>a.
         hret (a\<lparr>a_runtime := set_member PINNED (Bool True) (a_runtime a)\<rparr>)))"

text \<open>Why this host refuses a definition: deterministic reasons only.\<close>

definition host_refusal :: "host_error \<Rightarrow> workflow_error option" where
  "host_refusal e =
     (case e of
        MissingFunction f \<Rightarrow> Some (missing_error f)
      | InvalidDefinition text \<Rightarrow> Some (validation text)
      | _ \<Rightarrow> None)"

definition catching :: "'a host_step \<Rightarrow> (host_error + 'a) host_step" where
  "catching m env r = (case m env r of (v, env', s) \<Rightarrow> (Inr v, env', s))"

definition admit_triggered :: "admitter \<Rightarrow> string \<Rightarrow> string \<Rightarrow> json \<Rightarrow> json \<Rightarrow> (refused + admission) host_step" where
  "admit_triggered m i name input schedule =
     hbind (current_definition name) (\<lambda>d.
     hbind (catching (admit m i d input (root_lineage m))) (\<lambda>v.
     case v of
       Inr a \<Rightarrow> hret (Inr (a\<lparr>a_runtime := set_member ''schedule'' schedule (a_runtime a)\<rparr>))
     | Inl e \<Rightarrow>
         (case host_refusal e of
            Some error \<Rightarrow>
              let a = admission_of m i d input (root_lineage m) None in
              hret (Inl \<lparr>rf_admission = a\<lparr>a_runtime := set_member ''schedule'' schedule (a_runtime a)\<rparr>, rf_error = error,
                rf_breaker_threshold = am_breaker_threshold m\<rparr>)
          | None \<Rightarrow> hfail e)))"

end
