(* ===== verification/Cloud_Events.thy ===== *)
theory Cloud_Events
  imports Dsl
begin

text \<open>
  CloudEvents in a definition (\<^verbatim>\<open>crates/ows/src/events.rs\<close>, sections 1 and 4): the envelope an \<^verbatim>\<open>emit\<close> publishes, what a
  \<^verbatim>\<open>listen\<close> reads of an event, and the types a host routes to a strategy.
\<close>

section \<open>Envelopes\<close>

definition SPEC_VERSION :: string where
  "SPEC_VERSION = ''1.0''"

record defaults =
  df_id :: string
  df_source :: string
  df_time :: string

text \<open>An attribute that must be a string with text in it, or a string where it is present.\<close>

definition has_text :: "members \<Rightarrow> string \<Rightarrow> bool" where
  "has_text m k \<longleftrightarrow> (case Option.bind (map_of m k) as_str of None \<Rightarrow> False | Some s \<Rightarrow> s \<noteq> [])"

definition text_or_absent :: "members \<Rightarrow> string \<Rightarrow> bool" where
  "text_or_absent m k \<longleftrightarrow> (case map_of m k of None \<Rightarrow> True | Some v \<Rightarrow> as_str v \<noteq> None)"

definition envelope :: "members \<Rightarrow> defaults \<Rightarrow> string + json" where
  "envelope attrs d =
     (let base = fold (\<lambda>(k, v). obj_insert k v)
          [(''specversion'', String SPEC_VERSION), (''id'', String (df_id d)), (''source'', String (df_source d)),
           (''time'', String (df_time d))] [];
        event = fold (\<lambda>(k, v) m. if v \<noteq> Null \<or> k = ''data'' then obj_insert k v m else m) attrs base
      in case List.find (\<lambda>k. \<not> has_text event k) [''id'', ''source'', ''type'', ''time''] of
           Some k \<Rightarrow> Inl (''the emitted event's `'' @ k @ ''` must be a non-empty string'')
         | None \<Rightarrow>
             (case List.find (\<lambda>k. \<not> text_or_absent event k) [''subject'', ''datacontenttype'', ''dataschema''] of
                Some k \<Rightarrow> Inl (''the emitted event's `'' @ k @ ''` must be a string'')
              | None \<Rightarrow> Inr (Object event)))"

definition read_event :: "json \<Rightarrow> read \<Rightarrow> json" where
  "read_event event r =
     (case r of
        ReadEnvelope \<Rightarrow> event
      | _ \<Rightarrow> (case member_of event ''data'' of None \<Rightarrow> Null | Some v \<Rightarrow> v))"

section \<open>Routing\<close>

text \<open>The filters a strategy reads; \<open>None\<close> where it takes every event.\<close>

fun routed_filters :: "strategy \<Rightarrow> event_filter list option" where
  "routed_filters (One f) = Some [f]"
| "routed_filters (All fs) = Some fs"
| "routed_filters (Any fs (Some (Events u))) =
     (if fs = [] then None else map_option (\<lambda>more. fs @ more) (routed_filters u))"
| "routed_filters (Any fs _) = (if fs = [] then None else Some fs)"

definition PATTERN_CHARS :: string where
  "PATTERN_CHARS = CHR 0x5C # ''^$*+?()[]{}|''"

definition route_of :: "jq \<Rightarrow> event_filter \<Rightarrow> args \<Rightarrow> string option" where
  "route_of jq f a =
     Option.bind (Option.bind (map_of (with_attrs f) ''type'') as_str) (\<lambda>t.
       case strip t of
         Some code \<Rightarrow> (case jq code Null a of Inr (String s) \<Rightarrow> if s \<noteq> [] then Some s else None | _ \<Rightarrow> None)
       | None \<Rightarrow> if list_ex (\<lambda>c. c \<in> set PATTERN_CHARS) t then None else Some t)"

fun route_list :: "jq \<Rightarrow> event_filter list \<Rightarrow> args \<Rightarrow> string list \<Rightarrow> string list" where
  "route_list jq [] a out = out"
| "route_list jq (f # fs) a out =
     (case route_of jq f a of
        Some t \<Rightarrow> route_list jq fs a (if t \<in> set out then out else out @ [t])
      | None \<Rightarrow> [''*''])"

definition routes :: "jq \<Rightarrow> strategy \<Rightarrow> args \<Rightarrow> string list" where
  "routes jq s a = (case routed_filters s of None \<Rightarrow> [''*''] | Some fs \<Rightarrow> route_list jq fs a [])"

end
