(* ===== verification/Schedules.thy ===== *)
theory Schedules
  imports Admitter Cloud_Events
begin

text \<open>
  Schedules (\<^verbatim>\<open>crates/runtime/src/schedule.rs\<close>): the triggers a definition's schedule arms, the slots of time triggers,
  what firing a due trigger commits, event triggers, and the backoff of interrupted slots and notices. Cron, the calendar
  and jq are parameters. Spans, metrics, observers and the in-process cancellation signals after a replaced run are left
  out.
\<close>

section \<open>Slots\<close>

definition BATCH :: nat where
  "BATCH = 256"

definition SKIPS_KEPT :: nat where
  "SKIPS_KEPT = 16"

definition RETRY :: string where
  "RETRY = ''retry''"

record calendar =
  cal_iso8601 :: "int \<Rightarrow> string"
  cal_seconds :: "int \<Rightarrow> int"
  cal_rfc3339 :: "int \<Rightarrow> string"
  cal_cron :: "string \<Rightarrow> string option \<Rightarrow> int \<Rightarrow> string + int"

record runtime =
  rt_admitter :: admitter
  rt_calendar :: calendar
  rt_ext :: ext
  rt_policy :: policy
  rt_fuel :: nat

abbreviation rt_parsers :: "runtime \<Rightarrow> host_parsers" where
  "rt_parsers x \<equiv> ck_parsers (am_checker (rt_admitter x))"

definition trigger_key :: "string \<Rightarrow> string \<Rightarrow> string" where
  "trigger_key name kind = name @ ''#'' @ kind"

text \<open>FNV-1a over the bytes of a text.\<close>

definition fnv :: "string \<Rightarrow> 64 word" where
  "fnv text = fold (\<lambda>c h. xor h (of_nat (of_char c)) * 0x100000001b3) text 0xcbf29ce484222325"

definition event_digest :: "string \<Rightarrow> string" where
  "event_digest text = hex_fixed 16 (unat (fnv text))"

text \<open>A duration in milliseconds as an \<^verbatim>\<open>i64\<close>, at least one.\<close>

definition millis :: "nat \<Rightarrow> int" where
  "millis d = max (min (int d) I64_MAX) 1"

text \<open>\<^verbatim>\<open>rem_euclid\<close> of a positive divisor is Isabelle's \<open>mod\<close>.\<close>

definition next_every :: "int \<Rightarrow> int \<Rightarrow> int" where
  "next_every every a = a - a mod every + every"

definition next_slot :: "calendar \<Rightarrow> schedule \<Rightarrow> string \<Rightarrow> int \<Rightarrow> host_error + int option" where
  "next_slot c s kind a =
     (if kind = ''every'' \<and> sd_every s \<noteq> None then Inr (Some (next_every (millis (the (sd_every s))) a))
      else if kind = ''cron'' \<and> sd_cron s \<noteq> None
        then map_sum HostError Some (cal_cron c (the (sd_cron s)) (sd_timezone s) a)
      else Inr None)"

definition i64_json :: "int \<Rightarrow> json" where
  "i64_json i = Number (of_i64 i)"

definition as_i64 :: "json \<Rightarrow> int option" where
  "as_i64 v = (case v of Number n \<Rightarrow> num_as_i64 n | _ \<Rightarrow> None)"

definition datetime :: "calendar \<Rightarrow> int \<Rightarrow> json" where
  "datetime c ms = object [(''iso8601'', String (cal_iso8601 c ms)),
     (''epoch'', object [(''seconds'', i64_json (cal_seconds c ms)), (''milliseconds'', i64_json ms)])]"

definition run_schedule :: "calendar \<Rightarrow> string \<Rightarrow> int \<Rightarrow> int option \<Rightarrow> json" where
  "run_schedule c kind slot prev = object [(''kind'', String kind), (''slot'', datetime c slot),
     (''previous'', case prev of None \<Rightarrow> Null | Some p \<Rightarrow> datetime c p)]"

definition previous :: "trigger \<Rightarrow> int option" where
  "previous t = as_i64 (index (tg_state t) ''previous'')"

definition active_schedule :: "host_parsers \<Rightarrow> definitions \<Rightarrow> host_error + schedule option" where
  "active_schedule x ds =
     (case Option.bind (d_active ds) (bt_get (d_versions ds)) of
        None \<Rightarrow> Inr None
      | Some d \<Rightarrow> and_then (map_sum (HostError \<circ> problems_text) id (parse_yaml x (dv_yaml d))) (\<lambda>w. Inr (wf_schedule w)))"

definition current_epoch :: "definitions \<Rightarrow> trigger \<Rightarrow> bool" where
  "current_epoch ds t \<longleftrightarrow> d_tripped ds = None \<and> index (tg_state t) ''epoch'' = Number (PosInt (d_epoch ds))"

section \<open>Arming\<close>

definition trigger_state :: "string \<Rightarrow> string \<Rightarrow> nat \<Rightarrow> members \<Rightarrow> json" where
  "trigger_state name kind epoch extra =
     object ([(''name'', String name), (''kind'', String kind), (''epoch'', Number (PosInt epoch))] @ extra)"

definition arm_slot ::
  "calendar \<Rightarrow> schedule \<Rightarrow> string \<Rightarrow> nat \<Rightarrow> int \<Rightarrow> string \<Rightarrow> (string, trigger) btree \<Rightarrow> host_error + (string, trigger) btree" where
  "arm_slot c s name epoch now kind out =
     and_then (next_slot c s kind now) (\<lambda>slot.
     Inr (case slot of
            None \<Rightarrow> out
          | Some _ \<Rightarrow> bt_insert (trigger_key name kind)
              \<lparr>tg_at_ms = slot, tg_types = [], tg_state = trigger_state name kind epoch []\<rparr> out))"

definition arming :: "host_parsers \<Rightarrow> calendar \<Rightarrow> jq \<Rightarrow> string \<Rightarrow> string \<Rightarrow> nat \<Rightarrow> int \<Rightarrow> host_error + (string, trigger) btree" where
  "arming x c jq name yaml epoch now =
     and_then (map_sum (HostError \<circ> problems_text) id (parse_yaml x yaml)) (\<lambda>w.
     case wf_schedule w of
       None \<Rightarrow> Inr bt_empty
     | Some s \<Rightarrow>
         and_then (arm_slot c s name epoch now ''every'' bt_empty) (\<lambda>a.
         and_then (arm_slot c s name epoch now ''cron'' a) (\<lambda>b.
         let put = (\<lambda>kind at types extra out. bt_insert (trigger_key name kind)
               \<lparr>tg_at_ms = at, tg_types = types, tg_state = trigger_state name kind epoch extra\<rparr> out);
           d = (if sd_after s \<noteq> None then put ''after'' (Some now) [] [(''n'', Number (PosInt 1))] b else b);
           e = (case sd_at s of None \<Rightarrow> d | Some at \<Rightarrow> put ''at'' (Some at) [] [] d)
         in Inr (case sd_on s of
              None \<Rightarrow> e
            | Some on \<Rightarrow> put ''on'' None (routes jq on args_new) [(''events'', Array [])] e))))"

fun activate_armed :: "nat \<Rightarrow> runtime \<Rightarrow> string \<Rightarrow> nat \<Rightarrow> string option \<Rightarrow> string option \<Rightarrow> int \<Rightarrow> unit host_step" where
  "activate_armed 0 x name version actor note now = hfail (HostError (''definition '' @ name @ '' changed too often to activate''))"
| "activate_armed (Suc tries) x name version actor note now =
     hbind (call (definitions_of name)) (\<lambda>ds.
     case bt_get (d_versions ds) version of
       None \<Rightarrow> hfail (HostError ''unknown definition version'')
     | Some d \<Rightarrow>
         hbind (hsum (arming (rt_parsers x) (rt_calendar x) (x_jq (rt_ext x)) name (dv_yaml d) (d_epoch ds + 1) now)) (\<lambda>triggers.
         hbind (call (activate name version (Some (d_epoch ds)) triggers
             \<lparr>act_at_ms = now, act_actor = actor, act_note = note\<rparr>)) (\<lambda>committed.
         if committed \<noteq> None then hret () else activate_armed tries x name version actor note now)))"

section \<open>Firing\<close>

definition blank_firing :: "string \<Rightarrow> firing" where
  "blank_firing k = \<lparr>fi_key = k, fi_expected = None, fi_next = None, fi_admit = [], fi_rearm = None, fi_ingress = None,
     fi_busy = None, fi_refused = None, fi_overlap = None\<rparr>"

definition moved :: "string \<Rightarrow> trigger \<Rightarrow> trigger \<Rightarrow> trigger option \<Rightarrow> firing" where
  "moved k t nxt busy = (blank_firing k)\<lparr>fi_expected := Some t, fi_next := Some nxt, fi_busy := busy\<rparr>"

definition with_state :: "(json \<Rightarrow> json) \<Rightarrow> trigger \<Rightarrow> trigger" where
  "with_state f t = t\<lparr>tg_state := f (tg_state t)\<rparr>"

definition skipped :: "trigger \<Rightarrow> int \<Rightarrow> string \<Rightarrow> trigger" where
  "skipped t slot reason =
     (let old = (case index (tg_state t) ''skipped'' of Array vs \<Rightarrow> vs | _ \<Rightarrow> []);
        entry = object ([(''slot'', i64_json slot), (''reason'', String reason)]
          @ (if reason = ''overlap: ceiling'' then [(''overlap'', String ''ceiling'')] else []));
        all = old @ [entry];
        kept = drop (length all - SKIPS_KEPT) all;
        count = (case as_u64 (index (tg_state t) ''skips'') of None \<Rightarrow> 0 | Some n \<Rightarrow> n)
      in with_state (\<lambda>s. set_member ''skips'' (Number (PosInt (count + 1))) (set_member ''skipped'' (Array kept) s)) t)"

text \<open>What a due time trigger becomes, before its run is admitted.\<close>

record plan =
  pl_next :: trigger
  pl_busy :: trigger
  pl_rearm :: "rearm option"
  pl_id :: string

datatype slot_plan = NoSlot | SkipSlot trigger string | StartSlot plan

definition clear_retry :: "trigger \<Rightarrow> trigger" where
  "clear_retry t = with_state (\<lambda>s. case s of Object m \<Rightarrow> Object (obj_remove RETRY m) | _ \<Rightarrow> s) t"

definition show_int :: "int \<Rightarrow> string" where
  "show_int i = (if i < 0 then CHR ''-'' # decimal (nat (- i)) else decimal (nat i))"

definition slot_id :: "string \<Rightarrow> string \<Rightarrow> int \<Rightarrow> string" where
  "slot_id name kind slot = ''schedule:'' @ name @ '':'' @ kind @ '':'' @ show_int slot"

definition padded :: "nat \<Rightarrow> nat \<Rightarrow> string" where
  "padded w n = replicate (w - length (decimal n)) (CHR ''0'') @ decimal n"

definition time_plan :: "calendar \<Rightarrow> schedule \<Rightarrow> string \<Rightarrow> string \<Rightarrow> trigger \<Rightarrow> int \<Rightarrow> int \<Rightarrow> host_error + slot_plan" where
  "time_plan c s name kind t slot now =
     and_then (next_slot c s kind slot) (\<lambda>following.
     case following of
       None \<Rightarrow> Inr NoSlot
     | Some f \<Rightarrow>
         and_then (next_slot c s kind (max slot now)) (\<lambda>at.
         let nxt = (clear_retry t)\<lparr>tg_at_ms := at\<rparr> in
         if f \<le> now \<and> sd_catchup s = CatchNone then Inr (SkipSlot (skipped nxt slot ''missed'') ''missed'')
         else Inr (StartSlot \<lparr>pl_next = nxt, pl_busy = nxt, pl_rearm = None, pl_id = slot_id name kind slot\<rparr>)))"

definition after_plan :: "schedule \<Rightarrow> string \<Rightarrow> string \<Rightarrow> nat \<Rightarrow> trigger \<Rightarrow> int \<Rightarrow> slot_plan" where
  "after_plan s name k epoch t now =
     (case sd_after s of
        None \<Rightarrow> NoSlot
      | Some delay \<Rightarrow>
          let n = (case as_u64 (index (tg_state t) ''n'') of None \<Rightarrow> 1 | Some m \<Rightarrow> m);
            base = clear_retry t
          in StartSlot \<lparr>
               pl_next = with_state (set_member ''n'' (Number (PosInt (n + 1)))) (base\<lparr>tg_at_ms := None\<rparr>),
               pl_busy = base\<lparr>tg_at_ms := Some (sat_add now (millis delay))\<rparr>,
               pl_rearm = Some \<lparr>ra_trigger = k, ra_delay_ms = millis delay\<rparr>,
               pl_id = ''schedule:'' @ name @ '':after:'' @ decimal epoch @ '':'' @ padded 10 n\<rparr>)"

definition at_plan :: "schedule \<Rightarrow> string \<Rightarrow> trigger \<Rightarrow> int \<Rightarrow> bool \<Rightarrow> slot_plan" where
  "at_plan s name t slot known =
     (if sd_at s = None then NoSlot
      else
        let spent = with_state (set_member ''done'' (Bool True)) ((clear_retry t)\<lparr>tg_at_ms := None\<rparr>) in
        if known then SkipSlot (skipped spent slot ''already run'') ''already run''
        else StartSlot \<lparr>pl_next = spent, pl_busy = spent, pl_rearm = None, pl_id = slot_id name ''at'' slot\<rparr>)"

definition slot_plan_of :: "runtime \<Rightarrow> definitions \<Rightarrow> schedule \<Rightarrow> string \<Rightarrow> string \<Rightarrow> string \<Rightarrow> trigger \<Rightarrow> int \<Rightarrow> int \<Rightarrow> slot_plan host_step" where
  "slot_plan_of x ds s k name kind t slot now =
     (if kind = ''every'' \<or> kind = ''cron'' then hsum (time_plan (rt_calendar x) s name kind t slot now)
      else if kind = ''after'' then hret (after_plan s name k (d_epoch ds) t now)
      else if kind = ''at'' then
        (if sd_at s = None then hret NoSlot
         else hbind (call (get_saved (slot_id name ''at'' slot))) (\<lambda>r. hret (at_plan s name t slot (r \<noteq> None))))
      else hret NoSlot)"

definition NOTICE_RETRY_MS :: int where
  "NOTICE_RETRY_MS = 1000"

definition NOTICE_RETRY_MAX_MS :: int where
  "NOTICE_RETRY_MAX_MS = 300000"

definition retry_at :: "int \<Rightarrow> nat \<Rightarrow> int" where
  "retry_at now failures =
     sat_add now (min (clamp_i64 (NOTICE_RETRY_MS * 2 ^ min (failures - 1) 20)) NOTICE_RETRY_MAX_MS)"

text \<open>An interrupted slot stays with its trigger, which is due again after a backoff.\<close>

definition interrupted_trigger :: "trigger \<Rightarrow> int \<Rightarrow> string \<Rightarrow> int \<Rightarrow> trigger" where
  "interrupted_trigger t slot e now =
     (let failures = min ((case as_u64 (index (index (tg_state t) RETRY) ''failures'') of None \<Rightarrow> 0 | Some n \<Rightarrow> n) + 1) U64_MAX
      in with_state (set_member RETRY (object [(''slot'', i64_json slot), (''failures'', Number (PosInt failures)), (''error'', String e)]))
           (t\<lparr>tg_at_ms := Some (retry_at now (min failures U32_MAX))\<rparr>))"

definition store_fire :: "runtime \<Rightarrow> firing \<Rightarrow> int \<Rightarrow> fired host_step" where
  "store_fire x f now =
     hbind (call (fire (rt_fuel x) (rt_ext x) f now (rt_policy x))) (\<lambda>v.
     case v of Inl d \<Rightarrow> hfail (TrippedDefinition d) | Inr r \<Rightarrow> hret r)"

text \<open>The firing of a planned slot: its run admitted, or the refusal recorded in its place.\<close>

definition slot_firing :: "runtime \<Rightarrow> schedule \<Rightarrow> string \<Rightarrow> trigger \<Rightarrow> int \<Rightarrow> int \<Rightarrow> plan \<Rightarrow> refused + admission \<Rightarrow> firing" where
  "slot_firing x s k t slot now p admission =
     (let late = (case (admission, pl_rearm p) of
            (Inl _, Some ra) \<Rightarrow> (pl_next p)\<lparr>tg_at_ms := Some (sat_add now (ra_delay_ms ra))\<rparr>
          | _ \<Rightarrow> pl_next p);
        nxt = with_state (set_member ''previous'' (i64_json slot)) late;
        f = moved k t nxt (Some (skipped (pl_busy p) slot ''overlap''));
        g = (case admission of
            Inr a \<Rightarrow> f\<lparr>fi_admit := [a], fi_rearm := pl_rearm p\<rparr>
          | Inl r \<Rightarrow> f\<lparr>fi_refused := Some r\<rparr>)
      in g\<lparr>fi_overlap := Some \<lparr>og_policy = sd_overlap s, og_max_concurrent_runs = am_max_concurrent_runs (rt_admitter x),
           og_ceiling = skipped (pl_busy p) slot ''overlap: ceiling''\<rparr>\<rparr>)"

definition unavailable_text :: "string \<Rightarrow> string \<Rightarrow> string" where
  "unavailable_text uri e = ''schema '' @ uri @ '': '' @ e"

definition start_slot :: "runtime \<Rightarrow> schedule \<Rightarrow> string \<Rightarrow> string \<Rightarrow> string \<Rightarrow> trigger \<Rightarrow> int \<Rightarrow> int \<Rightarrow> plan \<Rightarrow> string option host_step" where
  "start_slot x s k name kind t slot now p =
     hbind (catching (admit_triggered (rt_admitter x) (pl_id p) name (Object []) (run_schedule (rt_calendar x) kind slot (previous t)))) (\<lambda>v.
     case v of
       Inr admission \<Rightarrow>
         hbind (store_fire x (slot_firing x s k t slot now p admission) now) (\<lambda>r.
         hret (if r = FCommitted \<and> (case admission of Inr _ \<Rightarrow> True | Inl _ \<Rightarrow> False) then Some (pl_id p) else None))
     | Inl (TrippedDefinition d) \<Rightarrow> hret None
     | Inl (ResourceUnavailable uri e) \<Rightarrow>
         hbind (store_fire x (moved k t (interrupted_trigger t slot (unavailable_text uri e) now) None) now) (\<lambda>_. hret None)
     | Inl e \<Rightarrow> hfail e)"

definition due_slot :: "trigger \<Rightarrow> int option" where
  "due_slot t = (case as_i64 (index (index (tg_state t) RETRY) ''slot'') of Some s \<Rightarrow> Some s | None \<Rightarrow> tg_at_ms t)"

definition fire_trigger :: "runtime \<Rightarrow> string \<Rightarrow> trigger \<Rightarrow> int \<Rightarrow> string option host_step" where
  "fire_trigger x k t now =
     (case (as_str (index (tg_state t) ''name''), as_str (index (tg_state t) ''kind''), due_slot t) of
        (Some name, Some kind, Some slot) \<Rightarrow>
          hbind (call (definitions_of name)) (\<lambda>ds.
          hbind (hsum (active_schedule (rt_parsers x) ds)) (\<lambda>os.
          case (if current_epoch ds t then os else None) of
            None \<Rightarrow> hret None
          | Some s \<Rightarrow>
              hbind (slot_plan_of x ds s k name kind t slot now) (\<lambda>p.
              case p of
                NoSlot \<Rightarrow> hret None
              | SkipSlot skip reason \<Rightarrow> hbind (store_fire x (moved k t skip None) now) (\<lambda>_. hret None)
              | StartSlot q \<Rightarrow> start_slot x s k name kind t slot now q)))
      | _ \<Rightarrow> hfail (HostError (''trigger '' @ k @ '' is not a schedule's'')))"

fun fire_each :: "runtime \<Rightarrow> (string \<times> trigger) list \<Rightarrow> int \<Rightarrow> string list host_step" where
  "fire_each x [] now = hret []"
| "fire_each x ((k, t) # ts) now =
     hbind (fire_trigger x k t now) (\<lambda>r.
     hbind (fire_each x ts now) (\<lambda>rs.
     hret ((case r of None \<Rightarrow> [] | Some i \<Rightarrow> [i]) @ rs)))"

definition fire_due :: "runtime \<Rightarrow> int \<Rightarrow> string list host_step" where
  "fire_due x now = hbind (call (due_triggers now (Some BATCH))) (\<lambda>ts. fire_each x ts now)"

section \<open>Publishing\<close>

text \<open>The identity and type of an event checked, its \<^verbatim>\<open>specversion\<close> and \<^verbatim>\<open>time\<close> filled in.\<close>

definition complete :: "calendar \<Rightarrow> json \<Rightarrow> int \<Rightarrow> host_error + json" where
  "complete c event now =
     (case event of
        Object m \<Rightarrow>
          (case List.find (\<lambda>k. \<not> has_text m k) [''id'', ''source'', ''type''] of
             Some k \<Rightarrow> Inl (HostError (''an event needs `'' @ k @ ''`''))
           | None \<Rightarrow> Inr (Object (obj_or_insert ''time'' (String (cal_rfc3339 c now))
               (obj_or_insert ''specversion'' (String SPEC_VERSION) m))))
      | _ \<Rightarrow> Inl (HostError ''an event is an object''))"

definition listen_text :: "listen_error \<Rightarrow> host_error" where
  "listen_text e = HostError (case e of EvalError s \<Rightarrow> s | Panic \<Rightarrow> ''panic'')"

definition until_holds :: "jq \<Rightarrow> strategy \<Rightarrow> json list \<Rightarrow> host_error + bool" where
  "until_holds jq s taken =
     (case s of
        Any _ (Some (Condition c)) \<Rightarrow>
          map_sum HostError truthy (jq c (Array (map (\<lambda>e. read_event e ReadData) taken)) args_new)
      | _ \<Rightarrow> Inr False)"

definition stop_consumer :: "progress \<Rightarrow> progress" where
  "stop_consumer p = Progress (filled p) (expectations p) (until_of p) True"

fun consume_each :: "jq \<Rightarrow> (json \<Rightarrow> string) \<Rightarrow> strategy \<Rightarrow> json list \<Rightarrow> progress \<Rightarrow> json list \<Rightarrow> offer \<Rightarrow>
    host_error + (offer \<times> progress \<times> json list)" where
  "consume_each jq text s [] p taken latest = Inr (latest, p, taken)"
| "consume_each jq text s (e # es) p taken latest =
     and_then (map_sum listen_text id (consumer_offer jq text s p e Null args_new)) (\<lambda>(o', p').
       if o' = Consumed then
         and_then (until_holds jq s (taken @ [e])) (\<lambda>b.
         consume_each jq text s es (if b then stop_consumer p' else p') (taken @ [e]) o')
       else consume_each jq text s es p' taken o')"

text \<open>\<open>None\<close>: the last event is not wanted; \<open>Some None\<close>: wanted, not complete yet.\<close>

definition consume_all :: "jq \<Rightarrow> (json \<Rightarrow> string) \<Rightarrow> strategy \<Rightarrow> json list \<Rightarrow> host_error + json list option option" where
  "consume_all jq text s events =
     and_then (consume_each jq text s events (consumer_new s) [] Ignored) (\<lambda>(latest, p, taken).
       Inr (if latest = Ignored then None else if done_of p then Some (Some taken) else Some None))"

datatype taken = NotTaken | Taken "string option"

definition same_event :: "json \<Rightarrow> json \<Rightarrow> bool" where
  "same_event event a \<longleftrightarrow> member_of a ''id'' = member_of event ''id'' \<and> member_of a ''source'' = member_of event ''source''"

definition match_id :: "(json \<Rightarrow> string) \<Rightarrow> string \<Rightarrow> json list \<Rightarrow> string" where
  "match_id text name matched =
     ''schedule:'' @ name @ '':on:''
     @ event_digest (join [CHR 0x01] (map (\<lambda>e. text (index e ''source'') @ [CHR 0x00] @ text (index e ''id'')) matched))"

definition set_events :: "json list \<Rightarrow> trigger \<Rightarrow> trigger" where
  "set_events es = with_state (set_member ''events'' (Array es))"

definition offer_firing :: "runtime \<Rightarrow> string \<Rightarrow> trigger \<Rightarrow> trigger \<Rightarrow> overlap \<Rightarrow> json \<Rightarrow> int \<Rightarrow> (refused + admission) option \<Rightarrow> firing" where
  "offer_firing x k t nxt overlap event now admission =
     (let after = (if admission = None then nxt else with_state (set_member ''previous'' (i64_json now)) nxt);
        f = (moved k t after (Some (skipped nxt now ''overlap'')))\<lparr>fi_ingress := Some event,
          fi_overlap := Some \<lparr>og_policy = overlap, og_max_concurrent_runs = am_max_concurrent_runs (rt_admitter x),
            og_ceiling = skipped nxt now ''overlap: ceiling''\<rparr>\<rparr>
      in case admission of
           Some (Inr a) \<Rightarrow> f\<lparr>fi_admit := [a]\<rparr>
         | Some (Inl r) \<Rightarrow> f\<lparr>fi_refused := Some r\<rparr>
         | None \<Rightarrow> f)"

text \<open>A complete match starts the workflow; \<open>None\<close> when its definition tripped since.\<close>

definition admit_match :: "runtime \<Rightarrow> schedule \<Rightarrow> string \<Rightarrow> trigger \<Rightarrow> json list \<Rightarrow> json list \<Rightarrow> int \<Rightarrow> (string \<times> (refused + admission)) option host_step" where
  "admit_match x s name t matched taken now =
     (let i = match_id (x_text (rt_ext x)) name matched in
      hbind (catching (admit_triggered (rt_admitter x) i name (Array (map (\<lambda>e. read_event e (sd_read s)) taken))
          (run_schedule (rt_calendar x) ''on'' now (previous t)))) (\<lambda>v.
      case v of
        Inr admission \<Rightarrow> hret (Some (i, admission))
      | Inl (TrippedDefinition d) \<Rightarrow> hret None
      | Inl e \<Rightarrow> hfail e))"

definition settle_offer :: "runtime \<Rightarrow> string \<Rightarrow> trigger \<Rightarrow> trigger \<Rightarrow> overlap \<Rightarrow> json \<Rightarrow> int \<Rightarrow> (string \<times> (refused + admission)) option
    \<Rightarrow> (trigger \<Rightarrow> taken host_step) \<Rightarrow> taken host_step" where
  "settle_offer x k t nxt overlap event now started again =
     hbind (store_fire x (offer_firing x k t nxt overlap event now (map_option snd started)) now) (\<lambda>r.
     if r = FCommitted then
       hret (Taken (case started of Some (i, Inr _) \<Rightarrow> Some i | _ \<Rightarrow> None))
     else if r \<noteq> FChanged then hret (Taken None)
     else
       hbind (call is_stopped) (\<lambda>stopped.
       if stopped then hret NotTaken
       else hbind (call (trigger_of k)) (\<lambda>u. case u of Some t' \<Rightarrow> again t' | None \<Rightarrow> hret NotTaken)))"

fun offer_event :: "nat \<Rightarrow> runtime \<Rightarrow> string \<Rightarrow> trigger \<Rightarrow> json \<Rightarrow> int \<Rightarrow> taken host_step" where
  "offer_event 0 x k t event now = hfail (HostError (''trigger '' @ k @ '' changed too often to offer an event''))"
| "offer_event (Suc tries) x k t event now =
     (let name = (case as_str (index (tg_state t) ''name'') of None \<Rightarrow> [] | Some n \<Rightarrow> n) in
      hbind (call (definitions_of name)) (\<lambda>ds.
      hbind (hsum (active_schedule (rt_parsers x) ds)) (\<lambda>os.
      case (if current_epoch ds t then os else None) of
        None \<Rightarrow> hret NotTaken
      | Some s \<Rightarrow>
          (case sd_on s of
             None \<Rightarrow> hret NotTaken
           | Some on \<Rightarrow>
               let held = (case index (tg_state t) ''events'' of Array vs \<Rightarrow> vs | _ \<Rightarrow> []) in
               if list_ex (same_event event) held then hret (Taken None)
               else
                 hbind (hsum (consume_all (x_jq (rt_ext x)) (x_text (rt_ext x)) on (held @ [event]))) (\<lambda>outcome.
                 case outcome of
                   None \<Rightarrow> hret NotTaken
                 | Some None \<Rightarrow>
                     settle_offer x k t (set_events (held @ [event]) t) (sd_overlap s) event now None
                       (\<lambda>t'. offer_event tries x k t' event now)
                 | Some (Some taken) \<Rightarrow>
                     hbind (admit_match x s name t (held @ [event]) taken now) (\<lambda>started.
                     if started = None then hret NotTaken
                     else settle_offer x k t (set_events [] t) (sd_overlap s) event now started
                       (\<lambda>t'. offer_event tries x k t' event now)))))))"

fun offer_each :: "runtime \<Rightarrow> (string \<times> trigger) list \<Rightarrow> json \<Rightarrow> int \<Rightarrow> string list \<Rightarrow> string list host_step" where
  "offer_each x [] event now reached = hret reached"
| "offer_each x ((k, t) # ts) event now reached =
     hbind (offer_event 16 x k t event now) (\<lambda>r.
     case r of
       Taken i \<Rightarrow> hret (reached @ (case i of None \<Rightarrow> [] | Some j \<Rightarrow> [j]))
     | NotTaken \<Rightarrow> offer_each x ts event now reached)"

definition publish_event :: "runtime \<Rightarrow> json \<Rightarrow> int \<Rightarrow> string list host_step" where
  "publish_event x event now =
     hbind (call (ingested event now)) (\<lambda>used.
     hbind (call (publish event None now (rt_policy x))) (\<lambda>reached.
     if used then hret reached
     else
       hbind (call (triggers_for (case Option.bind (member_of event ''type'') as_str of None \<Rightarrow> [] | Some t \<Rightarrow> t) (Some BATCH))) (\<lambda>ts.
       offer_each x ts event now reached)))"

definition publish_from_host :: "runtime \<Rightarrow> json \<Rightarrow> int \<Rightarrow> string list host_step" where
  "publish_from_host x event now = hbind (hsum (complete (rt_calendar x) event now)) (\<lambda>e. publish_event x e now)"

section \<open>Notices\<close>

definition NOTICES :: nat where
  "NOTICES = 64"

type_synonym notice_backoff = "(string \<times> nat \<times> int) list"

definition failed_notice :: "string \<Rightarrow> int \<Rightarrow> notice_backoff \<Rightarrow> notice_backoff" where
  "failed_notice k now b =
     (let failures = min ((case map_of b k of None \<Rightarrow> 0 | Some (n, _) \<Rightarrow> n) + 1) U32_MAX
      in (k, failures, retry_at now failures) # filter (\<lambda>(k', _). k' \<noteq> k) b)"

text \<open>
  The sink is a parameter: \<open>None\<close> when the stop signal came first. \<open>stopping k\<close> says whether it had come when the turn of
  \<open>k\<close> came. The clock is read once.
\<close>

record notifier =
  nf_stopping :: "string \<Rightarrow> bool"
  nf_sink :: "(json \<Rightarrow> (string + unit) option) option"

fun notify_each :: "runtime \<Rightarrow> notifier \<Rightarrow> (string \<times> json) list \<Rightarrow> int \<Rightarrow> notice_backoff \<Rightarrow> nat \<Rightarrow> (nat \<times> notice_backoff) host_step" where
  "notify_each x nf [] now b n = hret (n, b)"
| "notify_each x nf ((k, event) # es) now b n =
     (if nf_stopping nf k then hret (n, b)
      else if (case map_of b k of None \<Rightarrow> False | Some (_, at) \<Rightarrow> now < at) then notify_each x nf es now b n
      else
        hbind (catching (publish_event x event now)) (\<lambda>v.
        case v of
          Inl (ResourceUnavailable uri e) \<Rightarrow> notify_each x nf es now (failed_notice k now b) n
        | Inl e \<Rightarrow> hfail e
        | Inr _ \<Rightarrow>
            (case (case nf_sink nf of None \<Rightarrow> Some (Inr ()) | Some sink \<Rightarrow> sink event) of
               None \<Rightarrow> hret (n, b)
             | Some (Inl e) \<Rightarrow> notify_each x nf es now (failed_notice k now b) n
             | Some (Inr _) \<Rightarrow>
                 hbind (call (acknowledge k)) (\<lambda>removed.
                 notify_each x nf es now (filter (\<lambda>(k', _). k' \<noteq> k) b) (if removed then n + 1 else n)))))"

definition notify :: "runtime \<Rightarrow> notifier \<Rightarrow> int \<Rightarrow> notice_backoff \<Rightarrow> (nat \<times> notice_backoff) host_step" where
  "notify x nf now b =
     hbind (call (notices (Some NOTICES))) (\<lambda>rows.
     let es = map (\<lambda>(k, v). (k, case v of RJson j \<Rightarrow> j | _ \<Rightarrow> Null)) rows in
     notify_each x nf es now (filter (\<lambda>(k, _). k \<in> fst ` set es) b) 0)"

end
