(* ===== verification/Schedule_Samples.thy ===== *)
theory Schedule_Samples
  imports Schedules Firing_Rules
begin

text \<open>
  A concrete host for the witnesses of the schedule properties: one definition, active since instant 3, whose schedule
  is every two milliseconds, the trigger it armed, and what firing that trigger at instant 5 commits.
\<close>

definition scheduled_document :: json where
  "scheduled_document = Object [
     (''document'', Object [(''dsl'', String ''1.0.0''), (''namespace'', String ''n''), (''name'', String ''w''), (''version'', String ''1'')]),
     (''do'', Array [Object [(''a'', Object [(''set'', Object [(''x'', Number (PosInt 1))])])]]),
     (''schedule'', Object [(''every'', Object [(''milliseconds'', Number (PosInt 2))])])]"

definition scheduled_parsers :: host_parsers where
  "scheduled_parsers = \<lparr>hp_yaml = (\<lambda>t. Inr scheduled_document), hp_conforms = (\<lambda>v. []), hp_cron = (\<lambda>c. None), hp_zone = Some,
     hp_instant = (\<lambda>t. Some 0), hp_schema = (\<lambda>v. None)\<rparr>"

definition interval :: schedule where
  "interval = \<lparr>sd_every = Some 2, sd_cron = None, sd_after = None, sd_on = None, sd_read = ReadData, sd_at = None,
     sd_timezone = None, sd_catchup = CatchLatest, sd_overlap = OSkip\<rparr>"

definition scheduled_workflow :: workflow where
  "scheduled_workflow = \<lparr>
     wf_document = \<lparr>dc_dsl = ''1.0.0'', dc_namespace = ''n'', dc_name = ''w'', dc_version = ''1'', dc_title = None, dc_summary = None\<rparr>,
     wf_input = None, wf_output = None, wf_uses = default_uses,
     wf_tasks = [(''a'', MkTask AtLeastOnce 0 None None None None None None (KSet (Object [(''x'', Number (PosInt 1))]))
       (Object [(''set'', Object [(''x'', Number (PosInt 1))])]))],
     wf_timeout = None, wf_schedule = Some interval, wf_budget = default_budget, wf_breaker = Inherit,
     wf_definition = scheduled_document\<rparr>"

definition scheduled_host :: runtime where
  "scheduled_host = \<lparr>
     rt_admitter = \<lparr>am_world = \<lparr>wo_parsers = scheduled_parsers, wo_compiler = (\<lambda>code a. None),
         wo_schemas = \<lparr>sl_compile = (\<lambda>v. None), sl_validate = (\<lambda>v w. None)\<rparr>\<rparr>,
       am_checker = \<lparr>ck_parsers = scheduled_parsers, ck_hash = length, ck_registry = bt_empty, ck_generation = 0,
         ck_capabilities = \<lparr>cp_runs = None, cp_secrets = False, cp_resources = None\<rparr>\<rparr>,
       am_checks = [], am_metadata = Null, am_package = ''1'', am_trace = [], am_application = None, 
       am_limits = \<lparr>lm_max_tasks = 1, lm_max_jumps = 1, lm_max_depth = 1, lm_max_attempts = 1, lm_max_sleep = None,
         lm_max_listen = None, lm_max_hold = None\<rparr>,
       am_breaker_threshold = 0, am_max_concurrent_runs = 10, am_fuel = 5\<rparr>,
     rt_calendar = \<lparr>cal_iso8601 = show_int, cal_seconds = (\<lambda>m. m div 1000), cal_rfc3339 = show_int, cal_cron = (\<lambda>e z a. Inr (a + 1))\<rparr>,
     rt_ext = sample_ext, rt_policy = default_policy, rt_fuel = 5\<rparr>"

definition armed_trigger :: trigger where
  "armed_trigger = \<lparr>tg_at_ms = Some 4, tg_types = [], tg_state = trigger_state ''w'' ''every'' 1 []\<rparr>"

definition scheduled_store :: db where
  "scheduled_store = after (activate ''w'' 1 (Some 0) (bt_insert ''w#every'' armed_trigger bt_empty) (activation_at 3))
     (after (save_definition sample_ext ''w'' ''do'' Inherit) bt_empty)"

definition scheduled_defs :: definitions where
  "scheduled_defs = (case result (definitions_of ''w'') scheduled_store of Some d \<Rightarrow> d | None \<Rightarrow> default_definitions)"

definition scheduled_version :: definition_version where
  "scheduled_version = \<lparr>dv_name = ''w'', dv_version = 1, dv_yaml = ''do'',
     dv_digest = (case bt_get (d_versions scheduled_defs) 1 of Some d \<Rightarrow> dv_digest d | None \<Rightarrow> []), dv_breaker = Inherit\<rparr>"

definition interval_plan :: plan where
  "interval_plan = \<lparr>pl_next = armed_trigger\<lparr>tg_at_ms := Some 6\<rparr>, pl_busy = armed_trigger\<lparr>tg_at_ms := Some 6\<rparr>, pl_rearm = None,
     pl_id = ''schedule:w:every:4''\<rparr>"

definition interval_admission :: admission where
  "interval_admission =
     (let m = rt_admitter scheduled_host; a = admission_of m ''schedule:w:every:4'' scheduled_version (Object []) (root_lineage m) (Some (Object [], []))
      in a\<lparr>a_runtime := set_member ''schedule'' (run_schedule (rt_calendar scheduled_host) ''every'' 4 None) (a_runtime a)\<rparr>)"

lemma scheduled_catalog:
  "result (definitions_of ''w'') scheduled_store \<noteq> None" "d_active scheduled_defs = Some 1" "d_tripped scheduled_defs = None"
  "bt_get (d_versions scheduled_defs) 1 = Some scheduled_version" "current_epoch scheduled_defs armed_trigger"
  by code_simp+

lemma scheduled_rows:
  "list_all (\<lambda>(k, _). fst k \<noteq> ''control_drain'') (bt_entries scheduled_store)"
  "bt_get scheduled_store (''trigger'', ''w#every'') = Some (RTrigger armed_trigger)"
  by code_simp+

lemma scheduled_parses: "parse scheduled_parsers scheduled_document = Inr scheduled_workflow"
  by code_simp

lemma scheduled_parses_yaml: "parse_yaml scheduled_parsers text = Inr scheduled_workflow"
  using scheduled_parses by (simp add: parse_yaml_def scheduled_parsers_def)

lemma interval_schedule: "active_schedule scheduled_parsers scheduled_defs = Inr (Some interval)"
  by (simp add: active_schedule_def scheduled_catalog(2,4) scheduled_parses_yaml del: One_nat_def)
     (simp add: scheduled_workflow_def)

lemma armed_state:
  "as_str (index (tg_state armed_trigger) ''name'') = Some ''w''" "as_str (index (tg_state armed_trigger) ''kind'') = Some ''every''"
  "due_slot armed_trigger = Some 4" "previous armed_trigger = None" "pl_id interval_plan = ''schedule:w:every:4''"
  "time_plan (rt_calendar scheduled_host) interval ''w'' ''every'' armed_trigger 4 5 = Inr (StartSlot interval_plan)"
  by code_simp+

lemma scheduled_validates:
  "validate (\<lambda>code a. None) scheduled_workflow (Registry.catalog_of bt_empty \<lparr>cp_runs = None, cp_secrets = False, cp_resources = None\<rparr>) = Inr ()"
  "call_sites scheduled_workflow = []" "processes scheduled_workflow = []" "schema_resources scheduled_workflow = []"
  "bindings bt_empty scheduled_workflow = Object []"
  by code_simp+

lemma interval_committed:
  "result (fire 5 sample_ext (slot_firing scheduled_host interval ''w#every'' armed_trigger 4 5 interval_plan
     (Inr interval_admission)) 5 default_policy) scheduled_store = Some (Inr FCommitted)"
  by code_simp

lemma scheduled_host_simps [simp]:
  "rt_parsers scheduled_host = scheduled_parsers" "rt_ext scheduled_host = sample_ext" "rt_policy scheduled_host = default_policy"
  "rt_fuel scheduled_host = 5" "am_fuel (rt_admitter scheduled_host) = 5" "am_checks (rt_admitter scheduled_host) = []"
  "ck_registry (am_checker (rt_admitter scheduled_host)) = bt_empty"
  "ck_capabilities (am_checker (rt_admitter scheduled_host)) = \<lparr>cp_runs = None, cp_secrets = False, cp_resources = None\<rparr>"
  "dv_name scheduled_version = ''w''" "dv_version scheduled_version = 1" "dv_yaml scheduled_version = ''do''"
  by (simp_all add: scheduled_host_def scheduled_version_def)

lemma interval_checked:
  "fst (check_start 5 (am_checker (rt_admitter scheduled_host)) defs ''w'' 1 ''do'' []) = Some (Inr ())"
proof -
  have "needs_of scheduled_parsers ''do'' bt_empty c = \<lparr>nd_missing = None, nd_children = []\<rparr>" for c
    by (simp add: needs_of_def scheduled_parses_yaml scheduled_validates)
  then show ?thesis
    by (simp add: check_start_def numeral_eq_Suc cached_needs_def Let_def scheduled_host_def)
qed

lemma interval_validated:
  "validate_admitted (rt_admitter scheduled_host) ''do'' = Inr scheduled_workflow"
  "schemas (rt_admitter scheduled_host) scheduled_workflow = Inr []"
proof -
  show s: "schemas (rt_admitter scheduled_host) scheduled_workflow = Inr []"
    by (simp add: schemas_def scheduled_validates)
  have "validate_with (am_world (rt_admitter scheduled_host)) bt_empty ''do'' \<lparr>cp_runs = None, cp_secrets = False, cp_resources = None\<rparr>
      = Inr scheduled_workflow"
    by (simp add: validate_with_def scheduled_host_def scheduled_parses_yaml scheduled_validates)
  moreover have "validate_limits scheduled_workflow l = Inr ()" for l
    by (simp add: validate_limits_def scheduled_workflow_def default_budget_def)
  ultimately show "validate_admitted (rt_admitter scheduled_host) ''do'' = Inr scheduled_workflow"
    using s by (simp add: validate_admitted_def)
qed

lemma reads_definitions_of: "reads_only (definitions_of name)"
  unfolding definitions_of_def by (auto intro!: writes_in_bind)

lemma call_quiet: "commits m r a s \<Longrightarrow> call m [] r = (Inr a, [], s)"
  by (simp add: call_def disturbed_def commits_def)

lemma scheduled_definitions: "call (definitions_of ''w'') [] scheduled_store = (Inr scheduled_defs, [], scheduled_store)"
proof -
  have "result (definitions_of ''w'') scheduled_store = Some scheduled_defs"
    using scheduled_catalog(1) by (auto simp: scheduled_defs_def)
  from commits_result [OF this] have c: "commits (definitions_of ''w'') scheduled_store scheduled_defs (after (definitions_of ''w'') scheduled_store)" .
  then show ?thesis using call_quiet reads_only_rows [OF reads_definitions_of c] by metis
qed

lemma interval_admits:
  "admit_triggered (rt_admitter scheduled_host) ''schedule:w:every:4'' ''w'' (Object [])
     (run_schedule (rt_calendar scheduled_host) ''every'' 4 None) [] scheduled_store
   = (Inr (Inr interval_admission), [], scheduled_store)"
  by (simp add: admit_triggered_def current_definition_def admit_def check_host_def read_catalog_def disturbed_def hbind_def
        hret_def hsum_def catching_def scheduled_definitions scheduled_catalog(2-4) interval_checked interval_validated scheduled_validates(5)
        interval_admission_def Let_def del: One_nat_def)

lemma interval_fires:
  "fire_trigger scheduled_host ''w#every'' armed_trigger 5 [] scheduled_store
   = (Inr (Some ''schedule:w:every:4''), [], after (fire 5 sample_ext (slot_firing scheduled_host interval ''w#every'' armed_trigger 4 5
       interval_plan (Inr interval_admission)) 5 default_policy) scheduled_store)"
  by (simp add: fire_trigger_def start_slot_def slot_plan_of_def store_fire_def hbind_def hret_def hsum_def catching_def
      scheduled_definitions scheduled_catalog(5) interval_schedule armed_state interval_admits call_quiet [OF commits_result [OF interval_committed]])

end
