(* ===== verification/Schedule_Rules.thy ===== *)
theory Schedule_Rules
  imports Schedule_Samples
begin

text \<open>
  Schedules: the slots of an interval, the trigger a started slot leaves behind, and a process that fires a trigger others
  have moved since. Host steps run among the commits of other processes, which the statements here quantify over.
\<close>

section \<open>Slots\<close>

lemma millis_positive: "0 < millis d" "millis d \<le> I64_MAX"
  by (simp_all add: millis_def I64_MAX_def)

lemma next_every_later: "0 < every \<Longrightarrow> a < next_every every a"
  using pos_mod_bound [of every a] by (simp add: next_every_def)

lemma next_every_multiple: "every dvd next_every every a"
  by (simp add: next_every_def minus_mod_eq_mult_div)

lemma next_every_first:
  assumes "0 < every" and "every dvd m" and "a < m"
  shows "next_every every a \<le> m"
proof -
  obtain j where j: "m = every * j" using assms(2) by (rule dvdE)
  have a: "a = every * (a div every) + a mod every" by simp
  have "every * (a div every) \<le> a" using assms(1) pos_mod_sign [OF assms(1), of a] a by linarith
  then have "every * (a div every) < every * j" using assms(3) j by linarith
  then have "a div every + 1 \<le> j" using assms(1) by (simp add: mult_less_cancel_left_pos)
  then have "every * (a div every + 1) \<le> every * j" using assms(1) by (simp add: mult_le_cancel_left_pos)
  then have "every + every * (a div every) \<le> every * j" by (simp add: distrib_left)
  then show ?thesis using a unfolding next_every_def j by linarith
qed

lemma next_every_fits:
  assumes "0 < every" and "every \<le> I64_MAX" and "0 \<le> a" and "a \<le> 2 ^ 62 - 1"
  shows "next_every every a \<le> I64_MAX"
proof (cases "every \<le> a")
  case True
  have "0 \<le> a mod every" by (rule pos_mod_sign [OF assms(1)])
  then have "next_every every a \<le> a + every" by (simp add: next_every_def)
  also have "\<dots> \<le> I64_MAX" using True assms(4) by (simp add: I64_MAX_def)
  finally show ?thesis .
next
  case False
  then show ?thesis using assms by (simp add: next_every_def)
qed

text \<open>
  C25. The slot of an interval is the first multiple of the interval after the given time, strictly later than it, whatever
  interval a definition may name, and for every time of day up to 2^62 milliseconds the subtraction and addition of the
  code stay within \<^verbatim>\<open>i64\<close>.
\<close>

theorem interval_slot_exact:
  assumes "0 \<le> a" and "a < 2 ^ 62"
  shows "let n = next_every (millis d) a in
    a < n \<and> n \<le> I64_MAX \<and> millis d dvd n \<and> (\<forall>m. a < m \<longrightarrow> millis d dvd m \<longrightarrow> n \<le> m)"
  using next_every_later [OF millis_positive(1)] next_every_multiple next_every_first [OF millis_positive(1)]
    next_every_fits [OF millis_positive] assms by (simp add: Let_def)

text \<open>What a cron library promises: the next occurrence after a time is later than it.\<close>

definition cron_later :: "calendar \<Rightarrow> bool" where
  "cron_later c \<longleftrightarrow> (\<forall>e z b m. cal_cron c e z b = Inr m \<longrightarrow> b < m)"

lemma next_slot_later:
  assumes "next_slot c s kind a = Inr (Some n)"
    and "cron_later c"
  shows "a < n"
  using assms(1) next_every_later [OF millis_positive(1)]
  by (auto simp: next_slot_def split: if_splits) (use assms(2) in \<open>auto simp: map_sum_def cron_later_def split: sum.splits\<close>)

lemma next_slot_shape:
  "next_slot c s kind a = Inr (Some n) \<Longrightarrow> next_slot c s kind b = Inr v \<Longrightarrow> \<exists>m. v = Some m"
  by (auto simp: next_slot_def split: if_splits) (auto simp: map_sum_def split: sum.splits)

lemma retry_bounds:
  assumes "I64_MIN \<le> now" and "now \<le> I64_MAX - NOTICE_RETRY_MAX_MS"
  shows "now + NOTICE_RETRY_MS \<le> retry_at now failures" and "retry_at now failures \<le> now + NOTICE_RETRY_MAX_MS"
proof -
  define p :: int where "p = 2 ^ min (failures - 1) 20"
  let ?d = "min (clamp_i64 (NOTICE_RETRY_MS * p)) NOTICE_RETRY_MAX_MS"
  have "1 \<le> p" by (simp add: p_def)
  then have d: "NOTICE_RETRY_MS \<le> ?d" "?d \<le> NOTICE_RETRY_MAX_MS"
    by (simp_all add: NOTICE_RETRY_MS_def NOTICE_RETRY_MAX_MS_def clamp_i64_def I64_MAX_def I64_MIN_def)
  have "retry_at now failures = clamp_i64 (now + ?d)" by (simp only: retry_at_def p_def sat_add_def)
  moreover have "clamp_i64 (now + ?d) = now + ?d"
    using d assms unfolding clamp_i64_def [of "now + _"] NOTICE_RETRY_MS_def by linarith
  ultimately have "retry_at now failures = now + ?d" by simp
  then show "now + NOTICE_RETRY_MS \<le> retry_at now failures" and "retry_at now failures \<le> now + NOTICE_RETRY_MAX_MS"
    using d by simp_all
qed

section \<open>Host steps\<close>

lemma hbind_ok:
  "hbind m f env r = (Inr b, env', r') \<longleftrightarrow>
     (\<exists>a env1 r1. m env r = (Inr a, env1, r1) \<and> f a env1 r1 = (Inr b, env', r'))"
  by (auto simp: hbind_def split: prod.split sum.split)

lemma hret_ok: "hret a env r = (Inr b, env', r') \<longleftrightarrow> b = a \<and> env' = env \<and> r' = r"
  by (auto simp: hret_def)

lemma hfail_ok: "\<not> hfail e env r = (Inr b, env', r')"
  by (simp add: hfail_def)

lemma hsum_ok: "hsum v env r = (Inr b, env', r') \<longleftrightarrow> v = Inr b \<and> env' = env \<and> r' = r"
  by (auto simp: hsum_def hret_def hfail_def split: sum.split)

lemma call_ok:
  "call m env r = (Inr a, env', r') \<longleftrightarrow> (\<exists>s. disturbed env r = (env', s) \<and> commits m s a r')"
  by (auto simp: call_def commits_def split: prod.split sum.split)

lemmas host_ok = hbind_ok hret_ok hfail_ok hsum_ok

section \<open>A started slot moves its trigger\<close>

lemma overlap_committed:
  "commits (overlap_outcome fuel x f g a now) r (n, FCommitted) r' \<Longrightarrow> n = fi_next f"
  unfolding overlap_outcome_def by (elim commits_bindE) (auto split: if_splits)

lemma busy_committed: "commits (busy_outcome f) r (n, FCommitted) r' \<Longrightarrow> n = fi_next f"
  unfolding busy_outcome_def by (auto split: if_splits option.splits)

lemma outcome_committed: "commits (fire_outcome fuel x f now) r (n, FCommitted) r' \<Longrightarrow> n = fi_next f"
  unfolding fire_outcome_def by (auto split: option.splits if_splits dest: overlap_committed busy_committed)

lemma leaves_writes: "writes_in P m \<Longrightarrow> \<not> P k \<Longrightarrow> leaves k m"
  unfolding leaves_def by (auto dest: writes_in_frame)

lemma leaves_store_run: "leaves (''trigger'', k) (store_run s)"
  by (rule leaves_writes [OF writes_in_store_run])
     (auto simp: own_row_def is_index_def id_families_def timed_families_def wait_families_def)

lemma leaves_admit_firing: "leaves (''trigger'', k) (admit_firing k' a ra nxt now)"
  unfolding admit_firing_def insert_run_def
  by (auto intro!: leaves_bind leaves_store_run leaves_put simp: leaves_reads split: option.split)

lemma settle_answers: "commits (settle x f current now n d) r d' r' \<Longrightarrow> d' = d"
  unfolding settle_def by (elim commits_bindE) simp

lemma fire_checked_committed:
  assumes "commits (fire_checked fuel x f current now pol) r FCommitted r'" and "fi_refused f = None" and "fi_next f = Some t"
  shows "bt_get r' (''trigger'', fi_key f) = Some (RTrigger t)"
proof -
  obtain r1 r2 n where out: "commits (fire_outcome fuel x f now) r1 (n, FCommitted) r2"
    and rest: "\<exists>r3. commits (settle x f current now n FCommitted) r3 FCommitted r'"
    using assms(1) unfolding fire_checked_def settle_def [symmetric]
  proof (elim commits_bindE)
    fix u ra
    assume "commits (if u then Ret FIngested
      else bind (fire_outcome fuel x f now) (\<lambda>(next, disposition).
       bind (case fi_ingress f of None \<Rightarrow> Ret False
             | Some event \<Rightarrow> bind (tombstone event now) (\<lambda>(k, old, used).
                 if used then Ret True else bind (bury event k old now pol) (\<lambda>_. Ret False))) (\<lambda>used.
       if used then Ret FIngested else settle x f current now next disposition))) ra FCommitted r'"
    then show thesis
      by (cases u; simp only: if_True if_False commits_Ret; (elim commits_bindE)?)
         (auto split: if_splits dest: settle_answers intro!: that)
  qed
  have n: "n = Some t" using outcome_committed [OF out] assms(3) by simp
  obtain r3 where "commits (settle x f current now n FCommitted) r3 FCommitted r'" using rest by blast
  then obtain r4 where c: "commits (store_trigger (fi_key f) current n) r3 () r4"
      "commits (for_each (fi_admit f) (\<lambda>a. admit_firing (fi_key f) a (fi_rearm f) n now)) r4 () r'"
    unfolding settle_def assms(2) by auto
  have "bt_get r' (''trigger'', fi_key f) = bt_get r4 (''trigger'', fi_key f)"
    by (rule leavesD [OF leaves_for_each [OF leaves_admit_firing] c(2)])
  then show ?thesis using c(1) by (auto simp: n store_trigger_def Let_def)
qed

lemma fire_committed:
  assumes "commits (fire fuel x f now pol) r (Inr FCommitted) r'" and "fi_refused f = None" and "fi_next f = Some t"
  shows "bt_get r' (''trigger'', fi_key f) = Some (RTrigger t)"
proof -
  obtain current s where "commits (fire_checked fuel x f current now pol) s FCommitted r'"
    using assms(1) unfolding fire_def
    by (elim commits_bindE) (auto split: if_splits option.splits elim!: commits_bindE)
  then show ?thesis using assms(2,3) by (rule fire_checked_committed)
qed

lemma store_fire_committed:
  assumes "store_fire x f now env r = (Inr FCommitted, env', r')" and "fi_refused f = None" and "fi_next f = Some t"
  shows "bt_get r' (''trigger'', fi_key f) = Some (RTrigger t)"
proof -
  obtain v env1 r1 where v: "call (fire (rt_fuel x) (rt_ext x) f now (rt_policy x)) env r = (Inr v, env1, r1)"
      "(case v of Inl d \<Rightarrow> hfail (TrippedDefinition d) | Inr d \<Rightarrow> hret d) env1 r1 = (Inr FCommitted, env', r')"
    using assms(1) unfolding store_fire_def hbind_ok by blast
  have "v = Inr FCommitted \<and> r1 = r'" using v(2) by (cases v) (auto simp: host_ok)
  then show ?thesis using v(1) fire_committed [OF _ assms(2,3)] by (auto simp: call_ok)
qed

lemma start_slot_started:
  assumes "start_slot x s k name kind t slot now p env r = (Inr (Some i), env', r')"
  shows "i = pl_id p \<and> bt_get r' (''trigger'', k) = Some (RTrigger (with_state (set_member ''previous'' (i64_json slot)) (pl_next p)))"
proof -
  obtain v env1 r1 where v: "(case v of
       Inr admission \<Rightarrow>
         hbind (store_fire x (slot_firing x s k t slot now p admission) now) (\<lambda>r.
         hret (if r = FCommitted \<and> (case admission of Inr _ \<Rightarrow> True | Inl _ \<Rightarrow> False) then Some (pl_id p) else None))
     | Inl (TrippedDefinition d) \<Rightarrow> hret None
     | Inl (ResourceUnavailable uri e) \<Rightarrow>
         hbind (store_fire x (moved k t (interrupted_trigger t slot (unavailable_text uri e) now) None) now) (\<lambda>_. hret None)
     | Inl e \<Rightarrow> hfail e) env1 r1 = (Inr (Some i), env', r')"
    using assms unfolding start_slot_def hbind_ok by blast
  show ?thesis
  proof (cases v)
    case (Inl e)
    then show ?thesis using v by (cases e) (auto simp: host_ok)
  next
    case (Inr admission)
    then obtain a where a: "admission = Inr a" "i = pl_id p"
        "store_fire x (slot_firing x s k t slot now p admission) now env1 r1 = (Inr FCommitted, env', r')"
      using v by (cases admission) (auto simp: host_ok split: if_splits)
    let ?f = "slot_firing x s k t slot now p (Inr a)"
    have "fi_refused ?f = None" "fi_key ?f = k"
        "fi_next ?f = Some (with_state (set_member ''previous'' (i64_json slot)) (pl_next p))"
      by (simp_all add: slot_firing_def moved_def blank_firing_def Let_def)
    then show ?thesis using store_fire_committed [OF a(3)] a(1,2) by simp
  qed
qed

lemma time_plan_start:
  assumes "time_plan c s name kind t slot now = Inr (StartSlot p)" and "cron_later c"
  shows "pl_id p = slot_id name kind slot" and "\<exists>n>max slot now. tg_at_ms (pl_next p) = Some n"
proof -
  obtain f at where plan: "next_slot c s kind slot = Inr (Some f)" "next_slot c s kind (max slot now) = Inr at"
      "p = \<lparr>pl_next = (clear_retry t)\<lparr>tg_at_ms := at\<rparr>, pl_busy = (clear_retry t)\<lparr>tg_at_ms := at\<rparr>, pl_rearm = None,
        pl_id = slot_id name kind slot\<rparr>"
    using assms(1) by (auto simp: time_plan_def and_then_def Let_def split: sum.splits option.splits if_splits)
  then obtain n where n: "at = Some n" using next_slot_shape by blast
  show "pl_id p = slot_id name kind slot" using plan by simp
  show "\<exists>n>max slot now. tg_at_ms (pl_next p) = Some n"
    using next_slot_later [OF plan(2) [unfolded n] assms(2)] plan(3) n by auto
qed

text \<open>
  C20. Starting a slot of an interval or of a cron expression moves its trigger past it: when firing a trigger answers a run,
  the run is the slot's own, and the trigger stored at that moment is due strictly after both the slot and now. So no
  slot is started twice, and slots passed over are not caught up one by one. A cron expression is taken to answer times
  later than the one asked.
\<close>

theorem started_slot_moves_trigger:
  assumes "fire_trigger x k t now env r = (Inr (Some i), env', r')"
    and "as_str (index (tg_state t) ''kind'') = Some kind" and "kind = ''every'' \<or> kind = ''cron''"
    and "cron_later (rt_calendar x)"
  shows "\<exists>name slot t' n. due_slot t = Some slot \<and> as_str (index (tg_state t) ''name'') = Some name \<and> i = slot_id name kind slot
    \<and> bt_get r' (''trigger'', k) = Some (RTrigger t') \<and> tg_at_ms t' = Some n \<and> slot < n \<and> now < n"
proof -
  obtain name slot where t: "as_str (index (tg_state t) ''name'') = Some name" "due_slot t = Some slot"
    using assms(1) by (auto simp: fire_trigger_def hfail_ok split: option.splits)
  obtain ds os s p env1 r1 where fired: "slot_plan_of x ds s k name kind t slot now env1 r1 = (Inr p, env1, r1)"
      "(case p of NoSlot \<Rightarrow> hret None
        | SkipSlot skip reason \<Rightarrow> hbind (store_fire x (moved k t skip None) now) (\<lambda>_. hret None)
        | StartSlot q \<Rightarrow> start_slot x s k name kind t slot now q) env1 r1 = (Inr (Some i), env', r')"
    using assms(1-3)
    by (auto simp: fire_trigger_def t host_ok slot_plan_of_def split: option.splits if_splits)
  then obtain q where q: "p = StartSlot q" "start_slot x s k name kind t slot now q env1 r1 = (Inr (Some i), env', r')"
    by (cases p) (auto simp: host_ok)
  have plan: "time_plan (rt_calendar x) s name kind t slot now = Inr (StartSlot q)"
    using fired(1) assms(3) q(1) by (simp add: slot_plan_of_def hsum_ok)
  have "tg_at_ms (with_state g u) = tg_at_ms u" for g u by (simp add: with_state_def)
  then show ?thesis
    using time_plan_start [OF plan] start_slot_started [OF q(2)] assms(4) t by fastforce
qed

section \<open>Stale triggers\<close>

text \<open>
  \<open>idle Q V m\<close>: from a store with \<open>Q\<close>, which the other processes keep, \<open>m\<close> writes nothing, whatever it answers satisfies
  \<open>V\<close>, and the store it ends in is what the changes of others made of the one it found.
\<close>

definition steady :: "(db \<Rightarrow> bool) \<Rightarrow> interference \<Rightarrow> db \<Rightarrow> bool" where
  "steady q env r \<longleftrightarrow> q r \<and> (\<forall>e \<in> set env. \<forall>s. q s \<longrightarrow> q (e s))"

definition idle :: "(db \<Rightarrow> bool) \<Rightarrow> (host_error + 'a \<Rightarrow> bool) \<Rightarrow> 'a host_step \<Rightarrow> bool" where
  "idle q v m \<longleftrightarrow> (\<forall>env r. steady q env r \<longrightarrow>
     (case m env r of (a, env', r') \<Rightarrow> v a \<and> q r' \<and> (\<exists>n. env' = drop n env \<and> r' = fold (\<lambda>e. e) (take n env) r)))"

lemma idleI:
  assumes "\<And>env r a env' r'. steady q env r \<Longrightarrow> m env r = (a, env', r') \<Longrightarrow>
    v a \<and> q r' \<and> (\<exists>n. env' = drop n env \<and> r' = fold (\<lambda>e. e) (take n env) r)"
  shows "idle q v m"
  using assms unfolding idle_def by (auto split: prod.split)

lemma idleE:
  assumes "idle q v m" "steady q env r" "m env r = (a, env', r')"
  obtains n where "v a" "q r'" "env' = drop n env" "r' = fold (\<lambda>e. e) (take n env) r" "steady q env' r'"
proof -
  obtain n where n: "v a" "q r'" "env' = drop n env" "r' = fold (\<lambda>e. e) (take n env) r"
    using assms unfolding idle_def by fastforce
  moreover have "steady q env' r'" using assms(2) n by (auto simp: steady_def dest: in_set_dropD)
  ultimately show thesis by (rule that)
qed

lemma idle_ret: "v (Inr a) \<Longrightarrow> idle q v (hret a)" "v (Inl e) \<Longrightarrow> idle q v (hfail e)"
  by (auto intro!: idleI exI [of _ 0] simp: hret_def hfail_def steady_def)

lemma idle_hsum: "(\<And>e. v (Inl e)) \<Longrightarrow> (\<And>a. y = Inr a \<Longrightarrow> v (Inr a)) \<Longrightarrow> idle q v (hsum y)"
  by (cases y) (simp_all add: hsum_def idle_ret)

lemma idle_mono: "idle q v m \<Longrightarrow> (\<And>a. v a \<Longrightarrow> w a) \<Longrightarrow> idle q w m"
  unfolding idle_def by (fastforce split: prod.splits)

lemma idle_bind:
  assumes "idle q u m" and "\<And>a. u (Inr a) \<Longrightarrow> idle q v (f a)" and "\<And>e. v (Inl e)"
  shows "idle q v (hbind m f)"
proof (rule idleI)
  fix env r b env' r'
  assume st: "steady q env r" and run: "hbind m f env r = (b, env', r')"
  obtain a env1 r1 where m: "m env r = (a, env1, r1)" by (metis prod_cases3)
  obtain n where n: "u a" "q r1" "env1 = drop n env" "r1 = fold (\<lambda>e. e) (take n env) r" "steady q env1 r1"
    using assms(1) st m by (rule idleE)
  show "v b \<and> q r' \<and> (\<exists>n. env' = drop n env \<and> r' = fold (\<lambda>e. e) (take n env) r)"
  proof (cases a)
    case (Inl e)
    then show ?thesis using run m n assms(3) by (auto simp: hbind_def)
  next
    case (Inr c)
    then have "f c env1 r1 = (b, env', r')" using run m by (simp add: hbind_def)
    then obtain k where k: "v b" "q r'" "env' = drop k env1" "r' = fold (\<lambda>e. e) (take k env1) r1"
      using assms(2) n(1,5) Inr by (blast elim: idleE)
    have "env' = drop (n + k) env" using n(3) k(3) by (simp add: add.commute)
    moreover have "r' = fold (\<lambda>e. e) (take (n + k) env) r" using n(3,4) k(4) by (simp add: take_add)
    ultimately show ?thesis using k(1,2) by blast
  qed
qed

lemma idle_call:
  assumes "\<And>s a s'. q s \<Longrightarrow> commits m s a s' \<Longrightarrow> s' = s \<and> v (Inr a)" and "\<And>e. v (Inl e)"
  shows "idle q v (call m)"
proof (rule idleI)
  fix env r a env' r'
  assume st: "steady q env r" and run: "call m env r = (a, env', r')"
  obtain s where s: "disturbed env r = (env', s)" "q s" "env' = drop 1 env" "s = fold (\<lambda>e. e) (take 1 env) r"
    using st run by (cases env) (auto simp: call_def disturbed_def steady_def split: sum.splits)
  have "r' = s \<and> v a" using run s(1,2) assms by (auto simp: call_def commits_def split: sum.splits)
  then show "v a \<and> q r' \<and> (\<exists>n. env' = drop n env \<and> r' = fold (\<lambda>e. e) (take n env) r)" using s by blast
qed

lemma idle_reads: "reads_only m \<Longrightarrow> idle q (\<lambda>_. True) (call m)"
  by (rule idle_call) (auto dest: reads_only_rows)

lemma idle_catching: "idle q v m \<Longrightarrow> idle q (\<lambda>a. \<forall>b. a = Inr b \<longrightarrow> v b) (catching m)"
  unfolding idle_def by (auto simp: catching_def split: prod.splits)

text \<open>The stored trigger is another one, and no definition has slots left to drain from an emergency stop.\<close>

definition passed_over :: "string \<Rightarrow> trigger \<Rightarrow> db \<Rightarrow> bool" where
  "passed_over k t r \<longleftrightarrow>
     bt_get r (''trigger'', k) \<noteq> Some (RTrigger t) \<and> (\<forall>name. bt_get r (''control_drain'', name) = None)"

definition fails_or :: "('a \<Rightarrow> bool) \<Rightarrow> host_error + 'a \<Rightarrow> bool" where
  "fails_or p v = (case v of Inl _ \<Rightarrow> True | Inr a \<Rightarrow> p a)"

lemma fails_or_simps [simp]: "fails_or p (Inl e)" "fails_or p (Inr a) = p a"
  by (simp_all add: fails_or_def)

lemma fire_passed_over:
  assumes "passed_over (fi_key f) t r" and "fi_expected f = Some t" and "commits (fire fuel x f now pol) r a r'"
  shows "r' = r \<and> a = Inr FChanged"
proof -
  have drain: "run (drain_marked x name now) r = Inr (False, r)" for name
    using assms(1) by (simp add: passed_over_def drain_marked_def run_bind run_get_as)
  have other: "commits (get_as row_trigger ''trigger'' (fi_key f)) s u s' \<Longrightarrow> s = r \<Longrightarrow> s' = r \<and> u \<noteq> Some t" for s u s'
    using assms(1) reads_only_rows [of "get_as row_trigger ''trigger'' (fi_key f)"]
    by (auto simp: passed_over_def commits_def run_get_as split: option.splits row.splits)
  show ?thesis
    using assms(3) unfolding fire_def
  proof (elim commits_bindE)
    fix stop r1
    assume s: "commits is_stopped r stop r1"
      and rest: "commits (if stop then Ret (Inr FChanged)
     else
       bind (ensure (fi_refused f = None \<or> fi_admit f = []) (Message ''a firing admits its runs or records a refusal'')) (\<lambda>_.
       bind (case candidate_of f of None \<Rightarrow> Ret False | Some a \<Rightarrow> drain_marked x (a_name a) now) (\<lambda>drained.
       bind (get_as row_trigger ''trigger'' (fi_key f)) (\<lambda>current.
       if current \<noteq> fi_expected f then Ret (Inr FChanged)
       else
         bind (first_refusal drained (fi_admit f @ (case fi_refused f of None \<Rightarrow> [] | Some r \<Rightarrow> [rf_admission r]))) (\<lambda>refused.
         case refused of
           Some d \<Rightarrow> Ret (Inl d)
         | None \<Rightarrow> bind (fire_checked fuel x f current now pol) (\<lambda>d. Ret (Inr d))))))) r1 a r'"
    have r1: "r1 = r" using reads_only_rows [OF _ s] by simp
    show ?thesis
    proof (cases stop)
      case False
      obtain drained r2 current r3 where c:
          "commits (case candidate_of f of None \<Rightarrow> Ret False | Some a \<Rightarrow> drain_marked x (a_name a) now) r drained r2"
          "commits (get_as row_trigger ''trigger'' (fi_key f)) r2 current r3"
          "commits (if current \<noteq> fi_expected f then Ret (Inr FChanged)
       else
         bind (first_refusal drained (fi_admit f @ (case fi_refused f of None \<Rightarrow> [] | Some r \<Rightarrow> [rf_admission r]))) (\<lambda>refused.
         case refused of
           Some d \<Rightarrow> Ret (Inl d)
         | None \<Rightarrow> bind (fire_checked fuel x f current now pol) (\<lambda>d. Ret (Inr d)))) r3 a r'"
        using rest False r1 by (simp only: if_False) (elim commits_bindE, auto)
      have "r2 = r" using c(1) drain by (auto simp: commits_def split: option.splits)
      then show ?thesis using other [OF c(2)] c(3) assms(2) by auto
    qed (use rest r1 in simp)
  qed
qed

lemma idle_store_fire:
  assumes "fi_key f = k" and "fi_expected f = Some t"
  shows "idle (passed_over k t) (fails_or (\<lambda>d. d = FChanged)) (store_fire x f now)"
  unfolding store_fire_def
proof (rule idle_bind)
  show "idle (passed_over k t) (fails_or (\<lambda>d. d = Inr FChanged)) (call (fire (rt_fuel x) (rt_ext x) f now (rt_policy x)))"
    using fire_passed_over [of f t] assms by (intro idle_call) auto
qed (auto intro: idle_ret)

lemma idle_read_catalog: "idle q (\<lambda>_. True) read_catalog"
proof (rule idleI)
  fix env r a env' r'
  assume "steady q env r" and "read_catalog env r = (a, env', r')"
  then show "True \<and> q r' \<and> (\<exists>n. env' = drop n env \<and> r' = fold (\<lambda>e. e) (take n env) r)"
    by (cases env) (auto simp: read_catalog_def disturbed_def steady_def intro: exI [of _ "0 :: nat"] exI [of _ "1 :: nat"])
qed

lemma idle_any: "idle q v m \<Longrightarrow> idle q (\<lambda>_. True) m"
  by (erule idle_mono) simp

lemma idle_then:
  "idle q (\<lambda>_. True) m \<Longrightarrow> (\<And>a. idle q v (f a)) \<Longrightarrow> (\<And>e. v (Inl e)) \<Longrightarrow> idle q v (hbind m f)"
  by (rule idle_bind)

lemma reads_get_saved: "reads_only (get_saved i)"
  unfolding get_saved_def by (auto intro!: writes_in_bind)

lemma idle_admit: "idle q (\<lambda>_. True) (admit m i d input ln)"
  unfolding admit_def check_host_def
  by (auto intro!: idle_then idle_read_catalog idle_hsum idle_ret split: option.split sum.split)

lemma idle_current: "idle q (\<lambda>_. True) (current_definition name)"
  unfolding current_definition_def
  by (auto intro!: idle_then idle_reads reads_definitions_of idle_ret split: option.split)

lemma idle_admit_triggered: "idle q (\<lambda>_. True) (admit_triggered m i name input schedule)"
  unfolding admit_triggered_def Let_def
  by (auto intro!: idle_then idle_current idle_any [OF idle_catching [OF idle_admit]] idle_ret split: option.split sum.split)

lemma idle_slot_plan_of: "idle q (\<lambda>_. True) (slot_plan_of x ds s k name kind t slot now)"
  unfolding slot_plan_of_def by (auto intro!: idle_then idle_hsum idle_ret idle_reads reads_get_saved)

lemma moved_simps [simp]: "fi_key (moved k t n b) = k" "fi_expected (moved k t n b) = Some t"
  by (simp_all add: moved_def blank_firing_def)

lemma slot_firing_simps [simp]:
  "fi_key (slot_firing x s k t slot now p a) = k" "fi_expected (slot_firing x s k t slot now p a) = Some t"
  by (simp_all add: slot_firing_def Let_def split: sum.split)

lemma idle_fire_then:
  assumes "fi_key f = k" and "fi_expected f = Some t" and "idle (passed_over k t) v (g FChanged)" and "\<And>e. v (Inl e)"
  shows "idle (passed_over k t) v (hbind (store_fire x f now) g)"
  by (rule idle_bind [OF idle_store_fire [OF assms(1,2)]]) (auto intro: assms(3,4))

lemma idle_start_slot: "idle (passed_over k t) (fails_or (\<lambda>i. i = None)) (start_slot x s k name kind t slot now p)"
  unfolding start_slot_def
  by (rule idle_then [OF idle_any [OF idle_catching [OF idle_admit_triggered]]])
     (auto intro!: idle_fire_then idle_ret split: sum.split host_error.split)

lemma idle_fire_trigger: "idle (passed_over k t) (fails_or (\<lambda>i. i = None)) (fire_trigger x k t now)"
proof -
  have "idle (passed_over k t) (fails_or (\<lambda>i. i = None)) (case p of
      NoSlot \<Rightarrow> hret None
    | SkipSlot skip reason \<Rightarrow> hbind (store_fire x (moved k t skip None) now) (\<lambda>_. hret None)
    | StartSlot q \<Rightarrow> start_slot x s k name kind t slot now q)" for p s name kind slot
    by (cases p) (auto intro!: idle_fire_then idle_ret idle_start_slot)
  then show ?thesis
    unfolding fire_trigger_def
    by (auto intro!: idle_then idle_reads reads_definitions_of idle_hsum idle_slot_plan_of idle_ret split: option.split)
qed


section \<open>Witnesses\<close>

theorem interval_slot_exact_witness:
  "let n = next_every (millis 2000) 5000 in
    5000 < n \<and> n \<le> I64_MAX \<and> millis 2000 dvd n \<and> (\<forall>m. 5000 < m \<longrightarrow> millis 2000 dvd m \<longrightarrow> n \<le> m)"
  by (rule interval_slot_exact) simp_all

theorem started_slot_moves_trigger_witness:
  "\<exists>r' t'. fire_trigger scheduled_host ''w#every'' armed_trigger 5 [] scheduled_store = (Inr (Some ''schedule:w:every:4''), [], r')
     \<and> bt_get r' (''trigger'', ''w#every'') = Some (RTrigger t') \<and> (\<exists>n>5. tg_at_ms t' = Some n)"
proof -
  have "cron_later (rt_calendar scheduled_host)" by (simp add: cron_later_def scheduled_host_def)
  from started_slot_moves_trigger [OF interval_fires armed_state(2) _ this] show ?thesis
    using interval_fires by auto
qed


end
