(* ===== verification/Run_Programs.thy ===== *)
theory Run_Programs
  imports Secrets Cloud_Events Admitter
begin

text \<open>
  What an execution of the interpreter (\<^verbatim>\<open>crates/ows/src/run.rs\<close>) does to the world, as data: a program asks for one thing at
  a time (the clock, a journal write, a call of a host function, an event) and goes on with the answer. What it shares
  among its concurrent branches is a state it reads and writes between two questions; nothing else runs there, as
  between two \<^verbatim>\<open>.await\<close> points of the futures. Branches take turns at their questions in any order, and a timeout may drop
  a program at any question, before or after the world acted on it. Reports to observers are left out.
\<close>

section \<open>Questions and answers\<close>

datatype fault =
    Error workflow_error
  | Fatal workflow_error
  | FCancelled
  | FWaiting int
  | FInterrupt workflow_error
  | FExceeded json
  | Panicked
  | OutOfFuel

text \<open>\<open>Panicked\<close> stands for a panic of the source; \<open>OutOfFuel\<close> is none of its faults: loops of the model stop with it.\<close>

datatype target = TFunction string | TProcess string

text \<open>A call as the host gets it (\<^verbatim>\<open>CallInfo\<close>); \<open>cq_durable\<close>: through \<^verbatim>\<open>invoke\<close>, else through \<^verbatim>\<open>execute\<close>.\<close>

record call_request =
  cq_target :: target
  cq_name :: string
  cq_args :: json
  cq_reference :: string
  cq_logical :: string
  cq_attempt :: nat
  cq_delivery :: delivery
  cq_input :: json
  cq_durable :: bool

record child_target =
  ct_inherit_host :: bool
  ct_namespace :: string
  ct_name :: string
  ct_version :: string

datatype req =
    AskNow
  | AskCancelled
  | AskSave string journal_record
  | AskSpend string nat
  | AskDispatch call_request
  | AskEmit json string string
  | AskUuid
  | AskRegister "string list"
  | AskSubscribe string "string list"
  | AskUnregister string "string list"
  | AskUnsubscribe string
  | AskWait string pending_wait
  | AskTake string "string list"
  | AskHold nat
  | AskChild string child_target json bool
  | AskSleep nat
  | AskTurn nat
  | AskTimer
  | AskYield

text \<open>
  An answer to any question; each reads its part. \<open>an_yes\<close>: cancelled, a timer fired, a notification came. \<open>an_error\<close>: how a
  write failed.
\<close>

record ans =
  an_now :: int
  an_yes :: bool
  an_error :: "string option"
  an_spent :: "string + journal_record option"
  an_call :: "call_failure + json"
  an_annotations :: annotations
  an_event :: "string + json option"
  an_child :: "call_failure + (string \<times> string)"
  an_text :: string
  an_turn :: nat

section \<open>The state of an execution\<close>

text \<open>
  \<^verbatim>\<open>struct Run\<close>. The context of a task list is a mutable value its tasks share; each has its place in \<open>rs_contexts\<close>. A
  branch of a fork works on a copy.
\<close>

record exec_state =
  rs_records :: "(string, journal_record) btree"
  rs_tasks_run :: nat
  rs_jumps :: nat
  rs_handlers :: "(string \<times> nat) list"
  rs_handler_failed :: bool
  rs_exceeded :: "fault option"
  rs_calls :: "(string, call_entry) btree"
  rs_protected :: nat
  rs_attempts :: "(string \<times> string \<times> nat) list"
  rs_deadlines :: "(string, int) btree"
  rs_spending :: "string option"
  rs_contexts :: "json list"

section \<open>Programs\<close>

datatype 'a prog =
    Give 'a
  | Ask req "ans \<Rightarrow> 'a prog"
  | Local "exec_state \<Rightarrow> 'a prog \<times> exec_state"

primrec bindp :: "'a prog \<Rightarrow> ('a \<Rightarrow> 'b prog) \<Rightarrow> 'b prog" where
  "bindp (Give a) f = f a"
| "bindp (Ask q k) f = Ask q (\<lambda>x. bindp (k x) f)"
| "bindp (Local g) f = Local (\<lambda>s. map_prod (\<lambda>p. bindp p f) id (g s))"

definition ask :: "req \<Rightarrow> (ans \<Rightarrow> 'a) \<Rightarrow> 'a prog" where
  "ask q f = Ask q (\<lambda>x. Give (f x))"

definition reads :: "(exec_state \<Rightarrow> 'a) \<Rightarrow> 'a prog" where
  "reads f = Local (\<lambda>s. (Give (f s), s))"

definition modifies :: "(exec_state \<Rightarrow> exec_state) \<Rightarrow> unit prog" where
  "modifies f = Local (\<lambda>s. (Give (), f s))"

text \<open>\<^verbatim>\<open>?\<close> on a \<^verbatim>\<open>Result<_, Fault>\<close>.\<close>

type_synonym 'a rx = "(fault + 'a) prog"

definition ok :: "'a \<Rightarrow> 'a rx" where
  "ok a = Give (Inr a)"

definition raise_fault :: "fault \<Rightarrow> 'a rx" where
  "raise_fault f = Give (Inl f)"

definition bindr :: "'a rx \<Rightarrow> ('a \<Rightarrow> 'b rx) \<Rightarrow> 'b rx" where
  "bindr m f = bindp m (\<lambda>v. case v of Inl e \<Rightarrow> Give (Inl e) | Inr a \<Rightarrow> f a)"

definition lift :: "'a prog \<Rightarrow> 'a rx" where
  "lift m = bindp m ok"

definition of_result :: "fault + 'a \<Rightarrow> 'a rx" where
  "of_result v = Give v"

section \<open>Branches and timeouts\<close>

text \<open>\<open>p\<close> up to the answer of its next question.\<close>

primrec advance :: "'a prog \<Rightarrow> ('a prog \<Rightarrow> 'b prog) \<Rightarrow> ('a \<Rightarrow> 'b prog) \<Rightarrow> 'b prog" where
  "advance (Give a) go_on fin = fin a"
| "advance (Ask q k) go_on fin = Ask q (\<lambda>x. go_on (k x))"
| "advance (Local g) go_on fin = Local (\<lambda>s. map_prod (\<lambda>p. advance p go_on fin) id (g s))"

inductive_set after_question :: "('a prog \<times> 'a prog) set" where
  here: "(k x, Ask q k) \<in> after_question"
| later: "(p, fst (g s)) \<in> after_question \<Longrightarrow> (p, Local g) \<in> after_question"

lemma wf_after_question: "wf after_question"
proof (rule wfUNIVI)
  fix P :: "'a prog \<Rightarrow> bool" and p
  assume step: "\<forall>p. (\<forall>q. (q, p) \<in> after_question \<longrightarrow> P q) \<longrightarrow> P p"
  have "P p \<and> (\<forall>q. (q, p) \<in> after_question \<longrightarrow> P q)"
  proof (induction p)
    case (Give a)
    have "\<forall>q. (q, Give a) \<in> after_question \<longrightarrow> P q" by (auto elim: after_question.cases)
    then show ?case using step by blast
  next
    case (Ask q k)
    have "P (k x)" for x using Ask by auto
    then have "\<forall>p. (p, Ask q k) \<in> after_question \<longrightarrow> P p" by (auto elim: after_question.cases)
    then show ?case using step by blast
  next
    case (Local g)
    have "P q" if "(q, fst (g s)) \<in> after_question" for q s
      using Local [of "g s" "fst (g s)"] that rangeI [of g s] by (cases "g s") (auto simp del: rangeI)
    then have "\<forall>q. (q, Local g) \<in> after_question \<longrightarrow> P q" by (auto elim: after_question.cases)
    then show ?case using step by blast
  qed
  then show "P p" by blast
qed

lemma advance_cong [fundef_cong]:
  assumes "p = p'" and "\<And>q. (q, p') \<in> after_question \<Longrightarrow> go_on q = go_on' q" and "fin = fin'"
  shows "advance p go_on fin = advance p' go_on' fin'"
proof -
  have "(\<And>q. (q, p) \<in> after_question \<Longrightarrow> go_on q = go_on' q) \<Longrightarrow> advance p go_on fin = advance p go_on' fin" for p
  proof (induction p)
    case (Ask q k)
    have "go_on (k x) = go_on' (k x)" for x by (rule Ask.prems) (rule after_question.here)
    then show ?case by simp
  next
    case (Local g)
    have "advance (fst (g s)) go_on fin = advance (fst (g s)) go_on' fin" for s
    proof (rule Local.IH [of "g s"])
      fix q assume "(q, fst (g s)) \<in> after_question"
      then show "go_on q = go_on' q" by (intro Local.prems after_question.later)
    qed (auto simp: fsts.simps intro: range_eqI)
    then have "map_prod (\<lambda>p. advance p go_on fin) id (g s) = map_prod (\<lambda>p. advance p go_on' fin) id (g s)" for s
      by (cases "g s") (metis fst_conv map_prod_simp)
    then show ?case by simp
  qed simp
  then show ?thesis using assms by simp
qed

lemma listrel1_update:
  assumes "i < length xs" and "(y, xs ! i) \<in> r"
  shows "(xs[i := y], xs) \<in> listrel1 r"
proof -
  have "xs = take i xs @ xs ! i # drop (Suc i) xs" using assms(1) by (rule id_take_nth_drop)
  moreover have "xs[i := y] = take i xs @ y # drop (Suc i) xs" using assms(1) by (rule upd_conv_take_nth_drop)
  ultimately show ?thesis using assms(2) unfolding listrel1_def by blast
qed

text \<open>
  The next of several branches to finish, at most \<open>limit\<close> of which have started: its number, its result and the branches
  left; \<open>None\<close> where there is none. Whose turn it is, the world says.
\<close>

function next_done :: "nat \<Rightarrow> (nat \<times> 'a prog) list \<Rightarrow> (nat \<times> 'a \<times> (nat \<times> 'a prog) list) option prog" where
  "next_done limit [] = Give None"
| "next_done limit (b # bs) =
     Ask (AskTurn (min limit (length (b # bs)))) (\<lambda>x.
       let i = min (an_turn x) (min limit (length (b # bs)) - 1) in
       advance (snd ((b # bs) ! i)) (\<lambda>p. next_done limit ((b # bs)[i := (fst ((b # bs) ! i), p)]))
         (\<lambda>a. Give (Some (fst ((b # bs) ! i), a, take i (b # bs) @ drop (Suc i) (b # bs)))))"
  by pat_completeness auto

termination
proof (relation "inv_image (listrel1 after_question) (\<lambda>(limit, ps). map snd ps)")
  show "wf (inv_image (listrel1 after_question) (\<lambda>(limit, ps :: (nat \<times> 'a prog) list). map snd ps))"
    by (simp add: wf_inv_image wf_listrel1_iff wf_after_question)
next
  fix limit b x i and bs :: "(nat \<times> 'a prog) list" and p :: "'a prog"
  assume i: "i = min (an_turn x) (min limit (length (b # bs)) - 1)" and "(p, snd ((b # bs) ! i)) \<in> after_question"
  moreover have "i < length (b # bs)" unfolding i by simp
  ultimately have "((map snd (b # bs))[i := p], map snd (b # bs)) \<in> listrel1 after_question"
    by (intro listrel1_update) (simp_all only: nth_map length_map)
  then show "((limit, (b # bs)[i := (fst ((b # bs) ! i), p)]), (limit, b # bs))
      \<in> inv_image (listrel1 after_question) (\<lambda>(limit, ps :: (nat \<times> 'a prog) list). map snd ps)"
    by (simp only: in_inv_image prod.case map_update snd_conv)
qed

text \<open>
  All branches, their results taken in the order they come; \<open>f\<close> may stop early, which drops the others. Each result leaves
  one branch less, so their number bounds the loop.
\<close>

fun drive :: "nat \<Rightarrow> nat \<Rightarrow> (nat \<times> 'a prog) list \<Rightarrow> ('s \<Rightarrow> nat \<Rightarrow> 'a \<Rightarrow> 'r + 's) \<Rightarrow> 's \<Rightarrow> ('r + 's) prog" where
  "drive 0 limit ps f acc = Give (Inr acc)"
| "drive (Suc n) limit ps f acc =
     bindp (next_done limit ps) (\<lambda>v.
     case v of
       None \<Rightarrow> Give (Inr acc)
     | Some (i, a, rest) \<Rightarrow> (case f acc i a of Inl r \<Rightarrow> Give (Inl r) | Inr acc' \<Rightarrow> drive n limit rest f acc'))"

text \<open>
  \<^verbatim>\<open>tokio::time::timeout\<close>: \<open>None\<close> where the timer fired first. The program is polled before the timer, and dropped at a
  question, before or after the world acted on it.
\<close>

primrec timed :: "'a prog \<Rightarrow> 'a option prog" where
  "timed (Give a) = Give (Some a)"
| "timed (Ask q k) =
     Ask AskTimer (\<lambda>x. if an_yes x then Give None
       else Ask q (\<lambda>y. Ask AskTimer (\<lambda>z. if an_yes z then Give None else timed (k y))))"
| "timed (Local g) = Local (\<lambda>s. map_prod timed id (g s))"

section \<open>Executions\<close>

text \<open>The questions and answers of a program from a state, up to any point: an execution may crash anywhere.\<close>

inductive traced :: "'a prog \<Rightarrow> exec_state \<Rightarrow> (req \<times> ans) list \<Rightarrow> bool" where
  stop: "traced p s []"
| asks: "traced (k x) s tr \<Longrightarrow> traced (Ask q k) s ((q, x) # tr)"
| local: "g s = (p, s') \<Longrightarrow> traced p s' tr \<Longrightarrow> traced (Local g) s tr"

text \<open>A whole execution in a world that answers every question.\<close>

primrec exec :: "'a prog \<Rightarrow> ('w \<Rightarrow> req \<Rightarrow> ans \<times> 'w) \<Rightarrow> exec_state \<Rightarrow> 'w \<Rightarrow> 'a \<times> exec_state \<times> 'w" where
  "exec (Give a) world s w = (a, s, w)"
| "exec (Ask q k) world s w = (case world w q of (x, w') \<Rightarrow> exec (k x) world s w')"
| "exec (Local g) world s w =
     (case map_prod (\<lambda>p. exec p world) id (g s) of (run_it, s') \<Rightarrow> run_it s' w)"

end
