(* ===== verification/Interpreter_Base.thy ===== *)
theory Interpreter_Base
  imports Run_Programs Schedules
begin

text \<open>
  The interpreter's own bookkeeping (\<^verbatim>\<open>crates/ows/src/run.rs\<close>, sections 3 and 7): the journal of an execution, the identity
  of a call across the attempts of its \<^verbatim>\<open>try\<close>, what is left of a deadline, the arguments of expressions, the jump budget,
  durations, guards and sleeps. jq, JSON Schema, the host's functions and the texts of Rust's \<^verbatim>\<open>Debug\<close> are parameters.
\<close>

section \<open>Host and definition\<close>

record interp =
  in_wf :: workflow
  in_limits :: limits
  in_workflow :: json
  in_runtime :: json
  in_schedule :: "json option"
  in_max_jumps :: nat
  in_durable :: bool
  in_secrets :: redaction
  in_has :: "string \<Rightarrow> bool"
  in_process :: "string \<Rightarrow> bool"
  in_at_most_once :: "string \<Rightarrow> json \<Rightarrow> bool"
  in_unknown_outcome :: "string \<Rightarrow> json \<Rightarrow> json option"
  in_cooperative :: "string \<Rightarrow> bool"
  in_events :: bool
  in_children :: bool
  in_resources :: "(string \<Rightarrow> string + json) option"
  in_jq :: jq
  in_text :: "json \<Rightarrow> string"
  in_debug :: "nat \<Rightarrow> string"
  in_schema_errors :: "json \<Rightarrow> json \<Rightarrow> string + string list"
  in_calendar :: calendar
  in_annotation_bytes :: "annotations \<Rightarrow> nat"
  in_redact_wait :: "pending_wait \<Rightarrow> string + pending_wait"
  in_valid_ms :: "int \<Rightarrow> bool"

type_synonym scope = "(string \<times> json) list"

datatype nxt = NDone json | NExit json | NEnd json

fun ended :: "nxt \<Rightarrow> json \<times> flow option" where
  "ended (NDone v) = (v, None)"
| "ended (NExit v) = (v, None)"
| "ended (NEnd v) = (v, Some End)"

definition NO_DEADLINE :: int where
  "NO_DEADLINE = 253402300799000"

definition EXTENSION_TASKS :: string where
  "EXTENSION_TASKS = ''/use/extensions/''"

definition HANDLER_TASKS :: nat where
  "HANDLER_TASKS = 10"

definition HANDLER :: string where
  "HANDLER = ''/limits/on_exceeded''"

definition expression_fault :: "string \<Rightarrow> fault" where
  "expression_fault e = Error (expression e)"

definition runtime_interrupt :: "string \<Rightarrow> fault" where
  "runtime_interrupt e = FInterrupt (runtime_error e)"

text \<open>\<^verbatim>\<open>rest.is_empty() || rest.starts_with('/')\<close> after a prefix.\<close>

definition within_ref :: "string \<Rightarrow> string \<Rightarrow> bool" where
  "within_ref p r \<longleftrightarrow> (case strip_prefix p r of None \<Rightarrow> False | Some rest \<Rightarrow> rest = [] \<or> hd rest = CHR ''/'')"

definition starts_with :: "string \<Rightarrow> string \<Rightarrow> bool" where
  "starts_with p s \<longleftrightarrow> strip_prefix p s \<noteq> None"

section \<open>The journal of an execution\<close>

definition record_of :: "string \<Rightarrow> journal_record option prog" where
  "record_of k = reads (\<lambda>s. bt_get (rs_records s) k)"

definition noted :: "string \<Rightarrow> journal_record \<Rightarrow> exec_state \<Rightarrow> exec_state" where
  "noted k r s = (case call_entry_of k r of None \<Rightarrow> s | Some e \<Rightarrow> s\<lparr>rs_calls := bt_insert k e (rs_calls s)\<rparr>)"

definition kept :: "string \<Rightarrow> journal_record \<Rightarrow> exec_state \<Rightarrow> exec_state" where
  "kept k r s = (noted k r s)\<lparr>rs_records := bt_insert k r (rs_records s)\<rparr>"

definition save :: "interp \<Rightarrow> string \<Rightarrow> journal_record \<Rightarrow> unit rx" where
  "save x k r =
     (if \<not> in_durable x then lift (modifies (noted k r))
      else
        bindp (record_of k) (\<lambda>old.
        if (case old of None \<Rightarrow> False | Some v \<Rightarrow> \<not> check_transition v r)
        then raise_fault (runtime_interrupt ''invalid durable record transition'')
        else
          bindp (ask (AskSave k (redact_record (in_secrets x) r)) an_error) (\<lambda>e.
          case e of
            Some t \<Rightarrow> raise_fault (runtime_interrupt (''checkpoint '' @ k @ '': '' @ redact_text (in_secrets x) t))
          | None \<Rightarrow> lift (modifies (kept k r)))))"

definition now :: "int rx" where
  "now = lift (ask AskNow an_now)"

text \<open>What is left until a deadline, and the deadline.\<close>

definition remaining :: "interp \<Rightarrow> nat \<Rightarrow> int \<Rightarrow> (nat \<times> int) rx" where
  "remaining x d started =
     (let ms = min (int d) I64_MAX; deadline = sat_add started ms in
      bindr (if in_durable x then bindr now (\<lambda>t. ok (sat_sub deadline t)) else ok ms) (\<lambda>left.
      if left \<le> 0 then raise_fault (Error (timeout_error ''the saved deadline has passed'')) else ok (nat left, deadline)))"

definition blocks_retry :: "string \<Rightarrow> exec_state \<Rightarrow> bool" where
  "blocks_retry reference s \<longleftrightarrow>
     list_ex (\<lambda>(k, r). starts_with (reference @ ''/'') k \<and>
       (case r of Call _ _ _ AtMostOnce Pending _ \<Rightarrow> True | Call _ _ _ AtMostOnce (Done (Inl _)) _ \<Rightarrow> True | _ \<Rightarrow> False))
       (bt_entries (rs_records s))"

definition has_unknown :: "string \<Rightarrow> exec_state \<Rightarrow> bool" where
  "has_unknown reference s \<longleftrightarrow>
     list_ex (\<lambda>(k, r). (k = reference @ ''#call'' \<or> starts_with (reference @ ''/'') k) \<and>
       (case r of Call _ _ _ AtMostOnce Pending _ \<Rightarrow> True | _ \<Rightarrow> False))
       (bt_entries (rs_records s))"

definition unknown_fault :: "string \<Rightarrow> fault" where
  "unknown_fault reference =
     Fatal (unknown_outcome (reference @ '': at-most-once call may have executed; automatic retry is forbidden''))"

text \<open>The longest of the attempt prefixes (the last of equally long ones) that a condition holds of.\<close>

fun longest :: "(string \<times> string \<times> nat) list \<Rightarrow> (string \<times> string \<times> nat) option" where
  "longest [] = None"
| "longest (a # as) =
     (case longest as of
        None \<Rightarrow> Some a
      | Some b \<Rightarrow> if length (fst a) \<le> length (fst b) then Some b else Some a)"

text \<open>
  \<^verbatim>\<open>logical\<close>. A registered prefix is longer than what replaces it (\<^verbatim>\<open>try[k]\<close> for \<^verbatim>\<open>try\<close>), so the length of the reference bounds
  the loop.
\<close>

fun logical_steps :: "nat \<Rightarrow> (string \<times> string \<times> nat) list \<Rightarrow> string \<Rightarrow> string" where
  "logical_steps 0 as l = l"
| "logical_steps (Suc n) as l =
     (case longest (filter (\<lambda>(attempt, first, _). attempt \<noteq> first \<and> within_ref attempt l) as) of
        None \<Rightarrow> l
      | Some (attempt, first, _) \<Rightarrow> logical_steps n as (first @ drop (length attempt) l))"

definition logical_of :: "string \<Rightarrow> exec_state \<Rightarrow> string" where
  "logical_of reference s = logical_steps (length reference) (rs_attempts s) reference"

definition attempt_of :: "string \<Rightarrow> exec_state \<Rightarrow> nat" where
  "attempt_of reference s =
     (case longest (filter (\<lambda>(p, _, _). within_ref p reference) (rs_attempts s)) of None \<Rightarrow> 1 | Some (_, _, n) \<Rightarrow> n)"

text \<open>What an earlier attempt of a protected call left: a result to reuse, a fault, or nothing.\<close>

definition earlier_attempt :: "string \<Rightarrow> string \<Rightarrow> string \<Rightarrow> json \<Rightarrow> string \<Rightarrow> exec_state \<Rightarrow> (fault + json) option" where
  "earlier_attempt lgc key name a reference s =
     (let earlier = List.map_filter (\<lambda>(k, r). case r of
            Call l f b d st _ \<Rightarrow> if k \<noteq> key \<and> l = lgc then Some (f, b, d, st) else None | _ \<Rightarrow> None)
          (bt_entries (rs_records s))
      in case List.find (\<lambda>(_, _, _, st). case st of Done (Inr _) \<Rightarrow> True | _ \<Rightarrow> False) earlier of
           Some (f, b, _, Done (Inr v)) \<Rightarrow>
             Some (if f \<noteq> name \<or> b \<noteq> a
               then Inl (Fatal (standard ''conflict'' 409 ''Idempotency conflict''
                 (reference @ '': an earlier attempt already made this call with other arguments; nothing was sent'')))
               else Inr v)
         | _ \<Rightarrow>
             Option.bind (List.find (\<lambda>(_, _, d, st). d = AtMostOnce \<and>
                 (case st of Pending \<Rightarrow> True | Done (Inl _) \<Rightarrow> True | _ \<Rightarrow> False)) earlier)
               (\<lambda>(_, _, _, st). case st of
                  Pending \<Rightarrow> Some (Inl (unknown_fault reference))
                | Done (Inl e) \<Rightarrow> Some (Inl (Error e))
                | _ \<Rightarrow> None))"

section \<open>Expressions\<close>

definition run_argument :: "interp \<Rightarrow> json \<Rightarrow> exec_state \<Rightarrow> json" where
  "run_argument x visits s =
     (let r = object [(''jumps'', Number (PosInt (rs_jumps s))), (''maxJumps'', Number (PosInt (in_max_jumps x))), (''visits'', visits)]
      in case in_schedule x of None \<Rightarrow> r | Some v \<Rightarrow> set_member ''schedule'' v r)"

definition context_of :: "nat \<Rightarrow> exec_state \<Rightarrow> json" where
  "context_of c s = (if c < length (rs_contexts s) then rs_contexts s ! c else Null)"

definition set_context :: "nat \<Rightarrow> json \<Rightarrow> unit prog" where
  "set_context c v = modifies (\<lambda>s. s\<lparr>rs_contexts := (rs_contexts s)[c := v]\<rparr>)"

text \<open>A copy of a context, for a branch of its own.\<close>

definition copy_context :: "nat \<Rightarrow> nat prog" where
  "copy_context c = Local (\<lambda>s. (Give (length (rs_contexts s)), s\<lparr>rs_contexts := rs_contexts s @ [context_of c s]\<rparr>))"

definition args_of :: "interp \<Rightarrow> json \<Rightarrow> json \<Rightarrow> json \<Rightarrow> json \<Rightarrow> scope \<Rightarrow> exec_state \<Rightarrow> args" where
  "args_of x ctx input out task scope s =
     fold (\<lambda>(n, v). args_set n v)
       ([(''context'', ctx), (''input'', input), (''output'', out), (''task'', task), (''workflow'', in_workflow x),
         (''runtime'', in_runtime x), (RUN, run_argument x (Object []) s)] @ scope)
       args_new"

text \<open>The arguments of an expression at a context.\<close>

definition args_at :: "interp \<Rightarrow> nat \<Rightarrow> json \<Rightarrow> json \<Rightarrow> json \<Rightarrow> scope \<Rightarrow> args rx" where
  "args_at x c input out task scope = lift (reads (\<lambda>s. args_of x (context_of c s) input out task scope s))"

definition input_args :: "interp \<Rightarrow> args \<Rightarrow> json \<Rightarrow> fault + args" where
  "input_args x a t =
     (let codes = (case t of String code \<Rightarrow> [code] | _ \<Rightarrow> template_exprs t) in
      if list_ex (str_contains ''$secrets'') codes then
        let names = (if list_all (\<lambda>c. secret_names c \<noteq> None) codes then Some (concat (List.map_filter secret_names codes)) else None)
        in map_sum Error (\<lambda>v. args_set SECRETS v a) (argument (in_secrets x) names)
      else Inr (args_set SECRETS Null a))"

definition transform :: "interp \<Rightarrow> json \<Rightarrow> json \<Rightarrow> args \<Rightarrow> fault + json" where
  "transform x t on a =
     map_sum expression_fault id
       (case t of String code \<Rightarrow> in_jq x code on a | _ \<Rightarrow> render_template (in_jq x) t on a)"

definition eval_fault :: "interp \<Rightarrow> string \<Rightarrow> json \<Rightarrow> args \<Rightarrow> fault + json" where
  "eval_fault x code on a = map_sum expression_fault id (in_jq x code on a)"

definition conform_document :: "interp \<Rightarrow> json \<Rightarrow> json \<Rightarrow> string \<Rightarrow> fault + unit" where
  "conform_document x schema v what =
     (case in_schema_errors x schema v of
        Inl e \<Rightarrow> Inl (Error (validation (what @ '' schema: '' @ e)))
      | Inr es \<Rightarrow>
          if es = [] then Inr ()
          else Inl (Error (validation (what @ '' does not match its schema: '' @ join ''; '' (take 3 es)))))"

definition conform :: "interp \<Rightarrow> schema \<Rightarrow> json \<Rightarrow> string \<Rightarrow> fault + unit" where
  "conform x sc v what =
     (case sc of
        Document d \<Rightarrow> conform_document x d v what
      | Resource uri \<Rightarrow>
          (case in_resources x of
             None \<Rightarrow> Inl (Error (validation (''no resource resolver for `'' @ uri @ ''`'')))
           | Some res \<Rightarrow>
               (case res uri of
                  Inl e \<Rightarrow> Inl (runtime_interrupt (''schema `'' @ uri @ ''`: '' @ e))
                | Inr d \<Rightarrow> conform_document x d v what)))"

definition conform_opt :: "interp \<Rightarrow> schema option \<Rightarrow> json \<Rightarrow> string \<Rightarrow> fault + unit" where
  "conform_opt x sc v what = (case sc of None \<Rightarrow> Inr () | Some d \<Rightarrow> conform x d v what)"

section \<open>Durations and guards\<close>

definition duration_of :: "interp \<Rightarrow> duration_spec \<Rightarrow> json \<Rightarrow> args \<Rightarrow> fault + nat" where
  "duration_of x spec input a =
     (case spec of
        Fixed d \<Rightarrow> Inr d
      | DurationExpr code \<Rightarrow>
          and_then (eval_fault x code input a) (\<lambda>v.
          case v of
            String t \<Rightarrow>
              (case parse_iso_duration t of
                 Some d \<Rightarrow> Inr d
               | None \<Rightarrow> Inl (expression_fault (''`'' @ t @ ''` is not an ISO 8601 duration (e.g. PT30S)'')))
          | other \<Rightarrow> Inl (expression_fault (''a duration expression must produce an ISO 8601 string, got '' @ in_text x other))))"

definition guards :: "interp \<Rightarrow> string option \<Rightarrow> string option \<Rightarrow> json \<Rightarrow> args \<Rightarrow> fault + bool" where
  "guards x cond except input a =
     and_then (case cond of None \<Rightarrow> Inr True | Some w \<Rightarrow> map_sum id truthy (eval_fault x w input a)) (\<lambda>b.
     if \<not> b then Inr False
     else case except of None \<Rightarrow> Inr True | Some e \<Rightarrow> map_sum id (Not \<circ> truthy) (eval_fault x e input a))"

definition error_value :: "workflow_error \<Rightarrow> json" where
  "error_value e =
     (let opt = (\<lambda>k v. case v of None \<Rightarrow> [] | Some t \<Rightarrow> [(k, String t)]) in
      object ([(''type'', String (err_type e)), (''status'', Number (PosInt (err_status e)))]
        @ opt ''title'' (err_title e) @ opt ''detail'' (err_detail e) @ opt ''instance'' (err_instance e)))"

definition catches :: "interp \<Rightarrow> catch \<Rightarrow> workflow_error \<Rightarrow> json \<Rightarrow> args \<Rightarrow> fault + bool" where
  "catches x c e input a =
     (if (case ca_errors c of
            None \<Rightarrow> False
          | Some pattern \<Rightarrow> \<not> list_all (\<lambda>(k, v). if k = ''type'' \<and> as_str v \<noteq> None then has_type e (the (as_str v))
              else member_of (error_value e) k = Some v) pattern)
      then Inr False
      else guards x (ca_when c) (ca_except_when c) input a)"

definition names_unknown :: "catch \<Rightarrow> bool" where
  "names_unknown c \<longleftrightarrow> Option.bind (Option.bind (ca_errors c) (\<lambda>p. map_of p ''type'')) as_str = Some CALL_UNKNOWN"

text \<open>The longest \<^verbatim>\<open>Duration\<close>, in milliseconds; adding beyond it panics.\<close>

definition DURATION_MAX :: nat where
  "DURATION_MAX = (2 ^ 64 - 1) * 1000 + 999"

definition add_durations :: "nat \<Rightarrow> nat \<Rightarrow> fault + nat" where
  "add_durations a b = (if a + b \<le> DURATION_MAX then Inr (a + b) else Inl Panicked)"

definition backoff_factor :: "backoff \<Rightarrow> nat \<Rightarrow> nat" where
  "backoff_factor b attempt =
     (case b of Constant \<Rightarrow> 1 | Linear \<Rightarrow> attempt | Exponential \<Rightarrow> min (2 ^ (attempt - 1)) U32_MAX)"

definition optional_duration :: "interp \<Rightarrow> duration_spec option \<Rightarrow> json \<Rightarrow> args \<Rightarrow> fault + nat option" where
  "optional_duration x spec input a =
     (case spec of None \<Rightarrow> Inr None | Some d \<Rightarrow> map_sum id Some (duration_of x d input a))"

definition jittered :: "interp \<Rightarrow> (duration_spec \<times> duration_spec) option \<Rightarrow> nat \<Rightarrow> json \<Rightarrow> args \<Rightarrow> fault + nat" where
  "jittered x jitter base input a =
     (case jitter of
        None \<Rightarrow> Inr base
      | Some (lo, hi) \<Rightarrow>
          and_then (duration_of x lo input a) (\<lambda>l. and_then (duration_of x hi input a) (\<lambda>h.
          and_then (add_durations l h) (\<lambda>both. add_durations base (both div 2)))))"

text \<open>The delay before the next attempt, with the jitter's middle; \<open>None\<close>: stop. \<open>t\<close>: the clock, read where the policy has a limit.\<close>

definition retry_delay :: "interp \<Rightarrow> retry \<Rightarrow> nat \<Rightarrow> int \<Rightarrow> json \<Rightarrow> args \<Rightarrow> int \<Rightarrow> fault + nat option" where
  "retry_delay x r attempt began input a t =
     and_then (guards x (rt_when r) (rt_except_when r) input a) (\<lambda>go.
     let ceiling = lm_max_attempts (in_limits x) in
     if \<not> go \<or> min (case rt_attempts r of None \<Rightarrow> ceiling | Some n \<Rightarrow> n) ceiling \<le> attempt then Inr None
     else
       and_then (optional_duration x (rt_delay r) input a) (\<lambda>base.
       let scaled = min ((case base of None \<Rightarrow> 0 | Some b \<Rightarrow> b) * backoff_factor (rt_backoff r) attempt) DURATION_MAX in
       and_then (jittered x (rt_jitter r) scaled input a) (\<lambda>delay.
       case rt_duration r of
         None \<Rightarrow> Inr (Some delay)
       | Some spec \<Rightarrow>
           and_then (add_durations (nat (max (sat_sub t began) 0)) delay) (\<lambda>total.
           and_then (duration_of x spec input a) (\<lambda>limit. Inr (if limit < total then None else Some delay))))))"

section \<open>Sleeping\<close>

definition sleep :: "interp \<Rightarrow> nat \<Rightarrow> string \<Rightarrow> unit rx" where
  "sleep x d0 key =
     (let d = (case lm_max_sleep (in_limits x) of None \<Rightarrow> d0 | Some m \<Rightarrow> min d0 m) in
      if in_durable x then
        bindp (record_of key) (\<lambda>saved.
        bindr (case saved of
            Some (Timer at) \<Rightarrow> ok at
          | Some _ \<Rightarrow> raise_fault (runtime_interrupt ''invalid timer record'')
          | None \<Rightarrow>
              bindr now (\<lambda>t.
              let at = sat_add t (min (int d) I64_MAX) in
              bindr (save x key (Timer at)) (\<lambda>_. ok at))) (\<lambda>at.
        bindr now (\<lambda>t. if t < at then raise_fault (FWaiting at) else ok ())))
      else
        bindp (ask (AskSleep d) an_yes) (\<lambda>cancelled. if cancelled then raise_fault FCancelled else ok ()))"

section \<open>The jump budget\<close>

text \<open>The handler a reference runs in, counting the task when it enters.\<close>

fun enter_handler :: "string \<Rightarrow> (string \<times> nat) list \<Rightarrow> (string \<times> nat) list" where
  "enter_handler reference [] = []"
| "enter_handler reference ((p, n) # hs) =
     (if within_ref p reference then (p, n + 1) # hs else (p, n) # enter_handler reference hs)"

definition handler_of :: "string \<Rightarrow> (string \<times> nat) list \<Rightarrow> nat option" where
  "handler_of reference hs = map_option snd (List.find (\<lambda>(p, _). within_ref p reference) hs)"

definition enter :: "string \<Rightarrow> nat option prog" where
  "enter reference = Local (\<lambda>s. let hs = enter_handler reference (rs_handlers s) in (Give (handler_of reference hs), s\<lparr>rs_handlers := hs\<rparr>))"

text \<open>\<^verbatim>\<open>spending\<close>: one branch decides at a time.\<close>

primrec lock :: "nat \<Rightarrow> string \<Rightarrow> unit rx" where
  "lock 0 reference = raise_fault OutOfFuel"
| "lock (Suc n) reference =
     Local (\<lambda>s. if rs_spending s = None then (ok (), s\<lparr>rs_spending := Some reference\<rparr>)
       else (Ask AskYield (\<lambda>_. lock n reference), s))"

definition unlocked :: "'a rx \<Rightarrow> 'a rx" where
  "unlocked m = bindp m (\<lambda>v. bindp (modifies (\<lambda>s. s\<lparr>rs_spending := None\<rparr>)) (\<lambda>_. Give v))"

definition refused_by :: "journal_record \<Rightarrow> fault + string option" where
  "refused_by r =
     (case r of
        Budget True _ _ \<Rightarrow> Inr None
      | Budget False _ (Some first) \<Rightarrow> Inr (Some first)
      | _ \<Rightarrow> Inl (runtime_interrupt ''invalid budget record''))"

definition first_refusal_of :: "exec_state \<Rightarrow> string option" where
  "first_refusal_of s =
     (case List.map_filter (\<lambda>(_, r). case r of Budget False _ f \<Rightarrow> f | _ \<Rightarrow> None) (bt_entries (rs_records s)) of
        [] \<Rightarrow> None
      | f # _ \<Rightarrow> Some f)"

text \<open>The budget as this run keeps it, where its journal shares none.\<close>

definition own_budget :: "interp \<Rightarrow> string \<Rightarrow> string option rx" where
  "own_budget x key =
     bindp (reads (\<lambda>s. (rs_jumps s, first_refusal_of s))) (\<lambda>(spent, earlier).
     let granted = spent < in_max_jumps x;
       first = (if granted then None else Some (case earlier of None \<Rightarrow> key | Some f \<Rightarrow> f)) in
     bindr (save x key (Budget granted (if granted then spent + 1 else spent) first)) (\<lambda>_. ok first))"

definition decide_jump :: "interp \<Rightarrow> string \<Rightarrow> string option rx" where
  "decide_jump x key =
     bindr (if in_durable x
            then bindp (ask (AskSpend key (in_max_jumps x)) an_spent) (\<lambda>v.
              case v of
                Inl e \<Rightarrow> raise_fault (runtime_interrupt (''spending '' @ key @ '': '' @ redact_text (in_secrets x) e))
              | Inr r \<Rightarrow> ok r)
            else ok None) (\<lambda>shared.
     case shared of
       Some r \<Rightarrow>
         bindr (of_result (refused_by r)) (\<lambda>decided.
         bindr (lift (modifies (\<lambda>s. s\<lparr>rs_records := bt_insert key r (rs_records s)\<rparr>))) (\<lambda>_. ok decided))
     | None \<Rightarrow> own_budget x key)"

definition jump :: "interp \<Rightarrow> nat \<Rightarrow> string \<Rightarrow> string option rx" where
  "jump x fuel reference =
     bindp (reads (\<lambda>s. handler_of reference (rs_handlers s))) (\<lambda>h.
     if h \<noteq> None
     then raise_fault (Fatal ((budget_error ''an on_exceeded handler cannot jump'')\<lparr>err_instance := Some reference\<rparr>))
     else
       let key = reference @ ''#jump'' in
       bindp (record_of key) (\<lambda>saved.
       case saved of
         Some r \<Rightarrow> of_result (refused_by r)
       | None \<Rightarrow>
           bindr (lock fuel reference) (\<lambda>_.
           unlocked (bindr (decide_jump x key) (\<lambda>decided.
             if decided = None then bindr (lift (modifies (\<lambda>s. s\<lparr>rs_jumps := rs_jumps s + 1\<rparr>))) (\<lambda>_. ok decided)
             else ok decided)))))"

end
