(* ===== verification/Interpreter.thy ===== *)
theory Interpreter
  imports Interpreter_Base
begin

text \<open>
  The interpreter (\<^verbatim>\<open>crates/ows/src/run.rs\<close>, sections 3 to 7): task lists and their flow, the data flow of a task, extensions,
  the task kinds, calls and their journal, forks, listens, emitted events, child runs, tries and retries, and an
  execution from its loaded journal to its outcome. \<open>T\<close> runs a task inside the construct at hand; fuel bounds the depth of
  tasks, the passes of a list, the attempts of a \<^verbatim>\<open>try\<close> and the events of a \<^verbatim>\<open>listen\<close>.
\<close>

type_synonym runner = "task \<Rightarrow> string \<Rightarrow> string \<Rightarrow> json \<Rightarrow> nat \<Rightarrow> scope \<Rightarrow> (json \<times> flow) rx"

type_synonym list_runner = "task_list \<Rightarrow> string \<Rightarrow> json \<Rightarrow> nat \<Rightarrow> scope \<Rightarrow> nxt rx"

section \<open>Task lists\<close>

definition outer_visits :: "scope \<Rightarrow> members" where
  "outer_visits scope =
     (case List.find (\<lambda>(n, _). n = RUN) (rev scope) of
        None \<Rightarrow> []
      | Some (_, r) \<Rightarrow> (case member_of r ''visits'' of Some (Object m) \<Rightarrow> m | _ \<Rightarrow> []))"

definition visit_counts :: "task_list \<Rightarrow> nat list \<Rightarrow> members \<Rightarrow> members" where
  "visit_counts tasks visits outer =
     fold (\<lambda>((name, _), v) m. if 0 < v then obj_insert name (Number (PosInt v)) m else m) (zip tasks visits) outer"

definition list_reference :: "string \<Rightarrow> nat \<Rightarrow> string \<Rightarrow> nat \<Rightarrow> string" where
  "list_reference at i name visits =
     at @ ''/'' @ decimal i @ ''/'' @ name @ (if visits = 0 then [] else ''['' @ decimal visits @ '']'')"

primrec list_loop :: "nat \<Rightarrow> interp \<Rightarrow> runner \<Rightarrow> task_list \<Rightarrow> string \<Rightarrow> nat \<Rightarrow> scope \<Rightarrow> nat list \<Rightarrow> nat \<Rightarrow> json \<Rightarrow> nxt rx" where
  "list_loop 0 x T tasks at c scope visits i data = raise_fault OutOfFuel"
| "list_loop (Suc n) x T tasks at c scope visits i data =
     (if length tasks \<le> i then ok (NDone data)
      else
        let name = fst (tasks ! i); visits' = visits[i := visits ! i + 1] in
        bindp (reads (run_argument x (Object (visit_counts tasks visits' (outer_visits scope))))) (\<lambda>r.
        bindr (T (snd (tasks ! i)) name (list_reference at i name (visits ! i)) data c
                ((RUN, r) # filter (\<lambda>(v, _). v \<noteq> RUN) scope)) (\<lambda>(out, flow).
        case flow of
          Continue \<Rightarrow> list_loop n x T tasks at c scope visits' (i + 1) out
        | Exit \<Rightarrow> ok (NExit out)
        | End \<Rightarrow> ok (NEnd out)
        | Goto t \<Rightarrow>
            (case position t (map fst tasks) of
               Some j \<Rightarrow> list_loop n x T tasks at c scope visits' j out
             | None \<Rightarrow> raise_fault (Fatal (runtime_error (''`then: '' @ t @ ''` names no task in '' @ at)))))))"

definition run_list :: "nat \<Rightarrow> interp \<Rightarrow> runner \<Rightarrow> list_runner" where
  "run_list n x T tasks at data c scope = list_loop n x T tasks at c scope (replicate (length tasks) 0) 0 data"

section \<open>A task and its record\<close>

definition located :: "string \<Rightarrow> workflow_error \<Rightarrow> workflow_error" where
  "located reference e = (case err_instance e of None \<Rightarrow> e\<lparr>err_instance := Some reference\<rparr> | Some _ \<Rightarrow> e)"

definition located_fault :: "string \<Rightarrow> fault \<Rightarrow> fault" where
  "located_fault reference f =
     (case f of Error e \<Rightarrow> Error (located reference e) | Fatal e \<Rightarrow> Fatal (located reference e) | _ \<Rightarrow> f)"

definition outcome_of :: "fault + json \<times> flow \<Rightarrow> step_outcome option" where
  "outcome_of v =
     (case v of
        Inr (out, flow) \<Rightarrow> Some (StepCompleted out flow)
      | Inl (Error e) \<Rightarrow> Some (StepFaulted e False)
      | Inl (Fatal e) \<Rightarrow> Some (StepFaulted e True)
      | Inl _ \<Rightarrow> None)"

definition restored :: "step_outcome \<Rightarrow> (json \<times> flow) rx" where
  "restored v =
     (case v of
        StepCompleted out flow \<Rightarrow> ok (out, flow)
      | StepFaulted e True \<Rightarrow> raise_fault (Fatal e)
      | StepFaulted e False \<Rightarrow> raise_fault (Error e))"

text \<open>The task limit: counted for a task no earlier execution entered.\<close>

definition count_task :: "interp \<Rightarrow> string \<Rightarrow> bool \<Rightarrow> unit rx" where
  "count_task x reference fresh =
     (let m = lm_max_tasks (in_limits x) in
      if \<not> fresh then ok ()
      else Local (\<lambda>s. (if m \<le> rs_tasks_run s
        then raise_fault (Fatal ((runtime_error (''more than '' @ decimal m @ '' tasks ran; a loop or a `then` cycle does not end''))
          \<lparr>err_instance := Some reference\<rparr>))
        else ok (), s\<lparr>rs_tasks_run := rs_tasks_run s + 1\<rparr>)))"

text \<open>\<open>steps\<close> is the data flow of the task with its start time.\<close>

definition recorded :: "interp \<Rightarrow> string \<Rightarrow> nat \<Rightarrow> journal_record option \<Rightarrow> (int \<Rightarrow> (json \<times> flow) rx) \<Rightarrow> (json \<times> flow) rx" where
  "recorded x reference c prior steps =
     (let key = reference @ ''#task'' in
      bindr (count_task x reference (prior = None)) (\<lambda>_.
      bindr (case prior of Some (Task t _) \<Rightarrow> ok t | _ \<Rightarrow> now) (\<lambda>started.
      bindr (save x key (Task started None)) (\<lambda>_.
      bindp (steps started) (\<lambda>v.
      let w = map_sum (located_fault reference) id v in
      case outcome_of w of
        None \<Rightarrow> Give w
      | Some out \<Rightarrow>
          bindp (reads (context_of c)) (\<lambda>ctx.
          bindr (save x key (Task started (Some \<lparr>tr_context = ctx, tr_outcome = out\<rparr>))) (\<lambda>_. Give w)))))))"

definition run_task :: "interp \<Rightarrow> (task \<Rightarrow> string \<Rightarrow> string \<Rightarrow> json \<Rightarrow> nat \<Rightarrow> scope \<Rightarrow> int \<Rightarrow> (json \<times> flow) rx) \<Rightarrow> runner" where
  "run_task x steps task name reference raw c scope =
     bindp (ask AskCancelled an_yes) (\<lambda>cancelled.
     if cancelled then raise_fault FCancelled
     else
       bindp (enter reference) (\<lambda>h.
       if (case h of None \<Rightarrow> False | Some n \<Rightarrow> HANDLER_TASKS < n)
       then raise_fault (Fatal ((budget_error (''an on_exceeded handler may run at most '' @ decimal HANDLER_TASKS @ '' tasks''))
         \<lparr>err_instance := Some reference\<rparr>))
       else
         bindp (record_of (reference @ ''#task'')) (\<lambda>prior.
         case prior of
           Some (Task _ (Some r)) \<Rightarrow> bindp (set_context c (tr_context r)) (\<lambda>_. restored (tr_outcome r))
         | _ \<Rightarrow> recorded x reference c prior (steps task name reference raw c scope))))"

section \<open>The exceeded budget\<close>

definition act_on_exceeded :: "interp \<Rightarrow> runner \<Rightarrow> string \<Rightarrow> json \<Rightarrow> nat \<Rightarrow> scope \<Rightarrow> fault prog" where
  "act_on_exceeded x T reference out c scope =
     (case bg_on_exceeded (wf_budget (in_wf x)) of
        ExceededRaise \<Rightarrow> Give (Error (budget_error ''the jump budget is spent''))
      | ExceededEnd \<Rightarrow> Give (FExceeded out)
      | ExceededTask handler \<Rightarrow>
          let at = reference @ HANDLER in
          bindp (modifies (\<lambda>s. s\<lparr>rs_handlers := rs_handlers s @ [(at, 0)]\<rparr>)) (\<lambda>_.
          bindp (T handler ''on_exceeded'' at out c scope) (\<lambda>v.
          bindp (modifies (\<lambda>s. s\<lparr>rs_handlers := filter (\<lambda>(p, _). p \<noteq> at) (rs_handlers s)\<rparr>)) (\<lambda>_.
          case v of
            Inr (r, _) \<Rightarrow> Give (FExceeded r)
          | Inl (Error e) \<Rightarrow> bindp (modifies (\<lambda>s. s\<lparr>rs_handler_failed := True\<rparr>)) (\<lambda>_. Give (Fatal e))
          | Inl (Fatal e) \<Rightarrow> bindp (modifies (\<lambda>s. s\<lparr>rs_handler_failed := True\<rparr>)) (\<lambda>_. Give (Fatal e))
          | Inl other \<Rightarrow> Give other))))"

text \<open>A branch refused at the same moment ends as the first one does.\<close>

primrec follow_exceeded :: "nat \<Rightarrow> unit rx" where
  "follow_exceeded 0 = raise_fault OutOfFuel"
| "follow_exceeded (Suc n) =
     bindp (ask AskCancelled an_yes) (\<lambda>cancelled.
     if cancelled then raise_fault FCancelled
     else Local (\<lambda>s. (case rs_exceeded s of Some f \<Rightarrow> raise_fault f | None \<Rightarrow> Ask AskYield (\<lambda>_. follow_exceeded n), s)))"

definition exceeded :: "nat \<Rightarrow> interp \<Rightarrow> runner \<Rightarrow> string \<Rightarrow> string \<Rightarrow> json \<Rightarrow> nat \<Rightarrow> scope \<Rightarrow> unit rx" where
  "exceeded n x T reference first out c scope =
     (if bg_on_exceeded (wf_budget (in_wf x)) = ExceededRaise
      then raise_fault (Error (budget_error (''more than '' @ decimal (in_max_jumps x) @ '' jumps in this run tree; a `then` loop did not end'')))
      else if first \<noteq> reference @ ''#jump'' then follow_exceeded n
      else
        bindp (act_on_exceeded x T reference out c scope) (\<lambda>f.
        bindp (modifies (\<lambda>s. s\<lparr>rs_exceeded := Some f\<rparr>)) (\<lambda>_. raise_fault f)))"

section \<open>Calls\<close>

definition check_annotations :: "interp \<Rightarrow> annotations \<Rightarrow> string option" where
  "check_annotations x a =
     (let n = length (bt_entries a); b = in_annotation_bytes x a in
      if MAX_ANNOTATIONS < n then Some (decimal n @ '' annotations, at most '' @ decimal MAX_ANNOTATIONS @ '' allowed'')
      else if bt_has a [] then Some ''an annotation needs a name''
      else if MAX_ANNOTATION_BYTES < b
        then Some (''annotations take '' @ decimal b @ '' bytes, at most '' @ decimal MAX_ANNOTATION_BYTES @ '' allowed'')
      else None)"

definition annotated :: "interp \<Rightarrow> string \<Rightarrow> call_failure + json \<Rightarrow> annotations \<Rightarrow> (call_failure + json) \<times> annotations" where
  "annotated x name r ann =
     (if (case r of Inr _ \<Rightarrow> False | Inl (FResponse _) \<Rightarrow> False | _ \<Rightarrow> True) then (r, bt_empty)
      else case check_annotations x ann of
        None \<Rightarrow> (r, ann)
      | Some e \<Rightarrow> (Inl (FResponse (validation (name @ '' annotations: '' @ e))), bt_empty))"

text \<open>An at-most-once call that may have run: the host's marker, or a fatal fault.\<close>

definition unknown_call :: "interp \<Rightarrow> string \<Rightarrow> string \<Rightarrow> string \<Rightarrow> json \<Rightarrow> string \<Rightarrow> json rx" where
  "unknown_call x key lgc name a reference =
     (case in_unknown_outcome x name a of
        None \<Rightarrow> raise_fault (unknown_fault reference)
      | Some mark \<Rightarrow>
          bindp (record_of key) (\<lambda>r.
          case r of
            Some (Call _ _ _ _ _ _) \<Rightarrow>
              bindr (save x key (Call lgc name a AtMostOnce (Done (Inr mark)) bt_empty)) (\<lambda>_. ok mark)
          | _ \<Rightarrow> raise_fault (runtime_interrupt ''missing call record'')))"

text \<open>The dispatched call's answer; a cancelled run drops a call that does not stop by itself.\<close>

definition dispatch :: "interp \<Rightarrow> call_request \<Rightarrow> ((call_failure + json) \<times> annotations) rx" where
  "dispatch x q =
     bindp (ask (AskDispatch q) (\<lambda>y. (an_yes y, an_call y, an_annotations y))) (\<lambda>(cancelled, r, ann).
     if cancelled \<and> \<not> in_cooperative x (cq_name q) then raise_fault FCancelled else ok (annotated x (cq_name q) r ann))"

text \<open>Without a journal nothing is saved; the call journal still learns how the call ended.\<close>

definition answered_ephemeral :: "string \<Rightarrow> string \<Rightarrow> string \<Rightarrow> delivery \<Rightarrow> string \<Rightarrow> (call_failure + json) \<times> annotations \<Rightarrow> json rx" where
  "answered_ephemeral key lgc name d reference = (\<lambda>(r, ann).
     bindp (ask AskCancelled an_yes) (\<lambda>cancelled.
     if cancelled then raise_fault FCancelled
     else
       bindp (case (case r of Inr v \<Rightarrow> Some (Done (Inr v)) | Inl (FResponse e) \<Rightarrow> Some (Done (Inl e))
                | Inl (FNotExecuted e) \<Rightarrow> Some (NotExecuted e) | Inl _ \<Rightarrow> None) of
           Some st \<Rightarrow> modifies (noted key (Call lgc name Null d st ann))
         | None \<Rightarrow> Give ()) (\<lambda>_.
       case r of
         Inr v \<Rightarrow> ok v
       | Inl (FInterrupted e) \<Rightarrow> raise_fault (FInterrupt e)
       | Inl (FUnknown e) \<Rightarrow> raise_fault (if d = AtMostOnce then unknown_fault reference else Error e)
       | Inl (FResponse e) \<Rightarrow> raise_fault (Error e)
       | Inl (FNotExecuted e) \<Rightarrow> raise_fault (Error e))))"

definition answered :: "interp \<Rightarrow> string \<Rightarrow> string \<Rightarrow> string \<Rightarrow> json \<Rightarrow> delivery \<Rightarrow> string \<Rightarrow> (call_failure + json) \<times> annotations \<Rightarrow> json rx" where
  "answered x key lgc name a d reference = (\<lambda>(r, ann).
     let settled = (\<lambda>st v. bindr (save x key (Call lgc name a d st ann)) (\<lambda>_. of_result v)) in
     case r of
       Inr v \<Rightarrow> settled (Done (Inr v)) (Inr v)
     | Inl (FResponse e) \<Rightarrow> settled (Done (Inl e)) (Inl (Error e))
     | Inl (FNotExecuted e) \<Rightarrow> settled (NotExecuted e) (Inl (Error e))
     | Inl (FUnknown e) \<Rightarrow> if d = AtMostOnce then unknown_call x key lgc name a reference else raise_fault (Error e)
     | Inl (FInterrupted e) \<Rightarrow>
         bindp (ask AskCancelled an_yes) (\<lambda>cancelled.
         if cancelled then raise_fault FCancelled
         else if d = AtMostOnce then unknown_call x key lgc name a reference
         else raise_fault (FInterrupt e)))"

text \<open>A call is sent after its intent is saved.\<close>

definition send_call :: "interp \<Rightarrow> target \<Rightarrow> string \<Rightarrow> json \<Rightarrow> string \<Rightarrow> string \<Rightarrow> delivery \<Rightarrow> json \<Rightarrow> json rx" where
  "send_call x tgt name a reference lgc d input =
     (let key = reference @ ''#call'' in
      bindr (save x key (Call lgc name a d Pending bt_empty)) (\<lambda>_.
      bindp (modifies (\<lambda>s. if d = AtMostOnce then s\<lparr>rs_protected := rs_protected s + 1\<rparr> else s)) (\<lambda>_.
      bindp (reads (attempt_of reference)) (\<lambda>attempt.
      bindr (dispatch x \<lparr>cq_target = tgt, cq_name = name, cq_args = a, cq_reference = reference, cq_logical = lgc,
               cq_attempt = attempt, cq_delivery = d, cq_input = input, cq_durable = in_durable x\<rparr>) (\<lambda>r.
      if in_durable x then answered x key lgc name a d reference r
      else answered_ephemeral key lgc name d reference r)))))"

definition call_known :: "interp \<Rightarrow> target \<Rightarrow> string \<Rightarrow> bool" where
  "call_known x tgt name = (case tgt of TFunction _ \<Rightarrow> in_has x name | TProcess kind \<Rightarrow> in_process x kind)"

definition target_name :: "target \<Rightarrow> string" where
  "target_name t = (case t of TFunction name \<Rightarrow> name | TProcess kind \<Rightarrow> process_function kind)"

text \<open>A call of the host: restored from its record, refused, answered by an earlier attempt, or sent.\<close>

definition host_call :: "interp \<Rightarrow> target \<Rightarrow> string \<Rightarrow> json \<Rightarrow> string \<Rightarrow> delivery \<Rightarrow> json \<Rightarrow> json rx" where
  "host_call x tgt name a reference d0 input =
     (let d = (if in_at_most_once x name a then AtMostOnce else d0); key = reference @ ''#call'' in
      bindp (reads (\<lambda>s. (logical_of reference s, bt_get (rs_records s) key))) (\<lambda>(lgc, prior).
      let unsent = (\<lambda>_ :: unit.
        if \<not> call_known x tgt name then raise_fault (Fatal (runtime_error (''unknown function `'' @ name @ ''`'')))
        else
          bindp (reads (\<lambda>s. if prior = None \<and> lgc \<noteq> reference \<and> d = AtMostOnce
              then earlier_attempt lgc key name a reference s else None)) (\<lambda>earlier.
          case earlier of
            Some v \<Rightarrow> of_result v
          | None \<Rightarrow> send_call x tgt name a reference lgc d input))
      in case prior of
           Some (Call l f b d' st _) \<Rightarrow>
             if l \<noteq> lgc \<or> f \<noteq> name \<or> b \<noteq> a \<or> d' \<noteq> d
             then raise_fault (Fatal (runtime_error (reference @ '': call bindings changed'')))
             else (case st of
                 Done (Inr v) \<Rightarrow> ok v
               | Done (Inl e) \<Rightarrow> raise_fault (Error e)
               | NotExecuted e \<Rightarrow> raise_fault (Error e)
               | Pending \<Rightarrow> if d = AtMostOnce then unknown_call x key lgc name a reference else unsent ())
         | Some _ \<Rightarrow> raise_fault (runtime_interrupt ''invalid call record'')
         | None \<Rightarrow> unsent ()))"

definition run_call :: "interp \<Rightarrow> runner \<Rightarrow> target \<Rightarrow> json \<Rightarrow> string \<Rightarrow> nat \<Rightarrow> delivery \<Rightarrow> json \<Rightarrow> json rx" where
  "run_call x T tgt a reference c d input =
     (let name = target_name tgt in
      case (case tgt of TFunction n \<Rightarrow> map_of (us_functions (wf_uses (in_wf x))) n | TProcess _ \<Rightarrow> None) of
        Some f \<Rightarrow>
          if d \<noteq> AtLeastOnce
          then raise_fault (Fatal (validation ''delivery belongs on the external call inside a reusable function''))
          else bindr (T f name (reference @ ''/use/functions/'' @ name) a c []) (\<lambda>(out, _). ok out)
      | None \<Rightarrow> host_call x tgt name a reference d input)"

section \<open>Branches\<close>

text \<open>What a dropped branch held: its tasks' deadlines and the right to spend.\<close>

definition dropped :: "string \<Rightarrow> unit prog" where
  "dropped reference = modifies (\<lambda>s. s\<lparr>
     rs_deadlines := bt_of_list (filter (\<lambda>(k, _). k = reference \<or> \<not> starts_with reference k) (bt_entries (rs_deadlines s))),
     rs_spending := (case rs_spending s of None \<Rightarrow> None | Some h \<Rightarrow> if starts_with reference h then None else Some h)\<rparr>)"

definition sooner :: "int option \<Rightarrow> int \<Rightarrow> int option" where
  "sooner wake at = Some (case wake of None \<Rightarrow> at | Some old \<Rightarrow> min old at)"

text \<open>The results of a concurrent \<^verbatim>\<open>for\<close>, in the order of the items.\<close>

fun gather :: "(fault + nxt) list \<Rightarrow> json list \<Rightarrow> int option \<Rightarrow> flow option \<Rightarrow> fault + json \<times> flow option" where
  "gather [] out wake e = (case wake of Some at \<Rightarrow> Inl (FWaiting at) | None \<Rightarrow> Inr (Array out, e))"
| "gather (r # rs) out wake e =
     (case r of
        Inr (NDone v) \<Rightarrow> gather rs (out @ [v]) wake e
      | Inr (NExit v) \<Rightarrow> gather rs (out @ [v]) wake e
      | Inr (NEnd v) \<Rightarrow> gather rs (out @ [v]) wake (Some End)
      | Inl (FWaiting at) \<Rightarrow> gather rs out (sooner wake at) e
      | Inl f \<Rightarrow> Inl f)"

definition iteration_reference :: "string \<Rightarrow> nat \<Rightarrow> string" where
  "iteration_reference reference i = reference @ ''['' @ decimal i @ '']/do''"

definition concurrent ::
  "list_runner \<Rightarrow> task_list \<Rightarrow> json list \<Rightarrow> string \<Rightarrow> string \<Rightarrow> nat \<Rightarrow> string \<Rightarrow> json \<Rightarrow> nat \<Rightarrow> scope \<Rightarrow> (json \<times> flow option) rx" where
  "concurrent L tasks items each at limit reference input c scope =
     (let runs = map (\<lambda>(i, item). (i, bindp (copy_context c) (\<lambda>c'.
            L tasks (iteration_reference reference i) input c' (scope @ [(each, item), (at, Number (PosInt i))]))))
          (enumerate 0 items)
      in bindp (drive (length items) limit runs (\<lambda>acc i r. Inr (acc @ [(i, r)])) []) (\<lambda>v.
         case v of
           Inl r \<Rightarrow> Give r
         | Inr acc \<Rightarrow> Give (gather (map snd (sort_key fst acc)) [] None None)))"

text \<open>The outputs of a fork as they come: filled in place, with the earliest wait.\<close>

definition fork_all :: "json list \<times> int option \<Rightarrow> nat \<Rightarrow> fault + json \<Rightarrow> fault + json list \<times> int option" where
  "fork_all = (\<lambda>(out, wake) i r.
     case r of
       Inr v \<Rightarrow> Inr (out[i := v], wake)
     | Inl (FWaiting at) \<Rightarrow> Inr (out, sooner wake at)
     | Inl f \<Rightarrow> Inl f)"

definition fork_join :: "json list \<Rightarrow> nat \<Rightarrow> fault + json \<Rightarrow> fault + json list" where
  "fork_join out i r = (case r of Inr v \<Rightarrow> Inr (out[i := v]) | Inl f \<Rightarrow> Inl f)"

definition fork_race :: "workflow_error option \<times> int option \<Rightarrow> nat \<Rightarrow> fault + json \<Rightarrow> (fault + json) + workflow_error option \<times> int option" where
  "fork_race = (\<lambda>(latest, wake) i r.
     case r of
       Inr v \<Rightarrow> Inl (Inr v)
     | Inl (FWaiting at) \<Rightarrow> Inr (latest, sooner wake at)
     | Inl (Error e) \<Rightarrow> Inr (Some e, wake)
     | Inl f \<Rightarrow> Inl (Inl f))"

definition fork_reference :: "string \<Rightarrow> nat \<Rightarrow> string \<Rightarrow> string" where
  "fork_reference reference i name = reference @ ''/fork/branches/'' @ decimal i @ ''/'' @ name"

definition branches_of :: "runner \<Rightarrow> task_list \<Rightarrow> string \<Rightarrow> json \<Rightarrow> nat \<Rightarrow> scope \<Rightarrow> (nat \<times> json rx) list" where
  "branches_of T branches reference input c scope =
     map (\<lambda>(i, name, b). (i, bindp (copy_context c) (\<lambda>c'.
         bindr (T b name (fork_reference reference i name) input c' scope) (\<lambda>(v, _). ok v))))
       (enumerate 0 branches)"

definition run_fork :: "interp \<Rightarrow> runner \<Rightarrow> task_list \<Rightarrow> bool \<Rightarrow> string \<Rightarrow> json \<Rightarrow> nat \<Rightarrow> scope \<Rightarrow> json rx" where
  "run_fork x T branches compete reference input c scope =
     (let key = reference @ ''#winner''; n = length branches; runs = branches_of T branches reference input c scope;
        gone = dropped (reference @ ''/fork/branches/'') in
      bindp (record_of key) (\<lambda>saved.
      case saved of
        Some (Winner out) \<Rightarrow> ok out
      | _ \<Rightarrow>
          if \<not> compete \<and> \<not> in_durable x then
            bindp (drive n n runs fork_join (replicate n Null)) (\<lambda>v.
            bindp gone (\<lambda>_. case v of Inl f \<Rightarrow> raise_fault f | Inr out \<Rightarrow> ok (Array out)))
          else if \<not> compete then
            bindp (drive n n runs fork_all (replicate n Null, None)) (\<lambda>v.
            bindp gone (\<lambda>_.
            case v of
              Inl f \<Rightarrow>
                bindp (reads (has_unknown reference)) (\<lambda>u.
                raise_fault (if u \<and> (case f of FInterrupt _ \<Rightarrow> False | _ \<Rightarrow> True) then unknown_fault reference else f))
            | Inr (out, Some at) \<Rightarrow> raise_fault (FWaiting at)
            | Inr (out, None) \<Rightarrow> ok (Array out)))
          else
            bindp (drive n n runs fork_race (None, None)) (\<lambda>v.
            bindp gone (\<lambda>_.
            case v of
              Inl (Inr out) \<Rightarrow> bindr (save x key (Winner out)) (\<lambda>_. ok out)
            | Inl (Inl f) \<Rightarrow> raise_fault f
            | Inr (latest, Some at) \<Rightarrow> raise_fault (FWaiting at)
            | Inr (latest, None) \<Rightarrow>
                raise_fault (Error (case latest of Some e \<Rightarrow> e | None \<Rightarrow> runtime_error ''a competing fork needs a branch''))))))"

section \<open>Raising\<close>

definition raised_text :: "interp \<Rightarrow> string option \<Rightarrow> json \<Rightarrow> args \<Rightarrow> fault + string option" where
  "raised_text x t input a =
     (case t of
        None \<Rightarrow> Inr None
      | Some s \<Rightarrow>
          (case strip s of
             None \<Rightarrow> Inr (Some s)
           | Some code \<Rightarrow>
               map_sum id (\<lambda>v. case v of Null \<Rightarrow> None | String u \<Rightarrow> Some u | w \<Rightarrow> Some (in_text x w)) (eval_fault x code input a)))"

definition raise_error :: "interp \<Rightarrow> raise \<Rightarrow> string \<Rightarrow> json \<Rightarrow> args \<Rightarrow> fault + workflow_error" where
  "raise_error x r reference input a =
     and_then (case r of
         RaiseInline d \<Rightarrow> Inr d
       | RaiseNamed name \<Rightarrow>
           (case map_of (us_errors (wf_uses (in_wf x))) name of
              Some d \<Rightarrow> Inr d
            | None \<Rightarrow> Inl (Fatal (runtime_error (''no error `'' @ name @ ''` under use.errors''))))) (\<lambda>d.
     and_then (raised_text x (ed_title d) input a) (\<lambda>title.
     and_then (raised_text x (ed_detail d) input a) (\<lambda>detail.
     Inr \<lparr>err_type = ed_type d, err_status = ed_status d, err_title = title, err_detail = detail,
       err_instance = Some (case ed_instance d of None \<Rightarrow> reference | Some i \<Rightarrow> i)\<rparr>)))"

section \<open>Listening and emitting\<close>

text \<open>The earliest deadline around a reference.\<close>

definition enclosing_deadline :: "string \<Rightarrow> int option \<Rightarrow> exec_state \<Rightarrow> int option" where
  "enclosing_deadline reference deadline s =
     (let ds = map snd (filter (\<lambda>(k, _). k = [] \<or> within_ref k reference) (bt_entries (rs_deadlines s)))
          @ (case deadline of None \<Rightarrow> [] | Some at \<Rightarrow> [at])
      in if ds = [] then None else Some (Min (set ds)))"

definition stored_ok :: "req \<Rightarrow> unit rx" where
  "stored_ok q = bindp (ask q an_error) (\<lambda>e. case e of Some t \<Rightarrow> raise_fault (runtime_interrupt t) | None \<Rightarrow> ok ())"

definition take_event_for :: "string \<Rightarrow> string list \<Rightarrow> json option rx" where
  "take_event_for key types =
     bindp (ask (AskTake key types) an_event) (\<lambda>v. case v of Inl t \<Rightarrow> raise_fault (runtime_interrupt t) | Inr e \<Rightarrow> ok e)"

definition expire_listen :: "string \<Rightarrow> string \<Rightarrow> string list \<Rightarrow> string \<Rightarrow> 'a rx" where
  "expire_listen reference key routes_of detail =
     bindr (stored_ok (AskUnregister key (filter (\<lambda>r. r \<noteq> ''*'') routes_of))) (\<lambda>_.
     bindr (stored_ok (AskUnsubscribe reference)) (\<lambda>_. raise_fault (Error (timeout_error detail))))"

text \<open>Taking, while the hold lasts and notifications come.\<close>

primrec hold_loop :: "nat \<Rightarrow> interp \<Rightarrow> string \<Rightarrow> string list \<Rightarrow> nat \<Rightarrow> json option rx" where
  "hold_loop 0 x key routes_of hold = raise_fault OutOfFuel"
| "hold_loop (Suc n) x key routes_of hold =
     bindr (take_event_for key routes_of) (\<lambda>e.
     case e of
       Some event \<Rightarrow> bindr (save x key (Event event)) (\<lambda>_. ok (Some event))
     | None \<Rightarrow> bindp (ask (AskHold hold) an_yes) (\<lambda>notified. if notified then hold_loop n x key routes_of hold else ok None))"

definition next_event ::
  "nat \<Rightarrow> interp \<Rightarrow> task \<Rightarrow> string \<Rightarrow> string \<Rightarrow> string list \<Rightarrow> json \<Rightarrow> nat \<Rightarrow> scope \<Rightarrow> json \<Rightarrow> int option \<Rightarrow> json rx" where
  "next_event n x task reference key routes_of input c scope desc deadline =
     (if \<not> in_durable x then
        bindr (take_event_for key routes_of) (\<lambda>e.
        case e of
          Some event \<Rightarrow> ok event
        | None \<Rightarrow> raise_fault (Error (runtime_error ''listen requires a durable journal; cannot wait in a dry run'')))
      else
        bindr now (\<lambda>t.
        if (case deadline of None \<Rightarrow> False | Some at \<Rightarrow> at \<le> t)
        then expire_listen reference key routes_of (reference @ '': no event before its deadline'')
        else
          let held = (case deadline of None \<Rightarrow> tk_hold task | Some at \<Rightarrow> min (tk_hold task) (nat (at - t)));
            cut = (case (deadline, lm_max_listen (in_limits x)) of (Some _, Some m) \<Rightarrow> m \<le> held | _ \<Rightarrow> False) in
          bindr (args_at x c input Null desc scope) (\<lambda>a.
          bindr (if cut then of_result (optional_duration x (tk_timeout task) input a) else ok None) (\<lambda>limit.
          let hold = (if cut then the (lm_max_listen (in_limits x))
            else case lm_max_hold (in_limits x) of None \<Rightarrow> held | Some m \<Rightarrow> min held m) in
          bindr (hold_loop n x key routes_of hold) (\<lambda>e.
          case e of
            Some event \<Rightarrow> ok event
          | None \<Rightarrow>
              if cut then expire_listen reference key routes_of (''no event within '' @ in_debug x hold @ '', the most this host waits (the timeout allows ''
                @ (case limit of None \<Rightarrow> ''None'' | Some l \<Rightarrow> ''Some('' @ in_debug x l @ '')'') @ '')'')
              else raise_fault (FWaiting NO_DEADLINE))))))"

text \<open>The output of a list as \<^verbatim>\<open>output.as\<close> and \<^verbatim>\<open>export.as\<close> make it.\<close>

definition exported :: "interp \<Rightarrow> task_output option \<Rightarrow> json \<Rightarrow> json \<Rightarrow> json \<Rightarrow> nat \<Rightarrow> scope \<Rightarrow> unit rx" where
  "exported x e out input desc c scope =
     (case e of
        None \<Rightarrow> ok ()
      | Some ex \<Rightarrow>
          bindr (case out_as ex of
              None \<Rightarrow> ok ()
            | Some t \<Rightarrow>
                bindr (args_at x c input out desc scope) (\<lambda>a.
                bindr (of_result (transform x t out a)) (\<lambda>v. lift (set_context c v)))) (\<lambda>_.
          bindp (reads (context_of c)) (\<lambda>ctx. of_result (conform_opt x (out_schema ex) ctx ''the exported context''))))"

definition transformed_output :: "interp \<Rightarrow> task_output option \<Rightarrow> json \<Rightarrow> json \<Rightarrow> json \<Rightarrow> nat \<Rightarrow> scope \<Rightarrow> string \<Rightarrow> json rx" where
  "transformed_output x o' out input desc c scope what =
     bindr (case Option.bind o' out_as of
         None \<Rightarrow> ok out
       | Some t \<Rightarrow> bindr (args_at x c input Null desc scope) (\<lambda>a. of_result (transform x t out a))) (\<lambda>v.
     bindr (of_result (conform_opt x (Option.bind o' out_schema) v what)) (\<lambda>_. ok v))"

definition run_foreach :: "interp \<Rightarrow> list_runner \<Rightarrow> foreach \<Rightarrow> string \<Rightarrow> nat \<Rightarrow> json \<Rightarrow> nat \<Rightarrow> scope \<Rightarrow> (json \<times> flow option) rx" where
  "run_foreach x L f reference n item c scope =
     (let inner = scope @ [(fe_item f, item), (fe_at f, Number (PosInt n))] in
      bindr (L (fe_tasks f) (reference @ ''/foreach/'' @ decimal n @ ''/do'') item c inner) (\<lambda>nx.
      case ended nx of (out, flow) \<Rightarrow>
        bindr (transformed_output x (fe_output f) out item Null c inner ''the iteration output'') (\<lambda>v.
        bindr (exported x (fe_export f) v item Null c inner) (\<lambda>_. ok (v, flow)))))"

definition listen_wait ::
  "interp \<Rightarrow> strategy \<Rightarrow> string list \<Rightarrow> string \<Rightarrow> string \<Rightarrow> json \<Rightarrow> nat \<Rightarrow> scope \<Rightarrow> json \<Rightarrow> int option \<Rightarrow> progress \<Rightarrow> unit rx" where
  "listen_wait x to routes_of reference key input c scope desc deadline p =
     bindr now (\<lambda>t.
     bindr (args_at x c input Null desc scope) (\<lambda>a.
     bindp (reads (enclosing_deadline reference deadline)) (\<lambda>at.
     case in_redact_wait x \<lparr>pw_types = routes_of, pw_strategy = to, pw_input = input, pw_args = a, pw_progress = p, pw_position = key,
         pw_since_ms = t, pw_timeout_ms = at, pw_redacted = False\<rparr> of
       Inl e \<Rightarrow> raise_fault (runtime_interrupt e)
     | Inr w \<Rightarrow> stored_ok (AskWait reference w))))"

definition subscribe_listen :: "string \<Rightarrow> string list \<Rightarrow> unit rx" where
  "subscribe_listen reference routes_of =
     (let typed = filter (\<lambda>r. r \<noteq> ''*'') routes_of in
      bindr (if typed = [] then ok () else stored_ok (AskRegister typed)) (\<lambda>_. stored_ok (AskSubscribe reference routes_of)))"

text \<open>The event of a position: saved by an earlier execution, or taken now.\<close>

definition listen_event ::
  "nat \<Rightarrow> interp \<Rightarrow> task \<Rightarrow> strategy \<Rightarrow> string list \<Rightarrow> string \<Rightarrow> string \<Rightarrow> json \<Rightarrow> nat \<Rightarrow> scope \<Rightarrow> json \<Rightarrow> int option \<Rightarrow> progress \<Rightarrow> bool \<Rightarrow> (json \<times> bool) rx" where
  "listen_event n x task to routes_of reference key input c scope desc deadline p sub =
     bindp (record_of key) (\<lambda>saved.
     case saved of
       Some (Event e) \<Rightarrow> ok (e, sub)
     | Some _ \<Rightarrow> raise_fault (runtime_interrupt ''invalid event record'')
     | None \<Rightarrow>
         bindr (if sub then ok () else subscribe_listen reference routes_of) (\<lambda>_.
         bindr (listen_wait x to routes_of reference key input c scope desc deadline p) (\<lambda>_.
         bindr (next_event n x task reference key routes_of input c scope desc deadline) (\<lambda>e. ok (e, True)))))"

definition offered :: "interp \<Rightarrow> strategy \<Rightarrow> progress \<Rightarrow> json \<Rightarrow> json \<Rightarrow> args \<Rightarrow> fault + offer \<times> progress" where
  "offered x to p event input a =
     map_sum (\<lambda>e. case e of EvalError t \<Rightarrow> expression_fault t | Panic \<Rightarrow> Panicked) id
       (consumer_offer (in_jq x) (in_text x) to p event input a)"

text \<open>Whether \<^verbatim>\<open>until\<close> holds of the consumed items.\<close>

definition listen_until :: "interp \<Rightarrow> strategy \<Rightarrow> json list \<Rightarrow> json \<Rightarrow> nat \<Rightarrow> scope \<Rightarrow> json \<Rightarrow> bool rx" where
  "listen_until x to consumed input c scope desc =
     (case to of
        Any _ (Some (Condition code)) \<Rightarrow>
          bindr (args_at x c input Null desc scope) (\<lambda>a.
          of_result (map_sum id truthy (eval_fault x code (Array consumed) a)))
      | _ \<Rightarrow> ok False)"

primrec listen_loop ::
  "nat \<Rightarrow> interp \<Rightarrow> list_runner \<Rightarrow> task \<Rightarrow> strategy \<Rightarrow> read \<Rightarrow> foreach option \<Rightarrow> string list \<Rightarrow> string \<Rightarrow> json \<Rightarrow> nat \<Rightarrow> scope \<Rightarrow> json \<Rightarrow> int option
     \<Rightarrow> nat \<Rightarrow> bool \<Rightarrow> progress \<Rightarrow> json list \<Rightarrow> json list \<Rightarrow> (json \<times> flow option) rx" where
  "listen_loop 0 x L task to rd fe routes_of reference input c scope desc deadline i sub p consumed outs = raise_fault OutOfFuel"
| "listen_loop (Suc n) x L task to rd fe routes_of reference input c scope desc deadline i sub p consumed outs =
     (if done_of p then
        bindr (stored_ok (AskUnsubscribe reference)) (\<lambda>_. ok (Array (if fe = None then consumed else outs), None))
      else
        bindr (listen_event n x task to routes_of reference (reference @ ''#event['' @ decimal i @ '']'') input c scope desc deadline p sub)
          (\<lambda>(event, sub').
        bindr (args_at x c input Null desc scope) (\<lambda>a.
        bindr (of_result (offered x to p event input a)) (\<lambda>(o', p').
        if o' \<noteq> Consumed
        then listen_loop n x L task to rd fe routes_of reference input c scope desc deadline (i + 1) sub' p' consumed outs
        else
          let item = read_event event rd; consumed' = consumed @ [item] in
          bindr (case fe of None \<Rightarrow> ok (Null, None) | Some f \<Rightarrow> run_foreach x L f reference (length outs) item c scope) (\<lambda>(out, flow).
          case flow of
            Some f \<Rightarrow> bindr (stored_ok (AskUnsubscribe reference)) (\<lambda>_. ok (out, Some f))
          | None \<Rightarrow>
              bindr (listen_until x to consumed' input c scope desc) (\<lambda>b.
              listen_loop n x L task to rd fe routes_of reference input c scope desc deadline (i + 1) sub'
                (if b then stop_consumer p' else p') consumed' (if fe = None then outs else outs @ [out])))))))"

definition run_listen ::
  "nat \<Rightarrow> interp \<Rightarrow> list_runner \<Rightarrow> task \<Rightarrow> strategy \<Rightarrow> read \<Rightarrow> foreach option \<Rightarrow> string \<Rightarrow> json \<Rightarrow> nat \<Rightarrow> scope \<Rightarrow> json \<Rightarrow> int option \<Rightarrow> (json \<times> flow option) rx" where
  "run_listen n x L task to rd fe reference input c scope desc deadline =
     (if \<not> in_events x then raise_fault (Error (validation ''events are not supported by this host''))
      else
        bindr (args_at x c input Null desc scope) (\<lambda>a.
        listen_loop n x L task to rd fe (routes (in_jq x) to a) reference input c scope desc deadline 0 False (consumer_new to) [] []))"

definition EMIT :: string where
  "EMIT = ''emit''"

definition emit_earlier :: "string \<Rightarrow> exec_state \<Rightarrow> json option" where
  "emit_earlier lgc s =
     (case List.map_filter (\<lambda>(_, r). case r of
          Call l f _ _ (Done (Inr v)) _ \<Rightarrow> if l = lgc \<and> f = EMIT then Some v else None | _ \<Rightarrow> None)
        (bt_entries (rs_records s)) of [] \<Rightarrow> None | v # _ \<Rightarrow> Some v)"

definition emit_envelope :: "interp \<Rightarrow> members \<Rightarrow> json \<Rightarrow> args \<Rightarrow> json rx" where
  "emit_envelope x attrs input a =
     bindr (of_result (map_sum expression_fault id (render_members (in_jq x) attrs input a))) (\<lambda>rendered.
     bindp (ask AskUuid an_text) (\<lambda>i.
     bindr now (\<lambda>t.
     let d = wf_document (in_wf x) in
     of_result (map_sum expression_fault id (envelope rendered
       \<lparr>df_id = i, df_source = ''/'' @ dc_namespace d @ ''/'' @ dc_name d @ ''/'' @ dc_version d, df_time = cal_iso8601 (in_calendar x) t\<rparr>)))))"

definition hand_over :: "interp \<Rightarrow> string \<Rightarrow> string \<Rightarrow> string \<Rightarrow> json \<Rightarrow> json rx" where
  "hand_over x key lgc reference event =
     (let intent = (\<lambda>st. Call lgc EMIT event AtLeastOnce st bt_empty) in
      bindr (save x key (intent Pending)) (\<lambda>_.
      bindp (ask (AskEmit event reference lgc) (\<lambda>y. (an_yes y, map_sum id (\<lambda>_. ()) (an_call y)))) (\<lambda>(cancelled, r).
      if cancelled then raise_fault FCancelled
      else case r of
          Inr _ \<Rightarrow> bindr (save x key (intent (Done (Inr event)))) (\<lambda>_. ok event)
        | Inl (FResponse e) \<Rightarrow> bindr (save x key (intent (Done (Inl e)))) (\<lambda>_. raise_fault (Error e))
        | Inl (FNotExecuted e) \<Rightarrow> bindr (save x key (intent (NotExecuted e))) (\<lambda>_. raise_fault (Error e))
        | Inl (FUnknown e) \<Rightarrow> raise_fault (Error e)
        | Inl (FInterrupted e) \<Rightarrow>
            bindp (ask AskCancelled an_yes) (\<lambda>stopped. raise_fault (if stopped then FCancelled else FInterrupt e)))))"

definition run_emit :: "interp \<Rightarrow> members \<Rightarrow> string \<Rightarrow> json \<Rightarrow> args \<Rightarrow> json rx" where
  "run_emit x attrs reference input a =
     (let key = reference @ ''#call'' in
      bindp (reads (\<lambda>s. (logical_of reference s, bt_get (rs_records s) key))) (\<lambda>(lgc, prior).
      case prior of
        Some (Call _ f b _ st _) \<Rightarrow>
          if f \<noteq> EMIT then raise_fault (runtime_interrupt ''invalid emit record'')
          else (case st of
              Done (Inr v) \<Rightarrow> ok v
            | Done (Inl e) \<Rightarrow> raise_fault (Error e)
            | NotExecuted e \<Rightarrow> raise_fault (Error e)
            | Pending \<Rightarrow> hand_over x key lgc reference b)
      | Some _ \<Rightarrow> raise_fault (runtime_interrupt ''invalid emit record'')
      | None \<Rightarrow>
          bindp (reads (\<lambda>s. if lgc \<noteq> reference then emit_earlier lgc s else None)) (\<lambda>earlier.
          case earlier of
            Some v \<Rightarrow> ok v
          | None \<Rightarrow> bindr (emit_envelope x attrs input a) (\<lambda>event. hand_over x key lgc reference event))))"

section \<open>Processes and child workflows\<close>

definition part_or_null :: "json \<Rightarrow> string \<Rightarrow> json" where
  "part_or_null v k = (case member_of v k of None \<Rightarrow> Null | Some w \<Rightarrow> w)"

definition process_result :: "return \<Rightarrow> json \<Rightarrow> json" where
  "process_result r v =
     (case r of
        RStdout \<Rightarrow> part_or_null v ''stdout''
      | RStderr \<Rightarrow> part_or_null v ''stderr''
      | RCode \<Rightarrow> part_or_null v ''code''
      | RAll \<Rightarrow> v
      | RNone \<Rightarrow> Null)"

definition child_result :: "return \<Rightarrow> json \<Rightarrow> json" where
  "child_result r out =
     (case r of
        RStdout \<Rightarrow> out
      | RStderr \<Rightarrow> String []
      | RCode \<Rightarrow> Number (PosInt 0)
      | RAll \<Rightarrow> object [(''code'', Number (PosInt 0)), (''stdout'', out), (''stderr'', String [])]
      | RNone \<Rightarrow> Null)"

definition start_child :: "string \<Rightarrow> child_target \<Rightarrow> json \<Rightarrow> bool \<Rightarrow> (string \<times> string) rx" where
  "start_child reference t input owned =
     bindp (ask (AskChild reference t input owned) an_child) (\<lambda>v.
     case v of
       Inr r \<Rightarrow> ok r
     | Inl (FNotExecuted e) \<Rightarrow> raise_fault (Error e)
     | Inl (FResponse e) \<Rightarrow> raise_fault (Error e)
     | Inl (FUnknown e) \<Rightarrow> raise_fault (FInterrupt e)
     | Inl (FInterrupted e) \<Rightarrow> raise_fault (FInterrupt e))"

text \<open>The outcome of a child: saved by an earlier execution, taken now, or waited for.\<close>

definition child_event :: "interp \<Rightarrow> string \<Rightarrow> child_target \<Rightarrow> json \<Rightarrow> json rx" where
  "child_event x reference t input =
     (let key = reference @ ''#child'' in
      bindp (record_of key) (\<lambda>saved.
      case saved of
        Some (Event e) \<Rightarrow> ok e
      | Some _ \<Rightarrow> raise_fault (runtime_interrupt ''invalid child record'')
      | None \<Rightarrow>
          if \<not> in_durable x then raise_fault (Error (runtime_error ''a child workflow needs a durable journal''))
          else if \<not> in_events x then raise_fault (Error (validation ''child workflows need events on this host''))
          else
            bindr (start_child reference t input True) (\<lambda>(_, fin).
            bindr (stored_ok (AskRegister [fin])) (\<lambda>_.
            bindr (take_event_for key [fin]) (\<lambda>e.
            case e of
              Some event \<Rightarrow> bindr (save x key (Event event)) (\<lambda>_. ok event)
            | None \<Rightarrow> raise_fault (FWaiting NO_DEADLINE))))))"

text \<open>A workflow error as its JSON form reads it.\<close>

definition read_error :: "json \<Rightarrow> workflow_error option" where
  "read_error v =
     (let text = (\<lambda>k. case member_of v k of None \<Rightarrow> Some None | Some Null \<Rightarrow> Some None | Some (String t) \<Rightarrow> Some (Some t) | _ \<Rightarrow> None) in
      case (Option.bind (member_of v ''type'') as_str, Option.bind (member_of v ''status'') as_u64, text ''title'', text ''detail'', text ''instance'') of
        (Some t, Some st, Some ti, Some de, Some i) \<Rightarrow>
          if st < 65536 then Some \<lparr>err_type = t, err_status = st, err_title = ti, err_detail = de, err_instance = i\<rparr> else None
      | _ \<Rightarrow> None)"

definition child_outcome :: "string \<Rightarrow> return \<Rightarrow> json \<Rightarrow> fault + json" where
  "child_outcome reference r event =
     (let data = part_or_null event ''data''; st = as_str (part_or_null data ''status'') in
      if st = Some ''completed'' then Inr (child_result r (part_or_null data ''output''))
      else if st = Some ''faulted'' then
        Inl (Error ((case read_error (part_or_null data ''error'') of Some e \<Rightarrow> e | None \<Rightarrow> runtime_error ''the child workflow faulted'')
          \<lparr>err_instance := Some reference\<rparr>))
      else Inl (Error ((standard ''runtime'' 499 ''Child Cancelled'' ''the child workflow was cancelled'')\<lparr>err_instance := Some reference\<rparr>)))"

definition run_process :: "interp \<Rightarrow> runner \<Rightarrow> run_task \<Rightarrow> string \<Rightarrow> json \<Rightarrow> nat \<Rightarrow> args \<Rightarrow> delivery \<Rightarrow> json rx" where
  "run_process x T r reference input c a d =
     (case rn_process r of
        External kind definition_of \<Rightarrow>
          bindr (of_result (map_sum expression_fault id (render_template (in_jq x) definition_of input a))) (\<lambda>v.
          bindr (run_call x T (TProcess kind) (case v of Object m \<Rightarrow> Object (obj_insert ''await'' (Bool (rn_await r)) m) | w \<Rightarrow> w)
                  reference c d input) (\<lambda>out.
          ok (if rn_await r then process_result (rn_return r) out else input)))
      | ChildWorkflow namespace name version template \<Rightarrow>
          bindr (case template of
              None \<Rightarrow> ok (Object [])
            | Some t \<Rightarrow> of_result (map_sum expression_fault id (render_template (in_jq x) t input a))) (\<lambda>v.
          let t = \<lparr>ct_inherit_host = rn_inherit_host r, ct_namespace = namespace, ct_name = name, ct_version = version\<rparr> in
          if \<not> in_children x then raise_fault (Error (validation ''child workflows are not supported by this host''))
          else if \<not> rn_await r then bindr (start_child reference t v False) (\<lambda>_. ok input)
          else bindr (child_event x reference t v) (\<lambda>e. of_result (child_outcome reference (rn_return r) e))))"

section \<open>Tries\<close>

text \<open>A program within a deadline: a body that would wait past it, or that the timer cuts, has timed out.\<close>

definition cut_off :: "string \<Rightarrow> bool \<Rightarrow> int \<Rightarrow> workflow_error \<Rightarrow> 'a rx \<Rightarrow> 'a rx" where
  "cut_off reference late deadline e body =
     bindp (timed body) (\<lambda>v.
     let timed_out = bindp (dropped reference) (\<lambda>_. bindp (reads (has_unknown reference)) (\<lambda>u.
         raise_fault (if u then unknown_fault reference else Error e))) in
     case v of
       None \<Rightarrow> timed_out
     | Some (Inl (FWaiting wake)) \<Rightarrow> if late then timed_out else raise_fault (FWaiting (min wake deadline))
     | Some r \<Rightarrow> Give r)"

definition within :: "interp \<Rightarrow> nat \<Rightarrow> string \<Rightarrow> string \<Rightarrow> 'a rx \<Rightarrow> 'a rx" where
  "within x limit key attempt body =
     bindp (record_of key) (\<lambda>saved.
     bindr (case saved of
         Some (Timer at) \<Rightarrow> ok at
       | Some _ \<Rightarrow> raise_fault (runtime_interrupt ''invalid attempt record'')
       | None \<Rightarrow>
           bindr now (\<lambda>t.
           let at = sat_add t (min (int limit) I64_MAX) in
           bindr (save x key (Timer at)) (\<lambda>_. ok at))) (\<lambda>at.
     bindr (if in_durable x then bindr now (\<lambda>t. ok (max (sat_sub at t) 0)) else ok (min (int limit) I64_MAX)) (\<lambda>left.
     cut_off attempt (in_durable x \<and> left = 0) at (timeout_error (attempt @ '' did not finish within '' @ in_debug x limit)) body)))"

definition attempt_reference :: "interp \<Rightarrow> string \<Rightarrow> nat \<Rightarrow> string" where
  "attempt_reference x reference attempt =
     reference @ ''/try'' @ (if \<not> in_durable x \<or> attempt = 1 then [] else ''['' @ decimal attempt @ '']'')"

text \<open>One attempt, with its own limit.\<close>

definition attempt_body ::
  "interp \<Rightarrow> list_runner \<Rightarrow> task_list \<Rightarrow> catch \<Rightarrow> string \<Rightarrow> json \<Rightarrow> nat \<Rightarrow> scope \<Rightarrow> json \<Rightarrow> json \<Rightarrow> nat \<Rightarrow> nxt rx rx" where
  "attempt_body x L tasks ca reference input c scope desc snapshot attempt =
     (let at = attempt_reference x reference attempt; body = L tasks at input c scope in
      bindp (modifies (\<lambda>s. s\<lparr>rs_attempts := rs_attempts s @ [(at, reference @ ''/try'', attempt)]\<rparr>)) (\<lambda>_.
      case Option.bind (ca_retry ca) rt_attempt_duration of
        None \<Rightarrow> ok body
      | Some spec \<Rightarrow>
          bindp (reads (args_of x snapshot input Null desc scope)) (\<lambda>a.
          bindr (of_result (duration_of x spec input a)) (\<lambda>limit.
          ok (within x limit (reference @ ''#attempt['' @ decimal attempt @ '']'') at body)))))"

text \<open>Whether to try again: restored, or decided and saved.\<close>

definition retry_decision ::
  "interp \<Rightarrow> catch \<Rightarrow> string \<Rightarrow> nat \<Rightarrow> nat \<Rightarrow> int \<Rightarrow> json \<Rightarrow> args \<Rightarrow> nat option rx" where
  "retry_decision x ca reference attempt protected began input a =
     (let key = reference @ ''#retry-decision['' @ decimal attempt @ '']'' in
      bindp (record_of key) (\<lambda>saved.
      case saved of
        Some (Retry d) \<Rightarrow> ok d
      | Some _ \<Rightarrow> raise_fault (runtime_interrupt ''invalid retry record'')
      | None \<Rightarrow>
          bindp (reads (\<lambda>s. if in_durable x then \<not> blocks_retry (attempt_reference x reference attempt) s else rs_protected s = protected)) (\<lambda>safe.
          bindr (case ca_retry ca of
              Some r \<Rightarrow> if safe then bindr now (\<lambda>t. of_result (retry_delay x r attempt began input a t)) else ok None
            | None \<Rightarrow> ok None) (\<lambda>d.
          bindr (save x key (Retry (map_option (\<lambda>m. min m U64_MAX) d))) (\<lambda>_. ok d)))))"

definition handle_error ::
  "list_runner \<Rightarrow> catch \<Rightarrow> string \<Rightarrow> json \<Rightarrow> nat \<Rightarrow> scope \<Rightarrow> (json \<times> flow option) rx" where
  "handle_error L ca reference input c caught =
     (case ca_tasks ca of
        None \<Rightarrow> ok (input, ca_then ca)
      | Some ts \<Rightarrow>
          bindr (L ts (reference @ ''/catch/do'') input c caught) (\<lambda>nx.
          case ended nx of (out, flow) \<Rightarrow> ok (out, case flow of None \<Rightarrow> ca_then ca | Some f \<Rightarrow> Some f)))"

primrec attempt_loop ::
  "nat \<Rightarrow> interp \<Rightarrow> list_runner \<Rightarrow> task_list \<Rightarrow> catch \<Rightarrow> string \<Rightarrow> json \<Rightarrow> nat \<Rightarrow> scope \<Rightarrow> json \<Rightarrow> int \<Rightarrow> json \<Rightarrow> nat \<Rightarrow> (json \<times> flow option) rx" where
  "attempt_loop 0 x L tasks ca reference input c scope desc began snapshot attempt = raise_fault OutOfFuel"
| "attempt_loop (Suc n) x L tasks ca reference input c scope desc began snapshot attempt =
     bindp (reads rs_protected) (\<lambda>protected.
     bindr (attempt_body x L tasks ca reference input c scope desc snapshot attempt) (\<lambda>body.
     bindp body (\<lambda>v.
     let caught_by = (\<lambda>e unknown.
       let caught = scope @ [(ca_as ca, error_value e)] in
       bindr (args_at x c input Null desc caught) (\<lambda>a.
       bindr (of_result (catches x ca e input a)) (\<lambda>hit.
       if \<not> hit then raise_fault (if unknown then Fatal e else Error e)
       else
         bindr (retry_decision x ca reference attempt protected began input a) (\<lambda>d.
         case d of
           Some delay \<Rightarrow>
             bindr (sleep x delay (reference @ ''#retry['' @ decimal attempt @ '']'')) (\<lambda>_.
             bindr (lift (set_context c snapshot)) (\<lambda>_.
             attempt_loop n x L tasks ca reference input c scope desc began snapshot (attempt + 1)))
         | None \<Rightarrow> handle_error L ca reference input c caught))))
     in case v of
          Inr nx \<Rightarrow> ok (ended nx)
        | Inl (Error e) \<Rightarrow> caught_by e False
        | Inl (Fatal e) \<Rightarrow> if err_type e = CALL_UNKNOWN \<and> names_unknown ca then caught_by e True else raise_fault (Fatal e)
        | Inl f \<Rightarrow> raise_fault f)))"

definition run_try ::
  "nat \<Rightarrow> interp \<Rightarrow> list_runner \<Rightarrow> task_list \<Rightarrow> catch \<Rightarrow> string \<Rightarrow> json \<Rightarrow> nat \<Rightarrow> scope \<Rightarrow> json \<Rightarrow> (json \<times> flow option) rx" where
  "run_try n x L tasks ca reference input c scope desc =
     (case as_i64 (index (index (index desc ''startedAt'') ''epoch'') ''milliseconds'') of
        None \<Rightarrow> raise_fault (Fatal (runtime_error ''missing retry start time''))
      | Some began \<Rightarrow>
          bindp (reads (context_of c)) (\<lambda>snapshot.
          attempt_loop n x L tasks ca reference input c scope desc began snapshot 1))"

section \<open>Extensions and task kinds\<close>

fun applying ::
  "interp \<Rightarrow> (nat \<times> string \<times> extension) list \<Rightarrow> kind \<Rightarrow> json \<Rightarrow> args \<Rightarrow> fault + (nat \<times> string \<times> extension) list" where
  "applying x [] k input a = Inr []"
| "applying x ((i, name, e) # es) k input a =
     (if \<not> extends e k then applying x es k input a
      else
        and_then (case ex_when e of None \<Rightarrow> Inr True | Some w \<Rightarrow> map_sum id truthy (eval_fault x w input a)) (\<lambda>hit.
        and_then (applying x es k input a) (\<lambda>rest. Inr (if hit then (i, name, e) # rest else rest))))"

text \<open>\<^verbatim>\<open>$task\<close> for an extension: the definition's properties, the descriptor's on top.\<close>

definition described_task :: "json \<Rightarrow> json \<Rightarrow> json" where
  "described_task def desc =
     Object (fold (\<lambda>(k, v). obj_insert k v) (case desc of Object d \<Rightarrow> d | _ \<Rightarrow> []) (case def of Object m \<Rightarrow> m | _ \<Rightarrow> []))"

definition extensions_of ::
  "interp \<Rightarrow> task \<Rightarrow> string \<Rightarrow> json \<Rightarrow> nat \<Rightarrow> scope \<Rightarrow> json \<Rightarrow> ((nat \<times> string \<times> extension) list \<times> json) rx" where
  "extensions_of x task reference input c scope desc =
     (let es = us_extensions (wf_uses (in_wf x)) in
      if es = [] \<or> str_contains EXTENSION_TASKS reference then ok ([], Null)
      else
        let described = described_task (tk_definition task) desc in
        bindr (args_at x c input Null described scope) (\<lambda>a.
        bindr (of_result (applying x (enumerate 0 es) (tk_kind task) input a)) (\<lambda>hits. ok (hits, described))))"

primrec layer ::
  "(nat \<times> string \<times> extension) list \<Rightarrow> list_runner \<Rightarrow> (json \<Rightarrow> (json \<times> flow option) rx) \<Rightarrow> string \<Rightarrow> nat \<Rightarrow> scope \<Rightarrow> json \<Rightarrow> (json \<times> flow option) rx" where
  "layer [] L inner reference c around input = inner input"
| "layer (e # es) L inner reference c around input =
     (let at = reference @ EXTENSION_TASKS @ decimal (fst e) @ ''/'' @ fst (snd e) in
      bindr (case ex_before (snd (snd e)) of
          None \<Rightarrow> ok (NDone input)
        | Some ts \<Rightarrow> L ts (at @ ''/before'') input c around) (\<lambda>nx.
      case nx of
        NExit v \<Rightarrow> ok (v, None)
      | NEnd v \<Rightarrow> ok (v, Some End)
      | NDone data \<Rightarrow>
          bindr (layer es L inner reference c around data) (\<lambda>(out, flow).
          case ex_after (snd (snd e)) of
            None \<Rightarrow> ok (out, flow)
          | Some ts \<Rightarrow>
              bindr (L ts (at @ ''/after'') out c around) (\<lambda>ny.
              ok (case ny of NEnd v \<Rightarrow> (v, Some End) | NDone v \<Rightarrow> (v, flow) | NExit v \<Rightarrow> (v, flow))))))"

fun for_loop ::
  "interp \<Rightarrow> list_runner \<Rightarrow> task_list \<Rightarrow> string \<Rightarrow> string \<Rightarrow> string option \<Rightarrow> string \<Rightarrow> json \<Rightarrow> nat \<Rightarrow> scope \<Rightarrow> json \<Rightarrow> (nat \<times> json) list \<Rightarrow> json \<Rightarrow> (json \<times> flow option) rx" where
  "for_loop x L tasks each at cond reference input c scope desc [] data = ok (data, None)"
| "for_loop x L tasks each at cond reference input c scope desc ((i, item) # items) data =
     (let inner = scope @ [(each, item), (at, Number (PosInt i))] in
      bindr (case cond of
          None \<Rightarrow> ok True
        | Some code \<Rightarrow>
            bindr (args_at x c input Null desc inner) (\<lambda>a. of_result (map_sum id truthy (eval_fault x code data a)))) (\<lambda>go.
      if \<not> go then ok (data, None)
      else
        bindr (L tasks (iteration_reference reference i) data c inner) (\<lambda>nx.
        case nx of
          NEnd v \<Rightarrow> ok (v, Some End)
        | NDone v \<Rightarrow> for_loop x L tasks each at cond reference input c scope desc items v
        | NExit v \<Rightarrow> for_loop x L tasks each at cond reference input c scope desc items v)))"

definition for_items :: "interp \<Rightarrow> items \<Rightarrow> json \<Rightarrow> args \<Rightarrow> fault + json list" where
  "for_items x it input a =
     (case it of
        Inline vs \<Rightarrow> Inr vs
      | ItemsExpr code \<Rightarrow>
          and_then (eval_fault x code input a) (\<lambda>v.
          case v of
            Array vs \<Rightarrow> Inr vs
          | Null \<Rightarrow> Inr []
          | other \<Rightarrow> Inl (Error (expression (''`for.in` must produce an array, got '' @ in_text x other)))))"

fun switch_hit :: "interp \<Rightarrow> (string \<times> switch_case) list \<Rightarrow> json \<Rightarrow> args \<Rightarrow> fault + flow option" where
  "switch_hit x [] input a = Inr None"
| "switch_hit x ((name, s) # cases) input a =
     (case sc_when s of
        None \<Rightarrow> switch_hit x cases input a
      | Some w \<Rightarrow>
          and_then (eval_fault x w input a) (\<lambda>v. if truthy v then Inr (Some (sc_then s)) else switch_hit x cases input a))"

definition switch_default :: "(string \<times> switch_case) list \<Rightarrow> flow option" where
  "switch_default cases = map_option (sc_then \<circ> snd) (List.find (\<lambda>(_, s). sc_when s = None) cases)"

definition set_value :: "interp \<Rightarrow> json \<Rightarrow> json \<Rightarrow> args \<Rightarrow> fault + json" where
  "set_value x v input a =
     (case v of
        String code \<Rightarrow> eval_fault x (bare code) input a
      | _ \<Rightarrow> map_sum expression_fault id (render_template (in_jq x) v input a))"

definition run_kind ::
  "nat \<Rightarrow> interp \<Rightarrow> runner \<Rightarrow> task \<Rightarrow> string \<Rightarrow> json \<Rightarrow> nat \<Rightarrow> scope \<Rightarrow> json \<Rightarrow> int option \<Rightarrow> (json \<times> flow option) rx" where
  "run_kind n x T task reference input c scope desc deadline =
     (let L = run_list n x T; plain = (\<lambda>m. bindr m (\<lambda>v. ok (v, None))) in
      bindr (args_at x c input Null desc scope) (\<lambda>a.
      case tk_kind task of
        KCall f w \<Rightarrow>
          bindr (case w of
              None \<Rightarrow> ok (Object [])
            | Some t \<Rightarrow> of_result (map_sum expression_fault id (render_template (in_jq x) t input a))) (\<lambda>v.
          plain (run_call x T (TFunction (function_name f)) v reference c (tk_delivery task) input))
      | KDo ts \<Rightarrow> bindr (L ts (reference @ ''/do'') input c scope) (\<lambda>nx. ok (ended nx))
      | KFor each at it cond conc ts \<Rightarrow>
          bindr (of_result (for_items x it input a)) (\<lambda>items.
          case conc of
            Some limit \<Rightarrow> concurrent L ts items each at limit reference input c scope
          | None \<Rightarrow> for_loop x L ts each at cond reference input c scope desc (enumerate 0 items) input)
      | KFork bs compete \<Rightarrow> plain (run_fork x T bs compete reference input c scope)
      | KSet v \<Rightarrow> plain (of_result (set_value x v input a))
      | KSwitch cases \<Rightarrow>
          bindr (of_result (switch_hit x cases input a)) (\<lambda>hit.
          ok (input, case hit of Some f \<Rightarrow> Some f | None \<Rightarrow> switch_default cases))
      | KTry ts ca \<Rightarrow> run_try n x L ts ca reference input c scope desc
      | KRaise r \<Rightarrow> bindr (of_result (raise_error x r reference input a)) (\<lambda>e. raise_fault (Error e))
      | KListen to rd fe \<Rightarrow> run_listen n x L task to rd fe reference input c scope desc deadline
      | KEmit attrs \<Rightarrow> plain (run_emit x attrs reference input a)
      | KRun r \<Rightarrow> plain (run_process x T r reference input c a (tk_delivery task))
      | KWait spec \<Rightarrow>
          bindr (of_result (duration_of x spec input a)) (\<lambda>d.
          bindr (sleep x d (reference @ ''#wait'')) (\<lambda>_. ok (input, None)))))"

section \<open>The data flow of a task\<close>

definition task_descriptor :: "interp \<Rightarrow> task \<Rightarrow> string \<Rightarrow> string \<Rightarrow> json \<Rightarrow> int \<Rightarrow> json" where
  "task_descriptor x task name reference raw started =
     object [(''name'', String name), (''reference'', String reference), (''definition'', tk_definition task), (''input'', raw),
       (''startedAt'', datetime (in_calendar x) started)]"

definition task_input_of :: "interp \<Rightarrow> task_input option \<Rightarrow> json \<Rightarrow> args \<Rightarrow> string \<Rightarrow> fault + json" where
  "task_input_of x ti raw a what =
     and_then (conform_opt x (Option.bind ti in_schema) raw what) (\<lambda>_.
     case Option.bind ti in_from of
       None \<Rightarrow> Inr raw
     | Some t \<Rightarrow> and_then (input_args x a t) (\<lambda>b. transform x t raw b))"

definition is_listen :: "kind \<Rightarrow> bool" where
  "is_listen k \<longleftrightarrow> (case k of KListen _ _ _ \<Rightarrow> True | _ \<Rightarrow> False)"

definition child_done :: "kind \<Rightarrow> string \<Rightarrow> exec_state \<Rightarrow> bool" where
  "child_done k reference s \<longleftrightarrow>
     (case k of KRun r \<Rightarrow> (case rn_process r of ChildWorkflow _ _ _ _ \<Rightarrow> True | _ \<Rightarrow> False) | _ \<Rightarrow> False)
     \<and> bt_get (rs_records s) (reference @ ''#child'') \<noteq> None"

text \<open>The task under its timeout; \<open>body\<close> takes a listen's deadline.\<close>

definition limited :: "interp \<Rightarrow> task \<Rightarrow> string \<Rightarrow> nat option \<Rightarrow> int \<Rightarrow> (int option \<Rightarrow> (json \<times> flow option) rx) \<Rightarrow> (json \<times> flow option) rx" where
  "limited x task reference limit started body =
     bindp (reads (child_done (tk_kind task) reference)) (\<lambda>finished.
     case limit of
       None \<Rightarrow> body None
     | Some d \<Rightarrow>
         if finished then body None
         else
           let deadline = sat_add started (min (int d) I64_MAX) in
           if is_listen (tk_kind task) then
             bindp (body (Some deadline)) (\<lambda>v.
             case v of Inl (FWaiting wake) \<Rightarrow> raise_fault (FWaiting (min wake deadline)) | r \<Rightarrow> Give r)
           else
             bindp (remaining x d started) (\<lambda>left.
             cut_off reference (case left of Inl _ \<Rightarrow> True | Inr _ \<Rightarrow> False) deadline
               (timeout_error (reference @ '' did not finish within '' @ in_debug x d)) (body None)))"

text \<open>The directive: chosen inside, the task's own, or on; a jump spends its unit here.\<close>

definition leave :: "nat \<Rightarrow> interp \<Rightarrow> runner \<Rightarrow> task \<Rightarrow> string \<Rightarrow> nat \<Rightarrow> scope \<Rightarrow> json \<Rightarrow> flow option \<Rightarrow> (json \<times> flow) rx" where
  "leave n x T task reference c scope out chosen =
     (let flow = (case chosen of Some f \<Rightarrow> f | None \<Rightarrow> (case tk_then task of Some f \<Rightarrow> f | None \<Rightarrow> Continue)) in
      case flow of
        Goto t \<Rightarrow>
          bindr (jump x n reference) (\<lambda>refused.
          case refused of
            None \<Rightarrow> ok (out, flow)
          | Some first \<Rightarrow> bindr (exceeded n x T reference first out c scope) (\<lambda>_. ok (out, flow)))
      | _ \<Rightarrow> ok (out, flow))"

text \<open>The deadline a task registers while it runs.\<close>

definition guarded :: "string \<Rightarrow> nat option \<Rightarrow> int \<Rightarrow> 'a rx \<Rightarrow> 'a rx" where
  "guarded reference limit started m =
     (case limit of
        None \<Rightarrow> m
      | Some d \<Rightarrow>
          bindp (modifies (\<lambda>s. s\<lparr>rs_deadlines := bt_insert reference (sat_add started (min (int d) I64_MAX)) (rs_deadlines s)\<rparr>)) (\<lambda>_.
          bindp m (\<lambda>v.
          bindp (modifies (\<lambda>s. s\<lparr>rs_deadlines := bt_remove reference (rs_deadlines s)\<rparr>)) (\<lambda>_. Give v))))"

definition steps :: "nat \<Rightarrow> interp \<Rightarrow> runner \<Rightarrow> task \<Rightarrow> string \<Rightarrow> string \<Rightarrow> json \<Rightarrow> nat \<Rightarrow> scope \<Rightarrow> int \<Rightarrow> (json \<times> flow) rx" where
  "steps n x T task name reference raw c scope started =
     (let desc = task_descriptor x task name reference raw started in
      bindr (args_at x c Null Null desc scope) (\<lambda>a.
      bindr (case tk_when task of
          None \<Rightarrow> ok True
        | Some cond \<Rightarrow> of_result (map_sum id truthy (eval_fault x (bare cond) raw a))) (\<lambda>go.
      if \<not> go then ok (raw, Continue)
      else
        bindr (of_result (task_input_of x (tk_input task) raw a ''the task input'')) (\<lambda>input.
        bindr (args_at x c input Null desc scope) (\<lambda>b.
        bindr (of_result (optional_duration x (tk_timeout task) input b)) (\<lambda>limit.
        guarded reference limit started (
          bindr (extensions_of x task reference input c scope desc) (\<lambda>(exts, described).
          bindr (limited x task reference limit started (\<lambda>deadline.
                  layer exts (run_list n x T) (\<lambda>inner. run_kind n x T task reference inner c scope desc deadline)
                    reference c (scope @ [(''task'', described)]) input)) (\<lambda>(out, flow).
          let desc' = set_member ''output'' out desc in
          bindr (transformed_output x (tk_output task) out input desc' c scope ''the task output'') (\<lambda>v.
          bindr (exported x (tk_export task) v input desc' c scope) (\<lambda>_.
          leave n x T task reference c scope v flow)))))))))))"

primrec run_task_at :: "nat \<Rightarrow> interp \<Rightarrow> runner" where
  "run_task_at 0 x task name reference raw c scope = raise_fault OutOfFuel"
| "run_task_at (Suc n) x task name reference raw c scope =
     run_task x (steps n x (run_task_at n x)) task name reference raw c scope"

end
