(* ===== verification/Executions.thy ===== *)
theory Executions
  imports Interpreter
begin

text \<open>
  An execution of a run (\<^verbatim>\<open>crates/ows/src/run.rs\<close>, \<^verbatim>\<open>execute\<close> and \<^verbatim>\<open>workflow\<close>): the secrets resolved, the journal loaded and
  checked, the workflow run under its timeout, and its outcome saved. What the journal holds is an argument.
\<close>

section \<open>The workflow\<close>

definition workflow_run :: "nat \<Rightarrow> interp \<Rightarrow> json \<Rightarrow> json rx" where
  "workflow_run n x raw =
     (let w = in_wf x in
      bindp (reads (args_of x Null Null Null Null [])) (\<lambda>a.
      bindr (of_result (task_input_of x (wf_input w) raw a ''the workflow input'')) (\<lambda>input.
      bindp (Local (\<lambda>s. (Give (length (rs_contexts s)), s\<lparr>rs_contexts := rs_contexts s @ [input]\<rparr>))) (\<lambda>c.
      bindr (run_list n x (run_task_at n x) (wf_tasks w) ''/do'' input c []) (\<lambda>nx.
      bindr (args_at x c Null Null Null []) (\<lambda>b.
      bindr (case Option.bind (wf_output w) out_as of
          None \<Rightarrow> ok (fst (ended nx))
        | Some t \<Rightarrow> of_result (transform x t (fst (ended nx)) b)) (\<lambda>out.
      bindr (of_result (conform_opt x (Option.bind (wf_output w) out_schema) out ''the workflow output'')) (\<lambda>_. ok out))))))))"

section \<open>Outcomes\<close>

record outcome =
  oc_status :: status
  oc_calls :: "call_entry list"
  oc_tasks_run :: nat
  oc_limit_exceeded :: bool

definition interrupted_outcome :: "string \<Rightarrow> outcome" where
  "interrupted_outcome e =
     \<lparr>oc_status = Interrupted (runtime_error e), oc_calls = [], oc_tasks_run = 0, oc_limit_exceeded = False\<rparr>"

text \<open>A status for each fault; the model's own have none.\<close>

definition status_of :: "fault + json \<Rightarrow> status" where
  "status_of v =
     (case v of
        Inr out \<Rightarrow> Completed out
      | Inl (FExceeded out) \<Rightarrow> Completed out
      | Inl (Error e) \<Rightarrow> Faulted e
      | Inl (Fatal e) \<Rightarrow> Faulted e
      | Inl FCancelled \<Rightarrow> Cancelled
      | Inl (FWaiting at) \<Rightarrow> Waiting at
      | Inl (FInterrupt e) \<Rightarrow> Interrupted e
      | Inl Panicked \<Rightarrow> Interrupted (runtime_error ''panicked'')
      | Inl OutOfFuel \<Rightarrow> Interrupted (runtime_error ''out of fuel''))"

definition is_final :: "status \<Rightarrow> bool" where
  "is_final st \<longleftrightarrow> (case st of Completed _ \<Rightarrow> True | Faulted _ \<Rightarrow> True | Cancelled \<Rightarrow> True | _ \<Rightarrow> False)"

definition limit_ended :: "bool \<Rightarrow> fault + json \<Rightarrow> bool" where
  "limit_ended handler_failed v \<longleftrightarrow>
     handler_failed \<or>
     (case v of Inl (FExceeded _) \<Rightarrow> True | Inl (Error e) \<Rightarrow> is_kind e ''budget.exhausted'' | Inl (Fatal e) \<Rightarrow> is_kind e ''budget.exhausted''
        | _ \<Rightarrow> False)"

section \<open>The loaded journal\<close>

definition resolve_secrets :: "workflow \<Rightarrow> (string \<Rightarrow> string + json option) option \<Rightarrow> string + redaction" where
  "resolve_secrets w store =
     (if us_secrets (wf_uses w) = [] then Inr \<lparr>rd_values = [], rd_texts = []\<rparr>
      else case store of
        None \<Rightarrow> Inl ''this host has no secret resolver''
      | Some st \<Rightarrow> map_sum (\<lambda>e. ''resolving secrets: '' @ e) id (resolve (us_secrets (wf_uses w)) st))"

fun restore_records :: "redaction \<Rightarrow> (string \<times> journal_record) list \<Rightarrow> string + (string \<times> journal_record) list" where
  "restore_records rd [] = Inr []"
| "restore_records rd ((k, r) # rs) =
     and_then (restore rd r) (\<lambda>v. and_then (restore_records rd rs) (\<lambda>vs. Inr ((k, v) # vs)))"

definition ends_with :: "string \<Rightarrow> string \<Rightarrow> bool" where
  "ends_with p s \<longleftrightarrow> strip_suffix p s \<noteq> None"

definition valid_key :: "string \<Rightarrow> journal_record \<Rightarrow> bool" where
  "valid_key k r =
     (case r of
        Execution _ _ _ _ _ _ _ _ \<Rightarrow> k = ''execution''
      | Finished st \<Rightarrow> k = ''finished'' \<and> is_final st
      | Task _ _ \<Rightarrow> ends_with ''#task'' k
      | Call _ _ _ _ _ _ \<Rightarrow> ends_with ''#call'' k
      | Winner _ \<Rightarrow> ends_with ''#winner'' k
      | Event _ \<Rightarrow> str_contains ''#event['' k \<or> ends_with ''#child'' k
      | Expired _ \<Rightarrow> starts_with ''mailbox#expired['' k
      | Timer _ \<Rightarrow> ends_with ''#wait'' k \<or> str_contains ''#retry['' k \<or> str_contains ''#attempt['' k
      | Retry _ \<Rightarrow> str_contains ''#retry-decision['' k
      | Budget _ _ _ \<Rightarrow> ends_with ''#jump'' k
      | Exceeded _ \<Rightarrow> k = EXCEEDED)"

definition valid_times :: "interp \<Rightarrow> journal_record \<Rightarrow> bool" where
  "valid_times x r =
     (case r of Execution _ _ _ _ _ t _ _ \<Rightarrow> in_valid_ms x t | Task t _ \<Rightarrow> in_valid_ms x t | _ \<Rightarrow> True)"

text \<open>Where an execution begins: its start time and runtime descriptor, or why it stops.\<close>

definition begin_from ::
  "interp \<Rightarrow> string \<Rightarrow> json \<Rightarrow> (string, journal_record) btree \<Rightarrow> status + (int \<times> json) option" where
  "begin_from x run_id input records =
     (case bt_get records ''execution'' of
        Some (Execution v i d inp r t mt ma) \<Rightarrow>
          if v \<noteq> VERSION \<or> mt \<noteq> lm_max_tasks (in_limits x) \<or> ma \<noteq> lm_max_attempts (in_limits x)
          then Inl (Interrupted (runtime_error ''incompatible durable version or execution limits''))
          else if i = run_id \<and> d = wf_definition (in_wf x) \<and> inp = input then Inr (Some (t, r))
          else Inl (Faulted (runtime_error ''a run's definition or input changed''))
      | Some _ \<Rightarrow> Inl (Faulted (runtime_error ''a run's definition or input changed''))
      | None \<Rightarrow>
          if bt_entries records = [] then Inr None
          else Inl (Interrupted (runtime_error ''missing execution record'')))"

definition checked_journal :: "interp \<Rightarrow> (string, journal_record) btree \<Rightarrow> status option" where
  "checked_journal x records =
     (if \<not> list_all (\<lambda>(k, r). valid_key k r) (bt_entries records)
      then Some (Interrupted (runtime_error ''invalid durable record key or terminal state''))
      else if \<not> list_all (\<lambda>(_, r). valid_times x r) (bt_entries records)
      then Some (Interrupted (runtime_error ''invalid saved timestamp''))
      else None)"

definition is_task :: "journal_record \<Rightarrow> bool" where
  "is_task r \<longleftrightarrow> (case r of Task _ _ \<Rightarrow> True | _ \<Rightarrow> False)"

definition is_granted :: "journal_record \<Rightarrow> bool" where
  "is_granted r \<longleftrightarrow> (case r of Budget True _ _ \<Rightarrow> True | _ \<Rightarrow> False)"

definition initial_state :: "(string, journal_record) btree \<Rightarrow> exec_state" where
  "initial_state records = \<lparr>
     rs_records = records,
     rs_tasks_run = length (filter is_task (bt_values records)),
     rs_jumps = length (filter is_granted (bt_values records)),
     rs_handlers = [], rs_handler_failed = False, rs_exceeded = None,
     rs_calls = bt_of_list (map (\<lambda>e. (ce_key e, e)) (call_journal records)),
     rs_protected = 0, rs_attempts = [], rs_deadlines = bt_empty, rs_spending = None, rs_contexts = []\<rparr>"

section \<open>Executions\<close>

definition with_started :: "interp \<Rightarrow> string \<Rightarrow> json \<Rightarrow> int \<Rightarrow> json \<Rightarrow> interp" where
  "with_started x run_id input started descriptor =
     x\<lparr>in_workflow := object [(''id'', String run_id), (''definition'', wf_definition (in_wf x)), (''input'', input),
         (''startedAt'', datetime (in_calendar x) started)],
       in_runtime := (case descriptor of Object m \<Rightarrow> Object (obj_remove ''schedule'' m) | v \<Rightarrow> v),
       in_schedule := (case member_of descriptor ''schedule'' of None \<Rightarrow> None | Some Null \<Rightarrow> None | Some v \<Rightarrow> Some v),
       in_max_jumps := max_jumps (wf_budget (in_wf x)) (lm_max_jumps (in_limits x))\<rparr>"

text \<open>The workflow under its timeout, counted from its start.\<close>

definition limited_workflow :: "nat \<Rightarrow> interp \<Rightarrow> json \<Rightarrow> int \<Rightarrow> json rx" where
  "limited_workflow n x input started =
     (case wf_timeout (in_wf x) of
        None \<Rightarrow> workflow_run n x input
      | Some spec \<Rightarrow>
          bindp (reads (args_of x Null Null Null Null [])) (\<lambda>a.
          bindr (of_result (duration_of x spec input a)) (\<lambda>limit.
          bindp (remaining x limit started) (\<lambda>left.
          let unknown_or = (\<lambda>f. bindp (reads (has_unknown [])) (\<lambda>u. raise_fault (if u then unknown_fault ''workflow'' else f))) in
          case left of
            Inl f \<Rightarrow> unknown_or f
          | Inr (_, deadline) \<Rightarrow>
              bindp (modifies (\<lambda>s. s\<lparr>rs_deadlines := bt_insert [] deadline (rs_deadlines s)\<rparr>)) (\<lambda>_.
              bindp (timed (workflow_run n x input)) (\<lambda>v.
              case v of
                None \<Rightarrow> unknown_or (Fatal (timeout_error (''the workflow did not finish within '' @ in_debug x limit)))
              | Some (Inl (FWaiting wake)) \<Rightarrow> raise_fault (FWaiting (min wake deadline))
              | Some r \<Rightarrow> Give r))))))"

definition execution_body :: "nat \<Rightarrow> interp \<Rightarrow> string \<Rightarrow> json \<Rightarrow> int \<Rightarrow> json \<Rightarrow> json rx" where
  "execution_body n x run_id input started runtime =
     bindp (record_of ''execution'') (\<lambda>r.
     bindr (if r = None
            then save x ''execution'' (Execution VERSION run_id (wf_definition (in_wf x)) input runtime started
              (lm_max_tasks (in_limits x)) (lm_max_attempts (in_limits x)))
            else ok ()) (\<lambda>_.
     bindp (ask AskCancelled an_yes) (\<lambda>cancelled.
     if cancelled then raise_fault FCancelled else limited_workflow n x input started)))"

definition finish_execution :: "interp \<Rightarrow> fault + json \<Rightarrow> outcome prog" where
  "finish_execution x v =
     bindp (reads rs_handler_failed) (\<lambda>failed.
     let st = status_of v; limit = limit_ended failed v in
     bindp (if is_final st then save x ''finished'' (Finished st) else ok ()) (\<lambda>saved.
     let st' = (case saved of Inl (FInterrupt e) \<Rightarrow> Interrupted e | _ \<Rightarrow> st) in
     bindp (reads (\<lambda>s. (bt_values (rs_calls s), rs_tasks_run s))) (\<lambda>(calls, tasks).
     Give \<lparr>oc_status = redact_status (in_secrets x) st', oc_calls = calls, oc_tasks_run = tasks,
       oc_limit_exceeded = limit \<and> (case st' of Completed _ \<Rightarrow> True | Faulted _ \<Rightarrow> True | _ \<Rightarrow> False)\<rparr>)))"

text \<open>A finished run answers what it ended with.\<close>

definition finished_outcome :: "interp \<Rightarrow> (string, journal_record) btree \<Rightarrow> status \<Rightarrow> outcome" where
  "finished_outcome x records st =
     (let refused = list_ex (\<lambda>r. case r of Budget False _ _ \<Rightarrow> True | _ \<Rightarrow> False) (bt_values records)
          \<and> bg_on_exceeded (wf_budget (in_wf x)) \<noteq> ExceededRaise
      in \<lparr>oc_status = redact_status (in_secrets x) st, oc_calls = call_journal records,
          oc_tasks_run = length (filter is_task (bt_values records)),
          oc_limit_exceeded = refused \<or> (case st of Faulted e \<Rightarrow> is_kind e ''budget.exhausted'' | _ \<Rightarrow> False)\<rparr>)"

definition execute_records :: "nat \<Rightarrow> interp \<Rightarrow> string \<Rightarrow> json \<Rightarrow> int option \<Rightarrow> (string, journal_record) btree \<Rightarrow> outcome prog" where
  "execute_records n x run_id input since records =
     (let stopped_with = (\<lambda>st. Give \<lparr>oc_status = st, oc_calls = call_journal records,
          oc_tasks_run = length (filter is_task (bt_values records)), oc_limit_exceeded = False\<rparr>) in
      case begin_from x run_id input records of
        Inl st \<Rightarrow> stopped_with st
      | Inr started \<Rightarrow>
          bindp (case started of
              Some p \<Rightarrow> Give p
            | None \<Rightarrow> (case since of Some t \<Rightarrow> Give (t, in_runtime x) | None \<Rightarrow> ask AskNow (\<lambda>y. (an_now y, in_runtime x)))) (\<lambda>(t, runtime).
          case checked_journal x records of
            Some st \<Rightarrow> stopped_with st
          | None \<Rightarrow>
              let y = with_started x run_id input t runtime in
              (case bt_get records ''finished'' of
                 Some (Finished st) \<Rightarrow> Give (finished_outcome y records st)
               | _ \<Rightarrow>
                   bindp (modifies (\<lambda>_. initial_state records)) (\<lambda>_.
                   bindp (execution_body n y run_id input t runtime) (finish_execution y)))))"

text \<open>\<open>loaded\<close>: what the journal answers, where the run has one.\<close>

definition execute ::
  "nat \<Rightarrow> interp \<Rightarrow> (string \<Rightarrow> string + json option) option \<Rightarrow> string \<Rightarrow> json \<Rightarrow> int option \<Rightarrow> string + (string \<times> journal_record) list \<Rightarrow> outcome prog" where
  "execute n x store run_id input since loaded =
     (case resolve_secrets (in_wf x) store of
        Inl e \<Rightarrow> Give (interrupted_outcome e)
      | Inr rd \<Rightarrow>
          (case and_then (if in_durable x then loaded else Inr []) (restore_records rd) of
             Inl e \<Rightarrow> Give (interrupted_outcome (redact_text rd e))
           | Inr rs \<Rightarrow> execute_records n (x\<lparr>in_secrets := rd\<rparr>) run_id input since (bt_of_list rs)))"

end
