(* ===== verification/Effect_Monitor.thy ===== *)
theory Effect_Monitor
  imports Executions
begin

text \<open>
  What an execution asks of the world, checked as it runs: a monitor keeps a ghost state that grows with the questions and
  their answers, and says of every question whether it may be asked. A program is sound when none of its executions asks
  a question the monitor refuses, whatever the world answers, whatever other branches do in between, and wherever a
  timeout drops it. The rules hold for every monitor that refuses nothing but calls and emitted events; the interpreter is
  sound for one as soon as its calls and emitted events are.
\<close>

section \<open>Safe programs\<close>

text \<open>
  \<open>safe p chk upd keep Q g\<close>: from ghost state \<open>g\<close>, in any states that satisfy \<open>keep\<close>, \<open>p\<close> asks only what \<open>chk\<close> allows, keeps
  \<open>keep\<close>, and gives what satisfies \<open>Q\<close>.
\<close>

primrec safe :: "'a prog \<Rightarrow> ('g \<Rightarrow> req \<Rightarrow> bool) \<Rightarrow> ('g \<Rightarrow> req \<Rightarrow> ans \<Rightarrow> 'g) \<Rightarrow> (exec_state \<Rightarrow> bool) \<Rightarrow> ('a \<Rightarrow> 'g \<Rightarrow> bool) \<Rightarrow> 'g \<Rightarrow> bool" where
  "safe (Give a) chk upd keep Q g = Q a g"
| "safe (Ask q k) chk upd keep Q g = (chk g q \<and> (\<forall>x. safe (k x) chk upd keep Q (upd g q x)))"
| "safe (Local f) chk upd keep Q g =
     (\<forall>s. keep s \<longrightarrow> keep (snd (f s)) \<and> fst (map_prod (\<lambda>p. safe p chk upd keep Q g) id (f s)))"

lemma safe_Local [simp]:
  "safe (Local f) chk upd keep Q g \<longleftrightarrow> (\<forall>s. keep s \<longrightarrow> keep (snd (f s)) \<and> safe (fst (f s)) chk upd keep Q g)"
  by (simp add: fst_map_prod)

declare safe.simps(3) [simp del]

text \<open>What a trace has to satisfy.\<close>

fun accepted :: "('g \<Rightarrow> req \<Rightarrow> bool) \<Rightarrow> ('g \<Rightarrow> req \<Rightarrow> ans \<Rightarrow> 'g) \<Rightarrow> 'g \<Rightarrow> (req \<times> ans) list \<Rightarrow> bool" where
  "accepted chk upd g [] \<longleftrightarrow> True"
| "accepted chk upd g ((q, x) # tr) \<longleftrightarrow> chk g q \<and> accepted chk upd (upd g q x) tr"

lemma safe_accepted:
  assumes "traced p s tr" and "safe p chk upd keep Q g" and "keep s"
  shows "accepted chk upd g tr"
  using assms
proof (induction arbitrary: g rule: traced.induct)
  case (local f s p s' tr)
  have "keep s'" "safe p chk upd keep Q g" using local.prems local.hyps(1) by (auto dest!: spec [of _ s])
  then show ?case using local.IH by blast
qed auto

text \<open>Induction over a program, with its local steps as functions of the state.\<close>

lemma prog_induct [case_names Give Ask Local]:
  assumes "\<And>a. P (Give a)" and "\<And>q k. (\<And>x. P (k x)) \<Longrightarrow> P (Ask q k)" and "\<And>f. (\<And>s. P (fst (f s))) \<Longrightarrow> P (Local f)"
  shows "P p"
proof (induction p)
  case (Local f)
  have "P (fst (f s))" for s by (rule Local [of "f s"]) (auto simp: fsts.simps)
  then show ?case by (rule assms(3))
qed (auto intro: assms(1,2))

lemma safe_bindp: "safe (bindp p f) chk upd keep Q g \<longleftrightarrow> safe p chk upd keep (\<lambda>a g'. safe (f a) chk upd keep Q g') g"
  by (induction p arbitrary: g rule: prog_induct) (simp_all add: fst_map_prod snd_map_prod)

lemma safe_weaken:
  assumes "safe p chk upd keep Q g" and "\<And>a g'. Q a g' \<Longrightarrow> R a g'"
  shows "safe p chk upd keep R g"
  using assms(1) by (induction p arbitrary: g rule: prog_induct) (simp_all add: assms(2))

lemma safe_reads: "safe (reads f) chk upd keep Q g \<longleftrightarrow> (\<forall>s. keep s \<longrightarrow> Q (f s) g)"
  by (simp add: reads_def)

lemma safe_modifies: "safe (modifies f) chk upd keep Q g \<longleftrightarrow> (\<forall>s. keep s \<longrightarrow> keep (f s) \<and> Q () g)"
  by (simp add: modifies_def)

lemma safe_ask: "safe (ask q f) chk upd keep Q g \<longleftrightarrow> chk g q \<and> (\<forall>x. Q (f x) (upd g q x))"
  by (simp add: ask_def)

lemma safe_bindr: "safe (bindr m f) chk upd keep Q g \<longleftrightarrow>
    safe m chk upd keep (\<lambda>v g'. case v of Inl e \<Rightarrow> Q (Inl e) g' | Inr a \<Rightarrow> safe (f a) chk upd keep Q g') g"
  unfolding bindr_def safe_bindp
  by (rule arg_cong [where f = "\<lambda>Q'. safe m chk upd keep Q' g"]) (auto simp: fun_eq_iff split: sum.split)

lemma safe_lift: "safe (lift m) chk upd keep Q g \<longleftrightarrow> safe m chk upd keep (\<lambda>a. Q (Inr a)) g"
  by (simp add: lift_def safe_bindp ok_def)

lemma safe_gives [simp]:
  "safe (ok a) chk upd keep Q g \<longleftrightarrow> Q (Inr a) g" "safe (raise_fault f) chk upd keep Q g \<longleftrightarrow> Q (Inl f) g"
  "safe (of_result v) chk upd keep Q g \<longleftrightarrow> Q v g"
  by (simp_all add: ok_def raise_fault_def of_result_def)

lemmas safe_steps = safe_bindp safe_bindr safe_lift safe_reads safe_modifies safe_ask

section \<open>Monitors\<close>

text \<open>Every question but a call and an emitted event.\<close>

definition harmless :: "req \<Rightarrow> bool" where
  "harmless q \<longleftrightarrow> (case q of AskDispatch _ \<Rightarrow> False | AskEmit _ _ _ \<Rightarrow> False | _ \<Rightarrow> True)"

named_theorems sound_rules \<open>rules that take a program apart\<close>

locale monitor =
  fixes chk :: "'g \<Rightarrow> req \<Rightarrow> bool" and upd :: "'g \<Rightarrow> req \<Rightarrow> ans \<Rightarrow> 'g" and keep :: "exec_state \<Rightarrow> bool"
    and le :: "'g \<Rightarrow> 'g \<Rightarrow> bool"
  assumes le_refl: "le g g" and le_trans: "le g h \<Longrightarrow> le h i \<Longrightarrow> le g i" and grows: "le g (upd g q x)"
    and chk_le: "le g h \<Longrightarrow> chk g q \<Longrightarrow> chk h q" and upd_le: "le g h \<Longrightarrow> le (upd g q x) (upd h q x)"
    and allowed: "harmless q \<Longrightarrow> chk g q"
    and keep_records: "rs_records s' = rs_records s \<Longrightarrow> keep s \<Longrightarrow> keep s'"
    and keep_insert: "keep s \<Longrightarrow> keep (s\<lparr>rs_records := bt_insert k r (rs_records s)\<rparr>)"
begin

abbreviation holds_at :: "'a prog \<Rightarrow> 'g \<Rightarrow> bool" where
  "holds_at p g \<equiv> safe p chk upd keep (\<lambda>_ _. True) g"

text \<open>Sound programs, and those whose results have a property besides.\<close>

definition sound :: "'a prog \<Rightarrow> bool" where
  "sound p \<longleftrightarrow> (\<forall>g. holds_at p g)"

definition gives :: "'a prog \<Rightarrow> ('a \<Rightarrow> bool) \<Rightarrow> bool" where
  "gives p P \<longleftrightarrow> (\<forall>g. safe p chk upd keep (\<lambda>a _. P a) g)"

lemma safe_le:
  assumes "safe p chk upd keep Q g" and "le g h" and "\<And>a i j. le i j \<Longrightarrow> Q a i \<Longrightarrow> Q a j"
  shows "safe p chk upd keep Q h"
  using assms(1,2)
proof (induction p arbitrary: g h rule: prog_induct)
  case (Ask q k)
  then have "safe (k x) chk upd keep Q (upd h q x)" for x using upd_le by fastforce
  then show ?case using Ask.prems chk_le by simp
qed (auto intro: assms(3))

lemma holds_le: "holds_at p g \<Longrightarrow> le g h \<Longrightarrow> holds_at p h"
  by (rule safe_le)

lemma gives_bindp:
  assumes "gives p P" and "\<And>a. P a \<Longrightarrow> sound (f a)"
  shows "sound (bindp p f)"
  unfolding sound_def safe_bindp
proof
  fix g
  have "safe p chk upd keep (\<lambda>a _. P a) g" using assms(1) by (simp add: gives_def)
  then show "safe p chk upd keep (\<lambda>a. holds_at (f a)) g" 
    by (rule safe_weaken) (use assms(2) in \<open>simp add: sound_def\<close>)
qed

lemma sound_bindp [sound_rules]: "sound p \<Longrightarrow> (\<And>a. sound (f a)) \<Longrightarrow> sound (bindp p f)"
  by (rule gives_bindp [of p "\<lambda>_. True"]) (simp_all add: gives_def sound_def)

lemma sound_gives [sound_rules]: "sound (ok v)" "sound (raise_fault f)" "sound (of_result w)" "sound (Give a)"
  by (simp_all add: sound_def)

lemma sound_bindr [sound_rules]: "sound p \<Longrightarrow> (\<And>a. sound (f a)) \<Longrightarrow> sound (bindr p f)"
  unfolding bindr_def by (rule sound_bindp) (auto split: sum.split intro: sound_gives)

lemma sound_lift [sound_rules]: "sound p \<Longrightarrow> sound (lift p)"
  unfolding lift_def by (intro sound_bindp sound_gives)

lemma sound_reads [sound_rules]: "sound (reads f)"
  by (simp add: sound_def safe_reads)

lemma sound_modifies: "(\<And>s. keep s \<Longrightarrow> keep (f s)) \<Longrightarrow> sound (modifies f)"
  by (simp add: sound_def safe_modifies)

lemma sound_changes [sound_rules]: "(\<And>s. rs_records (f s) = rs_records s) \<Longrightarrow> sound (modifies f)"
  using keep_records by (blast intro: sound_modifies)

lemma sound_ask [sound_rules]: "harmless q \<Longrightarrow> sound (ask q f)"
  by (simp add: sound_def safe_ask allowed)

lemma sound_Ask [sound_rules]: "harmless q \<Longrightarrow> (\<And>x. sound (k x)) \<Longrightarrow> sound (Ask q k)"
  by (simp add: sound_def allowed)

lemma sound_Local [sound_rules]: "(\<And>s. rs_records (snd (f s)) = rs_records s) \<Longrightarrow> (\<And>s. sound (fst (f s))) \<Longrightarrow> sound (Local f)"
  unfolding sound_def using keep_records by auto

text \<open>Case distinctions between programs.\<close>

lemma sound_cases [sound_rules]:
  "(b \<Longrightarrow> sound p) \<Longrightarrow> (\<not> b \<Longrightarrow> sound q) \<Longrightarrow> sound (if b then p else q)"
  "(z = None \<Longrightarrow> sound m) \<Longrightarrow> (\<And>a. z = Some a \<Longrightarrow> sound (f a)) \<Longrightarrow> sound (case z of None \<Rightarrow> m | Some a \<Rightarrow> f a)"
  "(\<And>a. sound (g a)) \<Longrightarrow> (\<And>b. sound (h b)) \<Longrightarrow> sound (case y of Inl a \<Rightarrow> g a | Inr b \<Rightarrow> h b)"
  "(\<And>a b. t = (a, b) \<Longrightarrow> sound (k a b)) \<Longrightarrow> sound (case t of (a, b) \<Rightarrow> k a b)"
  by (simp_all split: option.split sum.split prod.split)

section \<open>Branches and timeouts\<close>

lemma safe_advance:
  assumes "holds_at p g"
    and "\<And>q h. (q, p) \<in> after_question \<Longrightarrow> le g h \<Longrightarrow> holds_at q h \<Longrightarrow> safe (go_on q) chk upd keep Q h"
    and "\<And>a. safe (fin a) chk upd keep Q g"
  shows "safe (advance p go_on fin) chk upd keep Q g"
  using assms
proof (induction p rule: prog_induct)
  case (Ask q k)
  have "safe (go_on (k x)) chk upd keep Q (upd g q x)" for x
    using Ask.prems(1) by (intro Ask.prems(2) after_question.here grows) simp
  then show ?case using Ask.prems(1) by simp
next
  case (Local f)
  have "safe (advance (fst (f s)) go_on fin) chk upd keep Q g" if "keep s" for s
    using Local.prems that by (intro Local.IH) (auto intro: after_question.later)
  then show ?case using Local.prems(1) by (simp add: fst_map_prod snd_map_prod)
qed simp

lemma safe_next_done:
  assumes "\<forall>b \<in> set bs. holds_at (snd b) g"
  shows "safe (next_done limit bs) chk upd keep
    (\<lambda>v h. case v of None \<Rightarrow> True | Some (i, a, rest) \<Rightarrow> \<forall>b \<in> set rest. holds_at (snd b) h) g"
    (is "safe _ _ _ _ ?Q _")
  using assms
proof (induction limit bs arbitrary: g rule: next_done.induct)
  case (2 limit b bs)
  let ?bs = "b # bs"
  have turn: "safe (advance (snd (?bs ! i)) (\<lambda>p. next_done limit (?bs[i := (fst (?bs ! i), p)]))
      (\<lambda>a. Give (Some (fst (?bs ! i), a, take i ?bs @ drop (Suc i) ?bs)))) chk upd keep ?Q (upd g q x)"
    if i: "i = min (an_turn x) (min limit (length ?bs) - 1)" for i x q
  proof (rule safe_advance)
    have all: "\<forall>b \<in> set ?bs. holds_at (snd b) (upd g q x)" using 2(2) by (blast intro: holds_le grows)
    have "i < length ?bs" using i by simp
    then show "holds_at (snd (?bs ! i)) (upd g q x)" using all nth_mem by blast
    have "set (take i ?bs @ drop (Suc i) ?bs) \<subseteq> set ?bs"
      unfolding set_append by (rule Un_least [OF set_take_subset set_drop_subset])
    then have "\<forall>b \<in> set (take i ?bs @ drop (Suc i) ?bs). holds_at (snd b) (upd g q x)" using all by blast
    then show "safe (Give (Some (fst (?bs ! i), a, take i ?bs @ drop (Suc i) ?bs))) chk upd keep ?Q (upd g q x)" for a
      by (simp only: safe.simps option.case prod.case)
    fix p h assume "(p, snd (?bs ! i)) \<in> after_question" and "le (upd g q x) h" and "holds_at p h"
    then have "\<forall>b \<in> insert (fst (?bs ! i), p) (set ?bs). holds_at (snd b) h"
      using all holds_le by (metis insertE snd_conv)
    then have "\<forall>b \<in> set (?bs[i := (fst (?bs ! i), p)]). holds_at (snd b) h"
      using set_update_subset_insert [of ?bs i] by blast
    then show "safe (next_done limit (?bs[i := (fst (?bs ! i), p)])) chk upd keep ?Q h"
      using \<open>(p, snd (?bs ! i)) \<in> after_question\<close> by (intro 2(1) [OF i]) 
  qed
  show ?case unfolding next_done.simps(2) Let_def safe.simps(2) using turn [OF refl] allowed [of "AskTurn _"] by (simp add: harmless_def)
qed simp

lemma sound_drive [sound_rules]:
  assumes "\<forall>b \<in> set bs. sound (snd b)"
  shows "sound (drive n limit bs f acc)"
proof -
  have "holds_at (drive n limit bs f acc) g" if "\<forall>b \<in> set bs. holds_at (snd b) g" for g
    using that
  proof (induction n arbitrary: bs acc g)
    case (Suc n)
    show ?case unfolding drive.simps safe_bindp
      by (rule safe_weaken [OF safe_next_done [OF Suc.prems]]) (auto split: option.splits sum.split intro: Suc.IH)
  qed simp
  then show ?thesis using assms by (simp add: sound_def)
qed

lemma sound_timed [sound_rules]:
  assumes "sound p" shows "sound (timed p)"
proof -
  have timer: "chk g AskTimer" for g by (rule allowed) (simp add: harmless_def)
  have "holds_at (timed p) g" if "holds_at p g" for g
    using that
  proof (induction p arbitrary: g rule: prog_induct)
    case (Ask q k)
    have "chk (upd g AskTimer x) q" for x using Ask.prems grows by (auto intro: chk_le)
    moreover have "holds_at (timed (k y)) (upd (upd (upd g AskTimer x) q y) AskTimer z)" for x y z
    proof (rule Ask.IH)
      have "le (upd g q y) (upd (upd (upd g AskTimer x) q y) AskTimer z)"
        by (blast intro: le_trans grows upd_le)
      then show "holds_at (k y) (upd (upd (upd g AskTimer x) q y) AskTimer z)" using Ask.prems by (auto intro: holds_le)
    qed
    ultimately show ?case by (simp add: timer)
  qed (simp_all add: fst_map_prod snd_map_prod)
  then show ?thesis using assms by (simp add: sound_def)
qed

end

end
