(* ===== verification/Interpreter_Soundness.thy ===== *)
theory Interpreter_Soundness
  imports Effect_Monitor
begin

text \<open>
  The interpreter under a monitor: what it asks besides calls and emitted events is harmless, its branches and timeouts
  keep soundness, and so a whole execution is sound where its calls (\<^verbatim>\<open>host_call\<close>) and emitted events (\<^verbatim>\<open>hand_over\<close>) are.
\<close>

context monitor
begin

lemma sound_case_record [sound_rules]:
  assumes "\<And>a b c d e f g h. sound (p1 a b c d e f g h)" and "\<And>a b. sound (p2 a b)" and "\<And>a b c d e f. sound (p3 a b c d e f)"
    and "\<And>a. sound (p4 a)" and "\<And>a. sound (p5 a)" and "\<And>a. sound (p6 a)" and "\<And>a. sound (p7 a)" and "\<And>a. sound (p8 a)"
    and "\<And>a. sound (p9 a)" and "\<And>a b c. sound (p10 a b c)" and "\<And>a. sound (p11 a)"
  shows "sound (case_journal_record p1 p2 p3 p4 p5 p6 p7 p8 p9 p10 p11 r)"
  using assms by (cases r) simp_all

lemma sound_case_fault [sound_rules]:
  assumes "\<And>e. sound (p1 e)" and "\<And>e. sound (p2 e)" and "sound p3" and "\<And>a. sound (p4 a)" and "\<And>e. sound (p5 e)"
    and "\<And>v. sound (p6 v)" and "sound p7" and "sound p8"
  shows "sound (case_fault p1 p2 p3 p4 p5 p6 p7 p8 f)"
  using assms by (cases f) simp_all

lemma sound_case_kind [sound_rules]:
  assumes "\<And>a b. sound (p1 a b)" and "\<And>a. sound (p2 a)" and "\<And>a b c d e f. sound (p3 a b c d e f)" and "\<And>a b. sound (p4 a b)"
    and "\<And>a. sound (p5 a)" and "\<And>a. sound (p6 a)" and "\<And>a b. sound (p7 a b)" and "\<And>a. sound (p8 a)" and "\<And>a. sound (p9 a)"
    and "\<And>a b c. sound (p10 a b c)" and "\<And>a. sound (p11 a)" and "\<And>a. sound (p12 a)"
  shows "sound (case_kind p1 p2 p3 p4 p5 p6 p7 p8 p9 p10 p11 p12 k)"
  using assms by (cases k) simp_all

lemma sound_case_strategy [sound_rules]:
  "(\<And>f. sound (a1 f)) \<Longrightarrow> (\<And>fs u. sound (a2 fs u)) \<Longrightarrow> (\<And>fs. sound (a3 fs)) \<Longrightarrow> sound (case_strategy a1 a2 a3 st)"
  "(\<And>c. sound (b1 c)) \<Longrightarrow> (\<And>s. sound (b2 s)) \<Longrightarrow> sound (case_until b1 b2 u)"
  by (cases st; cases u; simp)+

lemma sound_case_flow [sound_rules]:
  "(\<And>v. sound (b1 v)) \<Longrightarrow> (\<And>v. sound (b2 v)) \<Longrightarrow> (\<And>v. sound (b3 v)) \<Longrightarrow> sound (case_nxt b1 b2 b3 nx)"
  "sound c1 \<Longrightarrow> sound c2 \<Longrightarrow> sound c3 \<Longrightarrow> (\<And>t. sound (c4 t)) \<Longrightarrow> sound (case_flow c1 c2 c3 c4 fl)"
  by (cases nx; simp) (cases fl; simp)

lemma sound_case_outcome [sound_rules]:
  "(\<And>v f. sound (d1 v f)) \<Longrightarrow> (\<And>e b. sound (d2 e b)) \<Longrightarrow> sound (case_step_outcome d1 d2 o')"
  "sound i1 \<Longrightarrow> sound i2 \<Longrightarrow> sound (case_bool i1 i2 b)"
  by (cases o'; simp) (cases b; simp)

lemma sound_case_call [sound_rules]:
  "sound a1 \<Longrightarrow> (\<And>e. sound (a2 e)) \<Longrightarrow> (\<And>v. sound (a3 v)) \<Longrightarrow> sound (case_call_state a1 a2 a3 st)"
  "(\<And>e. sound (e1 e)) \<Longrightarrow> (\<And>e. sound (e2 e)) \<Longrightarrow> (\<And>e. sound (e3 e)) \<Longrightarrow> (\<And>e. sound (e4 e)) \<Longrightarrow> sound (case_call_failure e1 e2 e3 e4 cf)"
  by (cases st; simp) (cases cf; simp)

lemma sound_case_other [sound_rules]:
  "sound g1 \<Longrightarrow> sound g2 \<Longrightarrow> (\<And>t. sound (g3 t)) \<Longrightarrow> sound (case_exceeded g1 g2 g3 oe)"
  "(\<And>n m v i. sound (h1 n m v i)) \<Longrightarrow> (\<And>k d. sound (h2 k d)) \<Longrightarrow> sound (case_process h1 h2 pr)"
  by (cases oe; simp) (cases pr; simp)

lemma sound_record_of [sound_rules]: "sound (record_of k)"
  unfolding record_of_def by (intro sound_rules)

lemma sound_now [sound_rules]: "sound now"
  unfolding now_def by (intro sound_rules) (simp add: harmless_def)

lemma sound_set_context [sound_rules]: "sound (set_context c v)"
  unfolding set_context_def by (intro sound_rules) simp

lemma sound_copy_context [sound_rules]: "sound (copy_context c)"
  unfolding copy_context_def by (intro sound_rules) (simp_all add: sound_gives)

lemma sound_args_at [sound_rules]: "sound (args_at x c input out task scope)"
  unfolding args_at_def by (intro sound_rules)

lemma sound_remaining [sound_rules]: "sound (remaining x d started)"
  unfolding remaining_def Let_def by (intro sound_rules)

lemma sound_enter [sound_rules]: "sound (enter reference)"
  unfolding enter_def Let_def by (intro sound_rules) (simp_all add: sound_gives)

lemma sound_lock [sound_rules]: "sound (lock n reference)"
proof (induction n)
  case (Suc n)
  show ?case unfolding lock.simps
    by (rule sound_Local) (auto simp: harmless_def intro: sound_gives sound_Ask Suc)
qed (simp add: sound_gives)

lemma sound_unlocked [sound_rules]: "sound m \<Longrightarrow> sound (unlocked m)"
  unfolding unlocked_def by (intro sound_rules) simp_all

lemma sound_stored_ok [sound_rules]: "harmless q \<Longrightarrow> sound (stored_ok q)"
  unfolding stored_ok_def by (intro sound_rules)

lemma sound_take_event_for [sound_rules]: "sound (take_event_for key types)"
  unfolding take_event_for_def by (intro sound_rules) (simp add: harmless_def)

lemma sound_expire_listen [sound_rules]: "sound (expire_listen reference key rs detail)"
  unfolding expire_listen_def by (intro sound_rules) (simp_all add: harmless_def)

lemma sound_dropped [sound_rules]: "sound (dropped reference)"
  unfolding dropped_def by (intro sound_rules) simp

lemma sound_follow_exceeded [sound_rules]: "sound (follow_exceeded n)"
proof (induction n)
  case (Suc n)
  show ?case unfolding follow_exceeded.simps
    by (intro sound_rules) (auto simp: harmless_def intro: sound_gives sound_Ask Suc split: option.split)
qed (simp add: sound_gives)

lemma sound_guarded [sound_rules]: "sound m \<Longrightarrow> sound (guarded reference limit started m)"
  unfolding guarded_def by (intro sound_rules) simp_all

lemma sound_cut_off [sound_rules]: "sound m \<Longrightarrow> sound (cut_off reference late deadline e m)"
  unfolding cut_off_def Let_def by (intro sound_rules)

lemma sound_restored [sound_rules]: "sound (restored v)"
  unfolding restored_def by (intro sound_rules)

lemma sound_count_task [sound_rules]: "sound (count_task x reference fresh)"
  unfolding count_task_def Let_def by (intro sound_rules) (simp_all add: sound_gives)

lemma sound_exported [sound_rules]: "sound (exported x e out input desc c scope)"
  unfolding exported_def by (intro sound_rules)

lemma sound_transformed_output [sound_rules]: "sound (transformed_output x o' out input desc c scope what)"
  unfolding transformed_output_def by (intro sound_rules)

lemma sound_listen_wait [sound_rules]: "sound (listen_wait x to rs reference key input c scope desc deadline p)"
  unfolding listen_wait_def by (intro sound_rules) (simp add: harmless_def)

lemma sound_subscribe_listen [sound_rules]: "sound (subscribe_listen reference rs)"
  unfolding subscribe_listen_def Let_def by (intro sound_rules) (simp_all add: harmless_def)

lemma sound_listen_until [sound_rules]: "sound (listen_until x to consumed input c scope desc)"
  unfolding listen_until_def by (intro sound_rules)

lemma sound_emit_envelope [sound_rules]: "sound (emit_envelope x attrs input a)"
  unfolding emit_envelope_def Let_def by (intro sound_rules) (simp add: harmless_def)

lemma sound_start_child [sound_rules]: "sound (start_child reference t input owned)"
  unfolding start_child_def by (intro sound_rules) (simp add: harmless_def)

lemma sound_extensions_of [sound_rules]: "sound (extensions_of x task reference input c scope desc)"
  unfolding extensions_of_def Let_def by (intro sound_rules)

section \<open>Saves\<close>

lemma sound_save [sound_rules]: "sound (save x k r)"
proof -
  have noted: "rs_records (noted k r s) = rs_records s" for s by (simp add: noted_def split: option.split)
  have "keep (kept k r s)" if "keep s" for s
    unfolding kept_def by (rule keep_records [OF _ keep_insert [OF that, of k r]]) (simp add: noted)
  then show ?thesis unfolding save_def
    by (intro sound_rules sound_modifies) (simp_all add: harmless_def noted)
qed

lemma sound_sleep [sound_rules]: "sound (sleep x d key)"
  unfolding sleep_def Let_def by (intro sound_rules) (simp add: harmless_def)

lemma sound_own_budget [sound_rules]: "sound (own_budget x key)"
  unfolding own_budget_def Let_def by (intro sound_rules)

lemma sound_decide_jump [sound_rules]: "sound (decide_jump x key)"
  unfolding decide_jump_def by (intro sound_rules sound_modifies keep_insert) (simp_all add: harmless_def)

lemma sound_jump [sound_rules]: "sound (jump x n reference)"
  unfolding jump_def Let_def by (intro sound_rules) simp

lemma sound_unknown_call [sound_rules]: "sound (unknown_call x key lgc name a reference)"
  unfolding unknown_call_def by (intro sound_rules)

lemma sound_answered [sound_rules]: "sound (answered x key lgc name a d reference r)"
  unfolding answered_def Let_def by (intro sound_rules) (simp add: harmless_def)

lemma sound_answered_ephemeral [sound_rules]: "sound (answered_ephemeral key lgc name d reference r)"
  unfolding answered_ephemeral_def
  by (intro sound_rules) (simp_all add: harmless_def noted_def split: option.split)

lemma sound_hold_loop [sound_rules]: "sound (hold_loop n x key rs hold)"
proof (induction n)
  case (Suc n)
  show ?case unfolding hold_loop.simps by (intro sound_rules Suc) (simp add: harmless_def)
qed (simp add: sound_gives)

lemma sound_next_event [sound_rules]: "sound (next_event n x task reference key rs input c scope desc deadline)"
  unfolding next_event_def Let_def by (intro sound_rules)

lemma sound_listen_event [sound_rules]:
  "sound (listen_event n x task to rs reference key input c scope desc deadline p sub)"
  unfolding listen_event_def by (intro sound_rules)

lemma sound_child_event [sound_rules]: "sound (child_event x reference t input)"
  unfolding child_event_def Let_def by (intro sound_rules) (simp add: harmless_def)

lemma sound_within [sound_rules]: "sound m \<Longrightarrow> sound (within x limit key attempt m)"
  unfolding within_def Let_def by (intro sound_rules)

lemma sound_retry_decision [sound_rules]: "sound (retry_decision x ca reference attempt protected began input a)"
  unfolding retry_decision_def Let_def by (intro sound_rules)

lemma sound_recorded [sound_rules]: "(\<And>t. sound (p t)) \<Longrightarrow> sound (recorded x reference c prior p)"
  unfolding recorded_def Let_def by (intro sound_rules)

lemma sound_limited [sound_rules]: "(\<And>d. sound (m d)) \<Longrightarrow> sound (limited x task reference limit started m)"
  unfolding limited_def Let_def by (intro sound_rules)

section \<open>Constructs over a runner\<close>

lemma sound_run_task [sound_rules]:
  "(\<And>t. sound (p task name reference raw c scope t)) \<Longrightarrow> sound (run_task x p task name reference raw c scope)"
  unfolding run_task_def by (intro sound_rules) (simp add: harmless_def)

lemma sound_list_loop:
  assumes T: "\<And>t nm r v c s. sound (T t nm r v c s)"
  shows "sound (list_loop n x T tasks at c scope visits i data)"
proof (induction n arbitrary: visits i data)
  case (Suc n)
  show ?case unfolding list_loop.simps Let_def by (intro sound_rules T Suc)
qed (simp add: sound_gives)

lemma sound_run_list: "(\<And>t nm r v c s. sound (T t nm r v c s)) \<Longrightarrow> sound (run_list n x T tasks at data c scope)"
  unfolding run_list_def by (rule sound_list_loop)

lemma sound_exceeded:
  assumes T: "\<And>t nm r v c s. sound (T t nm r v c s)"
  shows "sound (exceeded n x T reference first out c scope)"
  unfolding exceeded_def act_on_exceeded_def Let_def by (intro sound_rules T) simp_all

lemma sound_concurrent:
  assumes L: "\<And>ts at v c s. sound (L ts at v c s)"
  shows "sound (concurrent L tasks items each at limit reference input c scope)"
  unfolding concurrent_def Let_def by (intro sound_rules ballI) (auto intro!: sound_bindp sound_copy_context L)

lemma sound_run_fork:
  assumes T: "\<And>t nm r v c s. sound (T t nm r v c s)"
  shows "sound (run_fork x T branches compete reference input c scope)"
proof -
  have "\<forall>b \<in> set (branches_of T branches reference input c scope). sound (snd b)"
    unfolding branches_of_def by (auto intro!: sound_rules T)
  then show ?thesis unfolding run_fork_def Let_def by (intro sound_rules)
qed

lemma sound_layer:
  assumes L: "\<And>ts at v c s. sound (L ts at v c s)" and "\<And>v. sound (inner v)"
  shows "sound (layer es L inner reference c around input)"
proof (induction es arbitrary: input)
  case (Cons e es)
  show ?case unfolding layer.simps Let_def by (intro sound_rules L Cons)
qed (simp add: assms(2))

lemma sound_for_loop:
  assumes L: "\<And>ts at v c s. sound (L ts at v c s)"
  shows "sound (for_loop x L tasks each at cond reference input c scope desc items data)"
proof (induction items arbitrary: data)
  case (Cons i items)
  show ?case by (cases i, simp only: for_loop.simps Let_def) (intro sound_rules L Cons)
qed (simp add: sound_gives)

lemma sound_listen_loop:
  assumes L: "\<And>ts at v c s. sound (L ts at v c s)"
  shows "sound (listen_loop n x L task to rd fe rs reference input c scope desc deadline i sub p consumed outs)"
proof (induction n arbitrary: i sub p consumed outs)
  case (Suc n)
  show ?case unfolding listen_loop.simps run_foreach_def Let_def by (intro sound_rules L Suc) (simp_all add: harmless_def)
qed (simp add: sound_gives)

lemma sound_run_listen:
  assumes L: "\<And>ts at v c s. sound (L ts at v c s)"
  shows "sound (run_listen n x L task to rd fe reference input c scope desc deadline)"
  unfolding run_listen_def by (intro sound_rules sound_listen_loop L)

text \<open>An attempt gives the program that runs it.\<close>

lemma attempt_body_gives:
  assumes L: "\<And>ts at v c s. sound (L ts at v c s)"
  shows "gives (attempt_body x L tasks ca reference input c scope desc snapshot attempt)
    (\<lambda>v. case v of Inl _ \<Rightarrow> True | Inr body \<Rightarrow> sound body)"
  unfolding gives_def attempt_body_def Let_def
  by (auto simp: safe_steps L sound_within keep_records split: option.split sum.split)

lemma sound_attempt_loop:
  assumes L: "\<And>ts at v c s. sound (L ts at v c s)"
  shows "sound (attempt_loop n x L tasks ca reference input c scope desc began snapshot attempt)"
proof (induction n arbitrary: attempt)
  case (Suc n)
  have attempted: "sound (bindr (attempt_body x L tasks ca reference input c scope desc snapshot attempt) f)"
    if "\<And>body. sound body \<Longrightarrow> sound (f body)" for f :: "nxt rx \<Rightarrow> (json \<times> flow option) rx"
    unfolding bindr_def using that
    by (intro gives_bindp [OF attempt_body_gives [OF L]]) (auto split: sum.splits intro: sound_gives)
  show ?case unfolding attempt_loop.simps handle_error_def Let_def
    by (rule sound_bindp, rule sound_reads, rule attempted) (intro sound_rules L Suc)
qed (simp add: sound_gives)

lemma sound_run_try:
  assumes L: "\<And>ts at v c s. sound (L ts at v c s)"
  shows "sound (run_try n x L tasks ca reference input c scope desc)"
  unfolding run_try_def by (intro sound_rules sound_attempt_loop L)

end

section \<open>Executions\<close>

text \<open>What the interpreter relies on: its calls and emitted events are sound.\<close>

locale interpreted = monitor +
  fixes x :: interp
  assumes calls: "sound (host_call x tgt name a reference d input)"
    and handed_over: "sound (hand_over x (reference @ ''#call'') lgc reference event)"
begin

lemma sound_run_call:
  assumes T: "\<And>t nm r v c s. sound (T t nm r v c s)"
  shows "sound (run_call x T tgt a reference c d input)"
  unfolding run_call_def Let_def by (intro sound_rules T calls)

lemma sound_run_emit: "sound (run_emit x attrs reference input a)"
  unfolding run_emit_def Let_def by (intro sound_rules handed_over)

lemma sound_run_process:
  assumes T: "\<And>t nm r v c s. sound (T t nm r v c s)"
  shows "sound (run_process x T r reference input c a d)"
  unfolding run_process_def Let_def by (intro sound_rules sound_run_call T)

lemma sound_run_kind:
  assumes T: "\<And>t nm r v c s. sound (T t nm r v c s)"
  shows "sound (run_kind n x T task reference input c scope desc deadline)"
  unfolding run_kind_def Let_def
  by (intro sound_rules sound_run_call sound_run_emit sound_run_process sound_concurrent sound_for_loop sound_run_fork
      sound_run_listen sound_run_try sound_run_list T)

lemma sound_steps:
  assumes T: "\<And>t nm r v c s. sound (T t nm r v c s)"
  shows "sound (steps n x T task name reference raw c scope started)"
  unfolding steps_def leave_def Let_def
  by (intro sound_rules sound_layer sound_run_list sound_run_kind sound_exceeded T)

lemma sound_run_task_at: "sound (run_task_at n x task name reference raw c scope)"
proof (induction n arbitrary: task name reference raw c scope)
  case (Suc n)
  show ?case unfolding run_task_at.simps by (intro sound_run_task sound_steps Suc)
qed (simp add: sound_gives)

lemma sound_workflow_run [sound_rules]: "sound (workflow_run n x raw)"
  unfolding workflow_run_def Let_def
  by (intro sound_rules sound_run_list sound_run_task_at) (simp_all add: sound_gives)

lemma sound_limited_workflow [sound_rules]: "sound (limited_workflow n x input started)"
  unfolding limited_workflow_def Let_def by (intro sound_rules) simp

lemma sound_execution_body [sound_rules]: "sound (execution_body n x run_id input started runtime)"
  unfolding execution_body_def by (intro sound_rules) (simp add: harmless_def)

lemma sound_finish_execution [sound_rules]: "sound (finish_execution x v)"
  unfolding finish_execution_def Let_def by (intro sound_rules)

end

end
