(* ===== verification/Execution_Samples.thy ===== *)
theory Execution_Samples
  imports Executions
begin

text \<open>A definition of two calls delivered at most once, its host, and two executions of a run of it, for the witnesses: the first
  stops after the first call is settled, the second goes on from there.\<close>

section \<open>Traces from given answers\<close>

primrec trace_of :: "'a prog \<Rightarrow> exec_state \<Rightarrow> ans list \<Rightarrow> (req \<times> ans) list" where
  "trace_of (Give a) s ys = []"
| "trace_of (Ask q k) s ys = (case ys of [] \<Rightarrow> [] | y # r \<Rightarrow> (q, y) # trace_of (k y) s r)"
| "trace_of (Local f) s ys = (case map_prod trace_of id (f s) of (t, s') \<Rightarrow> t s' ys)"

lemma trace_of_Nil [simp]: "trace_of p s [] = []"
proof (induction p arbitrary: s)
  case (Local f)
  have "trace_of (fst (f s)) t [] = []" for s t by (rule Local [of "f s"]) (auto simp: fsts.simps)
  then show ?case by (simp add: case_prod_beta fst_map_prod)
qed simp_all

lemma traced_trace_of: "traced p s (trace_of p s ys)"
proof (induction p arbitrary: s ys)
  case (Ask q k)
  show ?case by (cases ys) (auto intro: traced.intros Ask)
next
  case (Local f)
  have "traced (fst (f s)) t (trace_of (fst (f s)) t ys)" for s t ys by (rule Local [of "f s"]) (auto simp: fsts.simps)
  then show ?case by (auto simp: case_prod_beta fst_map_prod snd_map_prod intro: traced.local prod.collapse [symmetric])
qed (simp add: traced.stop)

text \<open>Evaluation: what a program does first, before what it goes on with.\<close>

lemma evaluated_first:
  "p = p' \<Longrightarrow> bindp p f = bindp p' f" "q = q' \<Longrightarrow> Ask q k = Ask q' k" "Local g = Local g"
  by simp_all

lemmas programs = execute_def execute_records_def execution_body_def save_def lift_def bindr_def record_of_def ask_def reads_def
  modifies_def now_def limited_workflow_def workflow_run_def run_list_def run_task_def enter_def recorded_def count_task_def steps_def
  args_at_def guarded_def extensions_of_def limited_def run_kind_def run_call_def host_call_def send_call_def dispatch_def ok_def
  of_result_def raise_fault_def

lemmas journals = resolve_secrets_def begin_from_def checked_journal_def with_started_def initial_state_def redact_record_def active_def kept_def
  noted_def call_entry_of_def call_journal_def bt_of_list_def bt_values_def VERSION_def

lemmas task_data = task_input_of_def conform_opt_def handler_of_def list_reference_def target_name_def call_known_def
  logical_of_def attempt_of_def context_of_def optional_duration_def child_done_def is_listen_def

section \<open>A payment\<close>

definition pay_task :: task where
  "pay_task = MkTask AtMostOnce 0 None None None None None None (KCall ''pay'' None) Null"

definition pay_workflow :: workflow where
  "pay_workflow = \<lparr>
     wf_document = \<lparr>dc_dsl = [], dc_namespace = [], dc_name = [], dc_version = [], dc_title = None, dc_summary = None\<rparr>,
     wf_input = None, wf_output = None, wf_uses = default_uses, wf_tasks = [(''t'', pay_task), (''u'', pay_task)], wf_timeout = None, wf_schedule = None,
     wf_budget = default_budget, wf_breaker = Inherit, wf_definition = Null\<rparr>"

definition pay_host :: interp where
  "pay_host = \<lparr>
     in_wf = pay_workflow, in_limits = \<lparr>lm_max_tasks = 3, lm_max_jumps = 1, lm_max_depth = 1, lm_max_attempts = 1, lm_max_sleep = None,
       lm_max_listen = None, lm_max_hold = None\<rparr>,
     in_workflow = Null, in_runtime = Null, in_schedule = None, in_max_jumps = 0, in_durable = True,
     in_secrets = \<lparr>rd_values = [], rd_texts = []\<rparr>, in_has = (\<lambda>n. n = ''pay''), in_process = (\<lambda>_. False), in_at_most_once = (\<lambda>_ _. False),
     in_unknown_outcome = (\<lambda>_ _. None), in_cooperative = (\<lambda>_. False), in_events = False, in_children = False, in_resources = None,
     in_jq = (\<lambda>_ v _. Inr v), in_text = (\<lambda>_. []), in_debug = (\<lambda>_. []), in_schema_errors = (\<lambda>_ _. Inr []),
     in_calendar = \<lparr>cal_iso8601 = (\<lambda>_. []), cal_seconds = (\<lambda>m. m), cal_rfc3339 = (\<lambda>_. []), cal_cron = (\<lambda>_ _ t. Inr t)\<rparr>,
     in_annotation_bytes = (\<lambda>_. 0), in_redact_wait = Inr, in_valid_ms = (\<lambda>_. True)\<rparr>"

definition yes :: ans where
  "yes = \<lparr>an_now = 5, an_yes = False, an_error = None, an_spent = Inr None, an_call = Inr Null, an_annotations = bt_empty,
     an_event = Inr None, an_child = Inr ([], []), an_text = [], an_turn = 0\<rparr>"

definition pay_execution :: "(string \<times> journal_record) list \<Rightarrow> outcome prog" where
  "pay_execution loaded = execute (Suc (Suc 0)) pay_host None ''r'' Null (Some 4) (Inr loaded)"

definition pay_call :: "string \<Rightarrow> call_request" where
  "pay_call reference = \<lparr>cq_target = TFunction ''pay'', cq_name = ''pay'', cq_args = Object [], cq_reference = reference,
     cq_logical = reference, cq_attempt = 1, cq_delivery = AtMostOnce, cq_input = Null, cq_durable = True\<rparr>"

definition pay_record :: "string \<Rightarrow> call_state \<Rightarrow> journal_record" where
  "pay_record reference st = Call reference ''pay'' (Object []) AtMostOnce st bt_empty"

definition pay_asks :: "(req \<times> ans) list" where
  "pay_asks = [(AskSave ''execution'' (Execution VERSION ''r'' Null Null Null 4 3 1), yes), (AskCancelled, yes), (AskCancelled, yes),
     (AskNow, yes), (AskSave ''/do/0/t#task'' (Task 5 None), yes), (AskSave ''/do/0/t#call'' (pay_record ''/do/0/t'' Pending), yes)]"

lemma pay_names: "decimal 0 = ''0''" "decimal (Suc 0) = ''1''" "function_name ''pay'' = ''pay''"
  by code_simp+

lemmas payment = pay_names pay_execution_def pay_host_def pay_workflow_def pay_task_def pay_call_def pay_record_def default_uses_def
  yes_def programs journals task_data and_then_def Let_def

text \<open>The first execution, up to the record of how its call ended.\<close>

lemma pay_trace:
  "trace_of (pay_execution []) (initial_state bt_empty) [yes, yes, yes, yes, yes, yes, yes, yes]
     = pay_asks @ [(AskDispatch (pay_call ''/do/0/t''), yes), (AskSave ''/do/0/t#call'' (pay_record ''/do/0/t'' (Done (Inr Null))), yes)]"
  by (simp add: payment pay_asks_def answered_def annotated_def check_annotations_def check_transition_def is_done_def MAX_ANNOTATIONS_def
    MAX_ANNOTATION_BYTES_def cong: evaluated_first)

text \<open>What the second one loads, and its questions up to the dispatch of the other call.\<close>

definition pay_loaded :: "(string \<times> journal_record) list" where
  "pay_loaded = [(''execution'', Execution VERSION ''r'' Null Null Null 4 3 1), (''/do/0/t#task'', Task 5 None),
     (''/do/0/t#call'', pay_record ''/do/0/t'' (Done (Inr Null)))]"

lemma pay_loaded_checked: "checked_journal pay_host (bt_of_list pay_loaded) = None"
  by code_simp

lemma pay_begun: "begin_from pay_host ''r'' Null (bt_of_list pay_loaded) = Inr (Some (4, Null))"
  by code_simp

lemma pay_restored: "restore_records \<lparr>rd_values = [], rd_texts = []\<rparr> pay_loaded = Inr pay_loaded"
  by code_simp

lemma pay_state:
  "initial_state (bt_of_list pay_loaded) = \<lparr>rs_records = bt_of_list pay_loaded, rs_tasks_run = 1, rs_jumps = 0, rs_handlers = [],
     rs_handler_failed = False, rs_exceeded = None,
     rs_calls = bt_of_list [(''/do/0/t#call'', \<lparr>ce_key = ''/do/0/t#call'', ce_function = ''pay'', ce_delivery = AtMostOnce,
       ce_state = CCompleted, ce_annotations = bt_empty\<rparr>)],
     rs_protected = 0, rs_attempts = [], rs_deadlines = bt_empty, rs_spending = None, rs_contexts = []\<rparr>"
  by code_simp

lemma pay_resumes:
  "pay_execution pay_loaded =
     (let y = with_started pay_host ''r'' Null 4 Null in
      bindp (modifies (\<lambda>_. initial_state (bt_of_list pay_loaded))) (\<lambda>_.
      bindp (execution_body (Suc (Suc 0)) y ''r'' Null 4 Null) (finish_execution y)))"
proof -
  have "resolve_secrets (in_wf pay_host) None = Inr \<lparr>rd_values = [], rd_texts = []\<rparr>"
    and "pay_host\<lparr>in_secrets := \<lparr>rd_values = [], rd_texts = []\<rparr>\<rparr> = pay_host" and "in_durable pay_host"
    by (simp_all add: resolve_secrets_def pay_host_def pay_workflow_def default_uses_def)
  moreover have "bt_get (bt_of_list pay_loaded) ''finished'' = None" by code_simp
  ultimately show ?thesis
    by (simp add: pay_execution_def execute_def and_then_def execute_records_def pay_restored pay_begun pay_loaded_checked)
qed

lemma pay_loaded_tree:
  "bt_of_list pay_loaded = bt_insert ''/do/0/t#call'' (pay_record ''/do/0/t'' (Done (Inr Null)))
     (bt_insert ''/do/0/t#task'' (Task 5 None) (bt_insert ''execution'' (Execution VERSION ''r'' Null Null Null 4 3 1) bt_empty))"
  by (simp add: pay_loaded_def bt_of_list_def)

lemmas task_ends = outcome_of_def transformed_output_def exported_def leave_def check_transition_def

definition pay_asks_on :: "(req \<times> ans) list" where
  "pay_asks_on = [(AskCancelled, yes), (AskCancelled, yes), (AskSave ''/do/0/t#task'' (Task 5 None), yes),
     (AskSave ''/do/0/t#task'' (Task 5 (Some \<lparr>tr_context = Null, tr_outcome = StepCompleted Null Continue\<rparr>)), yes),
     (AskCancelled, yes), (AskNow, yes), (AskSave ''/do/1/u#task'' (Task 5 None), yes),
     (AskSave ''/do/1/u#call'' (pay_record ''/do/1/u'' Pending), yes)]"

lemma pay_trace_on:
  "trace_of (pay_execution pay_loaded) (initial_state bt_empty) [yes, yes, yes, yes, yes, yes, yes, yes, yes]
     = pay_asks_on @ [(AskDispatch (pay_call ''/do/1/u''), yes)]"
  unfolding pay_resumes pay_state
  by (simp add: payment task_ends pay_asks_on_def pay_loaded_tree [unfolded bt_of_list_def] cong: evaluated_first)

end
