(* ===== verification/Call_Safety.thy ===== *)
theory Call_Safety
  imports Interpreter_Soundness Execution_Samples
begin

text \<open>
  What the journal of a run protects: a call is dispatched, and an event handed over, only after its intent is saved and the
  save acknowledged, with the exact bindings the host gets; and a call delivered at most once is not dispatched where the
  loaded journal has its record. Both hold of every execution of every definition, at every interleaving of its branches
  and wherever it stops, so a call delivered at most once is dispatched by one of a run's executions only.
\<close>

section \<open>The monitor of calls and events\<close>

text \<open>The record that has to be in the journal before a question is asked.\<close>

definition intent_of :: "redaction \<Rightarrow> req \<Rightarrow> (string \<times> journal_record) option" where
  "intent_of rd q =
     (case q of
        AskDispatch c \<Rightarrow> Some (cq_reference c @ ''#call'',
          redact_record rd (Call (cq_logical c) (cq_name c) (cq_args c) (cq_delivery c) Pending bt_empty))
      | AskEmit event reference lgc \<Rightarrow>
          Some (reference @ ''#call'', redact_record rd (Call lgc EMIT event AtLeastOnce Pending bt_empty))
      | _ \<Rightarrow> None)"

text \<open>Calls delivered at most once, by their key.\<close>

definition protects :: "req \<Rightarrow> string option" where
  "protects q = (case q of AskDispatch c \<Rightarrow> if cq_delivery c = AtMostOnce then Some (cq_reference c @ ''#call'') else None | _ \<Rightarrow> None)"

text \<open>\<open>K\<close>: the keys of the loaded journal. \<open>A\<close>: the records acknowledged so far.\<close>

definition may_ask :: "interp \<Rightarrow> string set \<Rightarrow> (string \<times> journal_record) set \<Rightarrow> req \<Rightarrow> bool" where
  "may_ask x K A q \<longleftrightarrow> in_durable x \<longrightarrow>
     (\<forall>i. intent_of (in_secrets x) q = Some i \<longrightarrow> i \<in> A) \<and> (\<forall>k. protects q = Some k \<longrightarrow> k \<notin> K)"

definition acked :: "(string \<times> journal_record) set \<Rightarrow> req \<Rightarrow> ans \<Rightarrow> (string \<times> journal_record) set" where
  "acked A q y = (case q of AskSave k r \<Rightarrow> if an_error y = None then insert (k, r) A else A | _ \<Rightarrow> A)"

definition holds_keys :: "string set \<Rightarrow> exec_state \<Rightarrow> bool" where
  "holds_keys K s \<longleftrightarrow> (\<forall>k \<in> K. bt_has (rs_records s) k)"

lemma acked_mono: "A \<subseteq> B \<Longrightarrow> acked A q y \<subseteq> acked B q y"
  by (auto simp: acked_def split: req.splits)

lemma may_ask_harmless: "harmless q \<Longrightarrow> may_ask x K A q"
  by (cases q) (simp_all add: harmless_def may_ask_def intent_of_def protects_def)

interpretation acks: monitor "may_ask x K" acked "holds_keys K" "(\<subseteq>)" for x K
proof
  show "may_ask x K B q" if "A \<subseteq> B" and "may_ask x K A q" for A B q
    using that unfolding may_ask_def by blast
  show "A \<subseteq> acked A q y" for A q y
    by (auto simp: acked_def split: req.splits)
qed (auto simp: acked_mono may_ask_harmless holds_keys_def)

lemma holds_kept: "holds_keys K s \<Longrightarrow> holds_keys K (kept k r s)"
  by (simp add: holds_keys_def kept_def)

lemma holds_noted: "holds_keys K s \<Longrightarrow> holds_keys K (noted k r s)"
  by (simp add: holds_keys_def noted_def split: option.split)

text \<open>After a save that succeeded, its record is acknowledged.\<close>

lemma save_acknowledges:
  "safe (save x k r) (may_ask z K) acked (holds_keys K)
     (\<lambda>v A. \<forall>u. v = Inr u \<and> in_durable x \<longrightarrow> (k, redact_record (in_secrets x) r) \<in> A) A"
  unfolding save_def record_of_def
  by (auto simp: safe_steps acked_def holds_kept holds_noted may_ask_harmless harmless_def split: option.split)

lemma dispatch_sound:
  assumes "may_ask x K A (AskDispatch q)" and "\<And>r. acks.sound x K (f r)"
  shows "acks.holds_at x K (bindr (dispatch x q) f) A"
  using assms unfolding dispatch_def acks.sound_def
  by (auto simp: safe_steps split: prod.split)

lemma send_call_sound:
  assumes "d = AtMostOnce \<and> in_durable x \<longrightarrow> reference @ ''#call'' \<notin> K"
  shows "acks.sound x K (send_call x tgt name a reference lgc d input)"
  unfolding acks.sound_def
proof
  fix A
  let ?k = "reference @ ''#call''" and ?r = "Call lgc name a d Pending bt_empty"
  have rest: "acks.holds_at x K (bindp (modifies f) (\<lambda>_. bindp (reads (attempt_of reference)) (\<lambda>attempt.
      bindr (dispatch x \<lparr>cq_target = tgt, cq_name = name, cq_args = a, cq_reference = reference, cq_logical = lgc,
        cq_attempt = attempt, cq_delivery = d, cq_input = input, cq_durable = in_durable x\<rparr>) (\<lambda>r.
      if in_durable x then answered x ?k lgc name a d reference r else answered_ephemeral ?k lgc name d reference r)))) B"
    if "in_durable x \<longrightarrow> (?k, redact_record (in_secrets x) ?r) \<in> B" and "\<And>s. rs_records (f s) = rs_records s" for f B
    unfolding safe_bindp safe_modifies safe_reads
    using assms that by (auto intro!: dispatch_sound acks.sound_answered acks.sound_answered_ephemeral
      simp: may_ask_def intent_of_def protects_def acks.keep_records holds_keys_def split: if_splits)
  show "acks.holds_at x K (send_call x tgt name a reference lgc d input) A"
    unfolding send_call_def Let_def safe_bindr
  proof (rule safe_weaken [OF save_acknowledges], split sum.split, intro conjI allI impI TrueI rest)
    show "rs_records (if d = AtMostOnce then s\<lparr>rs_protected := rs_protected s + 1\<rparr> else s) = rs_records s" for s by simp
  qed blast
qed

lemma hand_over_sound: "acks.sound x K (hand_over x (reference @ ''#call'') lgc reference event)"
  unfolding acks.sound_def
proof
  fix A
  have rest: "acks.holds_at x K (bindp (ask (AskEmit event reference lgc) f) g) B"
    if "in_durable x \<longrightarrow> (reference @ ''#call'', redact_record (in_secrets x) (Call lgc EMIT event AtLeastOnce Pending bt_empty)) \<in> B"
      and "\<And>v. acks.sound x K (g v)"
    for B and f :: "ans \<Rightarrow> bool \<times> (call_failure + unit)" and g :: "bool \<times> (call_failure + unit) \<Rightarrow> json rx"
    using that by (simp add: safe_steps may_ask_def intent_of_def protects_def acks.sound_def)
  show "acks.holds_at x K (hand_over x (reference @ ''#call'') lgc reference event) A"
    unfolding hand_over_def Let_def safe_bindr
    by (rule safe_weaken [OF save_acknowledges]) (auto simp: harmless_def split: sum.split intro!: rest sound_rules)
qed

text \<open>A call that has a record is not sent anew, unless it is delivered at least once.\<close>

lemma host_call_sound: "acks.sound x K (host_call x tgt name a reference d0 input)"
proof -
  let ?d = "if in_at_most_once x name a then AtMostOnce else d0" and ?k = "reference @ ''#call''"
  have sent: "acks.sound x K (send_call x tgt name a reference lgc ?d input)" if "?d = AtMostOnce \<longrightarrow> ?k \<notin> K" for lgc
    by (rule send_call_sound) (use that in simp)
  have absent: "?k \<notin> K" if "holds_keys K s" and "bt_get (rs_records s) ?k = None" for s
    using that by (auto simp: holds_keys_def bt_has_def)
  have "acks.gives x K (reads (\<lambda>s. (logical_of reference s, bt_get (rs_records s) ?k))) (\<lambda>(lgc, prior). prior = None \<longrightarrow> ?k \<notin> K)"
    using absent by (auto simp: acks.gives_def safe_reads)
  then show ?thesis unfolding host_call_def Let_def
    by (rule acks.gives_bindp) (intro sound_rules sent; auto)
qed

interpretation effects: interpreted "may_ask x K" acked "holds_keys K" "(\<subseteq>)" x for x K
  by unfold_locales (rule host_call_sound hand_over_sound)+

section \<open>Whole executions\<close>

inductive_cases traced_GiveE: "traced (Give a) s tr"
inductive_cases traced_AskE: "traced (Ask q k) s tr"
inductive_cases traced_LocalE: "traced (Local f) s tr"

lemma traced_Give: "traced (Give a) s tr \<longleftrightarrow> tr = []"
  by (auto elim: traced_GiveE intro: traced.stop)

lemma traced_Ask: "traced (Ask q k) s tr \<longleftrightarrow> tr = [] \<or> (\<exists>y tr'. tr = (q, y) # tr' \<and> traced (k y) s tr')"
  by (auto elim: traced_AskE intro: traced.intros)

lemma traced_reset: "traced (bindp (modifies (\<lambda>_. s0)) f) s tr \<Longrightarrow> traced (f ()) s0 tr"
  by (auto simp: modifies_def elim!: traced_LocalE intro: traced.stop)

lemma may_ask_started: "may_ask (with_started x i input t descriptor) = may_ask x"
  by (auto simp: fun_eq_iff may_ask_def with_started_def)

lemma body_accepted:
  assumes "traced (bindp (execution_body n y i input t descriptor) (finish_execution y)) (initial_state records) tr"
    and "y = with_started x i input t descriptor" and "\<forall>k \<in> K. bt_has records k"
  shows "accepted (may_ask x K) acked A tr"
proof -
  have "acks.sound y K (bindp (execution_body n y i input t descriptor) (finish_execution y))"
    by (intro acks.sound_bindp effects.sound_execution_body effects.sound_finish_execution)
  then have "acks.holds_at y K (bindp (execution_body n y i input t descriptor) (finish_execution y)) A"
    by (simp add: acks.sound_def)
  with assms(1) have "accepted (may_ask y K) acked A tr"
    by (rule safe_accepted) (use assms(3) in \<open>simp add: holds_keys_def initial_state_def\<close>)
  then show ?thesis by (simp add: assms(2) may_ask_started)
qed

lemma records_accepted:
  assumes "traced (execute_records n x i input since records) s tr" and "\<forall>k \<in> K. bt_has records k"
  shows "accepted (may_ask x K) acked A tr"
proof -
  have reset: "accepted (may_ask x K) acked B tr'"
    if "traced (bindp (modifies (\<lambda>_. initial_state records)) (\<lambda>_. bindp (execution_body n (with_started x i input t d) i input t d)
      (finish_execution (with_started x i input t d)))) s tr'" for t d B tr'
    using traced_reset [OF that] refl assms(2) by (rule body_accepted)
  have now: "may_ask x K A AskNow" by (simp add: may_ask_harmless harmless_def)
  show ?thesis
    using assms(1) unfolding execute_records_def Let_def ask_def
    by (auto simp: traced_Give traced_Ask now intro: reset
      split: sum.splits option.splits prod.splits journal_record.splits if_splits)
qed

lemma restore_keys: "restore_records rd rs = Inr vs \<Longrightarrow> map fst vs = map fst rs"
  by (induction rs arbitrary: vs rule: restore_records.induct) (auto simp: and_then_def split: sum.splits)

lemma execute_accepted:
  assumes "traced (execute n x store i input since (Inr rs)) s tr" and "in_durable x" and "resolve_secrets (in_wf x) store = Inr rd"
  shows "accepted (may_ask (x\<lparr>in_secrets := rd\<rparr>) (fst ` set rs)) acked A tr"
proof (cases "restore_records rd rs")
  case (Inl e)
  then show ?thesis using assms by (simp add: execute_def and_then_def traced_Give)
next
  case (Inr vs)
  then have "traced (execute_records n (x\<lparr>in_secrets := rd\<rparr>) i input since (bt_of_list vs)) s tr"
    using assms by (simp add: execute_def and_then_def)
  moreover have "\<forall>k \<in> fst ` set rs. bt_has (bt_of_list vs) k"
    using restore_keys [OF Inr] by (metis bt_of_list_has list.set_map)
  ultimately show ?thesis by (rule records_accepted)
qed

section \<open>What a trace holds\<close>

definition saved :: "(req \<times> ans) list \<Rightarrow> (string \<times> journal_record) set" where
  "saved tr = {(k, r). \<exists>y. (AskSave k r, y) \<in> set tr \<and> an_error y = None}"

lemma acked_saved: "acked (A \<union> saved tr) q y = A \<union> saved (tr @ [(q, y)])"
  by (auto simp: acked_def saved_def split: req.splits)

lemma accepted_at:
  assumes "accepted chk acked A (before @ (q, y) # rest)"
  shows "chk (A \<union> saved before) q"
  using assms
proof (induction before arbitrary: A)
  case (Cons e before)
  obtain q' y' where e: "e = (q', y')" by (cases e)
  have "acked A q' y' \<union> saved before = A \<union> saved (e # before)"
    using acked_saved [of A "[]" q' y'] by (auto simp: e saved_def)
  then show ?case using Cons.IH [of "acked A q' y'"] Cons.prems by (simp add: e)
qed (simp add: saved_def)

lemma executed_ask:
  assumes "traced (execute n x store i input since loaded) s (before @ (q, y) # rest)" and "in_durable x"
  obtains rd rs where "resolve_secrets (in_wf x) store = Inr rd" and "loaded = Inr rs"
    and "may_ask (x\<lparr>in_secrets := rd\<rparr>) (fst ` set rs) (saved before) q"
proof -
  have "\<not> traced (Give v) s (before @ (q, y) # rest)" for v :: outcome by (simp add: traced_Give)
  then obtain rd rs where R: "resolve_secrets (in_wf x) store = Inr rd" "loaded = Inr rs"
    using assms by (auto simp: execute_def and_then_def split: sum.splits)
  have "accepted (may_ask (x\<lparr>in_secrets := rd\<rparr>) (fst ` set rs)) acked {} (before @ (q, y) # rest)"
    using execute_accepted [OF _ assms(2) R(1)] assms(1) R(2) by simp
  then show thesis using accepted_at R that by (metis sup_bot_left)
qed

section \<open>Properties\<close>

text \<open>
  C4. A durable execution, of any definition and at any interleaving of its branches, dispatches a call or hands over an event
  only after the journal acknowledged the record of its intent: pending, under the call's key, with the bindings the host
  gets, its secrets redacted.
\<close>

theorem intent_before_effect:
  assumes "traced (execute n x store run_id input since loaded) s (before @ (q, y) # rest)" and "in_durable x"
    and "resolve_secrets (in_wf x) store = Inr rd" and "intent_of rd q = Some (k, r)"
  shows "\<exists>z. (AskSave k r, z) \<in> set before \<and> an_error z = None"
proof -
  have "(k, r) \<in> saved before"
    using assms(3,4) by (rule_tac executed_ask [OF assms(1,2)]) (simp add: may_ask_def assms(2))
  then show ?thesis by (simp add: saved_def)
qed

lemma pay_executes: "traced (execute (Suc (Suc 0)) pay_host None ''r'' Null (Some 4) (Inr [])) (initial_state bt_empty)
    (pay_asks @ [(AskDispatch (pay_call ''/do/0/t''), yes), (AskSave ''/do/0/t#call'' (pay_record ''/do/0/t'' (Done (Inr Null))), yes)])"
  unfolding pay_trace [symmetric] pay_execution_def by (rule traced_trace_of)

lemma pay_goes_on: "traced (execute (Suc (Suc 0)) pay_host None ''r'' Null (Some 4) (Inr pay_loaded)) (initial_state bt_empty)
    (pay_asks_on @ [(AskDispatch (pay_call ''/do/1/u''), yes)])"
  unfolding pay_trace_on [symmetric] pay_execution_def by (rule traced_trace_of)

lemma pay_secrets: "in_durable pay_host" "resolve_secrets (in_wf pay_host) None = Inr \<lparr>rd_values = [], rd_texts = []\<rparr>"
  by (simp_all add: resolve_secrets_def pay_host_def pay_workflow_def default_uses_def)

theorem intent_before_effect_witness:
  "\<exists>z. (AskSave ''/do/0/t#call'' (pay_record ''/do/0/t'' Pending), z) \<in> set pay_asks \<and> an_error z = None"
proof (rule intent_before_effect [OF pay_executes pay_secrets])
  show "intent_of \<lparr>rd_values = [], rd_texts = []\<rparr> (AskDispatch (pay_call ''/do/0/t'')) =
      Some (''/do/0/t#call'', pay_record ''/do/0/t'' Pending)"
    by (simp add: intent_of_def pay_call_def pay_record_def redact_record_def active_def)
qed

text \<open>
  C5. Where a later execution loads every record an earlier one of the run had acknowledged, it dispatches no call at most once
  at a reference where the earlier one dispatched a call, wherever either of them stopped.
\<close>

theorem at_most_once_across_executions:
  assumes "traced (execute n x store run_id input since loaded) s tr" and "in_durable x" and "(AskDispatch c, y) \<in> set tr"
    and "traced (execute n' x' store' run_id input' since' (Inr loaded')) s' tr'" and "in_durable x'"
    and "fst ` saved tr \<subseteq> fst ` set loaded'"
    and "(AskDispatch c', y') \<in> set tr'" and "cq_delivery c' = AtMostOnce"
  shows "cq_reference c' \<noteq> cq_reference c"
proof -
  obtain before rest where tr: "tr = before @ (AskDispatch c, y) # rest" using assms(3) by (meson split_list)
  obtain r where "(cq_reference c @ ''#call'', r) \<in> saved before"
    by (rule executed_ask [OF assms(1) [unfolded tr] assms(2)]) (auto simp: may_ask_def intent_of_def assms(2))
  moreover have "saved before \<subseteq> saved tr" by (auto simp: tr saved_def)
  ultimately have "cq_reference c @ ''#call'' \<in> fst ` set loaded'" using assms(6) by force
  moreover obtain before' rest' where tr': "tr' = before' @ (AskDispatch c', y') # rest'" using assms(7) by (meson split_list)
  have "cq_reference c' @ ''#call'' \<notin> fst ` set loaded'"
    by (rule executed_ask [OF assms(4) [unfolded tr'] assms(5)]) (auto simp: may_ask_def protects_def assms(5,8))
  ultimately show ?thesis by metis
qed

theorem at_most_once_across_executions_witness:
  "cq_reference (pay_call ''/do/1/u'') \<noteq> cq_reference (pay_call ''/do/0/t'')"
proof (rule at_most_once_across_executions [where y = yes and y' = yes, OF pay_executes pay_secrets(1) _ pay_goes_on pay_secrets(1)])
  show "fst ` saved (pay_asks @ [(AskDispatch (pay_call ''/do/0/t''), yes),
      (AskSave ''/do/0/t#call'' (pay_record ''/do/0/t'' (Done (Inr Null))), yes)]) \<subseteq> fst ` set pay_loaded"
    by (auto simp: saved_def pay_asks_def pay_loaded_def)
qed (simp_all add: pay_call_def)

end
