(* ===== verification/Interpreter_Rules.thy ===== *)
theory Interpreter_Rules
  imports Execution_Samples
begin

text \<open>
  How the interpreter goes on from its journal and ends its waits: a finished task is restored without running again, a retry
  stays within its policy and the host's ceiling, and a timeout of a \<^verbatim>\<open>for\<close> task does not see the calls of its iterations.
\<close>

section \<open>Execution of programs\<close>

lemma exec_bindp: "exec (bindp p f) world s w = (case exec p world s w of (a, s', w') \<Rightarrow> exec (f a) world s' w')"
proof (induction p arbitrary: s w)
  case (Ask q k)
  then show ?case by (auto split: prod.split)
next
  case (Local g)
  have "exec (bindp (fst (g s)) f) world t w = (case exec (fst (g s)) world t w of (a, s', w') \<Rightarrow> exec (f a) world s' w')" for s t w
    by (rule Local [of "g s"]) (auto simp: fsts.simps)
  then show ?case by (simp add: case_prod_beta fst_map_prod snd_map_prod)
qed simp

lemma exec_reads: "exec (reads f) world s w = (f s, s, w)"
  by (simp add: reads_def)

lemma exec_modifies: "exec (modifies f) world s w = ((), f s, w)"
  by (simp add: modifies_def)

lemma exec_ask: "exec (ask q f) world s w = (case world w q of (y, w') \<Rightarrow> (f y, s, w'))"
  by (simp add: ask_def split: prod.split)

lemma exec_gives: "exec (raise_fault f) world s w = (Inl f, s, w)" "exec (ok a) world s w = (Inr a, s, w)"
  by (simp_all add: raise_fault_def ok_def)

lemmas exec_steps = exec_bindp exec_reads exec_modifies exec_ask exec_gives

section \<open>Tasks restored from the journal\<close>

lemma enter_handler_outside: "handler_of reference hs = None \<Longrightarrow> enter_handler reference hs = hs"
  by (induction reference hs rule: enter_handler.induct) (auto simp: handler_of_def split: if_splits)


definition pay_done :: task_result where
  "pay_done = \<lparr>tr_context = Null, tr_outcome = StepCompleted (Bool True) Continue\<rparr>"


section \<open>Retries\<close>

lemma granted_delay: "(if c then Inr None else m) = Inr (Some d) \<longleftrightarrow> \<not> c \<and> m = Inr (Some d)"
  by simp

lemma jittered_fits: "jittered x j (min n DURATION_MAX) input a = Inr d \<Longrightarrow> d \<le> DURATION_MAX"
  by (cases j) (auto simp: jittered_def and_then_Inr add_durations_def split: if_splits)


definition pay_retry :: retry where
  "pay_retry = \<lparr>rt_when = None, rt_except_when = None, rt_delay = Some (Fixed 3), rt_backoff = Linear, rt_attempts = Some 3,
     rt_attempt_duration = None, rt_duration = Some (Fixed 20), rt_jitter = None\<rparr>"


section \<open>Timeouts over pending calls\<close>

lemma has_unknown_iff:
  "has_unknown reference s \<longleftrightarrow> (\<exists>k l f b ann. bt_get (rs_records s) k = Some (Call l f b AtMostOnce Pending ann)
     \<and> (k = reference @ ''#call'' \<or> starts_with (reference @ ''/'') k))"
proof -
  have pending: "(case r of Call _ _ _ AtMostOnce Pending _ \<Rightarrow> True | _ \<Rightarrow> False) \<longleftrightarrow> (\<exists>l f b ann. r = Call l f b AtMostOnce Pending ann)"
    for r by (cases r) (auto split: delivery.splits call_state.splits)
  show ?thesis unfolding has_unknown_def list_ex_iff pending bt_get_iff_entry Bex_def case_prod_beta
    by (metis fst_conv prod.collapse snd_conv)
qed

text \<open>
  C39. A \<^verbatim>\<open>for\<close> task that times out while calls delivered at most once are pending in its iterations ends with a timeout error,
  which a \<^verbatim>\<open>catch\<close> may handle and retry; the unknown outcome of the calls, a fatal error, is not raised, as the keys of an
  iteration do not extend the key of the task by a slash.
\<close>

theorem for_timeout_hides_unknown:
  assumes "tk_kind task = KFor each at items cond conc ts"
    and "exec (remaining x d started) world s w = (left, s1, w1)"
    and "exec (timed (body None)) world s1 w1 = (None, s2, w2)"
    and "\<forall>k l f b ann. bt_get (rs_records s2) k = Some (Call l f b AtMostOnce Pending ann) \<longrightarrow>
      (\<exists>i rest. k = iteration_reference reference i @ rest)"
  shows "fst (exec (limited x task reference (Some d) started body) world s w) =
    Inl (Error (timeout_error (reference @ '' did not finish within '' @ in_debug x d)))"
proof -
  have "\<not> has_unknown reference (s2\<lparr>rs_deadlines := dl, rs_spending := sp\<rparr>)" for dl sp
  proof
    assume "has_unknown reference (s2\<lparr>rs_deadlines := dl, rs_spending := sp\<rparr>)"
    then obtain k l f b ann where "bt_get (rs_records s2) k = Some (Call l f b AtMostOnce Pending ann)"
      and k: "k = reference @ ''#call'' \<or> starts_with (reference @ ''/'') k"
      by (auto simp: has_unknown_iff)
    then obtain i rest where "k = reference @ CHR ''['' # decimal i @ '']/do'' @ rest"
      using assms(4) by (fastforce simp: iteration_reference_def)
    then show False using k by (auto simp: starts_with_def strip_prefix_def)
  qed
  then show ?thesis using assms(1-3)
    by (simp add: limited_def exec_steps child_done_def is_listen_def cut_off_def dropped_def Let_def)
qed

definition batch_task :: task where
  "batch_task = MkTask AtLeastOnce 0 None None None None (Some (Fixed 2)) None
     (KFor ''each'' ''at'' (Inline [Null]) None None [(''pay'', pay_task)]) Null"

definition batch_state :: exec_state where
  "batch_state = (initial_state bt_empty)
     \<lparr>rs_records := bt_insert (iteration_reference ''/do/0/all'' 0 @ ''/0/pay#call'') (pay_record [] Pending) bt_empty\<rparr>"

text \<open>The timer fires while the call of the first iteration is out.\<close>

theorem for_timeout_hides_unknown_witness:
  "fst (exec (limited pay_host batch_task ''/do/0/all'' (Some 2) 4 (\<lambda>_. Ask (AskDispatch (pay_call [])) (\<lambda>_. ok (Null, None))))
      (\<lambda>_ _. (yes\<lparr>an_yes := True\<rparr>, ())) batch_state ())
    = Inl (Error (timeout_error (''/do/0/all'' @ '' did not finish within '' @ in_debug pay_host 2)))"
proof (rule for_timeout_hides_unknown)
  let ?world = "\<lambda>_ _. (yes\<lparr>an_yes := True\<rparr>, ())"
  show "tk_kind batch_task = KFor ''each'' ''at'' (Inline [Null]) None None [(''pay'', pay_task)]"
    by (simp add: batch_task_def)
  show "exec (remaining pay_host 2 4) ?world batch_state () = (fst (exec (remaining pay_host 2 4) ?world batch_state ()), batch_state, ())"
    by (simp add: remaining_def Let_def pay_host_def now_def lift_def bindr_def exec_steps yes_def)
  show "exec (timed (Ask (AskDispatch (pay_call [])) (\<lambda>_. ok (Null, None)))) ?world batch_state () = (None, batch_state, ())"
    by simp
  show "\<forall>k l f b ann. bt_get (rs_records batch_state) k = Some (Call l f b AtMostOnce Pending ann) \<longrightarrow>
      (\<exists>i rest. k = iteration_reference ''/do/0/all'' i @ rest)"
    by (auto simp: batch_state_def split: if_splits)
qed

end
