(* ===== verification/Spec2Isabelle.thy ===== *)
theory Spec2Isabelle
  imports Memory_Backend Due_Runs Step_Replay Command_Safety Tree_Endings Event_Identity Firing_Rules
    Redaction_Rules Parsed_Shape Start_Check Schedule_Rules
    Call_Safety Interpreter_Rules
begin

text \<open>
  Verification of ouro, a durable engine for workflows of the Open Workflow Specification. Three crates under \<^verbatim>\<open>src/crates\<close>:
  \<^verbatim>\<open>ows\<close> parses, validates and interprets a definition; \<^verbatim>\<open>durable\<close> keeps runs, journals, events, definitions and triggers in a
  transactional row store; \<^verbatim>\<open>runtime\<close> admits runs from definitions, fires schedules and drives workers. A run is admitted into the
  store, claimed under a lease by a worker, and interpreted; the interpreter saves a record of every decision in the
  run's journal through the store, each save under the worker's fence, so that another worker may go on from the records.

  \<^bold>\<open>How the code is modelled.\<close>

  \<^item> Rust data are records and datatypes with the source's constructors; \<^verbatim>\<open>BTreeMap\<close> is the type of key-sorted
    association lists of \<^verbatim>\<open>Prelude\<close>; \<^verbatim>\<open>u64\<close>, \<^verbatim>\<open>i64\<close> and \<^verbatim>\<open>u32\<close> are \<open>nat\<close> and \<open>int\<close> with their saturating and checked operations written
    out, and words where the code works on bits (key encodings, the digest of an event). \<^verbatim>\<open>Json\<close> has \<^verbatim>\<open>serde_json\<close>'s values.
  \<^item> An operation of the store is a program of reads, scans, writes and deletes over rows (\<^verbatim>\<open>Transaction\<close>); its atomic meaning is
    what one commit does. Errors are values. An operation of the runtime is a sequence of such commits, with what other
    processes commit in between as a parameter (\<^verbatim>\<open>Admitter\<close>).
  \<^item> An execution of the interpreter is a program of questions to the world (\<^verbatim>\<open>Run_Programs\<close>): the clock, a save, a call, an
    event, a sleep. Between two questions it reads and writes the state its branches share. Branches take turns at
    questions in any order, and a timeout may drop one at any question, before or after the world acted on it.
  \<^item> jq, JSON Schema, cron and the calendar, SHA-256, UUIDs, serde's text and sizes, and a host's functions are arguments of the
    definitions that use them.

  \<^bold>\<open>Theories and sources.\<close>

  \<^item> \<^verbatim>\<open>durable/src/backend.rs\<close>, \<^verbatim>\<open>memory.rs\<close>: \<^verbatim>\<open>Transaction\<close>, \<^verbatim>\<open>Memory_Backend\<close> (optimistic transactions and their commit).
  \<^item> \<^verbatim>\<open>durable/src/lib.rs\<close>, \<^verbatim>\<open>control.rs\<close>, \<^verbatim>\<open>engine.rs\<close>: \<^verbatim>\<open>Store_Types\<close> (data), \<^verbatim>\<open>Keys\<close> and \<^verbatim>\<open>Run_Index\<close> (row keys, the run row and its index
    rows), \<^verbatim>\<open>Mailbox\<close>, \<^verbatim>\<open>Catalog\<close> (definitions, trips), \<^verbatim>\<open>Admissions\<close>, \<^verbatim>\<open>Queues\<close>, \<^verbatim>\<open>Leases\<close> (claims, fenced steps, due runs, retention),
    \<^verbatim>\<open>Lifecycle\<close> (endings, children), \<^verbatim>\<open>Triggers\<close> (firings), \<^verbatim>\<open>Control\<close> (operator commands and queries).
  \<^item> \<^verbatim>\<open>ows/src/durable.rs\<close>, \<^verbatim>\<open>events.rs\<close>, \<^verbatim>\<open>expr.rs\<close>, \<^verbatim>\<open>secrets.rs\<close>: \<^verbatim>\<open>Journal\<close>, \<^verbatim>\<open>Listen\<close>, \<^verbatim>\<open>Cloud_Events\<close>, \<^verbatim>\<open>Secrets\<close>.
  \<^item> \<^verbatim>\<open>ows/src/model.rs\<close>: \<^verbatim>\<open>Dsl\<close> (data), \<^verbatim>\<open>Iso_Duration\<close>, \<^verbatim>\<open>Definition_Parser\<close>, \<^verbatim>\<open>Task_Parser\<close>, \<^verbatim>\<open>Workflow_Parser\<close>, \<^verbatim>\<open>Flow_Graph\<close>, \<^verbatim>\<open>Validator\<close>.
  \<^item> \<^verbatim>\<open>ows/src/run.rs\<close>: \<^verbatim>\<open>Workflow_Errors\<close> (section 2), \<^verbatim>\<open>Run_Programs\<close>, \<^verbatim>\<open>Interpreter_Base\<close> (the bookkeeping of \<^verbatim>\<open>struct Run\<close>), \<^verbatim>\<open>Interpreter\<close> (lists,
    tasks, kinds, calls, forks, listens, emits, child runs, tries) and \<^verbatim>\<open>Executions\<close> (\<^verbatim>\<open>execute\<close> and \<^verbatim>\<open>workflow\<close>).
  \<^item> \<^verbatim>\<open>runtime/src/registry.rs\<close>, \<^verbatim>\<open>capabilities.rs\<close>, \<^verbatim>\<open>execution.rs\<close>, \<^verbatim>\<open>schedule.rs\<close>: \<^verbatim>\<open>Registry\<close> (functions, bindings, the start check),
    \<^verbatim>\<open>Admitter\<close>, \<^verbatim>\<open>Schedules\<close>.

  \<^bold>\<open>What the theorems show.\<close>

  \<^item> Transactions: a committed memory transaction is the atomic run of its program (\<^verbatim>\<open>Memory_Backend\<close>).
  \<^item> The store: \<^verbatim>\<open>Store_Invariant\<close>, \<^verbatim>\<open>Run_Evolution\<close>, \<^verbatim>\<open>Store_Evolution\<close>, \<^verbatim>\<open>Store_Steps\<close>, \<^verbatim>\<open>Run_Endings\<close> and \<^verbatim>\<open>Store_Commands\<close> show of every operation that it
    keeps the index rows exact and the run rows consistent and lets runs only evolve; \<^verbatim>\<open>Store_Machine\<close> is the step relation of
    all operations and what holds in every reachable state. \<^verbatim>\<open>Index_Lookup\<close> has the locale of an index partition, interpreted
    on the seven partitions; \<^verbatim>\<open>Frames\<close> says which families of rows an operation may write.
  \<^item> On these: leases exclude each other and old fences stay refused (\<^verbatim>\<open>Lease_Safety\<close>), the journal only advances and results
    are final (\<^verbatim>\<open>Journal_Safety\<close>), repeated steps and events change nothing (\<^verbatim>\<open>Step_Replay\<close>, \<^verbatim>\<open>Event_Identity\<close>), endings take the whole
    tree and end (\<^verbatim>\<open>Cascade\<close>, \<^verbatim>\<open>Tree_Endings\<close>), workers see due runs in order (\<^verbatim>\<open>Due_Runs\<close>), commands apply once and stops hold
    (\<^verbatim>\<open>Command_Safety\<close>), the breaker and firings count exactly (\<^verbatim>\<open>Breaker_Rules\<close>, \<^verbatim>\<open>Firing_Rules\<close>), slots are exact and stale triggers
    fire nothing (\<^verbatim>\<open>Schedule_Rules\<close>).
  \<^item> Definitions: the parser has enough fuel and its results have a shape (\<^verbatim>\<open>Parser_Rules\<close>, \<^verbatim>\<open>Parsed_Shape\<close>), the cycle check is exact
    (\<^verbatim>\<open>Flow_Rules\<close>), validation means what it says for every task (\<^verbatim>\<open>Validation_Rules\<close>), redaction hides and restores
    (\<^verbatim>\<open>Redaction_Rules\<close>), the start check is exact and its cache transparent (\<^verbatim>\<open>Start_Check\<close>).
  \<^item> The interpreter: \<^verbatim>\<open>Effect_Monitor\<close> has the locale of a monitor over the questions of an execution and its rules for branches
    and timeouts, \<^verbatim>\<open>Interpreter_Soundness\<close> extends it by what the interpreter relies on and shows all constructs sound,
    \<^verbatim>\<open>Call_Safety\<close> interprets both on the monitor of calls: no call or event without its saved intent, and no at-most-once call
    dispatched by two executions of a run. \<^verbatim>\<open>Interpreter_Rules\<close> has the replay of recorded tasks, the limits of retries and
    a timeout that misses pending calls.
  \<^item> \<^verbatim>\<open>Samples\<close>, \<^verbatim>\<open>Schedule_Samples\<close> and \<^verbatim>\<open>Execution_Samples\<close> hold the concrete stores, hosts and executions the witnesses evaluate, \<^verbatim>\<open>Evaluation\<close>
    code equations for them.

  \<^bold>\<open>Fuel and bounds.\<close> The cascade of an ending takes fuel, and any fuel above the number of live runs is enough in
  every reachable state. The task parser takes the depth of its value, which is enough. The search of the flow graph and the
  start check run on the number of tasks and of definitions left, which bound them. The offer of an event to a
  trigger that others move meanwhile is repeated sixteen times at most, as in the code. The interpreter may loop for ever (a \<^verbatim>\<open>then\<close> cycle within a large
  budget, a \<^verbatim>\<open>listen\<close>); its fuel bounds the depth of tasks, the passes of a list, attempts and events, its end is a fault of
  its own, and the theorems on executions are safety statements that hold for every fuel.

  \<^bold>\<open>Not modelled.\<close> The SQLite and Postgres adapters (SQL through a driver; what they promise is the atomic meaning of a
  program), the conformance suite (tests), the retry loop and metrics of the backend; observers, spans, telemetry and test
  support (reports only); worker loops, handler tasks and the control service of the runtime (concurrency of the process
  over operations that are modelled); listings and inspection of the control interface beyond those in \<^verbatim>\<open>Control\<close>.
\<close>

end
